(* ===== verification/Prelude.thy ===== *)
theory Prelude
  imports Complex_Main "HOL-Library.Product_Lexorder" "HOL-Library.AList" "HOL-Library.List_Lexorder" "HOL-Library.Char_ord"
begin

text \<open>
  The vocabulary every component shares: the typed failure \<^verbatim>\<open>Problem\<close> of
  \<^verbatim>\<open>src/ptest/contracts.py\<close>, the string operations of the Python standard library the
  sources use (\<^verbatim>\<open>str.split\<close>, \<^verbatim>\<open>str.join\<close>, \<^verbatim>\<open>str.startswith\<close>, decimal
  rendering), \<^verbatim>\<open>sorted(set(xs))\<close>, and generic facts about lists.
  Python strings are character lists, Python integers are \<open>int\<close>, and a finite Python
  float is the rational number it denotes (\<open>rat\<close>).
\<close>

named_theorems row_simps \<open>what an operation leaves unchanged in a job row\<close>
named_theorems ledger_simps \<open>effects of the ledger statements on its tables\<close>

section \<open>Problems\<close>

text \<open>\<^verbatim>\<open>contracts.Problem\<close>: a typed failure with a stable machine code.\<close>

record problem =
  p_code :: string
  p_message :: string
  p_phase :: string
  p_retryable :: bool

definition mk_problem :: "string \<Rightarrow> string \<Rightarrow> string \<Rightarrow> bool \<Rightarrow> problem" where
  "mk_problem code message phase retryable =
     \<lparr>p_code = code, p_message = message, p_phase = phase, p_retryable = retryable\<rparr>"

section \<open>Decoded documents\<close>

text \<open>What \<^verbatim>\<open>tomllib.loads\<close> returns; \<open>TOther\<close> stands for floats and dates.\<close>

datatype toml =
  TInt int | TBool bool | TStr string | TOther | TArr "toml list" | TTable "(string \<times> toml) list"

section \<open>Strings\<close>

definition starts_with :: "string \<Rightarrow> string \<Rightarrow> bool" where
  "starts_with p s \<longleftrightarrow> take (length p) s = p"

definition ends_with :: "string \<Rightarrow> string \<Rightarrow> bool" where
  "ends_with p s \<longleftrightarrow> length p \<le> length s \<and> drop (length s - length p) s = p"

text \<open>\<^verbatim>\<open>s.split(c)\<close> for a one-character separator: never the empty list.\<close>

fun split_on :: "char \<Rightarrow> string \<Rightarrow> string list" where
  "split_on c [] = [[]]"
| "split_on c (x # xs) =
     (if x = c then [] # split_on c xs
      else (case split_on c xs of [] \<Rightarrow> [[x]] | p # ps \<Rightarrow> (x # p) # ps))"

fun join_with :: "string \<Rightarrow> string list \<Rightarrow> string" where
  "join_with sep [] = []"
| "join_with sep [x] = x"
| "join_with sep (x # y # ys) = x @ sep @ join_with sep (y # ys)"

definition digit_char :: "nat \<Rightarrow> char" where
  "digit_char d = char_of (48 + d)"

fun str_nat :: "nat \<Rightarrow> string" where
  "str_nat n = (if n < 10 then [digit_char n] else str_nat (n div 10) @ [digit_char (n mod 10)])"

declare str_nat.simps [simp del]

definition str_int :: "int \<Rightarrow> string" where
  "str_int i = (if i < 0 then ''-'' @ str_nat (nat (- i)) else str_nat (nat i))"

definition is_hex_lower :: "char \<Rightarrow> bool" where
  "is_hex_lower c \<longleftrightarrow> c \<in> set ''0123456789abcdef''"

text \<open>A string of exactly \<open>n\<close> lowercase hexadecimal digits.\<close>

definition hex_id :: "nat \<Rightarrow> string \<Rightarrow> bool" where
  "hex_id n s \<longleftrightarrow> length s = n \<and> list_all is_hex_lower s"

text \<open>
  \<^verbatim>\<open>str.splitlines\<close>, \<^verbatim>\<open>str.split()\<close>, \<^verbatim>\<open>str.strip()\<close> and
  \<^verbatim>\<open>int(s)\<close> on ASCII text (\<open>None\<close>: \<^verbatim>\<open>ValueError\<close>).
\<close>

definition char_code :: "char \<Rightarrow> nat" where
  "char_code c = of_char c"

definition line_break :: "char \<Rightarrow> bool" where
  "line_break c \<longleftrightarrow> char_code c \<in> {10, 11, 12, 13, 28, 29, 30}"

definition is_space :: "char \<Rightarrow> bool" where
  "is_space c \<longleftrightarrow> char_code c \<in> {9, 10, 11, 12, 13, 28, 29, 30, 31, 32}"

fun lines_from :: "string \<Rightarrow> string \<Rightarrow> string list" where
  "lines_from acc [] = (if acc = [] then [] else [rev acc])"
| "lines_from acc (x # xs) =
     (if char_code x = 13 \<and> xs \<noteq> [] \<and> char_code (hd xs) = 10
      then lines_from (x # acc) xs
      else if line_break x
      then (case acc of
              [] \<Rightarrow> [] # lines_from [] xs
            | a # as \<Rightarrow> rev (if char_code x = 10 \<and> char_code a = 13 then as else acc) # lines_from [] xs)
      else lines_from (x # acc) xs)"

definition split_lines :: "string \<Rightarrow> string list" where
  "split_lines s = lines_from [] s"

definition strip :: "string \<Rightarrow> string" where
  "strip s = rev (dropWhile is_space (rev (dropWhile is_space s)))"

fun words_from :: "string \<Rightarrow> string \<Rightarrow> string list" where
  "words_from acc [] = (if acc = [] then [] else [rev acc])"
| "words_from acc (x # xs) =
     (if is_space x then (if acc = [] then words_from [] xs else rev acc # words_from [] xs)
      else words_from (x # acc) xs)"

definition split_words :: "string \<Rightarrow> string list" where
  "split_words s = words_from [] s"

definition digit_of :: "char \<Rightarrow> int option" where
  "digit_of c = (if 48 \<le> char_code c \<and> char_code c \<le> 57 then Some (int (char_code c) - 48) else None)"

text \<open>The digits of an integer literal; one underscore may stand between two digits.\<close>

fun digits_value :: "int \<Rightarrow> string \<Rightarrow> int option" where
  "digits_value v [] = Some v"
| "digits_value v (x # xs) =
     (case digit_of x of
        Some k \<Rightarrow> digits_value (10 * v + k) xs
      | None \<Rightarrow>
          (if x = CHR ''_'' then
             (case xs of
                [] \<Rightarrow> None
              | y # ys \<Rightarrow> (case digit_of y of None \<Rightarrow> None | Some k \<Rightarrow> digits_value (10 * v + k) ys))
           else None))"

definition unsigned_value :: "string \<Rightarrow> int option" where
  "unsigned_value s =
     (case s of
        [] \<Rightarrow> None
      | x # xs \<Rightarrow> (case digit_of x of None \<Rightarrow> None | Some k \<Rightarrow> digits_value k xs))"

definition py_int :: "string \<Rightarrow> int option" where
  "py_int s =
     (case strip s of
        [] \<Rightarrow> None
      | x # xs \<Rightarrow>
          (if x = CHR ''-'' then map_option uminus (unsigned_value xs)
           else if x = CHR ''+'' then unsigned_value xs
           else unsigned_value (x # xs)))"

text \<open>
  Text beyond ASCII is its UTF-8 bytes; \<open>utf8_valid\<close> is whether a strict decoding succeeds.
\<close>

definition between :: "nat \<Rightarrow> nat \<Rightarrow> char \<Rightarrow> bool" where
  "between lo hi c \<longleftrightarrow> lo \<le> char_code c \<and> char_code c \<le> hi"

fun utf8_valid :: "string \<Rightarrow> bool" where
  "utf8_valid [] = True"
| "utf8_valid (a # rest) =
     (if char_code a < 128 then utf8_valid rest
      else (case rest of
              [] \<Rightarrow> False
            | b # rest2 \<Rightarrow>
                (if between 194 223 a then between 128 191 b \<and> utf8_valid rest2
                 else (case rest2 of
                         [] \<Rightarrow> False
                       | c # rest3 \<Rightarrow>
                           (if between 224 239 a
                            then between (if char_code a = 224 then 160 else 128) (if char_code a = 237 then 159 else 191) b
                                 \<and> between 128 191 c \<and> utf8_valid rest3
                            else (case rest3 of
                                    [] \<Rightarrow> False
                                  | d # rest4 \<Rightarrow>
                                      between 240 244 a
                                      \<and> between (if char_code a = 240 then 144 else 128) (if char_code a = 244 then 143 else 191) b
                                      \<and> between 128 191 c \<and> between 128 191 d \<and> utf8_valid rest4))))))"

text \<open>\<^verbatim>\<open>sorted(set(xs))\<close>.\<close>

definition sorted_set :: "'a::linorder list \<Rightarrow> 'a list" where
  "sorted_set xs = sort (remdups xs)"

lemma set_sorted_set [simp]: "set (sorted_set xs) = set xs"
  by (simp add: sorted_set_def)

lemma sorted_sorted_set [simp]: "sorted (sorted_set xs)"
  by (simp add: sorted_set_def)

lemma distinct_sorted_set [simp]: "distinct (sorted_set xs)"
  by (simp add: sorted_set_def)

lemma starts_with_iff: "starts_with p s \<longleftrightarrow> (\<exists>r. s = p @ r)"
  by (auto simp: starts_with_def) (metis append_take_drop_id)

lemma starts_with_append [simp]: "starts_with p (p @ r)"
  by (simp add: starts_with_def)

lemma ends_with_iff: "ends_with p s \<longleftrightarrow> (\<exists>r. s = r @ p)"
  by (auto simp: ends_with_def) (metis append_take_drop_id)

lemma split_on_ne [simp]: "split_on c s \<noteq> []"
  by (induction s) (auto split: list.splits)

lemma split_on_no_sep: "p \<in> set (split_on c s) \<Longrightarrow> c \<notin> set p"
  by (induction s arbitrary: p) (auto split: if_splits list.splits)

lemma join_split [simp]: "join_with [c] (split_on c s) = s"
proof (induction s)
  case (Cons x xs)
  obtain p ps where "split_on c xs = p # ps"
    by (cases "split_on c xs") auto
  with Cons show ?case
    by (cases ps) auto
qed simp

lemma split_on_free: "c \<notin> set s \<Longrightarrow> split_on c s = [s]"
  by (induction s) auto

lemma split_on_append: "c \<notin> set p \<Longrightarrow> split_on c (p @ c # r) = p # split_on c r"
  by (induction p) auto

lemma split_join:
  "xs \<noteq> [] \<Longrightarrow> \<forall>x\<in>set xs. c \<notin> set x \<Longrightarrow> split_on c (join_with [c] xs) = xs"
proof (induction xs)
  case (Cons x xs)
  then show ?case
    by (cases xs) (auto simp: split_on_free split_on_append)
qed simp

lemma join_with_cons: "xs \<noteq> [] \<Longrightarrow> join_with s (x # xs) = x @ s @ join_with s xs"
  by (cases xs) auto

section \<open>Lists\<close>

lemma find_Some_in: "find P xs = Some x \<Longrightarrow> x \<in> set xs \<and> P x"
  by (induction xs) (auto split: if_splits)

lemma find_map: "find P (map f xs) = map_option f (find (P \<circ> f) xs)"
  by (induction xs) auto

lemma find_cong_set: "(\<And>x. x \<in> set xs \<Longrightarrow> P x = Q x) \<Longrightarrow> find P xs = find Q xs"
  by (induction xs) auto

lemma distinct_key_unique:
  "distinct (map f xs) \<Longrightarrow> x \<in> set xs \<Longrightarrow> y \<in> set xs \<Longrightarrow> f x = f y \<Longrightarrow> x = y"
  by (auto simp: distinct_map inj_on_def)

lemma find_key:
  "distinct (map f xs) \<Longrightarrow> x \<in> set xs \<Longrightarrow> find (\<lambda>y. f y = f x) xs = Some x"
  by (induction xs) auto

lemma sum_list_filter_le:
  "(\<And>x. x \<in> set xs \<Longrightarrow> 0 \<le> (f x :: int)) \<Longrightarrow> sum_list (map f (filter P xs)) \<le> sum_list (map f xs)"
  by (induction xs) (auto intro: add_increasing)

lemma sum_list_nonneg_int: "(\<And>x. x \<in> set xs \<Longrightarrow> 0 \<le> (f x :: int)) \<Longrightarrow> 0 \<le> sum_list (map f xs)"
  by (induction xs) auto

lemma length_le_sum_list:
  "\<forall>x\<in>set xs. 1 \<le> (f x :: int) \<Longrightarrow> int (length xs) \<le> sum_list (map f xs)"
  by (induction xs) auto

end
