(* ===== verification/Sched_Data.thy ===== *)
theory Sched_Data
  imports Prelude
begin

text \<open>
  The data of the admission scheduler (\<^verbatim>\<open>src/ptest/scheduler.py\<close>): the records it
  exchanges with its callers (\<^verbatim>\<open>contracts.py\<close>), the four tables of the coordinator
  database as one record (\<open>ledger\<close>), the SQL statements the scheduler issues as functions
  on it, and the outside world it observes (\<open>env\<close>).

  Every observation of the outside world (a process table read, a clock read, a file
  system call) is indexed by a tick and each read advances the tick, so two reads of the
  same process may differ, as they may in reality; no theorem assumes otherwise unless it
  says so.
\<close>

section \<open>Constants\<close>

definition MAX_PENDING_JOBS :: nat where "MAX_PENDING_JOBS = 256"
definition MAX_TERMINAL_SUMMARIES :: nat where "MAX_TERMINAL_SUMMARIES = 256"
definition MAX_OBSERVATIONS :: nat where "MAX_OBSERVATIONS = 256"
definition DEFAULT_QUEUE_TIMEOUT_S :: rat where "DEFAULT_QUEUE_TIMEOUT_S = 14400"
definition MAX_QUEUE_TIMEOUT_S :: rat where "MAX_QUEUE_TIMEOUT_S = 86400"
definition DEFAULT_SETUP_TIMEOUT_S :: rat where "DEFAULT_SETUP_TIMEOUT_S = 300"
definition MAX_COMPOUND_TIMEOUT_S :: rat where "MAX_COMPOUND_TIMEOUT_S = 86400"
definition RELEASE_FORCE_AFTER_S :: rat where
  "RELEASE_FORCE_AFTER_S = DEFAULT_SETUP_TIMEOUT_S + MAX_COMPOUND_TIMEOUT_S + 3600"

definition sched_problem :: "string \<Rightarrow> string \<Rightarrow> problem" where
  "sched_problem code message = mk_problem code message ''scheduler'' False"

definition sched_retryable :: "string \<Rightarrow> string \<Rightarrow> problem" where
  "sched_retryable code message = mk_problem code message ''scheduler'' True"

section \<open>Records exchanged with callers\<close>

datatype lease_state =
  Queued | Granted | Running | Draining | Finalizing | Released | Cancelled | Cancelling | Uncertain

definition ACTIVE :: "lease_state list" where
  "ACTIVE = [Granted, Running, Draining, Finalizing, Cancelling, Uncertain]"

definition TERMINAL :: "lease_state list" where
  "TERMINAL = [Released, Cancelled]"

definition active_state :: "lease_state \<Rightarrow> bool" where
  "active_state s \<longleftrightarrow> s \<in> set ACTIVE"

definition terminal_state :: "lease_state \<Rightarrow> bool" where
  "terminal_state s \<longleftrightarrow> s \<in> set TERMINAL"

record identity =
  i_pid :: int
  i_birth :: rat
  i_uid :: int
  i_pgid :: int

record group_observation =
  go_exists :: "bool option"
  go_permission :: bool
  go_checked_at :: rat

record request =
  r_run_id :: string
  r_checkout_id :: string
  r_checkout_root :: string
  r_owner :: identity
  r_slots :: int
  r_exclusive :: bool
  r_locks :: "string list"
  r_memory_mb :: "int option"
  r_deadline :: rat
  r_fixture :: bool

record ticket =
  t_run_id :: string
  t_sequence :: int

record grant =
  g_run_id :: string
  g_nonce :: string
  g_slots :: int
  g_memory_estimate_mb :: "int option"
  g_reserved_memory_mb :: "int option"
  g_generation :: int
  g_domain_id :: string

record quiescence_proof =
  q_run_id :: string
  q_generation :: int
  q_pgid :: int
  q_checked_at :: rat
  q_group_absent :: bool
  q_escaped_survivors :: bool

datatype status = Passed | Failed | StatusCancelled | Incomplete | NoTestsNeeded | NotRun

record finalization =
  f_status :: status
  f_exit_code :: int
  f_source_valid :: bool
  f_committed :: bool

record admission_state =
  as_state :: lease_state
  as_grant :: "grant option"
  as_problem :: "problem option"
  as_position :: "int option"

section \<open>The coordinator database\<close>

text \<open>One row of the table \<^verbatim>\<open>jobs\<close>, column for column; nullable columns are options.\<close>

record job =
  j_run_id :: string
  j_sequence :: int
  j_state :: lease_state
  j_checkout_id :: string
  j_requested_slots :: int
  j_slots :: int
  j_exclusive :: bool
  j_memory_estimate :: "int option"
  j_reserved_memory :: "int option"
  j_enqueue_time :: rat
  j_grant_time :: "rat option"
  j_deadline :: rat
  j_phase :: string
  j_fixture :: bool
  j_owner :: identity
  j_guard :: "identity option"
  j_nonce :: "string option"
  j_generation :: "int option"
  j_reason_code :: "string option"
  j_reason_message :: "string option"
  j_final_status :: "status option"
  j_final_exit_code :: "int option"
  j_final_committed :: "bool option"
  j_final_source_valid :: "bool option"

text \<open>
  The owner columns are written together by \<^verbatim>\<open>enqueue\<close> and the four guard columns
  together by \<^verbatim>\<open>register_guard\<close>, so each group is one field.
\<close>

record observation =
  o_run_id :: string
  o_pid :: int
  o_birth :: "rat option"
  o_uid :: "int option"
  o_pgid :: "int option"
  o_uncertain :: bool

record ledger =
  d_domain_id :: string
  d_boot_id :: string
  d_config_slots :: int
  d_config_jobs :: int
  d_config_memory :: "int option"
  d_config_generation :: int
  d_jobs :: "job list"
  d_resources :: "(string \<times> string) list"
  d_observations :: "observation list"

section \<open>The statements the scheduler issues\<close>

definition job_active :: "job \<Rightarrow> bool" where
  "job_active j \<longleftrightarrow> active_state (j_state j)"

definition job_terminal :: "job \<Rightarrow> bool" where
  "job_terminal j \<longleftrightarrow> terminal_state (j_state j)"

definition find_job :: "ledger \<Rightarrow> string \<Rightarrow> job option" where
  "find_job d rid = find (\<lambda>j. j_run_id j = rid) (d_jobs d)"

definition find_ticket :: "ledger \<Rightarrow> ticket \<Rightarrow> job option" where
  "find_ticket d k = find (\<lambda>j. j_run_id j = t_run_id k \<and> j_sequence j = t_sequence k) (d_jobs d)"

text \<open>\<^verbatim>\<open>UPDATE jobs SET .. WHERE ..\<close>, and the row count it reports.\<close>

definition update_jobs :: "(job \<Rightarrow> bool) \<Rightarrow> (job \<Rightarrow> job) \<Rightarrow> ledger \<Rightarrow> ledger" where
  "update_jobs P f d = d\<lparr>d_jobs := map (\<lambda>j. if P j then f j else j) (d_jobs d)\<rparr>"

definition rowcount :: "(job \<Rightarrow> bool) \<Rightarrow> ledger \<Rightarrow> nat" where
  "rowcount P d = length (filter P (d_jobs d))"

text \<open>\<^verbatim>\<open>DELETE FROM jobs WHERE ..\<close>; the foreign keys cascade.\<close>

definition delete_jobs :: "(job \<Rightarrow> bool) \<Rightarrow> ledger \<Rightarrow> ledger" where
  "delete_jobs P d =
     (let gone = map j_run_id (filter P (d_jobs d)) in
      d\<lparr>d_jobs := filter (\<lambda>j. \<not> P j) (d_jobs d),
        d_resources := filter (\<lambda>r. fst r \<notin> set gone) (d_resources d),
        d_observations := filter (\<lambda>ob. o_run_id ob \<notin> set gone) (d_observations d)\<rparr>)"

text \<open>
  \<^verbatim>\<open>INSERT INTO job_resources\<close> for each lock; a repeated lock violates the primary key.
\<close>

fun insert_resources :: "string \<Rightarrow> string list \<Rightarrow> (string \<times> string) list \<Rightarrow> (string \<times> string) list option" where
  "insert_resources rid [] rs = Some rs"
| "insert_resources rid (x # xs) rs =
     (if (rid, x) \<in> set rs then None else insert_resources rid xs (rs @ [(rid, x)]))"

definition row_resources :: "ledger \<Rightarrow> string \<Rightarrow> string set" where
  "row_resources d rid = snd ` set (filter (\<lambda>r. fst r = rid) (d_resources d))"

definition active_jobs :: "ledger \<Rightarrow> job list" where
  "active_jobs d = filter job_active (d_jobs d)"

definition active_count :: "ledger \<Rightarrow> nat" where
  "active_count d = length (active_jobs d)"

definition queued_jobs :: "ledger \<Rightarrow> job list" where
  "queued_jobs d = sort_key j_sequence (filter (\<lambda>j. j_state j = Queued) (d_jobs d))"

definition pending_count :: "ledger \<Rightarrow> nat" where
  "pending_count d = length (filter (\<lambda>j. j_state j = Queued) (d_jobs d))"

section \<open>The observed world\<close>

datatype kill_result = Kill_ok | Kill_esrch | Kill_other

datatype children_result = Children "int list" | No_such_process | Inaccessible

text \<open>
  \<open>e_ident\<close> is \<^verbatim>\<open>platform.process_identity\<close>, \<open>e_kill\<close> is
  \<^verbatim>\<open>os.kill(pid, 0)\<close>, \<open>e_killpg\<close> is \<^verbatim>\<open>os.killpg(pgid, 0)\<close>,
  \<open>e_children\<close> and \<open>e_ppid\<close> are the \<^verbatim>\<open>psutil\<close> reads (\<open>None\<close>:
  the read raised), \<open>e_machine\<close> is the text of the machine configuration after
  \<^verbatim>\<open>tomllib.loads\<close> (\<open>Inl\<close>: the file is missing or unsafe; \<open>Inr None\<close>: not
  TOML), \<open>e_token\<close> is \<^verbatim>\<open>secrets.token_hex(32)\<close>. \<open>e_locked\<close> says whether another
  process holds the lock of an inode, \<open>e_fault\<close> whether a file system call fails,
  \<open>e_new_ino\<close> the identity the kernel gives a new file. The remaining fields are what
  \<^verbatim>\<open>leases.namespace_identity\<close> reads.
\<close>

record env =
  e_now :: "nat \<Rightarrow> rat"
  e_ident :: "nat \<Rightarrow> int \<Rightarrow> identity option"
  e_kill :: "nat \<Rightarrow> int \<Rightarrow> kill_result"
  e_killpg :: "nat \<Rightarrow> int \<Rightarrow> kill_result"
  e_children :: "nat \<Rightarrow> int \<Rightarrow> children_result"
  e_ppid :: "nat \<Rightarrow> int \<Rightarrow> int option"
  e_boot :: "nat \<Rightarrow> string option"
  e_machine :: "nat \<Rightarrow> problem + toml option"
  e_token :: "nat \<Rightarrow> string"
  e_getpid :: int
  e_getuid :: int
  e_locked :: "nat \<Rightarrow> int \<times> int \<Rightarrow> bool"
  e_fault :: "nat \<Rightarrow> bool"
  e_new_ino :: "nat \<Rightarrow> int \<times> int"
  e_linux :: bool
  e_ns_link :: "nat \<Rightarrow> string option"
  e_proc_self :: "nat \<Rightarrow> string option"
  e_init_start :: "nat \<Rightarrow> int option"

text \<open>An observation threads the tick.\<close>

type_synonym 'a obs = "nat \<Rightarrow> 'a \<times> nat"

definition now :: "env \<Rightarrow> rat obs" where
  "now e t = (e_now e t, Suc t)"

definition boot_identity :: "env \<Rightarrow> (problem + string) obs" where
  "boot_identity e t =
     (case e_boot e t of
        None \<Rightarrow> (Inl (mk_problem ''state-unavailable'' ''kernel boot identity is unavailable'' ''platform'' False), Suc t)
      | Some b \<Rightarrow>
          (if b = [] then (Inl (sched_problem ''state-unavailable'' ''kernel boot identity is unavailable''), Suc t)
           else (Inr b, Suc t)))"

end
