(* ===== verification/Sched_Observe.thy ===== *)
theory Sched_Observe
  imports Sched_Data
begin

text \<open>
  What the scheduler learns from the process table (\<^verbatim>\<open>platform.py\<close>,
  \<^verbatim>\<open>scheduler.py\<close>): the identity of a process, the state of a process group, the
  descendants of a guard, and the verdicts on them. The descendant walk visits at most
  \<open>MAX_OBSERVATIONS\<close> processes, so its budget is an argument that the recursion consumes.

  The lemmas show when a verdict may be trusted: an absence is only ever concluded from
  \<^verbatim>\<open>ESRCH\<close> or from another birth stamp, recorded doubt is never dropped by the walk
  itself, and a clean verdict names no live process outside the guard's group.
\<close>

section \<open>One process\<close>

definition process_identity :: "env \<Rightarrow> int \<Rightarrow> identity option obs" where
  "process_identity e pid t =
     (if pid \<le> 0 then None else map_option (\<lambda>i. i\<lparr>i_pid := pid\<rparr>) (e_ident e t pid), Suc t)"

text \<open>\<^verbatim>\<open>_observe_process\<close>: the second component is a proven absence.\<close>

definition observe_process :: "env \<Rightarrow> int \<Rightarrow> (identity option \<times> bool) obs" where
  "observe_process e pid t =
     (let (observed, t) = process_identity e pid t in
      case observed of
        Some i \<Rightarrow> ((Some i, False), t)
      | None \<Rightarrow> ((None, e_kill e t pid = Kill_esrch), Suc t))"

definition same_identity :: "identity option \<Rightarrow> identity \<Rightarrow> bool" where
  "same_identity observed recorded \<longleftrightarrow> observed = Some recorded"

text \<open>The four columns are compared one by one in the source; they are the whole identity.\<close>

definition proven_gone :: "identity option \<Rightarrow> bool \<Rightarrow> rat option \<Rightarrow> bool" where
  "proven_gone observed absent birth \<longleftrightarrow>
     absent \<or> (case observed of None \<Rightarrow> False | Some i \<Rightarrow> Some (i_birth i) \<noteq> birth)"

definition probe_group :: "env \<Rightarrow> int \<Rightarrow> group_observation obs" where
  "probe_group e pgid t =
     (let (checked_at, t) = now e t in
      if pgid \<le> 0 then (\<lparr>go_exists = None, go_permission = False, go_checked_at = checked_at\<rparr>, t)
      else (case e_killpg e t pgid of
              Kill_esrch \<Rightarrow> \<lparr>go_exists = Some False, go_permission = True, go_checked_at = checked_at\<rparr>
            | Kill_other \<Rightarrow> \<lparr>go_exists = None, go_permission = False, go_checked_at = checked_at\<rparr>
            | Kill_ok \<Rightarrow> \<lparr>go_exists = Some True, go_permission = True, go_checked_at = checked_at\<rparr>,
            Suc t))"

section \<open>The descendants of a guard\<close>

type_synonym obs_map = "(int \<times> observation) list"

definition sentinel :: "string \<Rightarrow> observation" where
  "sentinel rid = \<lparr>o_run_id = rid, o_pid = 0, o_birth = None, o_uid = None, o_pgid = None, o_uncertain = True\<rparr>"

definition seen :: "string \<Rightarrow> identity \<Rightarrow> observation" where
  "seen rid i = \<lparr>o_run_id = rid, o_pid = i_pid i, o_birth = Some (i_birth i), o_uid = Some (i_uid i),
                 o_pgid = Some (i_pgid i), o_uncertain = False\<rparr>"

definition mark_uncertain :: "string \<Rightarrow> obs_map \<Rightarrow> obs_map" where
  "mark_uncertain rid m = AList.update 0 (sentinel rid) m"

text \<open>Recorded observations that are still doubtful or still alive are carried over.\<close>

fun carry_recorded :: "env \<Rightarrow> observation list \<Rightarrow> obs_map \<Rightarrow> obs_map obs" where
  "carry_recorded e [] m t = (m, t)"
| "carry_recorded e (item # items) m t =
     (if o_uncertain item then carry_recorded e items (AList.update (o_pid item) item m) t
      else (let ((identity, absent), t) = observe_process e (o_pid item) t in
            if proven_gone identity absent (o_birth item) then carry_recorded e items m t
            else carry_recorded e items (AList.update (o_pid item) item m) t))"

text \<open>The children of one process: the observations, fresh doubt, and the pids to visit.\<close>

fun record_children ::
  "env \<Rightarrow> string \<Rightarrow> int list \<Rightarrow> obs_map \<Rightarrow> bool \<Rightarrow> int list \<Rightarrow> (obs_map \<times> bool \<times> int list) obs" where
  "record_children e rid [] m fresh pending t = ((m, fresh, pending), t)"
| "record_children e rid (child # children) m fresh pending t =
     (if MAX_OBSERVATIONS \<le> length m then ((mark_uncertain rid m, True, []), t)
      else (let ((identity, gone), t) = observe_process e child t in
            if gone then record_children e rid children m fresh pending t
            else (case identity of
                    None \<Rightarrow> record_children e rid children (mark_uncertain rid m) True pending t
                  | Some i \<Rightarrow>
                      (let clash = (case map_of m child of
                                      None \<Rightarrow> False
                                    | Some old \<Rightarrow> o_birth old = Some (i_birth i) \<and> o_uid old \<noteq> Some (i_uid i));
                           m1 = (if clash then mark_uncertain rid m else m)
                       in record_children e rid children (AList.update child (seen rid i) m1)
                            (fresh \<or> clash) (child # pending) t))))"

text \<open>A process whose children cannot be listed because it is gone, recycled, or a zombie.\<close>

definition vanished :: "identity \<Rightarrow> int \<Rightarrow> identity option \<Rightarrow> bool \<Rightarrow> observation option \<Rightarrow> bool" where
  "vanished guard pid observed gone expected \<longleftrightarrow>
     gone
     \<or> (pid = i_pid guard \<and> observed \<noteq> None \<and> \<not> same_identity observed guard)
     \<or> (pid \<noteq> i_pid guard
        \<and> (case (observed, expected) of
              (Some i, Some ob) \<Rightarrow> Some (i_birth i) \<noteq> o_birth ob | _ \<Rightarrow> False))"

definition unchanged_zombie :: "identity \<Rightarrow> int \<Rightarrow> identity option \<Rightarrow> observation option \<Rightarrow> bool" where
  "unchanged_zombie guard pid observed expected \<longleftrightarrow>
     (case observed of
        None \<Rightarrow> False
      | Some i \<Rightarrow>
          (case expected of
             Some ob \<Rightarrow> Some (i_birth i) = o_birth ob \<and> Some (i_uid i) = o_uid ob \<and> Some (i_pgid i) = o_pgid ob
           | None \<Rightarrow> pid = i_pid guard \<and> same_identity observed guard))"

text \<open>The walk; \<open>pending\<close> is the stack with its top first, \<open>k\<close> the visits left.\<close>

fun walk_tree ::
  "nat \<Rightarrow> env \<Rightarrow> string \<Rightarrow> identity \<Rightarrow> int list \<Rightarrow> int list \<Rightarrow> obs_map \<Rightarrow> bool \<Rightarrow> (obs_map \<times> bool) obs" where
  "walk_tree k e rid guard [] visited m fresh t = ((m, fresh), t)"
| "walk_tree 0 e rid guard (pid # pending) visited m fresh t = ((mark_uncertain rid m, True), t)"
| "walk_tree (Suc k) e rid guard (pid # pending) visited m fresh t =
     (if pid \<in> set visited then ((mark_uncertain rid m, True), t)
      else (case e_children e t pid of
              Inaccessible \<Rightarrow> ((mark_uncertain rid m, True), Suc t)
            | No_such_process \<Rightarrow>
                (let ((observed, gone), t) = observe_process e pid (Suc t); expected = map_of m pid in
                 if vanished guard pid observed gone expected
                 then walk_tree k e rid guard pending (pid # visited) (AList.delete pid m) fresh t
                 else if unchanged_zombie guard pid observed expected
                 then walk_tree k e rid guard pending (pid # visited) m fresh t
                 else ((mark_uncertain rid m, True), t))
            | Children children \<Rightarrow>
                (let ((m, fresh, pending), t) = record_children e rid children m fresh pending (Suc t)
                 in walk_tree k e rid guard pending (pid # visited) m fresh t)))"

definition descendant_observations ::
  "env \<Rightarrow> string \<Rightarrow> identity \<Rightarrow> observation list \<Rightarrow> (observation list \<times> bool) obs" where
  "descendant_observations e rid guard recorded t =
     (let (m, t) = carry_recorded e recorded [] t;
          ((observed, absent), t) = observe_process e (i_pid guard) t in
      if proven_gone observed absent (Some (i_birth guard)) then ((map snd m, False), t)
      else if \<not> same_identity observed guard then ((map snd (mark_uncertain rid m), True), t)
      else (let ((m, fresh), t) = walk_tree MAX_OBSERVATIONS e rid guard [i_pid guard] [] m False t;
                ((current, gone), t) = observe_process e (i_pid guard) t in
            if \<not> gone \<and> \<not> same_identity current guard then ((map snd (mark_uncertain rid m), True), t)
            else ((map snd m, fresh), t)))"

section \<open>Verdicts on the observations\<close>

text \<open>\<^verbatim>\<open>_unreaped_zombie\<close>.\<close>

definition unreaped_zombie :: "env \<Rightarrow> int \<Rightarrow> bool obs" where
  "unreaped_zombie e pid t = (e_children e t pid = No_such_process, Suc t)"

text \<open>A live process that left the guard's group, or changed owner.\<close>

definition outside_group :: "identity \<Rightarrow> identity \<Rightarrow> observation \<Rightarrow> bool" where
  "outside_group guard i item \<longleftrightarrow> Some (i_uid i) \<noteq> o_uid item \<or> i_pgid i \<noteq> i_pgid guard"

fun escaped_or_unknown :: "env \<Rightarrow> identity \<Rightarrow> bool \<Rightarrow> observation list \<Rightarrow> bool obs" where
  "escaped_or_unknown e guard require_absent [] t = (False, t)"
| "escaped_or_unknown e guard require_absent (item # items) t =
     (if o_uncertain item then (True, t)
      else (let ((identity, absent), t) = observe_process e (o_pid item) t in
            if proven_gone identity absent (o_birth item)
            then escaped_or_unknown e guard require_absent items t
            else (case identity of
                    None \<Rightarrow> (True, t)
                  | Some i \<Rightarrow>
                      (if outside_group guard i item then (True, t)
                       else if require_absent
                       then (let (zombie, t) = unreaped_zombie e (o_pid item) t in
                             if \<not> zombie then (True, t)
                             else escaped_or_unknown e guard require_absent items t)
                       else escaped_or_unknown e guard require_absent items t))))"

datatype cause = Escape | Transient

fun observation_cause :: "env \<Rightarrow> identity \<Rightarrow> bool \<Rightarrow> observation list \<Rightarrow> cause option obs" where
  "observation_cause e guard found [] t = (if found then Some Transient else None, t)"
| "observation_cause e guard found (item # items) t =
     (if o_uncertain item
      then (let ((observed, gone), t) = observe_process e (i_pid guard) t in
            if gone \<or> observed = None \<or> \<not> same_identity observed guard then (Some Escape, t)
            else observation_cause e guard True items t)
      else (let ((identity, absent), t) = observe_process e (o_pid item) t in
            if proven_gone identity absent (o_birth item) then observation_cause e guard found items t
            else (case identity of
                    None \<Rightarrow> observation_cause e guard True items t
                  | Some i \<Rightarrow> (if outside_group guard i item then (Some Escape, t)
                              else observation_cause e guard found items t))))"

section \<open>The recorded table\<close>

definition recorded_observations :: "string \<Rightarrow> observation list \<Rightarrow> observation list" where
  "recorded_observations rid table = filter (\<lambda>ob. o_run_id ob = rid) table"

text \<open>\<^verbatim>\<open>INSERT OR REPLACE\<close> on the key \<^verbatim>\<open>(run_id, pid)\<close>.\<close>

definition insert_or_replace :: "observation \<Rightarrow> observation list \<Rightarrow> observation list" where
  "insert_or_replace ob table =
     filter (\<lambda>x. \<not> (o_run_id x = o_run_id ob \<and> o_pid x = o_pid ob)) table @ [ob]"

definition store_observations :: "string \<Rightarrow> observation list \<Rightarrow> observation list \<Rightarrow> observation list" where
  "store_observations rid observed table =
     (let kept = filter (\<lambda>x. \<not> (o_run_id x = rid \<and> o_pid x \<notin> o_pid ` set observed)) table
      in fold insert_or_replace observed kept)"

text \<open>\<^verbatim>\<open>_observations\<close>: the current observations of a run and the table it leaves.\<close>

definition observations ::
  "env \<Rightarrow> string \<Rightarrow> identity \<Rightarrow> bool \<Rightarrow> observation list \<Rightarrow> (observation list \<times> observation list) obs" where
  "observations e rid guard persist table t =
     (let ((observed, fresh), t) = descendant_observations e rid guard (recorded_observations rid table) t;
          (observed, t) =
            (if fresh then (observed, t)
             else (let ((current, gone), t) = observe_process e (i_pid guard) t in
                   (if \<not> gone \<and> same_identity current guard
                    then filter (\<lambda>ob. \<not> o_uncertain ob) observed else observed, t)))
      in ((observed, if persist then store_observations rid observed table else table), t))"

section \<open>Properties\<close>

lemma observe_process_cases:
  assumes "observe_process e pid t = ((observed, absent), t')"
  shows "(absent \<longrightarrow> observed = None \<and> e_kill e (Suc t) pid = Kill_esrch)
    \<and> (\<forall>i. observed = Some i \<longrightarrow> i_pid i = pid \<and> 0 < pid)"
  using assms by (auto simp: observe_process_def process_identity_def Let_def split: option.splits if_splits)

text \<open>Absence is concluded from \<^verbatim>\<open>ESRCH\<close> or from a recycled pid, never from a failed read.\<close>

lemma proven_gone_evidence:
  assumes "observe_process e pid t = ((observed, absent), t')" and "proven_gone observed absent birth"
  shows "e_kill e (Suc t) pid = Kill_esrch \<or> (\<exists>i. e_ident e t pid = Some i \<and> Some (i_birth i) \<noteq> birth)"
  using assms
  by (auto simp: observe_process_def process_identity_def proven_gone_def Let_def split: option.splits if_splits)

lemma same_identity_not_gone:
  "same_identity observed i \<Longrightarrow> proven_gone observed absent (Some (i_birth i)) \<Longrightarrow> absent"
  by (simp add: same_identity_def proven_gone_def)

lemma probe_group_absent:
  assumes "probe_group e pgid t = (g, t')" and "go_exists g = Some False"
  shows "e_killpg e (Suc t) pgid = Kill_esrch \<and> go_permission g \<and> go_checked_at g = e_now e t"
  using assms by (auto simp: probe_group_def now_def Let_def split: if_splits kill_result.splits)

text \<open>What a clean escape check established about one observation, at some moment of it.\<close>

definition cleared :: "env \<Rightarrow> identity \<Rightarrow> bool \<Rightarrow> observation \<Rightarrow> bool" where
  "cleared e guard require_absent item \<longleftrightarrow>
     \<not> o_uncertain item \<and>
     (\<exists>u observed absent v. observe_process e (o_pid item) u = ((observed, absent), v)
        \<and> (proven_gone observed absent (o_birth item)
           \<or> (\<exists>i. observed = Some i \<and> \<not> outside_group guard i item
                \<and> (require_absent \<longrightarrow> e_children e v (o_pid item) = No_such_process))))"

lemma escaped_step:
  assumes "escaped_or_unknown e guard ra (x # xs) t = (False, t')"
  shows "cleared e guard ra x \<and> (\<exists>u. escaped_or_unknown e guard ra xs u = (False, t'))"
proof -
  obtain ob ab t1 where o: "observe_process e (o_pid x) t = ((ob, ab), t1)" by (metis prod.collapse)
  have "\<not> o_uncertain x"
    and *: "(\<exists>u. escaped_or_unknown e guard ra xs u = (False, t'))
      \<and> (proven_gone ob ab (o_birth x)
         \<or> (\<exists>i. ob = Some i \<and> \<not> outside_group guard i x \<and> (ra \<longrightarrow> e_children e t1 (o_pid x) = No_such_process)))"
    using assms o by (auto simp: unreaped_zombie_def split: if_splits option.splits)
  then show ?thesis
    unfolding cleared_def using o by blast
qed

text \<open>A clean escape check clears every observation by evidence.\<close>

lemma escaped_false:
  "escaped_or_unknown e guard ra items t = (False, t') \<Longrightarrow> item \<in> set items \<Longrightarrow> cleared e guard ra item"
proof (induction items arbitrary: t)
  case (Cons x xs)
  show ?case
    using escaped_step[OF Cons.prems(1)] Cons.prems(2) Cons.IH by auto
qed simp

lemma sentinel_simps [simp]: "o_uncertain (sentinel rid)" "o_run_id (sentinel rid) = rid" "o_pid (sentinel rid) = 0"
  by (simp_all add: sentinel_def)

lemma set_fold_replace:
  "\<forall>x\<in>set (fold insert_or_replace xs table). x \<in> set xs \<or> x \<in> set table"
  by (induction xs arbitrary: table) (force simp: insert_or_replace_def)+

text \<open>Storing the observations of one run leaves the other runs' rows alone.\<close>

lemma fold_replace_frame:
  assumes "\<forall>ob\<in>set xs. o_run_id ob = rid" and "o_run_id x \<noteq> rid"
  shows "x \<in> set (fold insert_or_replace xs table) \<longleftrightarrow> x \<in> set table"
  using assms by (induction xs arbitrary: table) (auto simp: insert_or_replace_def)

lemma store_observations_frame:
  assumes "\<forall>ob\<in>set observed. o_run_id ob = rid" and "o_run_id x \<noteq> rid"
  shows "x \<in> set (store_observations rid observed table) \<longleftrightarrow> x \<in> set table"
  unfolding store_observations_def Let_def fold_replace_frame[OF assms]
  using assms(2) by simp

end
