(* ===== verification/Lease_Files.thy ===== *)
theory Lease_Files
  imports Sched_Data
begin

text \<open>
  Run leases (\<^verbatim>\<open>src/ptest/leases.py\<close> over the primitives of
  \<^verbatim>\<open>files.py\<close>): one lock file and one JSON sidecar per admitted run in the
  directory \<^verbatim>\<open>leases\<close>, and the registry of the lease descriptors this process holds
  open. A lock belongs to an open file description: another process holds it where
  \<open>e_locked\<close> says so, this process holds the ones of its registry. Every file system call
  may fail (\<open>e_fault\<close>).

  The lemmas show the safety of the verdicts: a lock is called acquirable only if nobody
  holds it, a lease this process holds is never called acquirable nor removed, a removal
  touches no other run, and a created lease is read back as it was written.
\<close>

section \<open>Files\<close>

datatype json =
  JNull | JBool bool | JInt int | JFloat rat | JStr string | JArr "json list" | JObj "(string \<times> json) list"

datatype file_kind = Regular_file | Symbolic_link | Other_file

text \<open>A directory entry; its content is its size and what \<^verbatim>\<open>json.loads\<close> makes of it.\<close>

record lease_file =
  lf_kind :: file_kind
  lf_uid :: int
  lf_mode :: int
  lf_nlink :: int
  lf_ident :: "int \<times> int"
  lf_size :: nat
  lf_json :: "json option"

record lease_store =
  l_files :: "(string \<times> lease_file) list"
  l_held :: "(string \<times> (int \<times> int)) list"

definition LIST_LIMIT :: nat where "LIST_LIMIT = 1024"
definition SIDECAR_MAX_BYTES :: nat where "SIDECAR_MAX_BYTES = 4096"

definition lease_problem :: "string \<Rightarrow> string \<Rightarrow> problem" where
  "lease_problem code message = mk_problem code message ''leases'' False"

definition file_problem :: "string \<Rightarrow> string \<Rightarrow> problem" where
  "file_problem code message = mk_problem code message ''files'' False"

definition lookup_file :: "lease_store \<Rightarrow> string \<Rightarrow> lease_file option" where
  "lookup_file s name = map_of (l_files s) name"

definition put_file :: "string \<Rightarrow> lease_file \<Rightarrow> lease_store \<Rightarrow> lease_store" where
  "put_file name f s = s\<lparr>l_files := AList.update name f (l_files s)\<rparr>"

definition drop_file :: "string \<Rightarrow> lease_store \<Rightarrow> lease_store" where
  "drop_file name s = s\<lparr>l_files := AList.delete name (l_files s)\<rparr>"

text \<open>A system call that fails when the world says so.\<close>

definition fault :: "env \<Rightarrow> bool obs" where
  "fault e t = (e_fault e t, Suc t)"

text \<open>\<^verbatim>\<open>files.open_regular_fd\<close>: the descriptor is the entry it opened.\<close>

definition open_regular_fd :: "env \<Rightarrow> lease_store \<Rightarrow> string \<Rightarrow> (problem + lease_file) obs" where
  "open_regular_fd e s name t =
     (if e_fault e t then Inl (file_problem ''state-unavailable'' ''cannot open file'')
      else (case lookup_file s name of
              None \<Rightarrow> Inl (file_problem ''state-unavailable'' ''file does not exist'')
            | Some f \<Rightarrow>
                (case lf_kind f of
                   Regular_file \<Rightarrow> Inr f
                 | Symbolic_link \<Rightarrow> Inl (file_problem ''unsafe-path'' ''file is a symlink'')
                 | Other_file \<Rightarrow> Inl (file_problem ''unsafe-path'' ''file is not a regular file''))),
      Suc t)"

text \<open>\<^verbatim>\<open>files.unlink_if_same\<close>.\<close>

definition unlink_if_same ::
  "env \<Rightarrow> lease_store \<Rightarrow> string \<Rightarrow> int \<times> int \<Rightarrow> nat \<Rightarrow> (problem + bool) \<times> lease_store \<times> nat" where
  "unlink_if_same e s name ident t =
     (if e_fault e t then (Inl (file_problem ''state-unavailable'' ''cannot inspect file''), s, Suc t)
      else (case lookup_file s name of
              None \<Rightarrow> (Inr False, s, Suc t)
            | Some f \<Rightarrow> (if lf_ident f \<noteq> ident then (Inr False, s, Suc t)
                         else (Inr True, drop_file name s, Suc t))))"

text \<open>\<^verbatim>\<open>fcntl.flock(fd, LOCK_EX | LOCK_NB)\<close> through a fresh descriptor.\<close>

datatype flock_result = Flock_taken | Flock_blocked | Flock_error

definition try_flock :: "env \<Rightarrow> lease_store \<Rightarrow> int \<times> int \<Rightarrow> flock_result obs" where
  "try_flock e s ident t =
     (if e_fault e t then Flock_error
      else if e_locked e t ident \<or> ident \<in> snd ` set (l_held s) then Flock_blocked
      else Flock_taken,
      Suc t)"

section \<open>Namespaces\<close>

definition ascii_digits :: "nat \<Rightarrow> string \<Rightarrow> bool" where
  "ascii_digits n s \<longleftrightarrow> 1 \<le> length s \<and> length s \<le> n \<and> (\<forall>c\<in>set s. digit_of c \<noteq> None)"

definition pid_link :: "string \<Rightarrow> bool" where
  "pid_link s \<longleftrightarrow> starts_with ''pid:['' s \<and> ends_with '']'' s \<and> 6 \<le> length s
     \<and> ascii_digits 20 (take (length s - 6) (drop 5 s))"

definition namespace_text :: "string \<Rightarrow> bool" where
  "namespace_text s \<longleftrightarrow> s = ''unknown'' \<or> s = ''host''
     \<or> (case split_on (CHR ''@'') s of [link, start] \<Rightarrow> pid_link link \<and> ascii_digits 20 start | _ \<Rightarrow> False)"

definition namespace_identity :: "env \<Rightarrow> string obs" where
  "namespace_identity e t =
     (if \<not> e_linux e then ''host''
      else (case (e_ns_link e t, e_ns_link e (t + 1), e_proc_self e (t + 2), e_init_start e (t + 3)) of
              (Some link, Some again, Some self, Some start) \<Rightarrow>
                (if link \<noteq> again \<or> self \<noteq> str_int (e_getpid e) \<or> \<not> pid_link link \<or> start < 0
                 then ''unknown'' else link @ ''@'' @ str_int start)
            | _ \<Rightarrow> ''unknown''),
      t + 4)"

definition is_foreign :: "string \<Rightarrow> string \<Rightarrow> bool" where
  "is_foreign recorded observer \<longleftrightarrow>
     \<not> (recorded = observer \<and> recorded \<noteq> ''unknown'' \<and> observer \<noteq> ''unknown'')"

section \<open>Sidecars\<close>

datatype sidecar = Sidecar_absent | Sidecar_invalid | Sidecar_valid (sc_namespace: string) (sc_ident: "int \<times> int")

definition lock_name :: "string \<Rightarrow> string" where
  "lock_name rid = rid @ ''.lock''"

definition sidecar_name :: "string \<Rightarrow> string" where
  "sidecar_name rid = rid @ ''.json''"

definition bad_run_id :: problem where
  "bad_run_id = lease_problem ''unsafe-path'' ''run id is not a 32-char hex string''"

definition sidecar_json :: "string \<Rightarrow> string \<Rightarrow> int \<times> int \<Rightarrow> json" where
  "sidecar_json rid namespace ident =
     JObj [(''lease_device'', JInt (fst ident)), (''lease_inode'', JInt (snd ident)),
           (''pid_namespace'', JStr namespace), (''run_id'', JStr rid), (''version'', JInt 1)]"

text \<open>\<^verbatim>\<open>_sidecar_bytes\<close>: the canonical JSON text (names and identities need no escapes).\<close>

definition quoted :: "string \<Rightarrow> string" where
  "quoted x = [CHR 0x22] @ x @ [CHR 0x22]"

definition sidecar_bytes :: "string \<Rightarrow> string \<Rightarrow> int \<times> int \<Rightarrow> string" where
  "sidecar_bytes rid namespace ident =
     ''{'' @ quoted ''lease_device'' @ '':'' @ str_int (fst ident) @ '',''
     @ quoted ''lease_inode'' @ '':'' @ str_int (snd ident) @ '',''
     @ quoted ''pid_namespace'' @ '':'' @ quoted namespace @ '',''
     @ quoted ''run_id'' @ '':'' @ quoted rid @ '','' @ quoted ''version'' @ '':1}''"

text \<open>The checks of \<^verbatim>\<open>read_sidecar\<close> on the parsed record.\<close>

definition nonneg_int :: "json option \<Rightarrow> int option" where
  "nonneg_int v = (case v of Some (JInt i) \<Rightarrow> (if i < 0 then None else Some i) | _ \<Rightarrow> None)"

definition decode_sidecar :: "string \<Rightarrow> json option \<Rightarrow> sidecar" where
  "decode_sidecar rid content =
     (case content of
        Some (JObj tbl) \<Rightarrow>
          (if set (map fst tbl) \<noteq> {''version'', ''run_id'', ''pid_namespace'', ''lease_device'', ''lease_inode''}
              \<or> map_of tbl ''version'' \<noteq> Some (JInt 1)
              \<or> map_of tbl ''run_id'' \<noteq> Some (JStr rid)
           then Sidecar_invalid
           else (case map_of tbl ''pid_namespace'' of
                   Some (JStr namespace) \<Rightarrow>
                     (if \<not> namespace_text namespace then Sidecar_invalid
                      else (case (nonneg_int (map_of tbl ''lease_device''), nonneg_int (map_of tbl ''lease_inode'')) of
                              (Some device, Some inode) \<Rightarrow> Sidecar_valid namespace (device, inode)
                            | _ \<Rightarrow> Sidecar_invalid))
                 | _ \<Rightarrow> Sidecar_invalid))
      | _ \<Rightarrow> Sidecar_invalid)"

definition private_file :: "env \<Rightarrow> lease_file \<Rightarrow> bool" where
  "private_file e f \<longleftrightarrow> lf_kind f = Regular_file \<and> lf_uid f = e_getuid e \<and> lf_mode f = 384 \<and> lf_nlink f = 1"

definition read_sidecar :: "env \<Rightarrow> lease_store \<Rightarrow> string \<Rightarrow> (problem + sidecar) obs" where
  "read_sidecar e s rid t =
     (if \<not> hex_id 32 rid then (Inl bad_run_id, t)
      else (case lookup_file s (sidecar_name rid) of
              None \<Rightarrow> (Inr (if e_fault e t then Sidecar_invalid else Sidecar_absent), Suc t)
            | Some entry \<Rightarrow>
                (if e_fault e t \<or> lf_kind entry = Symbolic_link then (Inr Sidecar_invalid, Suc t)
                 else (let (opened, t) = open_regular_fd e s (sidecar_name rid) (Suc t) in
                       case opened of
                         Inl p \<Rightarrow> (let (gone, t) = fault e t in
                                   (Inr (if gone then Sidecar_absent else Sidecar_invalid), t))
                       | Inr f \<Rightarrow>
                           (let (failed, t) = fault e t in
                            (Inr (if failed \<or> \<not> private_file e f \<or> SIDECAR_MAX_BYTES < lf_size f
                                  then Sidecar_invalid else decode_sidecar rid (lf_json f)), t))))))"

section \<open>Lock verdicts\<close>

datatype verdict = Acquirable | Held | Indeterminate

definition probe :: "env \<Rightarrow> lease_store \<Rightarrow> string \<Rightarrow> sidecar \<Rightarrow> (problem + verdict) obs" where
  "probe e s rid sc t =
     (case sc of
        Sidecar_valid namespace ident \<Rightarrow>
          (if \<not> hex_id 32 rid then (Inl bad_run_id, t)
           else (let (opened, t) = open_regular_fd e s (lock_name rid) t in
                 case opened of
                   Inl p \<Rightarrow> (Inr Indeterminate, t)
                 | Inr f \<Rightarrow>
                     (let (failed, t) = fault e t in
                      if failed \<or> \<not> private_file e f \<or> lf_ident f \<noteq> ident then (Inr Indeterminate, t)
                      else (let (r, t) = try_flock e s (lf_ident f) t in
                            (Inr (case r of Flock_taken \<Rightarrow> Acquirable | Flock_blocked \<Rightarrow> Held
                                          | Flock_error \<Rightarrow> Indeterminate), t)))))
      | _ \<Rightarrow> (Inr Indeterminate, t))"

section \<open>Creation and removal\<close>

definition release_held :: "string \<Rightarrow> lease_store \<Rightarrow> lease_store" where
  "release_held rid s = s\<lparr>l_held := AList.delete rid (l_held s)\<rparr>"

definition held_fd :: "string \<Rightarrow> lease_store \<Rightarrow> (int \<times> int) option" where
  "held_fd rid s = map_of (l_held s) rid"

definition register_held :: "string \<Rightarrow> int \<times> int \<Rightarrow> lease_store \<Rightarrow> lease_store" where
  "register_held rid ident s = s\<lparr>l_held := AList.update rid ident (l_held s)\<rparr>"

definition not_created :: problem where
  "not_created = lease_problem ''state-unavailable'' ''run lease cannot be created''"

definition new_private_file :: "env \<Rightarrow> int \<times> int \<Rightarrow> nat \<Rightarrow> json option \<Rightarrow> lease_file" where
  "new_private_file e ident n content =
     \<lparr>lf_kind = Regular_file, lf_uid = e_getuid e, lf_mode = 384, lf_nlink = 1,
      lf_ident = ident, lf_size = n, lf_json = content\<rparr>"

definition create_locked ::
  "env \<Rightarrow> lease_store \<Rightarrow> string \<Rightarrow> nat \<Rightarrow> (problem + int \<times> int) \<times> lease_store \<times> nat" where
  "create_locked e s name t =
     (if e_fault e t then (Inl (file_problem ''state-unavailable'' ''cannot create file''), s, Suc t)
      else if lookup_file s name \<noteq> None then (Inl (file_problem ''already-exists'' ''file already exists''), s, Suc t)
      else (let ident = e_new_ino e t
            in (Inr ident, put_file name (new_private_file e ident 0 None) s, Suc t)))"

definition create_sidecar ::
  "env \<Rightarrow> lease_store \<Rightarrow> string \<Rightarrow> int \<times> int \<Rightarrow> nat \<Rightarrow> (problem + unit) \<times> lease_store \<times> nat" where
  "create_sidecar e s rid ident t =
     (let (failed, t) = fault e t; (namespace, t) = namespace_identity e t in
      if failed then (Inl (file_problem ''state-unavailable'' ''cannot inspect file''), s, t)
      else if e_fault e t then (Inl (file_problem ''state-unavailable'' ''cannot create file''), s, Suc t)
      else if lookup_file s (sidecar_name rid) \<noteq> None
      then (Inl (file_problem ''already-exists'' ''file already exists''), s, Suc t)
      else (let f = new_private_file e (e_new_ino e t) (length (sidecar_bytes rid namespace ident))
                      (Some (sidecar_json rid namespace ident))
            in (Inr (), put_file (sidecar_name rid) f s, Suc t)))"

text \<open>\<^verbatim>\<open>create\<close>: the directory, the locked file, the sidecar, the registry entry.\<close>

definition create :: "env \<Rightarrow> lease_store \<Rightarrow> string \<Rightarrow> nat \<Rightarrow> (problem + int \<times> int) \<times> lease_store \<times> nat" where
  "create e s rid t =
     (if \<not> hex_id 32 rid then (Inl bad_run_id, s, t)
      else if e_fault e t then (Inl not_created, s, Suc t)
      else (let (made, s1, t) = create_locked e s (lock_name rid) (Suc t) in
            case made of
              Inl p \<Rightarrow> (Inl p, s1, t)
            | Inr ident \<Rightarrow>
                (let (written, s2, t) = create_sidecar e s1 rid ident t in
                 case written of
                   Inl p \<Rightarrow> (let (_, s3, t) = unlink_if_same e s2 (lock_name rid) ident t
                             in (Inl not_created, s3, t))
                 | Inr _ \<Rightarrow> (Inr ident, register_held rid ident s2, t))))"

text \<open>\<^verbatim>\<open>remove_if_released\<close>: the sidecar, then the lease, under the recorded lock.\<close>

definition remove_if_released ::
  "env \<Rightarrow> lease_store \<Rightarrow> string \<Rightarrow> nat \<Rightarrow> (problem + bool) \<times> lease_store \<times> nat" where
  "remove_if_released e s rid t =
     (let (sc, t) = read_sidecar e s rid t in
      case sc of
        Inl p \<Rightarrow> (Inl p, s, t)
      | Inr sc \<Rightarrow>
          (let (opened, t) = open_regular_fd e s (lock_name rid) t in
           case opened of
             Inl p \<Rightarrow> (Inr False, s, t)
           | Inr f \<Rightarrow>
               (let (failed, t) = fault e t in
                if failed \<or> (case sc of Sidecar_valid _ ident \<Rightarrow> lf_ident f \<noteq> ident | _ \<Rightarrow> False)
                then (Inr False, s, t)
                else (let (r, t) = try_flock e s (lf_ident f) t in
                      if r \<noteq> Flock_taken then (Inr False, s, t)
                      else (let (failed, t) = fault e t in
                            if failed then (Inr False, s, t)
                            else (let s1 = drop_file (sidecar_name rid) s;
                                      (removed, s2, t) = unlink_if_same e s1 (lock_name rid) (lf_ident f) t
                                  in (Inr (case removed of Inl _ \<Rightarrow> False | Inr b \<Rightarrow> b), s2, t)))))))"

definition discard_created :: "env \<Rightarrow> lease_store \<Rightarrow> string \<Rightarrow> nat \<Rightarrow> lease_store \<times> nat" where
  "discard_created e s rid t =
     (case held_fd rid s of
        None \<Rightarrow> (release_held rid s, t)
      | Some ident \<Rightarrow>
          (let (failed, t) = fault e t in
           if failed then (release_held rid s, t)
           else (let (sc, t) = read_sidecar e s rid t;
                     (kept, t) = fault e t;
                     s1 = (case sc of
                             Inr (Sidecar_valid _ recorded) \<Rightarrow>
                               (if recorded = ident \<and> \<not> kept then drop_file (sidecar_name rid) s else s)
                           | _ \<Rightarrow> s);
                     (_, s2, t) = unlink_if_same e s1 (lock_name rid) ident t
                 in (release_held rid s2, t))))"

definition inherited_mismatch :: problem where
  "inherited_mismatch = lease_problem ''ownership-uncertain'' ''inherited run lease does not match its record''"

text \<open>
  \<^verbatim>\<open>adopt_inherited\<close>: the descriptor shares the owner's open file description, so its
  own lock never blocks it; only a failing call or a mismatch refuses.
\<close>

definition adopt_inherited ::
  "env \<Rightarrow> lease_store \<Rightarrow> string \<Rightarrow> lease_file \<Rightarrow> nat \<Rightarrow> (problem + unit) \<times> lease_store \<times> nat" where
  "adopt_inherited e s rid fd t =
     (let (failed, t) = fault e t in
      if failed \<or> lf_kind fd \<noteq> Regular_file \<or> lf_uid fd \<noteq> e_getuid e then (Inl inherited_mismatch, s, t)
      else (let (sc, t) = read_sidecar e s rid t in
            case sc of
              Inr (Sidecar_valid _ ident) \<Rightarrow>
                (if lf_ident fd \<noteq> ident then (Inl inherited_mismatch, s, t)
                 else (let (failed, t) = fault e t in
                       if failed then (Inl inherited_mismatch, s, t)
                       else (Inr (), register_held rid (lf_ident fd) s, t)))
            | _ \<Rightarrow> (Inl inherited_mismatch, s, t)))"

definition entry_run_id :: "string \<Rightarrow> string option" where
  "entry_run_id name =
     (let stem = (if ends_with ''.lock'' name then Some (take (length name - 5) name)
                  else if ends_with ''.json'' name then Some (take (length name - 5) name) else None)
      in case stem of None \<Rightarrow> None | Some r \<Rightarrow> (if hex_id 32 r then Some r else None))"

definition run_ids :: "env \<Rightarrow> lease_store \<Rightarrow> string list obs" where
  "run_ids e s t =
     (if e_fault e t then []
      else take LIST_LIMIT (sorted_set (List.map_filter entry_run_id (map fst (l_files s)))),
      Suc t)"

section \<open>Verdicts are safe\<close>

lemma names_distinct [simp]: "lock_name r \<noteq> sidecar_name r'" "sidecar_name r \<noteq> lock_name r'"
  by (auto simp: lock_name_def sidecar_name_def dest: arg_cong[where f = rev])

lemma lock_name_inj [simp]: "lock_name r = lock_name r' \<longleftrightarrow> r = r'"
  by (simp add: lock_name_def)

lemma sidecar_name_inj [simp]: "sidecar_name r = sidecar_name r' \<longleftrightarrow> r = r'"
  by (simp add: sidecar_name_def)

lemma lookup_put_drop [simp]:
  "lookup_file (put_file n f s) m = (if m = n then Some f else lookup_file s m)"
  "lookup_file (drop_file n s) m = (if m = n then None else lookup_file s m)"
  "lookup_file (register_held r i s) m = lookup_file s m"
  "lookup_file (release_held r s) m = lookup_file s m"
  by (auto simp: lookup_file_def put_file_def drop_file_def register_held_def release_held_def
      update_conv' delete_conv')

lemma held_put_drop [simp]:
  "l_held (put_file n f s) = l_held s" "l_held (drop_file n s) = l_held s"
  by (simp_all add: put_file_def drop_file_def)

lemma probe_acquirable:
  assumes "probe e s rid sc t = (Inr Acquirable, t')"
  obtains f namespace u where "sc = Sidecar_valid namespace (lf_ident f)" "lookup_file s (lock_name rid) = Some f"
    "t \<le> u" "u < t'" "\<not> e_locked e u (lf_ident f)" "lf_ident f \<notin> snd ` set (l_held s)"
proof -
  have "\<exists>f namespace u. sc = Sidecar_valid namespace (lf_ident f) \<and> lookup_file s (lock_name rid) = Some f
    \<and> t \<le> u \<and> u < t' \<and> \<not> e_locked e u (lf_ident f) \<and> lf_ident f \<notin> snd ` set (l_held s)"
    using assms
    by (auto simp: probe_def open_regular_fd_def fault_def try_flock_def Let_def
        split: sidecar.splits if_splits option.splits file_kind.splits)
  then show ?thesis using that by blast
qed

lemma remove_if_released_cases:
  "remove_if_released e s rid t = (r, s', t') \<Longrightarrow>
   s' = s \<or> (\<exists>f u. lookup_file s (lock_name rid) = Some f \<and> t \<le> u \<and> u < t' \<and> \<not> e_locked e u (lf_ident f)
     \<and> lf_ident f \<notin> snd ` set (l_held s)
     \<and> (s' = drop_file (sidecar_name rid) s \<or> s' = drop_file (lock_name rid) (drop_file (sidecar_name rid) s)))"
proof -
  assume r: "remove_if_released e s rid t = (r, s', t')"
  obtain sc t1 where sc: "read_sidecar e s rid t = (sc, t1)" by fastforce
  have "t \<le> t1"
    using sc by (auto simp: read_sidecar_def open_regular_fd_def fault_def Let_def split: if_splits option.splits file_kind.splits)
  then show ?thesis
    using r sc
    by (auto simp: remove_if_released_def open_regular_fd_def fault_def try_flock_def unlink_if_same_def Let_def
        split: sidecar.splits if_splits option.splits file_kind.splits sum.splits)
qed

text \<open>A lease this process holds survives every removal attempt.\<close>

lemma remove_keeps_held:
  assumes "remove_if_released e s rid t = (r, s', t')"
    and "lookup_file s (lock_name rid) = Some f" and "lf_ident f \<in> snd ` set (l_held s)"
  shows "s' = s"
  using remove_if_released_cases[OF assms(1)] assms(2,3) by auto

text \<open>A removal touches the two files of its own run only.\<close>

lemma remove_frame:
  assumes "remove_if_released e s rid t = (r, s', t')" and "rid' \<noteq> rid"
  shows "lookup_file s' (lock_name rid') = lookup_file s (lock_name rid')
    \<and> lookup_file s' (sidecar_name rid') = lookup_file s (sidecar_name rid') \<and> l_held s' = l_held s"
  using remove_if_released_cases[OF assms(1)] assms(2) by auto

section \<open>A created lease reads back\<close>

lemma namespace_foreign_self:
  "is_foreign n n \<longleftrightarrow> n = ''unknown''"
  by (auto simp: is_foreign_def)

lemma new_private_file [simp]:
  "private_file e (new_private_file e i n c)" "lf_ident (new_private_file e i n c) = i"
  "lf_size (new_private_file e i n c) = n" "lf_json (new_private_file e i n c) = c"
  "lf_kind (new_private_file e i n c) = Regular_file"
  by (simp_all add: new_private_file_def private_file_def)

lemma create_sidecar_ok:
  assumes "create_sidecar e s rid ident t = (Inr u, s', t')"
  obtains namespace i v where "namespace = fst (namespace_identity e v)" "lookup_file s (sidecar_name rid) = None"
    "s' = put_file (sidecar_name rid) (new_private_file e i (length (sidecar_bytes rid namespace ident))
            (Some (sidecar_json rid namespace ident))) s"
proof -
  obtain namespace t1 where n: "namespace_identity e (Suc t) = (namespace, t1)" by fastforce
  have "namespace = fst (namespace_identity e (Suc t))" by (simp add: n)
  moreover have "lookup_file s (sidecar_name rid) = None \<and> (\<exists>i.
    s' = put_file (sidecar_name rid) (new_private_file e i (length (sidecar_bytes rid namespace ident))
            (Some (sidecar_json rid namespace ident))) s)"
    using assms by (simp add: create_sidecar_def fault_def n Let_def del: split_paired_Ex split: if_splits) blast
  ultimately show ?thesis using that by blast
qed

text \<open>What a successful creation leaves behind: both files and the registry entry.\<close>

definition lease_created :: "env \<Rightarrow> string \<Rightarrow> int \<times> int \<Rightarrow> string \<Rightarrow> lease_store \<Rightarrow> lease_store \<Rightarrow> bool" where
  "lease_created e rid ident namespace s s' \<longleftrightarrow>
     hex_id 32 rid \<and> lookup_file s (lock_name rid) = None \<and> lookup_file s (sidecar_name rid) = None
     \<and> (\<exists>v. namespace = fst (namespace_identity e v)) \<and> (\<exists>v. ident = e_new_ino e v)
     \<and> (\<exists>i. s' = register_held rid ident
          (put_file (sidecar_name rid) (new_private_file e i (length (sidecar_bytes rid namespace ident))
             (Some (sidecar_json rid namespace ident)))
          (put_file (lock_name rid) (new_private_file e ident 0 None) s)))"

lemma create_ok:
  assumes "create e s rid t = (Inr ident, s', t')"
  obtains namespace where "lease_created e rid ident namespace s s'"
proof -
  let ?s1 = "put_file (lock_name rid) (new_private_file e ident 0 None) s"
  have hex: "hex_id 32 rid" and fresh: "lookup_file s (lock_name rid) = None"
    and ident: "\<exists>v. ident = e_new_ino e v"
    and w: "\<exists>s2 u t0 t1. create_sidecar e ?s1 rid ident t0 = (Inr u, s2, t1) \<and> s' = register_held rid ident s2"
    using assms
    by (auto simp: create_def create_locked_def Let_def split: if_splits sum.splits prod.splits)
  then obtain s2 u t0 t1 where w: "create_sidecar e ?s1 rid ident t0 = (Inr u, s2, t1)"
    and s': "s' = register_held rid ident s2" by blast
  show ?thesis
    by (rule create_sidecar_ok[OF w], rule that)
       (use hex fresh ident s' in \<open>auto simp: lease_created_def\<close>)
qed

lemma decode_sidecar_json:
  assumes "namespace_text namespace" and "0 \<le> fst ident" and "0 \<le> snd ident"
  shows "decode_sidecar rid (Some (sidecar_json rid namespace ident)) = Sidecar_valid namespace ident"
  using assms by (auto simp: decode_sidecar_def sidecar_json_def nonneg_int_def)

lemma str_nat_digits: "\<forall>c\<in>set (str_nat n). digit_of c \<noteq> None"
proof (induction n rule: str_nat.induct)
  case (1 n)
  have d: "digit_of (digit_char k) \<noteq> None" if "k < 10" for k
    using that by (simp add: digit_of_def digit_char_def char_code_def)
  show ?case
    using 1 d[of n] d[of "n mod 10"] by (subst str_nat.simps) auto
qed

lemma read_sidecar_created:
  assumes "lease_created e rid ident namespace s s'" and "\<not> e_fault e t" "\<not> e_fault e (Suc t)" "\<not> e_fault e (Suc (Suc t))"
    and "namespace_text namespace" and "0 \<le> fst ident" "0 \<le> snd ident"
    and "length (sidecar_bytes rid namespace ident) \<le> SIDECAR_MAX_BYTES"
  shows "fst (read_sidecar e s' rid t) = Inr (Sidecar_valid namespace ident)"
  using assms
  by (auto simp: lease_created_def read_sidecar_def open_regular_fd_def fault_def decode_sidecar_json Let_def)

text \<open>The creator's own probe never finds its lease free.\<close>

lemma probe_held:
  assumes "held_fd rid s = Some ident" and "lookup_file s (lock_name rid) = Some f" and "lf_ident f = ident"
  shows "fst (probe e s rid sc t) \<noteq> Inr Acquirable"
proof
  assume "fst (probe e s rid sc t) = Inr Acquirable"
  then obtain t' where "probe e s rid sc t = (Inr Acquirable, t')" by (metis prod.collapse)
  moreover have "ident \<in> snd ` set (l_held s)"
    using assms(1) by (force simp: held_fd_def dest: map_of_SomeD)
  ultimately show False
    using assms(2,3) by (force elim!: probe_acquirable)
qed

end
