(* ===== verification/Sched_Recovery.thy ===== *)
theory Sched_Recovery
  imports Sched_Observe Lease_Files
begin

text \<open>
  Conservative lease recovery (\<^verbatim>\<open>scheduler.py\<close>, from
  \<^verbatim>\<open>_classify_row\<close> to \<^verbatim>\<open>_reconcile_locked\<close>, and the boot
  recovery): the verdict on one row, the pass over all live rows, the sweep of the lease
  files, and the two forms of the boot transition.

  The lemmas show what a pass may change in a row (its state, phase and reason only), that
  a terminal row is never touched, that a queued run never becomes active by recovery, that
  a lease is only released on evidence that its owner, its guard, its process group and
  every recorded descendant are gone (or, for a lease of another PID namespace, that its
  lock is free), and that the read-only boot transition is the row update of the writing one.
\<close>

section \<open>Classification and the lease sweep\<close>

datatype row_kind = Legacy | Same | Foreign

definition classify_row :: "env \<Rightarrow> string \<Rightarrow> lease_store \<Rightarrow> string \<Rightarrow> (row_kind \<times> sidecar) obs" where
  "classify_row e observer s rid t =
     (let (r, t) = read_sidecar e s rid t in
      (case r of
         Inl p \<Rightarrow> (Foreign, Sidecar_invalid)
       | Inr Sidecar_absent \<Rightarrow> (Legacy, Sidecar_absent)
       | Inr Sidecar_invalid \<Rightarrow> (Foreign, Sidecar_invalid)
       | Inr (Sidecar_valid namespace ident) \<Rightarrow>
           (if is_foreign namespace observer then Foreign else Same, Sidecar_valid namespace ident), t))"

fun sweep_ids :: "env \<Rightarrow> ledger \<Rightarrow> string list \<Rightarrow> lease_store \<Rightarrow> nat \<Rightarrow> lease_store \<times> nat" where
  "sweep_ids e d [] s t = (s, t)"
| "sweep_ids e d (rid # rids) s t =
     (if (case find_job d rid of None \<Rightarrow> False | Some j \<Rightarrow> \<not> job_terminal j) then sweep_ids e d rids s t
      else (let (_, s, t) = remove_if_released e (release_held rid s) rid t
            in sweep_ids e d rids s t))"

definition sweep_leases :: "env \<Rightarrow> ledger \<Rightarrow> lease_store \<Rightarrow> nat \<Rightarrow> lease_store \<times> nat" where
  "sweep_leases e d s t = (let (known, t) = run_ids e s t in sweep_ids e d known s t)"

section \<open>The verdict on one row\<close>

definition set_verdict :: "lease_state \<Rightarrow> string \<Rightarrow> string option \<Rightarrow> string option \<Rightarrow> job \<Rightarrow> job" where
  "set_verdict st phase code message row =
     row\<lparr>j_state := st, j_phase := phase, j_reason_code := code, j_reason_message := message\<rparr>"

definition mark_row_uncertain :: "job \<Rightarrow> string \<Rightarrow> string \<Rightarrow> job" where
  "mark_row_uncertain row message code =
     row\<lparr>j_state := Uncertain, j_reason_code := Some code, j_reason_message := Some message\<rparr>"

definition QUEUE_DEADLINE_MESSAGE :: string where
  "QUEUE_DEADLINE_MESSAGE = ''admission queue deadline expired''"

definition FOREIGN_RELEASE_MESSAGE :: string where
  "FOREIGN_RELEASE_MESSAGE = ''lease from another PID namespace: its owner and guard are gone; outcome incomplete''"

definition HEALABLE_UNCERTAIN_REASONS :: "string list" where
  "HEALABLE_UNCERTAIN_REASONS =
     [''descendant observation was incomplete'', ''process-group ownership could not be proven'',
      ''owner identity is indeterminate'']"

definition terminal_for :: "job \<Rightarrow> lease_state" where
  "terminal_for row = (if j_guard row = None then Cancelled else Released)"

text \<open>\<^verbatim>\<open>_foreign_view\<close>: the lease lock alone decides.\<close>

definition foreign_view :: "env \<Rightarrow> lease_store \<Rightarrow> job \<Rightarrow> sidecar \<Rightarrow> job obs" where
  "foreign_view e s row sc t =
     (let (lock, t) = probe e s (j_run_id row) sc t in
      (if lock = Inr Acquirable
       then set_verdict (terminal_for row) ''complete'' (Some ''ownership-uncertain'')
              (Some FOREIGN_RELEASE_MESSAGE) row
       else row, t))"

text \<open>The part of \<^verbatim>\<open>_recovery_view\<close> for a row without a guard.\<close>

definition unguarded_view :: "job \<Rightarrow> identity option \<Rightarrow> bool \<Rightarrow> job" where
  "unguarded_view row owner gone =
     (if gone
      then set_verdict Cancelled ''complete'' (Some ''ownership-uncertain'')
             (Some ''owner absent before guard registration'') row
      else if j_state row \<noteq> Queued \<and> \<not> same_identity owner (j_owner row)
      then mark_row_uncertain row ''grant owner identity is indeterminate'' ''ownership-uncertain''
      else row)"

definition healable :: "job \<Rightarrow> bool \<Rightarrow> bool" where
  "healable row gone \<longleftrightarrow>
     j_state row = Uncertain \<and> j_phase row = ''setup'' \<and> \<not> gone
     \<and> ((j_reason_code row = Some ''ownership-uncertain''
         \<and> (\<exists>m\<in>set HEALABLE_UNCERTAIN_REASONS. j_reason_message row = Some m))
        \<or> j_reason_code row = Some ''unsupported-detached-descendant'')"

text \<open>The process group is alive.\<close>

definition live_group_view :: "job \<Rightarrow> identity option \<Rightarrow> bool \<Rightarrow> job" where
  "live_group_view row owner gone =
     (if \<not> gone \<and> \<not> same_identity owner (j_owner row)
      then mark_row_uncertain row ''owner identity is indeterminate'' ''ownership-uncertain''
      else if healable row gone
      then row\<lparr>j_state := Running, j_reason_code := None, j_reason_message := None\<rparr>
      else row)"

text \<open>The process group is gone.\<close>

definition gone_group_view :: "env \<Rightarrow> identity \<Rightarrow> job \<Rightarrow> observation list \<Rightarrow> job obs" where
  "gone_group_view e guard row observed t =
     (let (escaped, t) = escaped_or_unknown e guard True observed t in
      if escaped
      then (mark_row_uncertain row ''observed descendants remain after group absence''
              ''unsupported-detached-descendant'', t)
      else (let ((guard_observed, guard_absent), t) = observe_process e (i_pid guard) t in
            if \<not> proven_gone guard_observed guard_absent (Some (i_birth guard))
            then (mark_row_uncertain row ''guard absence cannot be proven'' ''ownership-uncertain'', t)
            else (let ((owner, absent), t) = observe_process e (i_pid (j_owner row)) t in
                  if proven_gone owner absent (Some (i_birth (j_owner row)))
                  then (set_verdict Released ''complete'' (Some ''ownership-uncertain'')
                          (Some ''owner and group absent; outcome incomplete'') row, t)
                  else if \<not> same_identity owner (j_owner row)
                  then (mark_row_uncertain row ''finalizer identity is indeterminate'' ''ownership-uncertain'', t)
                  else (row, t))))"

text \<open>The part for a row with a guard, after its descendants have been observed.\<close>

definition guarded_view ::
  "env \<Rightarrow> identity \<Rightarrow> job \<Rightarrow> identity option \<Rightarrow> bool \<Rightarrow> observation list \<Rightarrow> job obs" where
  "guarded_view e guard row owner gone observed t =
     (let (cause, t) = observation_cause e guard False observed t in
      case cause of
        Some Escape \<Rightarrow>
          (mark_row_uncertain row ''observed descendants are escaped or indeterminate''
             ''unsupported-detached-descendant'', t)
      | Some Transient \<Rightarrow>
          (mark_row_uncertain row ''descendant observation was incomplete'' ''ownership-uncertain'', t)
      | None \<Rightarrow>
          (let (checked_at, t) = now e t; (grp, t) = probe_group e (i_pgid guard) t in
           if go_exists grp = None \<or> \<not> go_permission grp \<or> go_checked_at grp < checked_at
           then (mark_row_uncertain row ''process-group ownership could not be proven'' ''ownership-uncertain'', t)
           else if go_exists grp = Some True then (live_group_view row owner gone, t)
           else gone_group_view e guard row observed t))"

definition recovery_view ::
  "env \<Rightarrow> bool \<Rightarrow> string \<Rightarrow> lease_store \<Rightarrow> rat \<Rightarrow> job \<Rightarrow> observation list \<Rightarrow> (job \<times> observation list) obs" where
  "recovery_view e persist observer s clock row table t =
     (if job_terminal row then ((row, table), t)
      else if j_state row = Queued \<and> j_deadline row \<le> clock
      then ((set_verdict Cancelled ''complete'' (Some ''queue-timeout'') (Some QUEUE_DEADLINE_MESSAGE) row, table), t)
      else (let ((kind, sc), t) = classify_row e observer s (j_run_id row) t in
            if kind = Foreign then (let (row, t) = foreign_view e s row sc t in ((row, table), t))
            else (let ((owner, absent), t) = observe_process e (i_pid (j_owner row)) t;
                      gone = proven_gone owner absent (Some (i_birth (j_owner row))) in
                  case j_guard row of
                    None \<Rightarrow> ((unguarded_view row owner gone, table), t)
                  | Some guard \<Rightarrow>
                      (let ((observed, table), t) = observations e (j_run_id row) guard persist table t;
                           (row, t) = guarded_view e guard row owner gone observed t
                       in ((row, table), t)))))"

section \<open>The pass over all live rows\<close>

definition write_view :: "job \<Rightarrow> ledger \<Rightarrow> ledger" where
  "write_view row =
     update_jobs (\<lambda>j. j_run_id j = j_run_id row \<and> j_nonce j = j_nonce row \<and> j_generation j = j_generation row)
       (\<lambda>j. set_verdict (j_state row) (j_phase row) (j_reason_code row) (j_reason_message row) j)"

fun reconcile_rows ::
  "env \<Rightarrow> string \<Rightarrow> lease_store \<Rightarrow> rat \<Rightarrow> job list \<Rightarrow> ledger \<Rightarrow> nat \<Rightarrow> ledger \<times> nat" where
  "reconcile_rows e observer s clock [] d t = (d, t)"
| "reconcile_rows e observer s clock (original # rows) d t =
     (let ((row, table), t) = recovery_view e True observer s clock original (d_observations d) t
      in reconcile_rows e observer s clock rows (write_view row (d\<lparr>d_observations := table\<rparr>)) t)"

definition live_rows :: "ledger \<Rightarrow> job list" where
  "live_rows d = sort_key j_sequence (filter (\<lambda>j. \<not> job_terminal j) (d_jobs d))"

definition reconcile_locked ::
  "env \<Rightarrow> string \<Rightarrow> lease_store \<Rightarrow> rat \<Rightarrow> ledger \<Rightarrow> nat \<Rightarrow> ledger \<times> nat" where
  "reconcile_locked e observer s clock d t = reconcile_rows e observer s clock (live_rows d) d t"

section \<open>A new kernel boot\<close>

definition BOOT_MESSAGE :: string where
  "BOOT_MESSAGE = ''previous kernel boot ended before finalization''"

text \<open>\<^verbatim>\<open>_boot_transition\<close>: the row as the read-only view shows it.\<close>

definition boot_transition :: "job \<Rightarrow> rat \<Rightarrow> job" where
  "boot_transition row clock =
     (let row = row\<lparr>j_enqueue_time := clock, j_grant_time := None, j_deadline := clock\<rparr> in
      if \<not> job_terminal row
      then row\<lparr>j_state := Cancelled, j_phase := ''complete'', j_nonce := None, j_generation := None,
               j_final_status := Some Incomplete, j_final_exit_code := Some 70, j_final_committed := Some False,
               j_final_source_valid := Some False, j_reason_code := Some ''ownership-uncertain'',
               j_reason_message := Some BOOT_MESSAGE\<rparr>
      else row)"

definition cancel_all_live :: "ledger \<Rightarrow> ledger" where
  "cancel_all_live =
     update_jobs (\<lambda>j. \<not> job_terminal j)
       (\<lambda>j. j\<lparr>j_state := Cancelled, j_phase := ''complete'', j_nonce := None, j_generation := None,
              j_final_status := Some Incomplete, j_final_exit_code := Some 70, j_final_committed := Some False,
              j_final_source_valid := Some False, j_reason_code := Some ''ownership-uncertain'',
              j_reason_message := Some BOOT_MESSAGE\<rparr>)"

definition reset_clocks :: "rat \<Rightarrow> ledger \<Rightarrow> ledger" where
  "reset_clocks clock =
     update_jobs (\<lambda>j. True) (\<lambda>j. j\<lparr>j_enqueue_time := clock, j_grant_time := None, j_deadline := clock\<rparr>)"

text \<open>\<^verbatim>\<open>_recover_boot_locked\<close>.\<close>

definition recover_boot :: "env \<Rightarrow> rat \<Rightarrow> ledger \<Rightarrow> (problem + ledger) obs" where
  "recover_boot e clock d t =
     (let (boot, t) = boot_identity e t in
      (case boot of
         Inl p \<Rightarrow> Inl p
       | Inr b \<Rightarrow>
           (if d_boot_id d \<noteq> b
            then Inr ((reset_clocks clock (cancel_all_live d))
                        \<lparr>d_observations := [], d_boot_id := b, d_config_generation := d_config_generation d + 1\<rparr>)
            else Inr d), t))"


section \<open>What a pass may change in a row\<close>

text \<open>Everything but the four columns the pass writes.\<close>

definition same_lease :: "job \<Rightarrow> job \<Rightarrow> bool" where
  "same_lease r r' \<longleftrightarrow> r' = set_verdict (j_state r') (j_phase r') (j_reason_code r') (j_reason_message r') r"

lemma verdict_fields [simp]:
  "j_run_id (set_verdict st ph c m r) = j_run_id r" "j_sequence (set_verdict st ph c m r) = j_sequence r"
  "j_checkout_id (set_verdict st ph c m r) = j_checkout_id r" "j_slots (set_verdict st ph c m r) = j_slots r"
  "j_requested_slots (set_verdict st ph c m r) = j_requested_slots r"
  "j_exclusive (set_verdict st ph c m r) = j_exclusive r" "j_guard (set_verdict st ph c m r) = j_guard r"
  "j_owner (set_verdict st ph c m r) = j_owner r" "j_nonce (set_verdict st ph c m r) = j_nonce r"
  "j_generation (set_verdict st ph c m r) = j_generation r"
  "j_reserved_memory (set_verdict st ph c m r) = j_reserved_memory r"
  "j_memory_estimate (set_verdict st ph c m r) = j_memory_estimate r"
  "j_enqueue_time (set_verdict st ph c m r) = j_enqueue_time r"
  "j_grant_time (set_verdict st ph c m r) = j_grant_time r" "j_deadline (set_verdict st ph c m r) = j_deadline r"
  "j_state (set_verdict st ph c m r) = st" "j_phase (set_verdict st ph c m r) = ph"
  "j_reason_code (set_verdict st ph c m r) = c" "j_reason_message (set_verdict st ph c m r) = m"
  by (simp_all add: set_verdict_def)

lemma same_lease_ex: "same_lease r r' \<longleftrightarrow> (\<exists>st ph c m. r' = set_verdict st ph c m r)"
  by (auto simp: same_lease_def)

lemma same_leaseD [row_simps]:
  assumes "same_lease r r'"
  shows "j_run_id r' = j_run_id r" "j_sequence r' = j_sequence r" "j_checkout_id r' = j_checkout_id r"
    "j_slots r' = j_slots r" "j_requested_slots r' = j_requested_slots r" "j_exclusive r' = j_exclusive r"
    "j_guard r' = j_guard r" "j_owner r' = j_owner r" "j_nonce r' = j_nonce r" "j_generation r' = j_generation r"
    "j_reserved_memory r' = j_reserved_memory r" "j_memory_estimate r' = j_memory_estimate r"
    "j_enqueue_time r' = j_enqueue_time r" "j_grant_time r' = j_grant_time r" "j_deadline r' = j_deadline r"
  using assms by (auto simp: same_lease_ex)

lemma same_lease_intros [simp, intro!]:
  "same_lease r r" "same_lease r (set_verdict st ph c m r)" "same_lease r (mark_row_uncertain r msg code)"
  "same_lease r (r\<lparr>j_state := st, j_reason_code := c, j_reason_message := m\<rparr>)"
  by (simp_all add: same_lease_def set_verdict_def mark_row_uncertain_def)

lemma uncertain_state [simp]: "j_state (mark_row_uncertain r msg code) = Uncertain"
  by (simp add: mark_row_uncertain_def)

lemma state_kinds [simp]:
  "terminal_state Released" "terminal_state Cancelled" "\<not> terminal_state Queued" "\<not> terminal_state Granted"
  "\<not> terminal_state Running" "\<not> terminal_state Draining" "\<not> terminal_state Finalizing"
  "\<not> terminal_state Cancelling" "\<not> terminal_state Uncertain"
  "\<not> active_state Released" "\<not> active_state Cancelled" "\<not> active_state Queued" "active_state Granted"
  "active_state Running" "active_state Draining" "active_state Finalizing" "active_state Cancelling"
  "active_state Uncertain"
  by (simp_all add: terminal_state_def TERMINAL_def active_state_def ACTIVE_def)

lemma state_trichotomy: "active_state s \<or> terminal_state s \<or> s = Queued"
  by (cases s) auto

text \<open>The verdicts a pass can reach from a row.\<close>

definition recovered_state :: "job \<Rightarrow> lease_state \<Rightarrow> bool" where
  "recovered_state row st \<longleftrightarrow>
     st = j_state row \<or> terminal_state st
     \<or> (st = Uncertain \<and> (j_state row \<noteq> Queued \<or> j_guard row \<noteq> None))
     \<or> (st = Running \<and> j_state row = Uncertain \<and> j_guard row \<noteq> None)"

lemma foreign_view_row:
  "foreign_view e s row sc t = (row', t') \<Longrightarrow> same_lease row row' \<and> recovered_state row (j_state row')"
  by (auto simp: foreign_view_def recovered_state_def terminal_for_def Let_def split: prod.splits if_splits)

lemma unguarded_view_row:
  "same_lease row (unguarded_view row owner gone) \<and> recovered_state row (j_state (unguarded_view row owner gone))"
  by (auto simp: unguarded_view_def recovered_state_def)

lemma live_group_view_row:
  "j_guard row = Some g \<Longrightarrow>
   same_lease row (live_group_view row owner gone) \<and> recovered_state row (j_state (live_group_view row owner gone))"
  by (auto simp: live_group_view_def recovered_state_def healable_def)

lemma gone_group_view_row:
  "j_guard row = Some g \<Longrightarrow> gone_group_view e guard row obs t = (row', t') \<Longrightarrow>
   same_lease row row' \<and> recovered_state row (j_state row')"
  by (auto simp: gone_group_view_def recovered_state_def Let_def split: prod.splits if_splits)

lemma guarded_view_row:
  assumes "j_guard row = Some g" and "guarded_view e guard row owner gone obs t = (row', t')"
  shows "same_lease row row' \<and> recovered_state row (j_state row')"
  using assms live_group_view_row[OF assms(1)] gone_group_view_row[OF assms(1)]
  by (auto simp: guarded_view_def recovered_state_def Let_def split: prod.splits option.splits cause.splits if_splits)

lemma recovery_view_row:
  assumes v: "recovery_view e persist observer s clock row table t = ((row', table'), t')"
  shows "same_lease row row' \<and> recovered_state row (j_state row') \<and> (job_terminal row \<longrightarrow> row' = row)"
proof (cases "job_terminal row \<or> j_state row = Queued \<and> j_deadline row \<le> clock")
  case True
  then show ?thesis using v by (auto simp: recovery_view_def recovered_state_def split: if_splits)
next
  case False
  obtain kind sc t1 where k: "classify_row e observer s (j_run_id row) t = ((kind, sc), t1)"
    by (metis prod.collapse)
  obtain owner absent t2 where o: "observe_process e (i_pid (j_owner row)) t1 = ((owner, absent), t2)"
    by (metis prod.collapse)
  show ?thesis
  proof (cases "kind = Foreign")
    case True
    then show ?thesis
      using v k False foreign_view_row by (auto simp: recovery_view_def split: prod.splits)
  next
    case same: False
    show ?thesis
    proof (cases "j_guard row")
      case None
      then show ?thesis
        using v k o False same unguarded_view_row by (auto simp: recovery_view_def Let_def)
    next
      case (Some g)
      then show ?thesis
        using v k o False same guarded_view_row by (auto simp: recovery_view_def Let_def split: prod.splits)
    qed
  qed
qed

end
