(* ===== verification/Sched_Limits.thy ===== *)
theory Sched_Limits
  imports Sched_Data
begin

text \<open>
  Machine limits (\<^verbatim>\<open>scheduler.py\<close>): the CPUs a machine really offers (affinity,
  cgroup-v2 quotas and cpusets), the default and the configured \<^verbatim>\<open>machine.toml\<close>
  limits, their narrowing while runs are live, and the slot and memory arithmetic of a
  request. The lemmas show that a cpuset is counted exactly, that every limit triple the
  scheduler ever works with is one \<^verbatim>\<open>EffectiveLimits\<close> accepts, and that a request
  is never given more than it asked for.
\<close>

type_synonym limits = "int \<times> int \<times> int option"

section \<open>CPU sets\<close>

text \<open>\<^verbatim>\<open>_cpuset_size\<close>, first the parsing of \<^verbatim>\<open>0-3,8\<close>, then the count.\<close>

definition parse_interval :: "string \<Rightarrow> (int \<times> int) option" where
  "parse_interval component =
     (let limits = split_on (CHR ''-'') component in
      if length limits \<notin> {1, 2} then None
      else (case (py_int (hd limits), py_int (last limits)) of
              (Some lo, Some hi) \<Rightarrow> (if lo < 0 \<or> hi < lo then None else Some (lo, hi))
            | _ \<Rightarrow> None))"

fun parse_intervals :: "string list \<Rightarrow> (int \<times> int) list option" where
  "parse_intervals [] = Some []"
| "parse_intervals (c # cs) =
     (case parse_interval c of
        None \<Rightarrow> None
      | Some i \<Rightarrow> map_option ((#) i) (parse_intervals cs))"

fun count_intervals :: "int \<Rightarrow> int \<Rightarrow> (int \<times> int) list \<Rightarrow> int" where
  "count_intervals tot stop [] = tot"
| "count_intervals tot stop ((lo, hi) # rest) =
     count_intervals (tot + max 0 (hi - max lo (stop + 1) + 1)) (max stop hi) rest"

definition cpuset_size :: "string \<Rightarrow> int option" where
  "cpuset_size value =
     map_option (\<lambda>intervals. count_intervals 0 (-1) (sort intervals))
       (parse_intervals (split_on (CHR '','') value))"

section \<open>The cgroup-v2 ancestry\<close>

datatype file_read = Missing_file | Failed_read | File_text string

text \<open>\<^verbatim>\<open>_read_cpu_file\<close>: an oversized or unreadable file is \<open>Failed_read\<close>.\<close>

definition MACHINE_MAX_BYTES :: nat where "MACHINE_MAX_BYTES = 65536"

definition read_cpu_file :: "(string \<Rightarrow> file_read) \<Rightarrow> string \<Rightarrow> file_read" where
  "read_cpu_file fs path =
     (case fs path of
        File_text data \<Rightarrow> (if MACHINE_MAX_BYTES < length data then Failed_read else File_text (strip data))
      | r \<Rightarrow> r)"

text \<open>A \<^verbatim>\<open>PurePosixPath\<close>: its root and its components.\<close>

definition path_root :: "string \<Rightarrow> string" where
  "path_root s = (if starts_with ''//'' s \<and> \<not> starts_with ''///'' s then ''//''
                  else if starts_with ''/'' s then ''/'' else '''')"

definition path_parts :: "string \<Rightarrow> string list" where
  "path_parts s = filter (\<lambda>p. p \<noteq> [] \<and> p \<noteq> ''.'') (split_on (CHR ''/'') s)"

definition relative_to :: "string \<Rightarrow> string \<Rightarrow> string list option" where
  "relative_to p base =
     (if path_root p = path_root base
         \<and> take (length (path_parts base)) (path_parts p) = path_parts base
      then Some (drop (length (path_parts base)) (path_parts p)) else None)"

fun index_of :: "'a \<Rightarrow> 'a list \<Rightarrow> nat option" where
  "index_of x [] = None"
| "index_of x (y # ys) = (if y = x then Some 0 else map_option Suc (index_of x ys))"

definition mount_root :: "string \<Rightarrow> string option" where
  "mount_root line =
     (let fields = split_words line in
      case index_of ''-'' fields of
        None \<Rightarrow> None
      | Some k \<Rightarrow>
          (if 6 \<le> k \<and> k + 1 < length fields \<and> fields ! (k + 1) = ''cgroup2'' \<and> fields ! 4 = ''/sys/fs/cgroup''
           then Some (fields ! 3) else None))"

text \<open>A line whose separator is its last field makes \<^verbatim>\<open>fields[separator + 1]\<close> raise.\<close>

definition mount_line_bad :: "string \<Rightarrow> bool" where
  "mount_line_bad line =
     (let fields = split_words line in
      case index_of ''-'' fields of None \<Rightarrow> False | Some k \<Rightarrow> 6 \<le> k \<and> length fields \<le> k + 1)"

definition cpu_max_bound :: "string \<Rightarrow> int list option" where
  "cpu_max_bound text =
     (case split_words text of
        [quota, period] \<Rightarrow>
          (case py_int period of
             None \<Rightarrow> None
           | Some p \<Rightarrow>
               (if p \<le> 0 then None
                else if quota = ''max'' then Some []
                else (case py_int quota of
                        None \<Rightarrow> None
                      | Some q \<Rightarrow> (if q \<le> 0 then None else Some [max 1 (q div p)]))))
      | _ \<Rightarrow> None)"

definition cgroup_level :: "(string \<Rightarrow> file_read) \<Rightarrow> string list \<Rightarrow> int list option" where
  "cgroup_level fs parts =
     (let dir = join_with ''/'' (''/sys/fs/cgroup'' # parts);
          quota = (case read_cpu_file fs (dir @ ''/cpu.max'') of
                     Missing_file \<Rightarrow> Some [] | Failed_read \<Rightarrow> None | File_text s \<Rightarrow> cpu_max_bound s);
          cpus = (case read_cpu_file fs (dir @ ''/cpuset.cpus.effective'') of
                    Missing_file \<Rightarrow> Some [] | Failed_read \<Rightarrow> None
                  | File_text s \<Rightarrow> (if s = [] then Some [] else map_option (\<lambda>n. [n]) (cpuset_size s)))
      in case (quota, cpus) of (Some q, Some c) \<Rightarrow> Some (q @ c) | _ \<Rightarrow> None)"

text \<open>The walk from the group of this process up to the root; the parts are innermost first.\<close>

fun cgroup_walk :: "(string \<Rightarrow> file_read) \<Rightarrow> string list \<Rightarrow> int list option" where
  "cgroup_walk fs [] = cgroup_level fs []"
| "cgroup_walk fs (p # ps) =
     (case cgroup_level fs (rev (p # ps)) of
        None \<Rightarrow> None
      | Some b \<Rightarrow> map_option ((@) b) (cgroup_walk fs ps))"

definition cgroup_cpu_bounds :: "(string \<Rightarrow> file_read) \<Rightarrow> int list option" where
  "cgroup_cpu_bounds fs =
     (case read_cpu_file fs ''/proc/self/cgroup'' of
        File_text memberships \<Rightarrow>
          (case map (drop 3) (filter (starts_with ''0::'') (split_lines memberships)) of
             [member] \<Rightarrow>
               (if path_root member = [] \<or> ''..'' \<in> set (path_parts member) then None
                else (case read_cpu_file fs ''/proc/self/mountinfo'' of
                        File_text info \<Rightarrow>
                          (if \<exists>line\<in>set (split_lines info). mount_line_bad line then None
                           else (case List.map_filter mount_root (split_lines info) of
                                   [mount] \<Rightarrow>
                                     (if ''..'' \<in> set (path_parts mount) then None
                                      else (case relative_to member mount of
                                              None \<Rightarrow> None
                                            | Some rel \<Rightarrow>
                                                (if MAX_OBSERVATIONS < length rel then None
                                                 else cgroup_walk fs (rev rel))))
                                 | _ \<Rightarrow> None))
                      | _ \<Rightarrow> None))
           | _ \<Rightarrow> None)
      | _ \<Rightarrow> None)"

text \<open>
  \<^verbatim>\<open>_usable_cpus\<close>: \<open>None\<close> for the CPU count or the affinity is a failed read; every
  failure leaves one usable CPU.
\<close>

definition usable_cpus :: "int option \<Rightarrow> bool \<Rightarrow> int option \<Rightarrow> (string \<Rightarrow> file_read) \<Rightarrow> int" where
  "usable_cpus cpu_count linux affinity fs =
     (case cpu_count of
        None \<Rightarrow> 1
      | Some count \<Rightarrow>
          (if count < 1 then 1
           else if \<not> linux then count
           else (case (affinity, cgroup_cpu_bounds fs) of
                   (Some a, Some bounds) \<Rightarrow>
                     (let least = foldl min count (a # bounds) in if least < 1 then 1 else least)
                 | _ \<Rightarrow> 1)))"

section \<open>The machine configuration\<close>

definition default_limits :: "int \<Rightarrow> int \<times> int" where
  "default_limits available =
     (let slots = min 4 (max 1 (available div 2)) in (slots, min 2 slots))"

definition default_machine_config :: "int \<Rightarrow> string" where
  "default_machine_config available =
     (case default_limits available of
        (slots, jobs) \<Rightarrow> ''max_slots = '' @ str_int slots @ [CHR 0x0A] @ ''max_jobs = '' @ str_int jobs @ [CHR 0x0A])"

definition check_int :: "toml \<Rightarrow> int \<Rightarrow> int \<Rightarrow> string \<Rightarrow> problem + int" where
  "check_int v lo hi label =
     (case v of
        TInt i \<Rightarrow> (if lo \<le> i \<and> i \<le> hi then Inr i
                   else Inl (sched_problem ''invalid-config'' (label @ '' is outside its allowed range'')))
      | _ \<Rightarrow> Inl (sched_problem ''invalid-config'' (label @ '' is outside its allowed range'')))"

definition parse_memory :: "bool \<Rightarrow> (string \<times> toml) list \<Rightarrow> problem + int option" where
  "parse_memory fixture tbl =
     (case map_of tbl ''memory_mb'' of
        None \<Rightarrow> Inr None
      | Some v \<Rightarrow>
          (case check_int v 64 1048576 ''memory_mb'' of
             Inl p \<Rightarrow> Inl p
           | Inr m \<Rightarrow>
               (if fixture then Inl (sched_problem ''invalid-config'' ''fixture limits do not declare memory_mb'')
                else Inr (Some m))))"

definition parse_limits :: "toml \<Rightarrow> bool \<Rightarrow> problem + limits" where
  "parse_limits data fixture =
     (case data of
        TTable tbl \<Rightarrow>
          (if \<exists>k\<in>set (map fst tbl). k \<notin> {''max_slots'', ''max_jobs'', ''memory_mb''}
           then Inl (sched_problem ''invalid-config'' ''machine limits contain unknown fields'')
           else (case (map_of tbl ''max_slots'', map_of tbl ''max_jobs'') of
                   (Some s, Some k) \<Rightarrow>
                     (let hi = (if fixture then 4 else 64) in
                      case check_int s 1 hi ''max_slots'' of
                        Inl p \<Rightarrow> Inl p
                      | Inr slots \<Rightarrow>
                          (case check_int k 1 hi ''max_jobs'' of
                             Inl p \<Rightarrow> Inl p
                           | Inr jobs \<Rightarrow>
                               (if slots < jobs then Inl (sched_problem ''invalid-config'' ''max_jobs exceeds max_slots'')
                                else (case parse_memory fixture tbl of
                                        Inl p \<Rightarrow> Inl p
                                      | Inr memory \<Rightarrow> Inr (slots, jobs, memory)))))
                 | _ \<Rightarrow> Inl (sched_problem ''invalid-config'' ''machine limits require paired slots and jobs'')))
      | _ \<Rightarrow> Inl (sched_problem ''invalid-config'' ''machine limits are not a table''))"

text \<open>\<^verbatim>\<open>_load_config_limits\<close> of a normal domain whose configuration file exists.\<close>

definition load_config_limits :: "env \<Rightarrow> (problem + limits) obs" where
  "load_config_limits e t =
     (case e_machine e t of
        Inl p \<Rightarrow> Inl p
      | Inr None \<Rightarrow> Inl (sched_problem ''invalid-config'' ''machine.toml is not valid TOML'')
      | Inr (Some data) \<Rightarrow> parse_limits data False,
      Suc t)"

text \<open>The checks of \<^verbatim>\<open>EffectiveLimits\<close>.\<close>

definition valid_limits :: "limits \<Rightarrow> bool" where
  "valid_limits l =
     (case l of (slots, jobs, memory) \<Rightarrow>
        1 \<le> slots \<and> slots \<le> 64 \<and> 1 \<le> jobs \<and> jobs \<le> 64 \<and> jobs \<le> slots
        \<and> (case memory of None \<Rightarrow> True | Some m \<Rightarrow> 64 \<le> m \<and> m \<le> 1048576))"

definition ledger_limits :: "ledger \<Rightarrow> limits" where
  "ledger_limits d = (d_config_slots d, d_config_jobs d, d_config_memory d)"

definition narrow_memory :: "int option \<Rightarrow> int option \<Rightarrow> int option" where
  "narrow_memory requested old =
     (case old of
        None \<Rightarrow> requested
      | Some b \<Rightarrow> (case requested of None \<Rightarrow> Some b | Some a \<Rightarrow> Some (min a b)))"

text \<open>\<^verbatim>\<open>_selected_limits\<close>: while any run is live or queued the limits can only narrow.\<close>

definition selected_limits :: "ledger \<Rightarrow> limits \<Rightarrow> limits \<Rightarrow> limits" where
  "selected_limits d requested old =
     (if active_count d \<noteq> 0 \<or> pending_count d \<noteq> 0
      then (min (fst requested) (fst old), min (fst (snd requested)) (fst (snd old)),
            narrow_memory (snd (snd requested)) (snd (snd old)))
      else requested)"

definition refresh_limits :: "env \<Rightarrow> ledger \<Rightarrow> (problem + ledger) obs" where
  "refresh_limits e d t =
     (let (loaded, t) = load_config_limits e t in
      case loaded of
        Inl p \<Rightarrow> (Inl p, t)
      | Inr asked \<Rightarrow>
          (let old = ledger_limits d; requested = selected_limits d asked old in
           if requested = old then (Inr d, t)
           else (Inr (d\<lparr>d_config_slots := fst requested, d_config_jobs := fst (snd requested),
                        d_config_memory := snd (snd requested),
                        d_config_generation := d_config_generation d + 1\<rparr>), t)))"

section \<open>Slots and memory of one request\<close>

definition actual_slots :: "int \<Rightarrow> int \<Rightarrow> int option \<Rightarrow> int option \<Rightarrow> int" where
  "actual_slots requested max_slots memory budget =
     (let slots = min requested max_slots in
      if budget \<noteq> None \<and> memory = None then min slots 1 else slots)"

definition memory_values :: "int \<Rightarrow> int option \<Rightarrow> int option \<Rightarrow> int option \<times> int option" where
  "memory_values slots per_worker budget =
     (let estimate = map_option (\<lambda>m. m * slots) per_worker in
      case budget of
        None \<Rightarrow> (estimate, estimate)
      | Some b \<Rightarrow> (estimate, if per_worker = None then Some b else estimate))"

section \<open>Properties\<close>

lemma card_interval_extend:
  assumes "finite A" and "\<forall>x\<in>A. x \<le> stop" and "{lo..stop} \<subseteq> A"
  shows "int (card (A \<union> {lo..hi})) = int (card A) + max 0 (hi - max lo (stop + 1) + 1)"
proof -
  have new: "{lo..hi} - A = {max lo (stop + 1)..hi}"
    using assms(2,3) by force
  have "card (A \<union> {lo..hi}) = card A + card ({lo..hi} - A)"
    using assms(1) by (metis Un_Diff_cancel card_Un_disjoint Diff_disjoint finite_Diff finite_atLeastAtMost_int)
  then show ?thesis
    by (simp add: new)
qed

lemma count_intervals_union:
  "sorted (map fst xs) \<Longrightarrow> finite A \<Longrightarrow> \<forall>x\<in>A. x \<le> stop
   \<Longrightarrow> \<forall>i\<in>set xs. {fst i..stop} \<subseteq> A \<Longrightarrow>
   count_intervals (int (card A)) stop xs = int (card (A \<union> (\<Union>i\<in>set xs. {fst i..snd i})))"
proof (induction xs arbitrary: A stop)
  case (Cons i rest)
  obtain lo hi where i: "i = (lo, hi)" by (cases i)
  let ?B = "A \<union> {lo..hi}"
  have step: "int (card ?B) = int (card A) + max 0 (hi - max lo (stop + 1) + 1)"
    using Cons.prems i by (intro card_interval_extend) auto
  have "count_intervals (int (card ?B)) (max stop hi) rest
      = int (card (?B \<union> (\<Union>i\<in>set rest. {fst i..snd i})))"
  proof (rule Cons.IH)
    show "\<forall>k\<in>set rest. {fst k..max stop hi} \<subseteq> ?B"
    proof (intro ballI subsetI)
      fix k x assume k: "k \<in> set rest" and x: "x \<in> {fst k..max stop hi}"
      have "lo \<le> fst k" using Cons.prems(1) k i by auto
      then show "x \<in> ?B"
        using Cons.prems(4) k x i by (cases "x \<le> stop") auto
    qed
  qed (use Cons.prems i in auto)
  then show ?case by (simp add: i step Un_assoc)
qed simp

text \<open>The CPU count of a list of intervals is the number of CPUs in their union.\<close>

lemma count_intervals_card:
  assumes "\<forall>i\<in>set xs. 0 \<le> fst i \<and> fst i \<le> snd i"
  shows "count_intervals 0 (-1) (sort xs) = int (card (\<Union>i\<in>set xs. {fst i..snd i}))"
proof -
  have "sorted_wrt (\<lambda>x y. fst x \<le> fst y) (sort xs)"
    by (rule sorted_wrt_mono_rel[OF _ sorted_sort]) (auto simp: less_eq_prod_def)
  then have "sorted (map fst (sort xs))"
    by (simp add: sorted_wrt_map)
  moreover have "\<forall>i\<in>set xs. \<not> fst i \<le> - 1"
    using assms by force
  ultimately show ?thesis
    using count_intervals_union[of "sort xs" "{}" "-1"] by simp
qed

lemma parse_intervals_ok:
  "parse_intervals cs = Some xs \<Longrightarrow> \<forall>i\<in>set xs. 0 \<le> fst i \<and> fst i \<le> snd i"
  by (induction cs arbitrary: xs)
     (auto simp: parse_interval_def Let_def split: option.splits if_splits)

lemma cpuset_size_card:
  assumes "parse_intervals (split_on (CHR '','') value) = Some xs"
  shows "cpuset_size value = Some (int (card (\<Union>i\<in>set xs. {fst i..snd i})))"
  using assms by (simp add: cpuset_size_def count_intervals_card parse_intervals_ok)

lemma foldl_min_le: "foldl min (a::int) xs \<le> a \<and> (\<forall>x\<in>set xs. foldl min a xs \<le> x)"
  by (induction xs arbitrary: a) (auto simp: min_le_iff_disj, (metis min.cobounded1 min.cobounded2 order_trans)+)

lemma usable_cpus_pos: "1 \<le> usable_cpus c l a fs"
  by (auto simp: usable_cpus_def Let_def split: option.splits)

lemma usable_cpus_le: "c = Some n \<Longrightarrow> 1 \<le> n \<Longrightarrow> usable_cpus c l a fs \<le> n"
  by (auto simp: usable_cpus_def Let_def split: option.splits
      intro: order_trans[OF conjunct1[OF foldl_min_le]])

lemma default_limits_valid: "case default_limits n of (s, k) \<Rightarrow> valid_limits (s, k, None) \<and> s \<le> 4"
  by (auto simp: default_limits_def valid_limits_def Let_def)

lemma parse_limits_valid: "parse_limits data fixture = Inr l \<Longrightarrow> valid_limits l"
  by (auto simp: parse_limits_def parse_memory_def check_int_def valid_limits_def Let_def
      split: toml.splits if_splits option.splits sum.splits)

lemma selected_limits_valid:
  "valid_limits requested \<Longrightarrow> valid_limits old \<Longrightarrow> valid_limits (selected_limits d requested old)"
  by (auto simp: selected_limits_def valid_limits_def narrow_memory_def split: option.splits)

lemma load_config_limits_valid: "load_config_limits e t = (Inr l, t') \<Longrightarrow> valid_limits l"
  by (auto simp: load_config_limits_def parse_limits_valid split: sum.splits option.splits)

lemma refresh_limits_tables:
  assumes "refresh_limits e d t = (Inr d', t')"
  shows "d_jobs d' = d_jobs d \<and> d_resources d' = d_resources d \<and> d_observations d' = d_observations d
    \<and> d_domain_id d' = d_domain_id d \<and> d_boot_id d' = d_boot_id d"
  using assms by (auto simp: refresh_limits_def Let_def split: prod.splits sum.splits if_splits)

lemma refresh_limits_valid:
  assumes "refresh_limits e d t = (Inr d', t')" and "valid_limits (ledger_limits d)"
  shows "valid_limits (ledger_limits d')"
proof -
  obtain asked t1 where l: "load_config_limits e t = (Inr asked, t1)"
    using assms by (auto simp: refresh_limits_def split: prod.splits sum.splits)
  have "valid_limits (selected_limits d asked (ledger_limits d))"
    by (rule selected_limits_valid[OF load_config_limits_valid[OF l] assms(2)])
  then show ?thesis
    using assms l by (auto simp: refresh_limits_def Let_def ledger_limits_def split: if_splits)
qed

lemma refresh_limits_narrows:
  assumes "refresh_limits e d t = (Inr d', t')" and "active_count d \<noteq> 0 \<or> pending_count d \<noteq> 0"
  shows "d_config_slots d' \<le> d_config_slots d \<and> d_config_jobs d' \<le> d_config_jobs d"
  using assms
  by (auto simp: refresh_limits_def selected_limits_def ledger_limits_def Let_def
      split: prod.splits sum.splits if_splits)

lemma actual_slots_le: "actual_slots requested max_slots memory budget \<le> requested
    \<and> actual_slots requested max_slots memory budget \<le> max_slots"
  by (auto simp: actual_slots_def Let_def)

lemma actual_slots_pos: "1 \<le> requested \<Longrightarrow> 1 \<le> max_slots \<Longrightarrow> 1 \<le> actual_slots requested max_slots memory budget"
  by (auto simp: actual_slots_def Let_def)

end
