(* ===== verification/Sched_Admission.thy ===== *)
theory Sched_Admission
  imports Sched_Recovery Sched_Limits
begin

text \<open>
  Admission (\<^verbatim>\<open>scheduler.py\<close>): \<^verbatim>\<open>enqueue\<close> appends one request to the queue of
  the domain, \<^verbatim>\<open>poll\<close> grants queued runs in strict sequence order while the slots,
  the job limit, exclusivity, the checkout, the named locks and the memory budget allow it.

  A handler is a function from the ledger, the lease files and the tick to its outcome: the
  answer or the problem it raises, and the state it leaves. A transaction that fails is
  rolled back, so its outcome carries the ledger it began with; the lease files are not
  transactional and keep what the handler did to them. The handlers start from the ledger
  \<^verbatim>\<open>_open_state\<close> has read.
\<close>

type_synonym 'a outcome = "(problem + 'a) \<times> ledger \<times> lease_store \<times> nat"

text \<open>What every recovering handler does first: boot recovery, then the pass over the rows.\<close>

definition recover_ledger ::
  "env \<Rightarrow> string \<Rightarrow> lease_store \<Rightarrow> rat \<Rightarrow> ledger \<Rightarrow> (problem + ledger) obs" where
  "recover_ledger e observer s clock d t =
     (let (booted, t) = recover_boot e clock d t in
      case booted of
        Inl p \<Rightarrow> (Inl p, t)
      | Inr d \<Rightarrow> (let (d, t) = reconcile_locked e observer s clock d t in (Inr d, t)))"

section \<open>Nested invocations\<close>

datatype nested = Not_nested | Refused problem | Ancestry_transient string

definition uncertain_problem :: "string \<Rightarrow> problem" where
  "uncertain_problem message = sched_problem ''ownership-uncertain'' message"

fun local_guards :: "env \<Rightarrow> string \<Rightarrow> lease_store \<Rightarrow> job list \<Rightarrow> job list obs" where
  "local_guards e observer s [] t = ([], t)"
| "local_guards e observer s (row # rows) t =
     (let ((kind, _), t) = classify_row e observer s (j_run_id row) t;
          (kept, t) = local_guards e observer s rows t
      in (if kind = Foreign then kept else row # kept, t))"

definition guard_matches :: "identity \<Rightarrow> job \<Rightarrow> bool" where
  "guard_matches i row \<longleftrightarrow>
     (case j_guard row of None \<Rightarrow> False | Some g \<Rightarrow> i_pid i = i_pid g \<or> i_pgid i = i_pgid g)"

text \<open>
  The walk up the ancestry of the owner; the budget is what \<open>MAX_OBSERVATIONS\<close> leaves
  after the visited processes.
\<close>

fun ancestry_walk :: "env \<Rightarrow> job list \<Rightarrow> nat \<Rightarrow> int list \<Rightarrow> int \<Rightarrow> nested obs" where
  "ancestry_walk e guards n visited pid t =
     (if pid = 0 then (Not_nested, t)
      else case n of
        0 \<Rightarrow> (Refused (uncertain_problem ''ancestry observation exceeded its bound''), t)
      | Suc n \<Rightarrow>
          (if pid \<in> set visited
           then (Refused (uncertain_problem ''ancestry observation exceeded its bound''), t)
           else (let (identity, t) = process_identity e pid t in
                 case identity of
                   None \<Rightarrow> (Ancestry_transient ''ancestry identity is unavailable'', t)
                 | Some i \<Rightarrow>
                     (case find (guard_matches i) guards of
                        Some row \<Rightarrow>
                          (case j_guard row of
                             None \<Rightarrow> (Not_nested, t)
                           | Some g \<Rightarrow>
                               (let (current, t) = process_identity e (i_pid g) t in
                                if same_identity current g
                                then (Refused (sched_problem ''nested-invocation''
                                        ''execution is nested inside an active guard''), t)
                                else (Refused (uncertain_problem ''active guard ancestry is indeterminate''), t)))
                      | None \<Rightarrow>
                          (case e_ppid e t pid of
                             None \<Rightarrow> (Ancestry_transient ''ancestry is inaccessible'', Suc t)
                           | Some parent \<Rightarrow>
                               (let (again, t) = process_identity e pid (Suc t) in
                                if again \<noteq> Some i
                                then (Refused (uncertain_problem ''ancestry changed during observation''), t)
                                else ancestry_walk e guards n (pid # visited) parent t))))))"

declare ancestry_walk.simps [simp del]

definition check_nested_once :: "env \<Rightarrow> string \<Rightarrow> lease_store \<Rightarrow> ledger \<Rightarrow> identity \<Rightarrow> nested obs" where
  "check_nested_once e observer s d owner t =
     (let (guards, t) = local_guards e observer s
                          (filter (\<lambda>j. j_guard j \<noteq> None \<and> \<not> job_terminal j) (d_jobs d)) t in
      if guards = [] then (Not_nested, t)
      else (let ((identity, _), t) = observe_process e (i_pid owner) t in
            case identity of
              None \<Rightarrow> (Ancestry_transient ''admission owner identity cannot be verified'', t)
            | Some i \<Rightarrow>
                (if i \<noteq> owner
                 then (Refused (uncertain_problem ''admission owner identity cannot be verified''), t)
                 else ancestry_walk e guards MAX_OBSERVATIONS [] (i_pid owner) t)))"

text \<open>
  The retry loop: only an unobservable process table is looked at again, until the clock
  reaches the deadline. \<open>None\<close>: the fuel ran out first.
\<close>

fun nested_loop ::
  "env \<Rightarrow> string \<Rightarrow> lease_store \<Rightarrow> ledger \<Rightarrow> identity \<Rightarrow> rat \<Rightarrow> nat \<Rightarrow> nat \<Rightarrow> ((problem + unit) \<times> nat) option" where
  "nested_loop e observer s d owner deadline 0 t = None"
| "nested_loop e observer s d owner deadline (Suc k) t =
     (let (r, t) = check_nested_once e observer s d owner t in
      case r of
        Not_nested \<Rightarrow> Some (Inr (), t)
      | Refused p \<Rightarrow> Some (Inl p, t)
      | Ancestry_transient message \<Rightarrow>
          (let (clock, t) = now e t in
           if deadline \<le> clock then Some (Inl (uncertain_problem message), t)
           else nested_loop e observer s d owner deadline k t))"

definition ANCESTRY_RETRY_DEADLINE_S :: rat where "ANCESTRY_RETRY_DEADLINE_S = 2"

definition check_nested ::
  "env \<Rightarrow> nat \<Rightarrow> string \<Rightarrow> lease_store \<Rightarrow> ledger \<Rightarrow> identity \<Rightarrow> nat \<Rightarrow> ((problem + unit) \<times> nat) option" where
  "check_nested e k observer s d owner t =
     (let (clock, t) = now e t
      in nested_loop e observer s d owner (clock + ANCESTRY_RETRY_DEADLINE_S) k t)"

section \<open>Enqueueing\<close>

definition request_contained :: "bool \<Rightarrow> string \<Rightarrow> string \<Rightarrow> bool \<Rightarrow> problem option" where
  "request_contained domain_fixture base checkout fixture =
     (if fixture \<noteq> domain_fixture
      then Some (sched_problem ''unsafe-path'' ''admission fixture scope does not match the domain'')
      else if domain_fixture \<and> checkout \<noteq> base \<and> \<not> starts_with (base @ ''/'') checkout
      then Some (sched_problem ''unsafe-path'' ''fixture checkout escapes its fixture domain'')
      else None)"

definition deadline_for :: "request \<Rightarrow> rat \<Rightarrow> problem + rat" where
  "deadline_for rq clock =
     (if r_deadline rq = 0 then Inr (clock + DEFAULT_QUEUE_TIMEOUT_S)
      else if r_deadline rq < clock then Inr (r_deadline rq)
      else if MAX_QUEUE_TIMEOUT_S < r_deadline rq - clock
      then Inl (sched_problem ''invalid-bound'' ''admission deadline exceeds the queue bound'')
      else Inr (r_deadline rq))"

definition prune_terminal :: "ledger \<Rightarrow> ledger" where
  "prune_terminal d =
     (let rows = rev (sort_key j_sequence (filter job_terminal (d_jobs d)));
          gone = map j_run_id (drop MAX_TERMINAL_SUMMARIES rows)
      in delete_jobs (\<lambda>j. j_run_id j \<in> set gone) d)"

definition next_sequence :: "ledger \<Rightarrow> int" where
  "next_sequence d = (if d_jobs d = [] then 0 else Max (j_sequence ` set (d_jobs d))) + 1"

definition new_row :: "request \<Rightarrow> int \<Rightarrow> int \<Rightarrow> int option \<Rightarrow> int option \<Rightarrow> rat \<Rightarrow> rat \<Rightarrow> job" where
  "new_row rq sequence slots estimate reserved clock deadline =
     \<lparr>j_run_id = r_run_id rq, j_sequence = sequence, j_state = Queued, j_checkout_id = r_checkout_id rq,
      j_requested_slots = r_slots rq, j_slots = slots, j_exclusive = r_exclusive rq,
      j_memory_estimate = estimate, j_reserved_memory = reserved, j_enqueue_time = clock,
      j_grant_time = None, j_deadline = deadline, j_phase = ''admission'', j_fixture = r_fixture rq,
      j_owner = r_owner rq, j_guard = None, j_nonce = None, j_generation = None,
      j_reason_code = None, j_reason_message = None, j_final_status = None, j_final_exit_code = None,
      j_final_committed = None, j_final_source_valid = None\<rparr>"

text \<open>
  The lease is created and locked before the row is inserted. A swept orphan may still
  name the lock: one removal, then exactly one retry.
\<close>

definition create_lease ::
  "env \<Rightarrow> lease_store \<Rightarrow> string \<Rightarrow> nat \<Rightarrow> (problem + int \<times> int) \<times> lease_store \<times> nat" where
  "create_lease e s rid t =
     (let (made, s, t) = create e s rid t in
      case made of
        Inr ident \<Rightarrow> (Inr ident, s, t)
      | Inl p \<Rightarrow>
          (if p_code p \<noteq> ''already-exists'' then (Inl p, s, t)
           else (let (_, s, t) = remove_if_released e s rid t in create e s rid t)))"

text \<open>The inserts of the new row and of its locks, and the pruning.\<close>

definition insert_job :: "job \<Rightarrow> string list \<Rightarrow> ledger \<Rightarrow> problem + ledger" where
  "insert_job row locks d =
     (case insert_resources (j_run_id row) locks (d_resources d) of
        None \<Rightarrow> Inl (sched_retryable ''coordinator-unavailable'' ''coordinator write failed'')
      | Some rs \<Rightarrow> Inr (prune_terminal (d\<lparr>d_jobs := d_jobs d @ [row], d_resources := rs\<rparr>)))"

text \<open>The checks between the recovered ledger and the inserts: the slots and the memory charge.\<close>

definition admit_check :: "request \<Rightarrow> ledger \<Rightarrow> problem + int \<times> int option \<times> int option" where
  "admit_check rq d =
     (if MAX_PENDING_JOBS \<le> pending_count d
      then Inl (sched_problem ''capacity-exceeded'' ''pending admission capacity is full'')
      else if find_job d (r_run_id rq) \<noteq> None
      then Inl (sched_problem ''already-exists'' ''admission run identity already exists'')
      else (let slots = actual_slots (r_slots rq) (d_config_slots d) (r_memory_mb rq) (d_config_memory d);
                (estimate, reserved) = memory_values slots (r_memory_mb rq) (d_config_memory d)
            in case (d_config_memory d, reserved) of
                 (Some budget, Some charge) \<Rightarrow>
                   (if budget < charge
                    then Inl (sched_problem ''capacity-exceeded'' ''admission memory request exceeds the machine budget'')
                    else Inr (slots, estimate, reserved))
               | _ \<Rightarrow> Inr (slots, estimate, reserved)))"

text \<open>The part of the transaction after the lease exists: a failure discards the lease.\<close>

definition enqueue_row ::
  "env \<Rightarrow> request \<Rightarrow> rat \<Rightarrow> ledger \<Rightarrow> ledger \<Rightarrow> lease_store \<Rightarrow> nat \<Rightarrow> ticket outcome" where
  "enqueue_row e rq clock d0 d s t =
     (case admit_check rq d of
        Inl p \<Rightarrow> (Inl p, d0, s, t)
      | Inr (slots, estimate, reserved) \<Rightarrow>
          (let (made, s, t) = create_lease e s (r_run_id rq) t in
           case made of
             Inl p \<Rightarrow> (Inl p, d0, s, t)
           | Inr _ \<Rightarrow>
               (let sequence = next_sequence d;
                    written = (case deadline_for rq clock of
                                 Inl p \<Rightarrow> Inl p
                               | Inr deadline \<Rightarrow>
                                   insert_job (new_row rq sequence slots estimate reserved clock deadline)
                                     (r_locks rq) d)
                in case written of
                     Inl p \<Rightarrow> (let (s, t) = discard_created e s (r_run_id rq) t in (Inl p, d0, s, t))
                   | Inr d1 \<Rightarrow> (Inr \<lparr>t_run_id = r_run_id rq, t_sequence = sequence\<rparr>, d1, s, t))))"

definition enqueue ::
  "env \<Rightarrow> nat \<Rightarrow> request \<Rightarrow> ledger \<Rightarrow> lease_store \<Rightarrow> nat \<Rightarrow> ticket outcome option" where
  "enqueue e k rq d s t =
     (case request_contained False [] (r_checkout_root rq) (r_fixture rq) of
        Some p \<Rightarrow> Some (Inl p, d, s, t)
      | None \<Rightarrow>
     (if i_uid (r_owner rq) \<noteq> e_getuid e
      then Some (Inl (uncertain_problem ''admission owner is not the current account''), d, s, t)
      else (let (observer, t) = namespace_identity e t;
                (s, t) = sweep_leases e d s t;
                (clock, t) = now e t;
                (recovered, t) = recover_ledger e observer s clock d t in
            case recovered of
              Inl p \<Rightarrow> Some (Inl p, d, s, t)
            | Inr d1 \<Rightarrow>
                (let (limited, t) = refresh_limits e d1 t in
                 case limited of
                   Inl p \<Rightarrow> Some (Inl p, d, s, t)
                 | Inr d2 \<Rightarrow>
                     (case check_nested e k observer s d2 (r_owner rq) t of
                        None \<Rightarrow> None
                      | Some (Inl p, t) \<Rightarrow> Some (Inl p, d, s, t)
                      | Some (Inr _, t) \<Rightarrow> Some (enqueue_row e rq clock d d2 s t))))))"

section \<open>Granting\<close>

definition resources_available ::
  "ledger \<Rightarrow> string \<Rightarrow> bool \<Rightarrow> string set \<Rightarrow> int \<Rightarrow> int option \<Rightarrow> bool" where
  "resources_available d checkout exclusive wanted slots reserved =
     (let active = active_jobs d in
      if exclusive \<and> active_count d \<noteq> 0 then False
      else if d_config_jobs d \<le> int (length active) then False
      else if \<not> exclusive \<and> (\<exists>r\<in>set active. j_exclusive r) then False
      else if \<exists>r\<in>set active. j_checkout_id r = checkout then False
      else if \<exists>r\<in>set active. wanted \<inter> row_resources d (j_run_id r) \<noteq> {} then False
      else if d_config_slots d < sum_list (map j_slots active) + slots then False
      else (case d_config_memory d of
              None \<Rightarrow> True
            | Some budget \<Rightarrow>
                (let used = sum_list (map (\<lambda>r. case j_reserved_memory r of None \<Rightarrow> budget | Some m \<Rightarrow> m) active)
                 in case reserved of None \<Rightarrow> False | Some m \<Rightarrow> used + m \<le> budget)))"

definition row_charge :: "ledger \<Rightarrow> job \<Rightarrow> int \<times> int option \<times> int option" where
  "row_charge d row =
     (let per_worker = map_option (\<lambda>m. m div max 1 (j_slots row)) (j_memory_estimate row);
          slots = actual_slots (j_requested_slots row) (d_config_slots d) per_worker (d_config_memory d)
      in (slots, memory_values slots per_worker (d_config_memory d)))"

definition set_granted ::
  "int \<Rightarrow> int option \<Rightarrow> int option \<Rightarrow> rat \<Rightarrow> string \<Rightarrow> int \<Rightarrow> job \<Rightarrow> job" where
  "set_granted slots estimate reserved clock nonce generation j =
     j\<lparr>j_state := Granted, j_slots := slots, j_memory_estimate := estimate, j_reserved_memory := reserved,
       j_grant_time := Some clock, j_phase := ''admission'', j_nonce := Some nonce,
       j_generation := Some generation\<rparr>"

text \<open>One iteration: \<open>None\<close> is the \<^verbatim>\<open>break\<close>.\<close>

definition grant_one :: "env \<Rightarrow> rat \<Rightarrow> job \<Rightarrow> ledger \<Rightarrow> nat \<Rightarrow> ledger option" where
  "grant_one e clock row d t =
     (let (slots, estimate, reserved) = row_charge d row in
      if resources_available d (j_checkout_id row) (j_exclusive row) (row_resources d (j_run_id row)) slots reserved
      then Some (update_jobs (\<lambda>j. j_run_id j = j_run_id row)
             (set_granted slots estimate reserved clock (e_token e t) (d_config_generation d)) d)
      else None)"

fun grant_rows :: "env \<Rightarrow> rat \<Rightarrow> job list \<Rightarrow> ledger \<Rightarrow> ledger obs" where
  "grant_rows e clock [] d t = (d, t)"
| "grant_rows e clock (row # rows) d t =
     (case grant_one e clock row d t of
        None \<Rightarrow> (d, t)
      | Some d' \<Rightarrow> grant_rows e clock rows d' (Suc t))"

definition grant_queued :: "env \<Rightarrow> rat \<Rightarrow> ledger \<Rightarrow> ledger obs" where
  "grant_queued e clock d t = grant_rows e clock (queued_jobs d) d t"

section \<open>Polling\<close>

definition grant_from_row :: "job \<Rightarrow> string \<Rightarrow> grant option" where
  "grant_from_row row domain_id =
     (if \<not> job_active row \<or> j_slots row \<le> 0 then None
      else (case (j_nonce row, j_generation row) of
              (Some nonce, Some generation) \<Rightarrow>
                Some \<lparr>g_run_id = j_run_id row, g_nonce = nonce, g_slots = j_slots row,
                      g_memory_estimate_mb = j_memory_estimate row,
                      g_reserved_memory_mb = j_reserved_memory row,
                      g_generation = generation, g_domain_id = domain_id\<rparr>
            | _ \<Rightarrow> None))"

definition STATE_CHANGED :: string where "STATE_CHANGED = ''scheduler state changed''"

definition reason_text :: "string option \<Rightarrow> string" where
  "reason_text message = (case message of None \<Rightarrow> STATE_CHANGED | Some m \<Rightarrow> if m = [] then STATE_CHANGED else m)"

definition problem_from_row :: "job \<Rightarrow> problem option" where
  "problem_from_row row =
     (case j_reason_code row of
        None \<Rightarrow> None
      | Some code \<Rightarrow>
          Some (if code = [] then sched_problem ''coordinator-corrupt'' ''scheduler reason is invalid''
                else sched_problem code (reason_text (j_reason_message row))))"

definition queue_position :: "ledger \<Rightarrow> job \<Rightarrow> int option" where
  "queue_position d row =
     (if j_state row = Queued
      then Some (int (length (filter (\<lambda>j. j_state j = Queued \<and> j_sequence j \<le> j_sequence row) (d_jobs d))) - 1)
      else None)"

definition admission_view :: "ledger \<Rightarrow> job \<Rightarrow> admission_state" where
  "admission_view d row =
     \<lparr>as_state = j_state row, as_grant = grant_from_row row (d_domain_id d),
      as_problem = problem_from_row row, as_position = queue_position d row\<rparr>"

definition poll :: "env \<Rightarrow> ticket \<Rightarrow> ledger \<Rightarrow> lease_store \<Rightarrow> nat \<Rightarrow> admission_state outcome" where
  "poll e k d s t =
     (let (observer, t) = namespace_identity e t;
          (s, t) = sweep_leases e d s t;
          (clock, t) = now e t;
          (recovered, t) = recover_ledger e observer s clock d t in
      case recovered of
        Inl p \<Rightarrow> (Inl p, d, s, t)
      | Inr d1 \<Rightarrow>
          (let (limited, t) = refresh_limits e d1 t in
           case limited of
             Inl p \<Rightarrow> (Inl p, d, s, t)
           | Inr d2 \<Rightarrow>
               (let (d3, t) = grant_queued e clock d2 t in
                case find_ticket d3 k of
                  None \<Rightarrow> (Inl (sched_problem ''state-unavailable'' ''admission ticket is no longer retained''), d, s, t)
                | Some row \<Rightarrow>
                    (Inr (admission_view d3 row), d3,
                     (if job_terminal row then release_held (j_run_id row) s else s), t))))"

end
