(* ===== verification/Sched_Finish.thy ===== *)
theory Sched_Finish
  imports Sched_Admission
begin

text \<open>
  The life of a granted run (\<^verbatim>\<open>scheduler.py\<close>): the guard registers, the guard
  drains, the owner proves quiescence and finishes, or the owner cancels, or an operator
  releases the run. Each handler is one transaction: its compare-and-set statements are the
  updates below, and the row counts decide its answer.
\<close>

text \<open>\<^verbatim>\<open>released\<close> files: the lease is unregistered, then its files are removed if free.\<close>

definition drop_lease :: "env \<Rightarrow> string \<Rightarrow> lease_store \<Rightarrow> nat \<Rightarrow> lease_store \<times> nat" where
  "drop_lease e rid s t =
     (let (_, s, t) = remove_if_released e (release_held rid s) rid t in (s, t))"

section \<open>Authentication\<close>

definition matches_grant :: "job \<Rightarrow> grant \<Rightarrow> ledger \<Rightarrow> bool" where
  "matches_grant row g d \<longleftrightarrow>
     j_nonce row = Some (g_nonce g) \<and> j_generation row = Some (g_generation g)
     \<and> j_slots row = g_slots g \<and> j_memory_estimate row = g_memory_estimate_mb g
     \<and> j_reserved_memory row = g_reserved_memory_mb g \<and> d_domain_id d = g_domain_id g"

definition matches_owner :: "env \<Rightarrow> job \<Rightarrow> identity \<Rightarrow> bool obs" where
  "matches_owner e row owner t =
     (if i_pid owner = e_getpid e \<and> i_uid owner = e_getuid e \<and> owner = j_owner row
      then (let (live, t) = process_identity e (i_pid owner) t in (live = Some owner, t))
      else (False, t))"

section \<open>Registering the guard\<close>

definition set_running :: "identity \<Rightarrow> job \<Rightarrow> job" where
  "set_running g j = j\<lparr>j_state := Running, j_phase := ''setup'', j_guard := Some g\<rparr>"

definition registrable :: "string \<Rightarrow> job \<Rightarrow> bool" where
  "registrable rid j \<longleftrightarrow> j_run_id j = rid \<and> j_state j = Granted \<and> j_guard j = None"

definition register_write :: "grant \<Rightarrow> identity \<Rightarrow> ledger \<Rightarrow> bool \<times> ledger" where
  "register_write g guard d =
     (rowcount (registrable (g_run_id g)) d = 1,
      update_jobs (registrable (g_run_id g)) (set_running guard) d)"

definition register_valid :: "env \<Rightarrow> grant \<Rightarrow> identity \<Rightarrow> ledger \<Rightarrow> bool obs" where
  "register_valid e g guard d t =
     (case find_job d (g_run_id g) of
        None \<Rightarrow> (False, t)
      | Some row \<Rightarrow>
          (if j_state row \<noteq> Granted \<or> \<not> matches_grant row g d then (False, t)
           else (let (owner, t) = process_identity e (i_pid (j_owner row)) t in
                 if \<not> same_identity owner (j_owner row) then (False, t)
                 else (let (live, t) = process_identity e (i_pid guard) t in (live = Some guard, t)))))"

definition register_guard ::
  "env \<Rightarrow> grant \<Rightarrow> identity \<Rightarrow> ledger \<Rightarrow> lease_store \<Rightarrow> nat \<Rightarrow> bool outcome" where
  "register_guard e g guard d s t =
     (if i_uid guard \<noteq> e_getuid e
      then (Inl (uncertain_problem ''guard is not owned by the current account''), d, s, t)
      else (let (observer, t) = namespace_identity e t;
                (s, t) = sweep_leases e d s t;
                (clock, t) = now e t;
                (booted, t) = recover_boot e clock d t in
            case booted of
              Inl p \<Rightarrow> (Inl p, d, s, t)
            | Inr d1 \<Rightarrow>
                (let (clock, t) = now e t;
                     (d2, t) = reconcile_locked e observer s clock d1 t;
                     (valid, t) = register_valid e g guard d2 t
                 in if valid then (let (result, d3) = register_write g guard d2 in (Inr result, d3, s, t))
                    else (Inr False, d2, s, t))))"

section \<open>Draining\<close>

definition set_draining :: "job \<Rightarrow> job" where
  "set_draining j = j\<lparr>j_state := Draining, j_phase := ''draining''\<rparr>"

definition drainable :: "grant \<Rightarrow> identity \<Rightarrow> job \<Rightarrow> bool" where
  "drainable g guard j \<longleftrightarrow>
     j_run_id j = g_run_id g \<and> j_nonce j = Some (g_nonce g) \<and> j_generation j = Some (g_generation g)
     \<and> j_slots j = g_slots g \<and> j_memory_estimate j = g_memory_estimate_mb g
     \<and> j_reserved_memory j = g_reserved_memory_mb g
     \<and> j_state j \<in> {Running, Cancelling} \<and> j_guard j = Some guard"

definition mark_draining ::
  "env \<Rightarrow> grant \<Rightarrow> identity \<Rightarrow> ledger \<Rightarrow> lease_store \<Rightarrow> nat \<Rightarrow> bool outcome" where
  "mark_draining e g guard d s t =
     (let (boot, t) = boot_identity e t in
      case boot of
        Inl p \<Rightarrow> (Inl p, d, s, t)
      | Inr b \<Rightarrow>
          (if d_boot_id d \<noteq> b \<or> g_domain_id g \<noteq> d_domain_id d \<or> i_pid guard \<noteq> e_getpid e
              \<or> i_uid guard \<noteq> e_getuid e \<or> i_pgid guard \<noteq> i_pid guard
           then (Inr False, d, s, t)
           else (let (live, t) = process_identity e (i_pid guard) t in
                 case live of
                   None \<Rightarrow> (Inl (uncertain_problem ''live guard identity cannot be verified''), d, s, t)
                 | Some i \<Rightarrow>
                     (if i \<noteq> guard then (Inr False, d, s, t)
                      else (Inr (rowcount (drainable g guard) d = 1),
                            update_jobs (drainable g guard) set_draining d, s, t)))))"

section \<open>Cancelling\<close>

definition set_cancelled :: "job \<Rightarrow> job" where
  "set_cancelled j = j\<lparr>j_state := Cancelled, j_phase := ''complete'', j_nonce := None, j_generation := None\<rparr>"

definition cancellable :: "ticket \<Rightarrow> identity \<Rightarrow> job \<Rightarrow> bool" where
  "cancellable k owner j \<longleftrightarrow>
     j_run_id j = t_run_id k \<and> j_sequence j = t_sequence k \<and> j_state j \<in> {Queued, Granted}
     \<and> j_guard j = None \<and> j_owner j = owner"

definition cancel_pending ::
  "env \<Rightarrow> ticket \<Rightarrow> identity \<Rightarrow> ledger \<Rightarrow> lease_store \<Rightarrow> nat \<Rightarrow> bool outcome" where
  "cancel_pending e k owner d s t =
     (let (boot, t) = boot_identity e t in
      case boot of
        Inl p \<Rightarrow> (Inl p, d, s, t)
      | Inr b \<Rightarrow>
          (if d_boot_id d \<noteq> b then (Inr False, d, s, t)
           else (case find_ticket d k of
                   None \<Rightarrow> (Inr False, d, s, t)
                 | Some row \<Rightarrow>
                     (let (mine, t) = matches_owner e row owner t in
                      if \<not> mine \<or> j_state row \<notin> {Queued, Granted} \<or> j_guard row \<noteq> None
                      then (Inr False, d, s, t)
                      else (let d1 = update_jobs (cancellable k owner) set_cancelled d in
                            if rowcount (cancellable k owner) d \<noteq> 1 then (Inr False, d1, s, t)
                            else (let (s, t) = drop_lease e (t_run_id k) s t in (Inr True, d1, s, t)))))))"

section \<open>Finalization\<close>

definition finalization_failure :: "string \<Rightarrow> bool \<Rightarrow> ledger \<Rightarrow> ledger" where
  "finalization_failure rid escaped =
     update_jobs (\<lambda>j. j_run_id j = rid \<and> \<not> job_terminal j)
       (\<lambda>j. mark_row_uncertain j
              (if escaped then ''observed descendants are escaped or indeterminate''
               else ''finalization lacked current ownership and quiescence proof'')
              (if escaped then ''unsupported-detached-descendant'' else ''ownership-uncertain''))"

definition set_finalizing :: "job \<Rightarrow> job" where
  "set_finalizing j = j\<lparr>j_state := Finalizing, j_phase := ''finalization''\<rparr>"

definition finalizable :: "grant \<Rightarrow> identity \<Rightarrow> job \<Rightarrow> bool" where
  "finalizable g guard j \<longleftrightarrow>
     j_run_id j = g_run_id g \<and> j_nonce j = Some (g_nonce g) \<and> j_generation j = Some (g_generation g)
     \<and> j_state j = Draining \<and> j_guard j = Some guard"

definition quiescence :: "grant \<Rightarrow> identity \<Rightarrow> rat \<Rightarrow> quiescence_proof" where
  "quiescence g guard checked_at =
     \<lparr>q_run_id = g_run_id g, q_generation = g_generation g, q_pgid = i_pgid guard,
      q_checked_at = checked_at, q_group_absent = True, q_escaped_survivors = False\<rparr>"

text \<open>What \<^verbatim>\<open>begin_finalization\<close> observes of the group, the descendants and the guard.\<close>

definition quiescent ::
  "env \<Rightarrow> job \<Rightarrow> identity \<Rightarrow> observation list \<Rightarrow> ((group_observation \<times> bool) \<times> bool) obs" where
  "quiescent e row guard observed t =
     (let (grp, t) = probe_group e (i_pgid guard) t;
          (escaped, t) = escaped_or_unknown e guard (go_exists grp = Some False) observed t;
          ((_, guard_absent), t) = observe_process e (i_pid guard) t;
          valid = (\<not> escaped \<and> guard_absent \<and> go_exists grp = Some False \<and> go_permission grp
                   \<and> (case j_grant_time row of None \<Rightarrow> False | Some granted \<Rightarrow> granted \<le> go_checked_at grp))
      in (((grp, escaped), valid), t))"

definition begin_finalization ::
  "env \<Rightarrow> grant \<Rightarrow> ledger \<Rightarrow> lease_store \<Rightarrow> nat \<Rightarrow> quiescence_proof outcome" where
  "begin_finalization e g d s t =
     (let (boot, t) = boot_identity e t in
      case boot of
        Inl p \<Rightarrow> (Inl p, d, s, t)
      | Inr b \<Rightarrow>
          (if d_boot_id d \<noteq> b
           then (Inl (uncertain_problem ''finalization boot identity is stale''), d, s, t)
           else (case find_job d (g_run_id g) of
             None \<Rightarrow> (Inl (uncertain_problem ''finalization grant does not match a live lease''), d, s, t)
           | Some row \<Rightarrow>
               (if \<not> matches_grant row g d \<or> j_state row \<noteq> Draining
                then (Inl (uncertain_problem ''finalization grant does not match a live lease''), d, s, t)
                else (case j_guard row of
                  None \<Rightarrow> (Inl (uncertain_problem ''finalization guard was never registered''), d, s, t)
                | Some guard \<Rightarrow>
                    (let ((owner, owner_absent), t) = observe_process e (i_pid (j_owner row)) t in
                     if owner_absent \<or> \<not> same_identity owner (j_owner row)
                     then (Inl (uncertain_problem ''finalization owner identity is indeterminate''),
                           finalization_failure (g_run_id g) False d, s, t)
                     else (let ((observed, table), t) =
                                 observations e (g_run_id g) guard True (d_observations d) t;
                               d1 = d\<lparr>d_observations := table\<rparr>;
                               (((grp, escaped), valid), t) = quiescent e row guard observed t in
                           if \<not> valid
                           then (Inl (uncertain_problem ''finalization lacked current ownership and quiescence proof''),
                                 finalization_failure (g_run_id g) escaped d1, s, t)
                           else if rowcount (finalizable g guard) d1 \<noteq> 1
                           then (Inl (uncertain_problem ''finalization lease changed during proof''), d, s, t)
                           else (Inr (quiescence g guard (go_checked_at grp)),
                                 update_jobs (finalizable g guard) set_finalizing d1, s, t))))))))"

definition set_finished :: "finalization \<Rightarrow> job \<Rightarrow> job" where
  "set_finished final j =
     j\<lparr>j_state := Released, j_phase := ''complete'', j_final_status := Some (f_status final),
       j_final_exit_code := Some (f_exit_code final), j_final_committed := Some (f_committed final),
       j_final_source_valid := Some (f_source_valid final), j_reason_code := None, j_reason_message := None\<rparr>"

text \<open>
  The conjunction of \<^verbatim>\<open>finish\<close>, left to right; the guard is observed only when
  everything before it holds.
\<close>

definition finish_valid ::
  "env \<Rightarrow> grant \<Rightarrow> quiescence_proof \<Rightarrow> rat \<Rightarrow> rat \<Rightarrow> job \<Rightarrow> identity \<Rightarrow> group_observation \<Rightarrow> bool
     \<Rightarrow> identity option \<Rightarrow> bool obs" where
  "finish_valid e g proof clock checked_at row guard grp escaped owner t =
     (if q_run_id proof = g_run_id g \<and> q_generation proof = g_generation g
         \<and> q_pgid proof = i_pgid guard \<and> q_group_absent proof \<and> \<not> escaped
         \<and> (case j_grant_time row of None \<Rightarrow> False | Some granted \<Rightarrow> granted \<le> q_checked_at proof)
         \<and> q_checked_at proof \<le> clock
         \<and> go_exists grp = Some False \<and> go_permission grp
         \<and> max (q_checked_at proof) checked_at \<le> go_checked_at grp
      then (let ((_, gone), t) = observe_process e (i_pid guard) t
            in (gone \<and> same_identity owner (j_owner row), t))
      else (False, t))"

text \<open>The observations of \<^verbatim>\<open>finish\<close>: whether the release is safe, and the doubt found.\<close>

definition finish_check ::
  "env \<Rightarrow> grant \<Rightarrow> quiescence_proof \<Rightarrow> rat \<Rightarrow> job \<Rightarrow> ledger \<Rightarrow> ((bool \<times> bool) \<times> ledger) obs" where
  "finish_check e g proof clock row d t =
     (let record_doubt = (\<lambda>d. if q_escaped_survivors proof
                              then d\<lparr>d_observations := insert_or_replace (sentinel (g_run_id g)) (d_observations d)\<rparr>
                              else d) in
      case j_guard row of
        None \<Rightarrow>
          (let (_, t) = now e t; (_, t) = observe_process e (i_pid (j_owner row)) t
           in (((False, q_escaped_survivors proof), record_doubt d), t))
      | Some guard \<Rightarrow>
          (let ((observed, table), t) = observations e (g_run_id g) guard True (d_observations d) t;
               d1 = record_doubt (d\<lparr>d_observations := table\<rparr>);
               (checked_at, t) = now e t;
               (grp, t) = probe_group e (i_pgid guard) t;
               (escaped, t) = (if q_escaped_survivors proof then (True, t)
                               else escaped_or_unknown e guard (go_exists grp = Some False) observed t);
               ((owner, _), t) = observe_process e (i_pid (j_owner row)) t;
               (valid, t) = finish_valid e g proof clock checked_at row guard grp escaped owner t
           in (((valid, escaped), d1), t)))"

definition finish_write :: "grant \<Rightarrow> finalization \<Rightarrow> ledger \<Rightarrow> ledger" where
  "finish_write g final d =
     prune_terminal
       (update_jobs (\<lambda>j. j_run_id j = g_run_id g) (set_finished final)
         (update_jobs (\<lambda>j. j_run_id j = g_run_id g \<and> j_nonce j = Some (g_nonce g)
                           \<and> j_generation j = Some (g_generation g)) set_finalizing d))"

definition finish ::
  "env \<Rightarrow> grant \<Rightarrow> quiescence_proof \<Rightarrow> finalization \<Rightarrow> ledger \<Rightarrow> lease_store \<Rightarrow> nat \<Rightarrow> unit outcome" where
  "finish e g proof final d s t =
     (let (clock, t) = now e t; (booted, t) = recover_boot e clock d t in
      case booted of
        Inl p \<Rightarrow> (Inl p, d, s, t)
      | Inr d1 \<Rightarrow>
          (case find_job d1 (g_run_id g) of
             None \<Rightarrow> (Inl (uncertain_problem ''finalization grant does not match a live lease''), d, s, t)
           | Some row \<Rightarrow>
               (if \<not> matches_grant row g d1 \<or> \<not> job_active row
                then (Inl (uncertain_problem ''finalization grant does not match a live lease''), d, s, t)
                else (let (((valid, escaped), d2), t) = finish_check e g proof clock row d1 t in
                      if \<not> valid
                      then (Inl (uncertain_problem ''finalization proof did not establish safe release''),
                            finalization_failure (g_run_id g) escaped d2, s, t)
                      else (let (s, t) = drop_lease e (g_run_id g) s t
                            in (Inr (), finish_write g final d2, s, t))))))"

end
