(* ===== verification/Sched_Release.thy ===== *)
theory Sched_Release
  imports Sched_Finish
begin

text \<open>
  Operator operations of \<^verbatim>\<open>scheduler.py\<close>: \<^verbatim>\<open>release_run\<close> ends one stuck run
  whose processes are provably gone (or, forced, that outlived every legitimate run), and
  \<^verbatim>\<open>forget_checkouts\<close> deletes the terminal rows of checkouts nothing uses.
\<close>

section \<open>Releasing one run\<close>

record release_outcome =
  ro_run_id :: string
  ro_released :: bool
  ro_previous :: lease_state
  ro_state :: lease_state
  ro_slots :: int
  ro_checkout_id :: string
  ro_evidence :: string
  ro_forced :: bool

definition EVIDENCE_LOCK :: string where
  "EVIDENCE_LOCK = ''owner and guard are gone (lease lock is free)''"
definition EVIDENCE_PROCESS :: string where
  "EVIDENCE_PROCESS = ''owner and guard are gone (process table)''"
definition EVIDENCE_LEGACY :: string where
  "EVIDENCE_LEGACY = ''owner and guard are gone (process table; this run has no namespace record)''"
definition EVIDENCE_RECOVERED :: string where
  "EVIDENCE_RECOVERED = ''normal recovery found it finished''"
definition EVIDENCE_FORCED :: string where
  "EVIDENCE_FORCED = ''forced after the hard time limit''"
definition EVIDENCE_ALREADY :: string where
  "EVIDENCE_ALREADY = ''already finished''"
definition OPERATOR_RELEASE_MESSAGE :: string where
  "OPERATOR_RELEASE_MESSAGE = ''released by ptest release; outcome incomplete''"

definition release_cas :: "job \<Rightarrow> job \<Rightarrow> bool" where
  "release_cas row j \<longleftrightarrow>
     j_run_id j = j_run_id row \<and> j_state j = j_state row \<and> j_nonce j = j_nonce row
     \<and> j_generation j = j_generation row"

definition set_released :: "lease_state \<Rightarrow> job \<Rightarrow> job" where
  "set_released st j =
     j\<lparr>j_state := st, j_phase := ''complete'', j_nonce := None, j_generation := None,
       j_reason_code := Some ''ownership-uncertain'', j_reason_message := Some OPERATOR_RELEASE_MESSAGE,
       j_final_status := Some Incomplete, j_final_exit_code := Some 70, j_final_committed := Some False,
       j_final_source_valid := Some False\<rparr>"

definition release_write :: "job \<Rightarrow> ledger \<Rightarrow> problem + lease_state \<times> ledger" where
  "release_write row d =
     (let st = terminal_for row in
      if rowcount (release_cas row) d \<noteq> 1 then Inl (uncertain_problem ''lease changed during release'')
      else Inr (st, (update_jobs (release_cas row) (set_released st) d)
                      \<lparr>d_observations := filter (\<lambda>ob. o_run_id ob \<noteq> j_run_id row) (d_observations d)\<rparr>))"

definition named_pid :: "string \<Rightarrow> int \<Rightarrow> string \<Rightarrow> problem" where
  "named_pid before pid after = uncertain_problem (before @ str_int pid @ after)"

text \<open>The group of the guard: absent, or the refusal.\<close>

definition group_evidence :: "env \<Rightarrow> identity \<Rightarrow> problem option obs" where
  "group_evidence e guard t =
     (let (grp, t) = probe_group e (i_pgid guard) t in
      (case go_exists grp of
         None \<Rightarrow> Some (named_pid ''process group '' (i_pgid guard) '' cannot be checked'')
       | Some True \<Rightarrow> Some (named_pid ''process group '' (i_pgid guard) '' still has running members'')
       | Some False \<Rightarrow>
           (if \<not> go_permission grp
            then Some (named_pid ''process group '' (i_pgid guard) '' cannot be checked'')
            else None),
       t))"

text \<open>One process of the run (\<^verbatim>\<open>owner\<close> or \<^verbatim>\<open>guard\<close>): gone, or the refusal.\<close>

definition same_evidence_of :: "env \<Rightarrow> string \<Rightarrow> identity \<Rightarrow> bool \<Rightarrow> problem option obs" where
  "same_evidence_of e who i lock_free t =
     (let ((observed, absent), t) = observe_process e (i_pid i) t in
      (if same_identity observed i then Some (named_pid (who @ '' pid '') (i_pid i) '' is still running'')
       else if \<not> (proven_gone observed absent (Some (i_birth i)) \<or> lock_free)
       then Some (named_pid (who @ '' pid '') (i_pid i) '' cannot be checked'')
       else None, t))"

definition release_evidence_same :: "env \<Rightarrow> job \<Rightarrow> bool \<Rightarrow> (problem + string) obs" where
  "release_evidence_same e row lock_free t =
     (let answer = Inr (if lock_free then EVIDENCE_LOCK else EVIDENCE_PROCESS);
          (refused, t) = same_evidence_of e ''owner'' (j_owner row) lock_free t in
      case refused of
        Some p \<Rightarrow> (Inl p, t)
      | None \<Rightarrow>
          (case j_guard row of
             None \<Rightarrow> (answer, t)
           | Some guard \<Rightarrow>
               (let (refused, t) = same_evidence_of e ''guard'' guard lock_free t in
                case refused of
                  Some p \<Rightarrow> (Inl p, t)
                | None \<Rightarrow>
                    (let (refused, t) = group_evidence e guard t in
                     (case refused of Some p \<Rightarrow> Inl p | None \<Rightarrow> answer, t)))))"

definition legacy_evidence_of :: "env \<Rightarrow> string \<Rightarrow> identity \<Rightarrow> problem option obs" where
  "legacy_evidence_of e who i t =
     (let ((observed, absent), t) = observe_process e (i_pid i) t in
      (if proven_gone observed absent (Some (i_birth i)) then None
       else if same_identity observed i
       then Some (named_pid (who @ '' pid '') (i_pid i) '' is still running'')
       else Some (named_pid (who @ '' pid '') (i_pid i) '' cannot be checked''), t))"

definition release_evidence_legacy :: "env \<Rightarrow> job \<Rightarrow> (problem + string) obs" where
  "release_evidence_legacy e row t =
     (let (refused, t) = legacy_evidence_of e ''owner'' (j_owner row) t in
      case refused of
        Some p \<Rightarrow> (Inl p, t)
      | None \<Rightarrow>
          (case j_guard row of
             None \<Rightarrow> (Inr EVIDENCE_LEGACY, t)
           | Some guard \<Rightarrow>
               (let (refused, t) = legacy_evidence_of e ''guard'' guard t in
                case refused of
                  Some p \<Rightarrow> (Inl p, t)
                | None \<Rightarrow>
                    (let (refused, t) = group_evidence e guard t in
                     (case refused of Some p \<Rightarrow> Inl p | None \<Rightarrow> Inr EVIDENCE_LEGACY, t)))))"

definition row_age :: "job \<Rightarrow> rat \<Rightarrow> rat" where
  "row_age row clock = clock - (case j_grant_time row of None \<Rightarrow> j_enqueue_time row | Some granted \<Rightarrow> granted)"

text \<open>\<^verbatim>\<open>int(age // 60)\<close>.\<close>

definition age_minutes :: "rat \<Rightarrow> int" where
  "age_minutes age = \<lfloor>age / 60\<rfloor>"

definition force_refusal :: "rat \<Rightarrow> problem" where
  "force_refusal age =
     uncertain_problem (''--force is allowed only 25 hours after the grant; this run was granted ''
                        @ str_int (age_minutes age) @ '' minutes ago'')"

text \<open>The evidence for ending a live row, and whether it was forced.\<close>

definition release_evidence ::
  "env \<Rightarrow> bool \<Rightarrow> rat \<Rightarrow> row_kind \<Rightarrow> verdict \<Rightarrow> job \<Rightarrow> (problem + string \<times> bool) obs" where
  "release_evidence e force clock kind lock row t =
     (if lock = Held
      then (Inl (uncertain_problem ''lease lock is held: its owner or guard is still running''), t)
      else if force
      then (if row_age row clock < RELEASE_FORCE_AFTER_S then (Inl (force_refusal (row_age row clock)), t)
            else (Inr (EVIDENCE_FORCED, True), t))
      else (case kind of
              Foreign \<Rightarrow>
                (if lock \<noteq> Acquirable
                 then (Inl (uncertain_problem ''lease lock cannot be checked (missing, replaced or unreadable)''), t)
                 else (Inr (EVIDENCE_LOCK, False), t))
            | Same \<Rightarrow>
                (let (r, t) = release_evidence_same e row (lock = Acquirable) t in
                 (case r of Inl p \<Rightarrow> Inl p | Inr evidence \<Rightarrow> Inr (evidence, False), t))
            | Legacy \<Rightarrow>
                (let (r, t) = release_evidence_legacy e row t in
                 (case r of Inl p \<Rightarrow> Inl p | Inr evidence \<Rightarrow> Inr (evidence, False), t))))"

definition release_lock :: "env \<Rightarrow> lease_store \<Rightarrow> string \<Rightarrow> sidecar \<Rightarrow> verdict obs" where
  "release_lock e s rid sc t =
     (case sc of
        Sidecar_valid _ _ \<Rightarrow>
          (let (r, t) = probe e s rid sc t in (case r of Inl _ \<Rightarrow> Indeterminate | Inr v \<Rightarrow> v, t))
      | _ \<Rightarrow> (Indeterminate, t))"

text \<open>The row is live after recovery; a refusal still commits what recovery wrote.\<close>

definition release_live ::
  "env \<Rightarrow> bool \<Rightarrow> string \<Rightarrow> rat \<Rightarrow> job \<Rightarrow> job \<Rightarrow> ledger \<Rightarrow> lease_store \<Rightarrow> nat \<Rightarrow> release_outcome outcome" where
  "release_live e force observer clock before row d s t =
     (let rid = j_run_id row;
          ((kind, sc), t) = classify_row e observer s rid t;
          (lock, t) = release_lock e s rid sc t;
          (proved, t) = release_evidence e force clock kind lock row t in
      case proved of
        Inl p \<Rightarrow> (Inl p, d, s, t)
      | Inr (evidence, forced) \<Rightarrow>
          (case release_write row d of
             Inl p \<Rightarrow> (Inl p, d, s, t)
           | Inr (st, d1) \<Rightarrow>
               (let (s, t) = drop_lease e rid s t in
                (Inr \<lparr>ro_run_id = rid, ro_released = True, ro_previous = j_state before, ro_state = st,
                      ro_slots = j_slots before, ro_checkout_id = j_checkout_id before,
                      ro_evidence = evidence, ro_forced = forced\<rparr>, d1, s, t))))"

definition release_recovered ::
  "env \<Rightarrow> string \<Rightarrow> bool \<Rightarrow> string \<Rightarrow> rat \<Rightarrow> job \<Rightarrow> ledger \<Rightarrow> ledger \<Rightarrow> lease_store \<Rightarrow> nat \<Rightarrow> release_outcome outcome" where
  "release_recovered e rid force observer clock before d0 d s t =
     (case find_job d rid of
        None \<Rightarrow> (Inl (sched_problem ''state-unavailable'' ''no retained lease has this run id''), d0, s, t)
      | Some row \<Rightarrow>
          (let finished = \<lparr>ro_run_id = rid, ro_released = True, ro_previous = j_state before,
                           ro_state = j_state row, ro_slots = j_slots before,
                           ro_checkout_id = j_checkout_id before,
                           ro_evidence = EVIDENCE_RECOVERED, ro_forced = False\<rparr> in
           if job_terminal before
           then (Inr (finished\<lparr>ro_released := False, ro_evidence := EVIDENCE_ALREADY\<rparr>), d, s, t)
           else if job_terminal row
           then (let (s, t) = drop_lease e rid s t in (Inr finished, d, s, t))
           else release_live e force observer clock before row d s t))"

definition release_run ::
  "env \<Rightarrow> string \<Rightarrow> bool \<Rightarrow> ledger \<Rightarrow> lease_store \<Rightarrow> nat \<Rightarrow> release_outcome outcome" where
  "release_run e rid force d s t =
     (if \<not> hex_id 32 rid
      then (Inl (sched_problem ''invalid-config'' ''release run id must be 32 lowercase hex characters''), d, s, t)
      else (let (observer, t) = namespace_identity e t;
                (s, t) = sweep_leases e d s t in
            case find_job d rid of
              None \<Rightarrow> (Inl (sched_problem ''state-unavailable'' ''no retained lease has this run id''), d, s, t)
            | Some before \<Rightarrow>
                (let (clock, t) = now e t;
                     (recovered, t) = recover_ledger e observer s clock d t in
                 case recovered of
                   Inl p \<Rightarrow> (Inl p, d, s, t)
                 | Inr d1 \<Rightarrow> release_recovered e rid force observer clock before d d1 s t)))"

section \<open>Forgetting checkouts\<close>

definition forget_checkouts ::
  "env \<Rightarrow> string list \<Rightarrow> ledger \<Rightarrow> lease_store \<Rightarrow> nat \<Rightarrow> nat outcome" where
  "forget_checkouts e wanted d s t =
     (if wanted = [] then (Inr 0, d, s, t)
      else (let (observer, t) = namespace_identity e t;
                (s, t) = sweep_leases e d s t;
                (clock, t) = now e t;
                (recovered, t) = recover_ledger e observer s clock d t in
            case recovered of
              Inl p \<Rightarrow> (Inl p, d, s, t)
            | Inr d1 \<Rightarrow>
                (if \<exists>j\<in>set (d_jobs d1). j_checkout_id j \<in> set wanted \<and> \<not> job_terminal j
                 then (Inl (sched_problem ''active-run''
                        ''a ptest run for this checkout is active; refusing to uninstall''), d, s, t)
                 else (let P = (\<lambda>j. j_checkout_id j \<in> set wanted \<and> job_terminal j)
                       in (Inr (rowcount P d1), delete_jobs P d1, s, t)))))"

end
