(* ===== verification/Sched_Views.thy ===== *)
theory Sched_Views
  imports Sched_Release
begin

text \<open>
  The read-only operations of \<^verbatim>\<open>scheduler.py\<close>: the reconciled view of every
  lease, the holders of slots, the reason a queued run waits, and the effective limits.
\<close>

datatype ownership = Own_certain | Own_gone | Own_uncertain

record view =
  v_run_id :: string
  v_checkout_id :: string
  v_state :: lease_state
  v_sequence :: int
  v_requested_slots :: int
  v_slots :: int
  v_memory_estimate :: "int option"
  v_reserved_memory :: "int option"
  v_phase :: string
  v_age :: rat
  v_queue_wait :: rat
  v_ownership :: ownership
  v_fixture :: bool
  v_reasons :: "(string \<times> string) list"

definition lease_view :: "job \<Rightarrow> rat \<Rightarrow> view" where
  "lease_view row clock =
     (let age = max 0 (clock - j_enqueue_time row) in
      \<lparr>v_run_id = j_run_id row, v_checkout_id = j_checkout_id row, v_state = j_state row,
       v_sequence = j_sequence row, v_requested_slots = j_requested_slots row, v_slots = j_slots row,
       v_memory_estimate = j_memory_estimate row, v_reserved_memory = j_reserved_memory row,
       v_phase = j_phase row, v_age = age,
       v_queue_wait = (case j_grant_time row of None \<Rightarrow> age | Some granted \<Rightarrow> max 0 (granted - j_enqueue_time row)),
       v_ownership = (if job_terminal row then Own_gone
                      else if j_state row = Uncertain then Own_uncertain else Own_certain),
       v_fixture = j_fixture row,
       v_reasons = (case j_reason_code row of
                      None \<Rightarrow> [] | Some code \<Rightarrow> [(code, reason_text (j_reason_message row))])\<rparr>)"

section \<open>The reconciled view\<close>

fun view_rows ::
  "env \<Rightarrow> bool \<Rightarrow> string \<Rightarrow> lease_store \<Rightarrow> rat \<Rightarrow> observation list \<Rightarrow> job list \<Rightarrow> view list obs" where
  "view_rows e boot_changed observer s clock table [] t = ([], t)"
| "view_rows e boot_changed observer s clock table (row # rows) t =
     (let (shown, t) =
            (if boot_changed then (boot_transition row clock, t)
             else (let ((row, _), t) = recovery_view e False observer s clock row table t in (row, t)));
          (views, t) = view_rows e boot_changed observer s clock table rows t
      in (lease_view shown clock # views, t))"

definition reconcile :: "env \<Rightarrow> ledger \<Rightarrow> lease_store \<Rightarrow> nat \<Rightarrow> (problem + view list) \<times> nat" where
  "reconcile e d s t =
     (let (boot, t) = boot_identity e t in
      case boot of
        Inl p \<Rightarrow> (Inl p, t)
      | Inr b \<Rightarrow>
          (let (clock, t) = now e t;
               (observer, t) = namespace_identity e t;
               (views, t) = view_rows e (b \<noteq> d_boot_id d) observer s clock (d_observations d)
                              (sort_key j_sequence (d_jobs d)) t
           in (Inr views, t)))"

section \<open>Slot holders\<close>

record queue_holder =
  h_run_id :: string
  h_pid :: int
  h_checkout_id :: string

fun holder_rows :: "env \<Rightarrow> string \<Rightarrow> lease_store \<Rightarrow> job list \<Rightarrow> queue_holder list obs" where
  "holder_rows e observer s [] t = ([], t)"
| "holder_rows e observer s (row # rows) t =
     (if 0 < i_pid (j_owner row) \<and> j_checkout_id row \<noteq> [] \<and> j_run_id row \<noteq> []
      then (let ((kind, _), t) = classify_row e observer s (j_run_id row) t;
                (holders, t) = holder_rows e observer s rows t
            in (if kind = Foreign then holders
                else \<lparr>h_run_id = j_run_id row, h_pid = i_pid (j_owner row),
                      h_checkout_id = j_checkout_id row\<rparr> # holders, t))
      else holder_rows e observer s rows t)"

definition queue_holders :: "env \<Rightarrow> nat \<Rightarrow> ledger \<Rightarrow> lease_store \<Rightarrow> queue_holder list obs" where
  "queue_holders e limit d s t =
     (let (observer, t) = namespace_identity e t
      in holder_rows e observer s (take (max 1 limit) (sort_key j_sequence (active_jobs d))) t)"

section \<open>Why a queued run waits\<close>

definition count_noun :: "nat \<Rightarrow> string \<Rightarrow> string" where
  "count_noun number noun = str_nat number @ '' '' @ noun @ (if number = 1 then [] else ''s'')"

definition held_locks :: "ledger \<Rightarrow> job \<Rightarrow> job \<Rightarrow> string list" where
  "held_locks d row r =
     sorted_set (filter (\<lambda>l. l \<in> row_resources d (j_run_id r))
                  (map snd (filter (\<lambda>x. fst x = j_run_id row) (d_resources d))))"

definition row_blocker :: "ledger \<Rightarrow> job \<Rightarrow> string option" where
  "row_blocker d row =
     (let active = active_jobs d in
      if j_exclusive row \<and> active \<noteq> []
      then Some (''this run needs the whole machine; '' @ count_noun (length active) ''run'' @ '' ''
                 @ (if length active = 1 then ''is'' else ''are'') @ '' still active'')
      else if d_config_jobs d \<le> int (length active)
      then Some (''the job limit is reached ('' @ str_nat (length active) @ '' of ''
                 @ str_int (d_config_jobs d) @ '' running)'')
      else if \<exists>r\<in>set active. j_exclusive r then Some ''an exclusive run holds the whole machine''
      else if \<exists>r\<in>set active. j_checkout_id r = j_checkout_id row
      then Some ''this checkout already has a run in progress''
      else (case find (\<lambda>r. held_locks d row r \<noteq> []) active of
              None \<Rightarrow> None
            | Some r \<Rightarrow> Some (''lock '' @ [char_of (39 :: nat)] @ hd (held_locks d row r) @ [char_of (39 :: nat)]
                              @ '' is held by another run'')))"

definition admission_blocker :: "ledger \<Rightarrow> string \<Rightarrow> string option" where
  "admission_blocker d rid =
     (case index_of rid (map j_run_id (queued_jobs d)) of
        None \<Rightarrow> None
      | Some index \<Rightarrow>
          (let reason = row_blocker d (queued_jobs d ! index) in
           if index = 0 then reason
           else (let ahead = count_noun index ''earlier run'' @ '' '' @ (if index = 1 then ''is'' else ''are'')
                             @ '' queued first''
                 in Some (case reason of None \<Rightarrow> ahead | Some r \<Rightarrow> ahead @ ''; '' @ r))))"

section \<open>The effective limits\<close>

definition effective_limits :: "env \<Rightarrow> ledger \<Rightarrow> (problem + limits) obs" where
  "effective_limits e d t =
     (let (boot, t) = boot_identity e t in
      case boot of
        Inl p \<Rightarrow> (Inl p, t)
      | Inr _ \<Rightarrow>
          (let (loaded, t) = load_config_limits e t in
           (case loaded of
              Inl p \<Rightarrow> Inl p
            | Inr requested \<Rightarrow> Inr (selected_limits d requested (ledger_limits d)), t)))"

section \<open>Properties\<close>

text \<open>The view computes what the recovering transaction would show.\<close>

lemma view_rows_length: "view_rows e b observer s clock table rows t = (vs, t') \<Longrightarrow> length vs = length rows"
  by (induction rows arbitrary: t vs) (auto simp: Let_def split: prod.splits)

lemma held_locks_set: "set (held_locks d row r) = row_resources d (j_run_id row) \<inter> row_resources d (j_run_id r)"
  by (auto simp: held_locks_def row_resources_def)

text \<open>A run the display calls blocked by nothing but slots passes every other admission check.\<close>

lemma row_blocker_none:
  "row_blocker d row = None \<longleftrightarrow>
     \<not> (j_exclusive row \<and> active_count d \<noteq> 0) \<and> int (active_count d) < d_config_jobs d
     \<and> (\<forall>r\<in>set (active_jobs d). \<not> j_exclusive r \<and> j_checkout_id r \<noteq> j_checkout_id row
          \<and> row_resources d (j_run_id row) \<inter> row_resources d (j_run_id r) = {})"
proof -
  have held: "held_locks d row r \<noteq> [] \<longleftrightarrow> row_resources d (j_run_id row) \<inter> row_resources d (j_run_id r) \<noteq> {}" for r
    by (metis held_locks_set set_empty)
  show ?thesis
    by (auto simp: row_blocker_def Let_def active_count_def held find_None_iff dest!: find_Some_in split: option.splits)
qed

end
