(* ===== verification/Sched_Pass.thy ===== *)
theory Sched_Pass
  imports Sched_Admission
begin

text \<open>
  The recovery pass as a whole: what it does to each row of the ledger, and the evidence
  behind every lease it ends. A row after the pass is the row before it or the verdict of
  \<open>recovery_view\<close> on it; a lease ends only on a free lease lock (another namespace) or on
  the proven absence of its owner, its guard, its group and its recorded descendants; and
  the transition on a new boot is the same row by row in the read-only view and in the
  recovering transaction.
\<close>

section \<open>Row by row\<close>

definition viewed :: "env \<Rightarrow> string \<Rightarrow> lease_store \<Rightarrow> rat \<Rightarrow> job \<Rightarrow> job \<Rightarrow> bool" where
  "viewed e observer s clock j j' \<longleftrightarrow>
     j' = j \<or> (\<exists>table t table' t'. recovery_view e True observer s clock j table t = ((j', table'), t'))"

lemma viewed_row:
  assumes "viewed e observer s clock j j'"
  shows "same_lease j j' \<and> recovered_state j (j_state j') \<and> (job_terminal j \<longrightarrow> j' = j)"
  using assms recovery_view_row unfolding viewed_def
  by (auto simp: recovered_state_def dest: recovery_view_row)

lemma write_view_jobs:
  assumes "distinct (map j_run_id (d_jobs d))" and "j \<in> set (d_jobs d)" and "same_lease j r"
  shows "d_jobs (write_view r (d\<lparr>d_observations := obs\<rparr>)) = map (\<lambda>x. if x = j then r else x) (d_jobs d)"
proof -
  have "(if j_run_id x = j_run_id r \<and> j_nonce x = j_nonce r \<and> j_generation x = j_generation r
         then set_verdict (j_state r) (j_phase r) (j_reason_code r) (j_reason_message r) x else x)
        = (if x = j then r else x)" if "x \<in> set (d_jobs d)" for x
  proof (cases "x = j")
    case True
    then show ?thesis using assms(3) by (simp add: same_leaseD[OF assms(3)]) (simp add: same_lease_def)
  next
    case False
    then have "j_run_id x \<noteq> j_run_id j" using assms(1,2) that by (metis distinct_key_unique)
    then show ?thesis using False by (simp add: same_leaseD[OF assms(3)])
  qed
  then show ?thesis by (simp add: write_view_def update_jobs_def)
qed

lemma list_all2_map_right: "list_all2 P xs (map f xs) \<longleftrightarrow> (\<forall>x\<in>set xs. P x (f x))"
  by (induction xs) auto

text \<open>The tables and the limits a pass leaves alone.\<close>

definition same_tables :: "ledger \<Rightarrow> ledger \<Rightarrow> bool" where
  "same_tables d d' \<longleftrightarrow> d_domain_id d' = d_domain_id d \<and> d_resources d' = d_resources d
     \<and> ledger_limits d' = ledger_limits d"

lemma write_view_tables [simp]:
  "same_tables d (write_view r (d\<lparr>d_observations := obs\<rparr>))"
  by (simp add: same_tables_def write_view_def update_jobs_def ledger_limits_def)

lemma same_tables_trans: "same_tables d d' \<Longrightarrow> same_tables d' d'' \<Longrightarrow> same_tables d d''"
  by (simp add: same_tables_def)

lemma reconcile_rows_viewed:
  assumes "reconcile_rows e observer s clock rows d t = (d', t')"
    and "distinct (map j_run_id rows)" and "set rows \<subseteq> set (d_jobs d)" and "distinct (map j_run_id (d_jobs d))"
  shows "list_all2 (\<lambda>j j'. if j \<in> set rows then viewed e observer s clock j j' else j' = j) (d_jobs d) (d_jobs d')
    \<and> same_tables d d'"
  using assms
proof (induction rows arbitrary: d t)
  case Nil
  then show ?case by (simp add: list_all2_same same_tables_def)
next
  case (Cons x rows)
  obtain row table t1 where v: "recovery_view e True observer s clock x (d_observations d) t = ((row, table), t1)"
    by (metis prod.collapse)
  let ?d = "write_view row (d\<lparr>d_observations := table\<rparr>)"
  have same: "same_lease x row" using recovery_view_row[OF v] by simp
  have x: "x \<in> set (d_jobs d)" using Cons.prems by simp
  have jobs: "d_jobs ?d = map (\<lambda>y. if y = x then row else y) (d_jobs d)"
    by (rule write_view_jobs[OF Cons.prems(4) x same])
  have ids: "map j_run_id (d_jobs ?d) = map j_run_id (d_jobs d)"
    by (simp add: jobs same_leaseD[OF same])
  have notin: "x \<notin> set rows" "row \<notin> set rows"
    using Cons.prems(2) by (auto simp: same_leaseD[OF same] image_iff)
  have "distinct (map j_run_id (d_jobs ?d))" and "set rows \<subseteq> set (d_jobs ?d)"
    unfolding ids using Cons.prems notin by (auto simp: jobs)
  then have "list_all2 (\<lambda>j j'. if j \<in> set rows then viewed e observer s clock j j' else j' = j) (d_jobs ?d) (d_jobs d')
      \<and> same_tables ?d d'"
    using Cons.prems by (intro Cons.IH[of ?d t1]) (auto simp: v)
  moreover have "viewed e observer s clock x row" using v by (auto simp: viewed_def)
  ultimately show ?case
    unfolding jobs list_all2_map1
    using notin by (auto elim!: list_all2_mono intro: same_tables_trans[OF write_view_tables] split: if_splits)
qed

theorem reconcile_locked_viewed:
  assumes "reconcile_locked e observer s clock d t = (d', t')" and "distinct (map j_run_id (d_jobs d))"
  shows "list_all2 (viewed e observer s clock) (d_jobs d) (d_jobs d')" and "same_tables d d'"
proof -
  have "distinct (map j_run_id (live_rows d))"
    using assms(2) by (auto simp: live_rows_def distinct_map inj_on_def)
  then have *: "list_all2 (\<lambda>j j'. if j \<in> set (live_rows d) then viewed e observer s clock j j' else j' = j)
      (d_jobs d) (d_jobs d') \<and> same_tables d d'"
    using assms by (intro reconcile_rows_viewed) (auto simp: reconcile_locked_def live_rows_def)
  show "list_all2 (viewed e observer s clock) (d_jobs d) (d_jobs d')"
    using conjunct1[OF *] by (rule list_all2_mono) (auto simp: viewed_def split: if_splits)
  show "same_tables d d'" using * by simp
qed

section \<open>The evidence behind a released lease\<close>

text \<open>What ends a lease of another PID namespace: its lock was free at some moment.\<close>

definition lock_was_free :: "env \<Rightarrow> lease_store \<Rightarrow> string \<Rightarrow> bool" where
  "lock_was_free e s rid \<longleftrightarrow>
     (\<exists>f u. lookup_file s (lock_name rid) = Some f \<and> \<not> e_locked e u (lf_ident f)
        \<and> lf_ident f \<notin> snd ` set (l_held s))"

text \<open>A process was absent: the kernel said so, or its pid now has another birth stamp.\<close>

definition was_absent :: "env \<Rightarrow> identity \<Rightarrow> bool" where
  "was_absent e i \<longleftrightarrow>
     (\<exists>u. e_kill e u (i_pid i) = Kill_esrch
        \<or> (\<exists>x. e_ident e u (i_pid i) = Some x \<and> i_birth x \<noteq> i_birth i))"

text \<open>Every process a run was using was absent; the group by a probe, the descendants by the escape check.\<close>

definition run_was_gone :: "env \<Rightarrow> job \<Rightarrow> bool" where
  "run_was_gone e j \<longleftrightarrow>
     was_absent e (j_owner j)
     \<and> (case j_guard j of
          None \<Rightarrow> True
        | Some g \<Rightarrow> was_absent e g \<and> (\<exists>u. e_killpg e u (i_pgid g) = Kill_esrch)
            \<and> (\<exists>persist table u observed table' v. observations e (j_run_id j) g persist table u = ((observed, table'), v)
                 \<and> (\<forall>ob\<in>set observed. cleared e g True ob)))"

lemma proven_gone_absent:
  assumes "observe_process e (i_pid i) t = ((observed, absent), t')" and "proven_gone observed absent (Some (i_birth i))"
  shows "was_absent e i"
  using proven_gone_evidence[OF assms] unfolding was_absent_def by (metis option.inject)

lemma gone_group_released:
  assumes "gone_group_view e g row observed t = (row', t')" and "terminal_state (j_state row')"
    and "\<not> job_terminal row"
  shows "was_absent e g \<and> was_absent e (j_owner row) \<and> (\<forall>ob\<in>set observed. cleared e g True ob)"
proof -
  obtain escaped t1 where esc: "escaped_or_unknown e g True observed t = (escaped, t1)" by (metis prod.collapse)
  obtain go ga t2 where g: "observe_process e (i_pid g) t1 = ((go, ga), t2)" by (metis prod.collapse)
  obtain oo oa t3 where o: "observe_process e (i_pid (j_owner row)) t2 = ((oo, oa), t3)" by (metis prod.collapse)
  have "\<not> escaped \<and> proven_gone go ga (Some (i_birth g)) \<and> proven_gone oo oa (Some (i_birth (j_owner row)))"
    using assms by (auto simp: gone_group_view_def esc g o job_terminal_def split: if_splits)
  then show ?thesis
    using esc escaped_false proven_gone_absent[OF g] proven_gone_absent[OF o] by auto
qed

lemma guarded_released:
  assumes "guarded_view e g row owner gone observed t = (row', t')" and "terminal_state (j_state row')"
    and "\<not> job_terminal row"
  shows "(\<exists>u. e_killpg e u (i_pgid g) = Kill_esrch) \<and> was_absent e g \<and> was_absent e (j_owner row)
    \<and> (\<forall>ob\<in>set observed. cleared e g True ob)"
proof -
  obtain c t1 where c: "observation_cause e g False observed t = (c, t1)" by (metis prod.collapse)
  obtain grp t2 where grp: "probe_group e (i_pgid g) (Suc t1) = (grp, t2)" by (metis prod.collapse)
  have "c = None"
    using assms by (auto simp: guarded_view_def c split: option.splits cause.splits)
  then have *: "go_exists grp = Some False \<and> gone_group_view e g row observed t2 = (row', t')"
    using assms
    by (auto simp: guarded_view_def c now_def grp live_group_view_def job_terminal_def split: if_splits)
  then show ?thesis
    using probe_group_absent[OF grp] gone_group_released[OF _ assms(2,3)] by blast
qed

text \<open>A row of this namespace, past its deadline check.\<close>

lemma local_released:
  assumes v: "recovery_view e persist observer s clock row table t = ((row', table'), t')"
    and "terminal_state (j_state row')" and "\<not> job_terminal row"
    and "\<not> (j_state row = Queued \<and> j_deadline row \<le> clock)"
    and k: "classify_row e observer s (j_run_id row) t = ((kind, sc), t1)" and "kind \<noteq> Foreign"
  shows "run_was_gone e row"
proof -
  obtain oo oa t2 where o: "observe_process e (i_pid (j_owner row)) t1 = ((oo, oa), t2)" by (metis prod.collapse)
  show ?thesis
  proof (cases "j_guard row")
    case None
    then have "proven_gone oo oa (Some (i_birth (j_owner row)))"
      using assms o by (auto simp: recovery_view_def Let_def unguarded_view_def job_terminal_def split: if_splits)
    then show ?thesis using proven_gone_absent[OF o] None by (simp add: run_was_gone_def)
  next
    case (Some g)
    obtain observed tb t3 where ob: "observations e (j_run_id row) g persist table t2 = ((observed, tb), t3)"
      by (metis prod.collapse)
    have "guarded_view e g row oo (proven_gone oo oa (Some (i_birth (j_owner row)))) observed t3 = (row', t')"
      using assms o Some ob by (auto simp: recovery_view_def Let_def split: prod.splits)
    from guarded_released[OF this assms(2,3)] show ?thesis
      using Some ob unfolding run_was_gone_def by simp blast
  qed
qed

definition released_on_evidence :: "env \<Rightarrow> lease_store \<Rightarrow> rat \<Rightarrow> job \<Rightarrow> bool" where
  "released_on_evidence e s clock j \<longleftrightarrow>
     (j_state j = Queued \<and> j_deadline j \<le> clock) \<or> lock_was_free e s (j_run_id j) \<or> run_was_gone e j"

lemma foreign_released:
  assumes "foreign_view e s row sc t = (row', t')" and "terminal_state (j_state row')" and "\<not> job_terminal row"
  shows "lock_was_free e s (j_run_id row)"
proof -
  obtain lock t1 where l: "probe e s (j_run_id row) sc t = (lock, t1)" by (metis prod.collapse)
  have "lock = Inr Acquirable"
    using assms l by (auto simp: foreign_view_def job_terminal_def split: if_splits)
  then show ?thesis
    using l by (auto elim!: probe_acquirable simp: lock_was_free_def)
qed

lemma viewed_released:
  assumes "viewed e observer s clock j j'" and "job_terminal j'" and "\<not> job_terminal j"
  shows "released_on_evidence e s clock j"
proof -
  obtain table t table' t' where v: "recovery_view e True observer s clock j table t = ((j', table'), t')"
    using assms by (auto simp: viewed_def)
  obtain kind sc t1 where k: "classify_row e observer s (j_run_id j) t = ((kind, sc), t1)" by (metis prod.collapse)
  have t: "terminal_state (j_state j')" using assms(2) by (simp add: job_terminal_def)
  show ?thesis
  proof (cases "j_state j = Queued \<and> j_deadline j \<le> clock")
    case False
    note alive = this
    show ?thesis
    proof (cases "kind = Foreign")
      case True
      then obtain u where "foreign_view e s j sc t1 = (j', u)"
        using v k False assms(3) by (auto simp: recovery_view_def split: prod.splits if_splits)
      then show ?thesis
        using foreign_released t assms(3) by (auto simp: released_on_evidence_def)
    next
      case False
      show ?thesis
        using local_released[OF v t assms(3) alive k False] by (simp add: released_on_evidence_def)
    qed
  qed (simp add: released_on_evidence_def)
qed

section \<open>A new boot\<close>

lemma recover_boot_jobs:
  assumes "recover_boot e clock d t = (Inr d', t')"
  shows "d_jobs d' = (if e_boot e t = Some (d_boot_id d) then d_jobs d
                      else map (\<lambda>j. boot_transition j clock) (d_jobs d))
    \<and> d_resources d' = d_resources d \<and> d_domain_id d' = d_domain_id d \<and> ledger_limits d' = ledger_limits d"
proof -
  have "map ((\<lambda>j. j\<lparr>j_enqueue_time := clock, j_grant_time := None, j_deadline := clock\<rparr>)
           \<circ> (\<lambda>j. if \<not> job_terminal j then j\<lparr>j_state := Cancelled, j_phase := ''complete'', j_nonce := None,
                j_generation := None, j_final_status := Some Incomplete, j_final_exit_code := Some 70,
                j_final_committed := Some False, j_final_source_valid := Some False,
                j_reason_code := Some ''ownership-uncertain'', j_reason_message := Some BOOT_MESSAGE\<rparr> else j))
         (d_jobs d) = map (\<lambda>j. boot_transition j clock) (d_jobs d)"
    by (auto simp: boot_transition_def Let_def job_terminal_def)
  then show ?thesis
    using assms
    by (auto simp: recover_boot_def boot_identity_def reset_clocks_def cancel_all_live_def update_jobs_def
        ledger_limits_def Let_def split: option.splits if_splits)
qed

end
