(* ===== verification/Sched_Invariant.thy ===== *)
theory Sched_Invariant
  imports Sched_Views Sched_Pass
begin

text \<open>
  What every ledger of the scheduler satisfies (\<open>sound\<close>), and how the statements the
  handlers are made of preserve it: a row update that only moves rows towards the end of
  their life (\<open>quiet\<close>), the deletion of terminal rows, the append of a queued row, and the
  grant of the head of the queue.
\<close>

section \<open>The invariant\<close>

definition row_ok :: "job \<Rightarrow> bool" where
  "row_ok r \<longleftrightarrow>
     (j_state r = Queued \<longrightarrow> j_guard r = None \<and> j_nonce r = None \<and> j_generation r = None)
     \<and> (job_active r \<longrightarrow> j_nonce r \<noteq> None \<and> j_generation r \<noteq> None \<and> j_grant_time r \<noteq> None)
     \<and> (j_state r = Granted \<longrightarrow> j_guard r = None)
     \<and> (j_state r \<in> {Running, Draining, Finalizing} \<longrightarrow> j_guard r \<noteq> None)
     \<and> j_state r \<noteq> Cancelling
     \<and> 1 \<le> j_slots r \<and> j_slots r \<le> j_requested_slots r"

definition compatible :: "ledger \<Rightarrow> job \<Rightarrow> job \<Rightarrow> bool" where
  "compatible d a b \<longleftrightarrow>
     j_checkout_id a \<noteq> j_checkout_id b \<and> \<not> j_exclusive a \<and> \<not> j_exclusive b
     \<and> row_resources d (j_run_id a) \<inter> row_resources d (j_run_id b) = {}"

definition total_slots :: "ledger \<Rightarrow> int" where
  "total_slots d = sum_list (map j_slots (active_jobs d))"

definition sound :: "ledger \<Rightarrow> bool" where
  "sound d \<longleftrightarrow>
     sorted_wrt (<) (map j_sequence (d_jobs d))
     \<and> distinct (map j_run_id (d_jobs d))
     \<and> (\<forall>r\<in>set (d_jobs d). row_ok r)
     \<and> (\<forall>x\<in>set (d_resources d). fst x \<in> j_run_id ` set (d_jobs d))
     \<and> (\<forall>a\<in>set (active_jobs d). \<forall>b\<in>set (active_jobs d). a \<noteq> b \<longrightarrow> compatible d a b)
     \<and> total_slots d \<le> 64
     \<and> pending_count d \<le> MAX_PENDING_JOBS
     \<and> valid_limits (ledger_limits d)"

lemma soundD:
  assumes "sound d"
  shows "sorted_wrt (<) (map j_sequence (d_jobs d))" "distinct (map j_run_id (d_jobs d))"
    "r \<in> set (d_jobs d) \<Longrightarrow> row_ok r"
    "x \<in> set (d_resources d) \<Longrightarrow> fst x \<in> j_run_id ` set (d_jobs d)"
    "a \<in> set (active_jobs d) \<Longrightarrow> b \<in> set (active_jobs d) \<Longrightarrow> a \<noteq> b \<Longrightarrow> compatible d a b"
    "total_slots d \<le> 64" "pending_count d \<le> MAX_PENDING_JOBS" "valid_limits (ledger_limits d)"
  using assms by (auto simp: sound_def)

section \<open>Quiet changes\<close>

definition quiet_row :: "job \<Rightarrow> job \<Rightarrow> bool" where
  "quiet_row r r' \<longleftrightarrow>
     j_run_id r' = j_run_id r \<and> j_sequence r' = j_sequence r \<and> j_checkout_id r' = j_checkout_id r
     \<and> j_exclusive r' = j_exclusive r \<and> j_slots r' = j_slots r \<and> j_requested_slots r' = j_requested_slots r
     \<and> (job_terminal r \<longrightarrow> job_terminal r')
     \<and> (row_ok r \<longrightarrow> row_ok r' \<and> (job_active r' \<longrightarrow> job_active r) \<and> (j_state r' = Queued \<longrightarrow> j_state r = Queued))"

definition quiet :: "ledger \<Rightarrow> ledger \<Rightarrow> bool" where
  "quiet d d' \<longleftrightarrow>
     list_all2 quiet_row (d_jobs d) (d_jobs d') \<and> d_resources d' = d_resources d
     \<and> d_domain_id d' = d_domain_id d
     \<and> (valid_limits (ledger_limits d) \<longrightarrow> valid_limits (ledger_limits d'))"

lemma quiet_row_refl [simp]: "quiet_row r r"
  by (simp add: quiet_row_def)

lemma quiet_row_trans: "quiet_row a b \<Longrightarrow> quiet_row b c \<Longrightarrow> quiet_row a c"
  by (auto simp: quiet_row_def)

lemma quiet_refl [simp]: "quiet d d"
  by (simp add: quiet_def list_all2_refl)

lemma quiet_trans: "quiet a b \<Longrightarrow> quiet b c \<Longrightarrow> quiet a c"
  unfolding quiet_def
  using list_all2_trans[of quiet_row quiet_row quiet_row, OF quiet_row_trans] by fastforce

lemma list_all2_obtain:
  assumes "list_all2 P xs ys" and "y \<in> set ys"
  obtains x where "x \<in> set xs" "P x y"
proof -
  obtain i where "i < length ys" "y = ys ! i" using assms(2) by (auto simp: in_set_conv_nth)
  then have "xs ! i \<in> set xs" "P (xs ! i) y"
    using assms(1) by (auto simp: list_all2_conv_all_nth)
  then show ?thesis by (rule that)
qed

lemma quiet_keys:
  assumes "list_all2 quiet_row xs ys"
  shows "map j_sequence ys = map j_sequence xs" "map j_run_id ys = map j_run_id xs"
  using assms by (induction rule: list_all2_induct) (auto simp: quiet_row_def)

lemma quiet_rowD:
  assumes "quiet_row r r'" and "row_ok r"
  shows "row_ok r'" "job_active r' \<Longrightarrow> job_active r" "j_state r' = Queued \<Longrightarrow> j_state r = Queued"
    "j_slots r' = j_slots r" "1 \<le> j_slots r"
  using assms by (auto simp: quiet_row_def row_ok_def)

lemma quiet_slots:
  assumes "list_all2 quiet_row xs ys" and "\<forall>r\<in>set xs. row_ok r"
  shows "sum_list (map j_slots (filter job_active ys)) \<le> sum_list (map j_slots (filter job_active xs))
    \<and> length (filter (\<lambda>j. j_state j = Queued) ys) \<le> length (filter (\<lambda>j. j_state j = Queued) xs)"
  using assms
proof (induction rule: list_all2_induct)
  case (Cons x xs y ys)
  have "row_ok x" using Cons.prems by simp
  note x = quiet_rowD[OF Cons.hyps(1) this]
  have "sum_list (map j_slots (filter job_active ys)) \<le> sum_list (map j_slots (filter job_active xs))
    \<and> length (filter (\<lambda>j. j_state j = Queued) ys) \<le> length (filter (\<lambda>j. j_state j = Queued) xs)"
    using Cons.IH Cons.prems by simp
  then show ?case using x by auto
qed simp

theorem quiet_sound:
  assumes q: "quiet d d'" and s: "sound d"
  shows "sound d'"
proof -
  have l: "list_all2 quiet_row (d_jobs d) (d_jobs d')" and res: "d_resources d' = d_resources d"
    using q by (auto simp: quiet_def)
  note keys = quiet_keys[OF l]
  have ids: "j_run_id ` set (d_jobs d') = j_run_id ` set (d_jobs d)"
    by (metis keys(2) set_map)
  have ok: "\<forall>r\<in>set (d_jobs d'). row_ok r"
  proof
    fix r assume "r \<in> set (d_jobs d')"
    with l obtain r0 where "r0 \<in> set (d_jobs d)" "quiet_row r0 r" by (rule list_all2_obtain)
    then show "row_ok r" using soundD(3)[OF s] quiet_rowD(1) by blast
  qed
  have "compatible d' a' b'" if "a' \<in> set (active_jobs d')" "b' \<in> set (active_jobs d')" "a' \<noteq> b'" for a' b'
  proof -
    have "a' \<in> set (d_jobs d')" using that(1) by (simp add: active_jobs_def)
    then obtain a where a: "a \<in> set (d_jobs d)" "quiet_row a a'"
      by (rule list_all2_obtain[OF l])
    have "b' \<in> set (d_jobs d')" using that(2) by (simp add: active_jobs_def)
    then obtain b where b: "b \<in> set (d_jobs d)" "quiet_row b b'"
      by (rule list_all2_obtain[OF l])
    have "j_run_id a' \<noteq> j_run_id b'"
      using that soundD(2)[OF s] by (auto simp: active_jobs_def keys[symmetric] dest: distinct_key_unique)
    then have "a \<noteq> b" using a b by (auto simp: quiet_row_def)
    moreover have "a \<in> set (active_jobs d)" "b \<in> set (active_jobs d)"
      using a b that soundD(3)[OF s] by (auto simp: active_jobs_def quiet_row_def)
    ultimately have "compatible d a b" using soundD(5)[OF s] by blast
    then show ?thesis using a(2) b(2) by (simp add: compatible_def quiet_row_def row_resources_def res)
  qed
  then show ?thesis
    using s q ok quiet_slots[OF l] keys ids res
    by (auto simp: sound_def quiet_def total_slots_def active_jobs_def pending_count_def)
qed

lemma quiet_update:
  assumes "\<And>j. j \<in> set (d_jobs d) \<Longrightarrow> P j \<Longrightarrow> quiet_row j (f j)"
  shows "quiet d (update_jobs P f d)"
  using assms by (auto simp: quiet_def update_jobs_def list_all2_map_right ledger_limits_def)

lemma quiet_same_jobs:
  "d_jobs d' = d_jobs d \<Longrightarrow> d_resources d' = d_resources d \<Longrightarrow> d_domain_id d' = d_domain_id d \<Longrightarrow>
   ledger_limits d' = ledger_limits d \<Longrightarrow> quiet d d'"
  by (simp add: quiet_def list_all2_refl)

section \<open>Recovery is quiet\<close>

lemma viewed_quiet: "viewed e observer s clock j j' \<Longrightarrow> quiet_row j j'"
proof -
  assume "viewed e observer s clock j j'"
  then have same: "same_lease j j'" and rec: "recovered_state j (j_state j')" and fin: "job_terminal j \<Longrightarrow> j' = j"
    using viewed_row by blast+
  note keys = same_leaseD[OF same]
  have "row_ok j' \<and> (job_active j' \<longrightarrow> job_active j) \<and> (j_state j' = Queued \<longrightarrow> j_state j = Queued)"
    if ok: "row_ok j" and alive: "\<not> job_terminal j"
    using rec ok alive unfolding recovered_state_def row_ok_def job_active_def job_terminal_def keys
    by (cases "j_state j"; cases "j_state j'"; simp)
  then show ?thesis
    using fin by (cases "job_terminal j") (auto simp: quiet_row_def keys)
qed

lemma reconcile_locked_quiet:
  assumes "reconcile_locked e observer s clock d t = (d', t')" and "sound d"
  shows "quiet d d'"
  using reconcile_locked_viewed[OF assms(1) soundD(2)[OF assms(2)]]
  by (auto simp: quiet_def same_tables_def elim!: list_all2_mono viewed_quiet)

lemma boot_transition_quiet: "quiet_row j (boot_transition j clock)"
proof (cases "job_terminal j")
  case True
  then have "\<not> job_active j" "j_state j \<noteq> Queued" "j_state j \<notin> {Granted, Running, Draining, Finalizing, Cancelling}"
    by (auto simp: job_terminal_def job_active_def terminal_state_def TERMINAL_def)
  then show ?thesis
    using True by (simp add: boot_transition_def Let_def quiet_row_def row_ok_def job_active_def job_terminal_def)
next
  case False
  then show ?thesis
    by (simp add: boot_transition_def Let_def quiet_row_def row_ok_def job_active_def job_terminal_def)
qed

lemma recover_boot_quiet:
  assumes "recover_boot e clock d t = (Inr d', t')"
  shows "quiet d d'"
  using recover_boot_jobs[OF assms] boot_transition_quiet
  by (auto simp: quiet_def list_all2_map_right list_all2_refl split: if_splits)

lemma recover_ledger_quiet:
  assumes "recover_ledger e observer s clock d t = (Inr d', t')" and "sound d"
  shows "quiet d d'"
proof -
  obtain d1 t1 where b: "recover_boot e clock d t = (Inr d1, t1)"
    and r: "reconcile_locked e observer s clock d1 t1 = (d', t')"
    using assms by (auto simp: recover_ledger_def Let_def split: prod.splits sum.splits)
  show ?thesis
    using recover_boot_quiet[OF b] reconcile_locked_quiet[OF r] quiet_sound assms(2) quiet_trans by blast
qed

lemma refresh_limits_quiet:
  assumes "refresh_limits e d t = (Inr d', t')"
  shows "quiet d d'"
  using refresh_limits_tables[OF assms] refresh_limits_valid[OF assms]
  by (auto simp: quiet_def list_all2_refl)

section \<open>Deleting terminal rows\<close>

lemma terminal_not_active: "job_terminal j \<Longrightarrow> \<not> job_active j \<and> j_state j \<noteq> Queued"
  by (cases "j_state j") (auto simp: job_terminal_def job_active_def)

lemma delete_simps [ledger_simps]:
  "d_jobs (delete_jobs P d) = filter (\<lambda>j. \<not> P j) (d_jobs d)"
  "ledger_limits (delete_jobs P d) = ledger_limits d" "d_domain_id (delete_jobs P d) = d_domain_id d"
  by (simp_all add: delete_jobs_def Let_def ledger_limits_def)

lemma delete_active:
  assumes "\<And>j. j \<in> set (d_jobs d) \<Longrightarrow> P j \<Longrightarrow> job_terminal j"
  shows "active_jobs (delete_jobs P d) = active_jobs d" "pending_count (delete_jobs P d) = pending_count d"
proof -
  have "(job_active j \<and> \<not> P j) = job_active j" "(j_state j = Queued \<and> \<not> P j) = (j_state j = Queued)"
    if "j \<in> set (d_jobs d)" for j
    using assms[OF that] terminal_not_active[of j] by auto
  then show "active_jobs (delete_jobs P d) = active_jobs d" "pending_count (delete_jobs P d) = pending_count d"
    by (auto simp: active_jobs_def pending_count_def ledger_simps intro!: filter_cong arg_cong[where f = length])
qed

lemma delete_resources:
  assumes "distinct (map j_run_id (d_jobs d))" and "j \<in> set (d_jobs d)" and "\<not> P j"
  shows "row_resources (delete_jobs P d) (j_run_id j) = row_resources d (j_run_id j)"
proof -
  have "j_run_id j \<notin> j_run_id ` set (filter P (d_jobs d))"
    using assms by (auto dest: distinct_key_unique)
  then show ?thesis by (auto simp: row_resources_def delete_jobs_def Let_def image_iff)
qed

theorem delete_sound:
  assumes s: "sound d" and P: "\<And>j. j \<in> set (d_jobs d) \<Longrightarrow> P j \<Longrightarrow> job_terminal j"
  shows "sound (delete_jobs P d)"
proof -
  note active = delete_active[of d P, OF P]
  have "row_resources (delete_jobs P d) (j_run_id a) = row_resources d (j_run_id a)" if "a \<in> set (active_jobs d)" for a
    using that P terminal_not_active soundD(2)[OF s] by (intro delete_resources) (auto simp: active_jobs_def)
  then have "compatible (delete_jobs P d) a b" if "a \<in> set (active_jobs d)" "b \<in> set (active_jobs d)" "a \<noteq> b" for a b
    using that soundD(5)[OF s] by (simp add: compatible_def)
  moreover have "fst x \<in> j_run_id ` set (filter (\<lambda>j. \<not> P j) (d_jobs d))" if "x \<in> set (d_resources (delete_jobs P d))" for x
    using that soundD(4)[OF s, of x] by (auto simp: delete_jobs_def Let_def)
  ultimately show ?thesis
    using s active
    by (auto simp: sound_def total_slots_def ledger_simps sorted_wrt_map sorted_wrt_filter distinct_map_filter)
qed

lemma prune_terminal_sound: "sound d \<Longrightarrow> sound (prune_terminal d)"
  unfolding prune_terminal_def Let_def
  by (rule delete_sound) (auto dest!: in_set_dropD dest: distinct_key_unique[OF soundD(2)])

section \<open>Appending a queued row\<close>

lemma insert_resources_ok:
  "insert_resources rid xs rs = Some rs' \<Longrightarrow> rs' = rs @ map (Pair rid) xs"
  by (induction rid xs rs rule: insert_resources.induct) (auto split: if_splits)

lemma insert_resources_some:
  "(\<exists>rs'. insert_resources rid xs rs = Some rs') \<longleftrightarrow> distinct xs \<and> (\<forall>x\<in>set xs. (rid, x) \<notin> set rs)"
  by (induction xs arbitrary: rs) auto

lemma next_sequence_bound: "j \<in> set (d_jobs d) \<Longrightarrow> j_sequence j < next_sequence d"
proof -
  assume j: "j \<in> set (d_jobs d)"
  then have "j_sequence j \<le> Max (j_sequence ` set (d_jobs d))" by simp
  moreover have "d_jobs d \<noteq> []" using j by auto
  ultimately show ?thesis by (simp add: next_sequence_def)
qed

theorem append_sound:
  assumes s: "sound d" and r: "row_ok r" "j_state r = Queued" and fresh: "find_job d (j_run_id r) = None"
    and sq: "j_sequence r = next_sequence d" and room: "pending_count d < MAX_PENDING_JOBS"
  shows "sound (d\<lparr>d_jobs := d_jobs d @ [r], d_resources := d_resources d @ map (Pair (j_run_id r)) locks\<rparr>)"
    (is "sound ?d")
proof -
  have new: "j_run_id r \<notin> j_run_id ` set (d_jobs d)"
    using fresh by (auto simp: find_job_def find_None_iff)
  have active: "active_jobs ?d = active_jobs d"
    using r by (simp add: active_jobs_def job_active_def)
  have "row_resources ?d (j_run_id a) = row_resources d (j_run_id a)" if "a \<in> set (active_jobs d)" for a
    using that new by (auto simp: row_resources_def active_jobs_def)
  then have "compatible ?d a b" if "a \<in> set (active_jobs d)" "b \<in> set (active_jobs d)" "a \<noteq> b" for a b
    using that soundD(5)[OF s] by (simp add: compatible_def)
  moreover have "sorted_wrt (<) (map j_sequence (d_jobs ?d))"
    using soundD(1)[OF s] next_sequence_bound[of _ d] sq by (auto simp: sorted_wrt_append)
  moreover have "fst x \<in> j_run_id ` set (d_jobs ?d)" if "x \<in> set (d_resources ?d)" for x
    using that soundD(4)[OF s, of x] by auto
  ultimately show ?thesis
    using s r new room active
    by (auto simp: sound_def total_slots_def pending_count_def ledger_limits_def)
qed

section \<open>Granting the head of the queue\<close>

lemma update_one:
  assumes "distinct (map j_run_id (d_jobs d))" and "r \<in> set (d_jobs d)"
  shows "d_jobs (update_jobs (\<lambda>j. j_run_id j = j_run_id r) f d) = map (\<lambda>j. if j = r then f r else j) (d_jobs d)"
  using distinct_key_unique[OF assms(1)] assms(2) by (auto simp: update_jobs_def)

lemma sum_filter_replace:
  assumes "distinct xs" and "x \<in> set xs" and "\<not> P x" and "P y"
  shows "sum_list (map f (filter P (map (\<lambda>z. if z = x then y else z) xs))) = sum_list (map f (filter P xs)) + (f y :: int)"
  using assms
proof (induction xs)
  case (Cons a xs)
  show ?case
  proof (cases "a = x")
    case True
    then have "map (\<lambda>z. if z = x then y else z) xs = xs"
      using Cons.prems by (intro map_idI) auto
    then show ?thesis using True Cons.prems by simp
  next
    case False
    then show ?thesis using Cons by auto
  qed
qed simp

lemma length_as_sum: "int (length xs) = sum_list (map (\<lambda>_. 1) xs)"
  by (induction xs) auto

definition grant_of :: "env \<Rightarrow> rat \<Rightarrow> ledger \<Rightarrow> nat \<Rightarrow> job \<Rightarrow> job" where
  "grant_of e clock d t row =
     (let (slots, estimate, reserved) = row_charge d row
      in set_granted slots estimate reserved clock (e_token e t) (d_config_generation d) row)"

definition available_for :: "ledger \<Rightarrow> job \<Rightarrow> bool" where
  "available_for d row =
     resources_available d (j_checkout_id row) (j_exclusive row) (row_resources d (j_run_id row))
       (fst (row_charge d row)) (snd (snd (row_charge d row)))"

definition charged_memory :: "ledger \<Rightarrow> int \<Rightarrow> int" where
  "charged_memory d budget =
     sum_list (map (\<lambda>r. case j_reserved_memory r of None \<Rightarrow> budget | Some m \<Rightarrow> m) (active_jobs d))"

text \<open>The whole machine is within its limits.\<close>

definition within_limits :: "ledger \<Rightarrow> bool" where
  "within_limits d \<longleftrightarrow>
     int (active_count d) \<le> d_config_jobs d \<and> total_slots d \<le> d_config_slots d
     \<and> (case d_config_memory d of None \<Rightarrow> True | Some budget \<Rightarrow> charged_memory d budget \<le> budget)"

lemma available_for_iff:
  "available_for d row \<longleftrightarrow>
     (j_exclusive row \<longrightarrow> active_jobs d = []) \<and> int (active_count d) < d_config_jobs d
     \<and> (\<forall>r\<in>set (active_jobs d). \<not> j_exclusive r \<and> j_checkout_id r \<noteq> j_checkout_id row
          \<and> row_resources d (j_run_id row) \<inter> row_resources d (j_run_id r) = {})
     \<and> total_slots d + fst (row_charge d row) \<le> d_config_slots d
     \<and> (case d_config_memory d of
          None \<Rightarrow> True
        | Some budget \<Rightarrow> (\<exists>m. snd (snd (row_charge d row)) = Some m \<and> charged_memory d budget + m \<le> budget))"
  unfolding available_for_def resources_available_def Let_def active_count_def total_slots_def charged_memory_def
  by (cases "active_jobs d") (auto split: option.splits)

lemma grant_of_fields [simp]:
  "j_run_id (grant_of e clock d t r) = j_run_id r" "j_sequence (grant_of e clock d t r) = j_sequence r"
  "j_checkout_id (grant_of e clock d t r) = j_checkout_id r" "j_exclusive (grant_of e clock d t r) = j_exclusive r"
  "j_state (grant_of e clock d t r) = Granted" "j_slots (grant_of e clock d t r) = fst (row_charge d r)"
  "j_reserved_memory (grant_of e clock d t r) = snd (snd (row_charge d r))"
  "j_memory_estimate (grant_of e clock d t r) = fst (snd (row_charge d r))"
  "j_guard (grant_of e clock d t r) = j_guard r" "j_requested_slots (grant_of e clock d t r) = j_requested_slots r"
  "j_nonce (grant_of e clock d t r) = Some (e_token e t)" "j_grant_time (grant_of e clock d t r) = Some clock"
  "j_generation (grant_of e clock d t r) = Some (d_config_generation d)" "j_owner (grant_of e clock d t r) = j_owner r"
  by (simp_all add: grant_of_def set_granted_def split: prod.splits)

lemma grant_one_some:
  assumes "grant_one e clock row d t = Some d'" and "distinct (map j_run_id (d_jobs d))" and "row \<in> set (d_jobs d)"
  shows "available_for d row" "d_jobs d' = map (\<lambda>j. if j = row then grant_of e clock d t row else j) (d_jobs d)"
    "d_resources d' = d_resources d" "ledger_limits d' = ledger_limits d" "d_domain_id d' = d_domain_id d"
    "d_config_generation d' = d_config_generation d"
proof -
  obtain slots estimate reserved where c: "row_charge d row = (slots, estimate, reserved)" by (metis prod.collapse)
  have *: "available_for d row" "d' = update_jobs (\<lambda>j. j_run_id j = j_run_id row)
       (set_granted slots estimate reserved clock (e_token e t) (d_config_generation d)) d"
    using assms(1) by (auto simp: grant_one_def available_for_def c split: if_splits)
  show "available_for d row" "d_jobs d' = map (\<lambda>j. if j = row then grant_of e clock d t row else j) (d_jobs d)"
    using * update_one[OF assms(2,3)] by (simp_all add: grant_of_def c)
  show "d_resources d' = d_resources d" "ledger_limits d' = ledger_limits d" "d_domain_id d' = d_domain_id d"
    "d_config_generation d' = d_config_generation d"
    using *(2) by (simp_all add: update_jobs_def ledger_limits_def)
qed

lemma row_charge_slots: "row_ok r \<Longrightarrow> valid_limits (ledger_limits d) \<Longrightarrow>
    1 \<le> fst (row_charge d r) \<and> fst (row_charge d r) \<le> j_requested_slots r"
  using actual_slots_le actual_slots_pos
  by (auto simp: row_charge_def Let_def row_ok_def valid_limits_def ledger_limits_def)

lemma grant_active:
  assumes "distinct (map j_run_id (d_jobs d))" and "row \<in> set (d_jobs d)" and "j_state row = Queued"
    and "d_jobs d' = map (\<lambda>j. if j = row then g else j) (d_jobs d)" and "job_active g"
  shows "sum_list (map f (active_jobs d')) = sum_list (map f (active_jobs d)) + (f g :: int)"
    "a \<in> set (active_jobs d') \<longleftrightarrow> a \<in> set (active_jobs d) \<or> a = g"
  using assms sum_filter_replace[of "d_jobs d" row job_active g f]
  by (auto simp: active_jobs_def distinct_map job_active_def)

lemma length_filter_mono: "(\<And>x. P x \<Longrightarrow> Q x) \<Longrightarrow> length (filter P xs) \<le> length (filter Q xs)"
  by (induction xs) auto

lemma row_ok_grant:
  assumes "row_ok r" and "j_state r = Queued" and "valid_limits (ledger_limits d)"
  shows "row_ok (grant_of e clock d t r)"
  using assms row_charge_slots[OF assms(1,3)] by (simp add: row_ok_def job_active_def)

lemma sorted_replace:
  "j_sequence g = j_sequence row \<Longrightarrow>
   map j_sequence (map (\<lambda>j. if j = row then g else j) xs) = map j_sequence xs"
  by auto

lemma grant_compatible:
  assumes s: "sound d" and "available_for d row" and res: "d_resources d' = d_resources d"
    and g: "j_run_id g = j_run_id row" "j_checkout_id g = j_checkout_id row" "j_exclusive g = j_exclusive row"
    and "a \<in> set (active_jobs d) \<or> a = g" and "b \<in> set (active_jobs d) \<or> b = g" and "a \<noteq> b"
  shows "compatible d' a b"
proof -
  have rr: "row_resources d' rid = row_resources d rid" for rid
    by (simp add: row_resources_def res)
  have avail: "\<not> j_exclusive r \<and> j_checkout_id r \<noteq> j_checkout_id row
      \<and> row_resources d (j_run_id row) \<inter> row_resources d (j_run_id r) = {} \<and> \<not> j_exclusive row"
    if "r \<in> set (active_jobs d)" for r
    using assms(2) that by (auto simp: available_for_iff)
  consider "a \<in> set (active_jobs d)" "b \<in> set (active_jobs d)" | "a \<in> set (active_jobs d)" "b = g"
    | "a = g" "b \<in> set (active_jobs d)"
    using assms(7-9) by blast
  then show ?thesis
  proof cases
    case 1
    then show ?thesis using soundD(5)[OF s 1 assms(9)] by (simp add: compatible_def rr)
  next
    case 2
    then show ?thesis using avail[OF 2(1)] g by (auto simp: compatible_def rr)
  next
    case 3
    then show ?thesis using avail[OF 3(2)] g by (auto simp: compatible_def rr)
  qed
qed

theorem grant_one_sound:
  assumes s: "sound d" and row: "row \<in> set (d_jobs d)" "j_state row = Queued"
    and "grant_one e clock row d t = Some d'"
  shows "sound d'" "within_limits d'"
proof -
  let ?g = "grant_of e clock d t row"
  note one = grant_one_some[OF assms(4) soundD(2)[OF s] row(1)]
  have ga: "job_active ?g" by (simp add: job_active_def)
  note act = grant_active[OF soundD(2)[OF s] row one(2) ga]
  have slots: "total_slots d' = total_slots d + fst (row_charge d row)"
    using act(1)[of j_slots] by (simp add: total_slots_def)
  have count: "int (active_count d') = int (active_count d) + 1"
    using act(1)[of "\<lambda>_. 1"] by (simp add: active_count_def length_as_sum)
  have av: "total_slots d + fst (row_charge d row) \<le> d_config_slots d" "int (active_count d) < d_config_jobs d"
    using one(1) by (auto simp: available_for_iff)
  have lim: "d_config_slots d' = d_config_slots d" "d_config_jobs d' = d_config_jobs d" "d_config_memory d' = d_config_memory d"
    using one(4) by (simp_all add: ledger_limits_def)
  have mem: "charged_memory d' budget \<le> budget" if "d_config_memory d = Some budget" for budget
    using one(1) that act(1)[of "\<lambda>r. case j_reserved_memory r of None \<Rightarrow> budget | Some m \<Rightarrow> m"]
    by (auto simp: available_for_iff charged_memory_def)
  show "within_limits d'"
    using slots count av mem by (auto simp: within_limits_def lim split: option.splits)
  have "compatible d' a b" if "a \<in> set (active_jobs d')" "b \<in> set (active_jobs d')" "a \<noteq> b" for a b
    using that act(2) by (intro grant_compatible[OF s one(1) one(3), of ?g]) auto
  moreover have "row_ok r" if "r \<in> set (d_jobs d')" for r
    using that row_ok_grant[OF soundD(3)[OF s row(1)] row(2) soundD(8)[OF s]] soundD(3)[OF s]
    by (auto simp: one(2) split: if_splits)
  moreover have "map j_sequence (d_jobs d') = map j_sequence (d_jobs d)" "map j_run_id (d_jobs d') = map j_run_id (d_jobs d)"
    by (auto simp: one(2))
  moreover have "total_slots d' \<le> 64"
    using slots av soundD(8)[OF s] by (auto simp: valid_limits_def ledger_limits_def)
  moreover have "pending_count d' \<le> pending_count d"
    unfolding pending_count_def one(2) filter_map length_map
    by (rule length_filter_mono) (auto split: if_splits)
  ultimately show "sound d'"
    using s one(3,4) unfolding sound_def by (metis (no_types, lifting) order_trans set_map)
qed

section \<open>The grant scan is first in, first out\<close>

lemma queued_filter:
  assumes "sound d"
  shows "queued_jobs d = filter (\<lambda>j. j_state j = Queued) (d_jobs d)"
proof -
  have "sorted (map j_sequence (filter (\<lambda>j. j_state j = Queued) (d_jobs d)))"
    using soundD(1)[OF assms] by (intro sorted_filter) (simp add: strict_sorted_imp_sorted)
  then show ?thesis by (simp add: queued_jobs_def sort_key_id_if_sorted)
qed

definition granted_row :: "env \<Rightarrow> job \<Rightarrow> job \<Rightarrow> bool" where
  "granted_row e j j' \<longleftrightarrow> (\<exists>clock d t. valid_limits (ledger_limits d) \<and> j' = grant_of e clock d t j)"

definition grants :: "env \<Rightarrow> job list \<Rightarrow> ledger \<Rightarrow> ledger \<Rightarrow> bool" where
  "grants e rows d d' \<longleftrightarrow>
     list_all2 (\<lambda>j j'. if j \<in> set rows then granted_row e j j' else j' = j) (d_jobs d) (d_jobs d')"

lemma grants_step:
  assumes "d_jobs d1 = map (\<lambda>j. if j = row then g else j) (d_jobs d)" and "granted_row e row g"
    and "grants e rows d1 d'" and "g \<notin> set rows" and "row \<notin> set rows"
  shows "grants e (row # rows) d d'"
  using assms unfolding grants_def
  by (auto simp: list_all2_map1 elim!: list_all2_mono split: if_splits)

lemma filter_replace_tl:
  assumes "distinct xs" and "filter P xs = x # ys" and "\<not> P y"
  shows "filter P (map (\<lambda>z. if z = x then y else z) xs) = ys"
  using assms
proof (induction xs)
  case (Cons a xs)
  show ?case
  proof (cases "P a")
    case True
    then have "map (\<lambda>z. if z = x then y else z) xs = xs"
      using Cons.prems by (intro map_idI) auto
    then show ?thesis using True Cons.prems by simp
  next
    case False
    then have "x \<noteq> a" using Cons.prems by (auto dest: filter_eq_ConsD)
    then show ?thesis using False Cons by auto
  qed
qed simp

lemma grant_one_queue:
  assumes s: "sound d" and q: "queued_jobs d = row # rows" and g: "grant_one e clock row d t = Some d1"
  shows "queued_jobs d1 = rows" "sound d1" "within_limits d1" "d_resources d1 = d_resources d"
    "ledger_limits d1 = ledger_limits d" "d_domain_id d1 = d_domain_id d"
    "set xs \<subseteq> set rows \<Longrightarrow> grants e xs d1 d' \<Longrightarrow> grants e (row # xs) d d'"
proof -
  have f: "filter (\<lambda>j. j_state j = Queued) (d_jobs d) = row # rows"
    using queued_filter[OF s] q by simp
  have "row \<in> set (filter (\<lambda>j. j_state j = Queued) (d_jobs d))" by (simp add: f)
  then have row: "row \<in> set (d_jobs d)" "j_state row = Queued" by simp_all
  have dist: "distinct (d_jobs d)" using soundD(2)[OF s] by (simp add: distinct_map)
  note one = grant_one_some[OF g soundD(2)[OF s] row(1)]
  show s1: "sound d1" "within_limits d1" using grant_one_sound[OF s row g] .
  show "queued_jobs d1 = rows"
    unfolding queued_filter[OF s1(1)] one(2) by (rule filter_replace_tl[OF dist f]) simp
  show "d_resources d1 = d_resources d" "ledger_limits d1 = ledger_limits d" "d_domain_id d1 = d_domain_id d"
    using one by simp_all
  have "set (row # rows) = set (filter (\<lambda>j. j_state j = Queued) (d_jobs d))" by (simp only: f)
  then have queued: "\<forall>r\<in>set rows. j_state r = Queued" by auto
  have "distinct (row # rows)" using distinct_filter[OF dist] f by metis
  then have "row \<notin> set rows" by simp
  moreover have "grant_of e clock d t row \<notin> set rows" using queued by fastforce
  moreover have "granted_row e row (grant_of e clock d t row)"
    using soundD(8)[OF s] unfolding granted_row_def by blast
  ultimately show "set xs \<subseteq> set rows \<Longrightarrow> grants e xs d1 d' \<Longrightarrow> grants e (row # xs) d d'"
    using grants_step[OF one(2)] by blast
qed

lemma grant_one_none: "grant_one e clock row d t = None \<longleftrightarrow> \<not> available_for d row"
  by (auto simp: grant_one_def available_for_def split: prod.splits)

lemma grant_rows_fifo:
  assumes "grant_rows e clock rows d t = (d', t')" and "sound d" and "queued_jobs d = rows"
  shows "\<exists>n\<le>length rows. grants e (take n rows) d d' \<and> queued_jobs d' = drop n rows \<and> sound d'
    \<and> d_resources d' = d_resources d \<and> ledger_limits d' = ledger_limits d \<and> d_domain_id d' = d_domain_id d
    \<and> (n < length rows \<longrightarrow> \<not> available_for d' (rows ! n)) \<and> (0 < n \<longrightarrow> within_limits d')"
  using assms
proof (induction rows arbitrary: d t)
  case Nil
  then show ?case by (auto simp: grants_def list_all2_same)
next
  case (Cons row rows)
  show ?case
  proof (cases "grant_one e clock row d t")
    case None
    then have "d' = d" using Cons.prems(1) by simp
    then show ?thesis
      using Cons.prems None by (intro exI[of _ 0]) (simp add: grants_def list_all2_same grant_one_none)
  next
    case (Some d1)
    note one = grant_one_queue[OF Cons.prems(2,3) Some]
    have "grant_rows e clock rows d1 (Suc t) = (d', t')" using Cons.prems(1) Some by simp
    from Cons.IH[OF this one(2,1)] obtain n where n: "n \<le> length rows" "grants e (take n rows) d1 d'"
      "queued_jobs d' = drop n rows" "sound d'" "d_resources d' = d_resources d1" "ledger_limits d' = ledger_limits d1"
      "d_domain_id d' = d_domain_id d1" "n < length rows \<longrightarrow> \<not> available_for d' (rows ! n)" "0 < n \<longrightarrow> within_limits d'"
      by blast
    have "within_limits d'"
    proof (cases n)
      case 0
      then have "list_all2 (=) (d_jobs d1) (d_jobs d')"
        using n(2) unfolding grants_def by (auto elim!: list_all2_mono)
      then show ?thesis
        using one(3) n(5,6) by (simp add: list.rel_eq within_limits_def active_count_def active_jobs_def
            total_slots_def charged_memory_def ledger_limits_def split: option.splits)
    qed (use n in simp)
    moreover have "grants e (take (Suc n) (row # rows)) d d'"
      using one(7)[OF set_take_subset n(2)] by simp
    ultimately show ?thesis
      using n one by (intro exI[of _ "Suc n"]) simp
  qed
qed

end
