(* ===== verification/Sched_System.thy ===== *)
theory Sched_System
  imports Sched_Invariant
begin

text \<open>
  The handlers of the scheduler as the steps of one system. A handler that only moves runs
  towards the end of their life satisfies the contract \<open>settling\<close>; \<^verbatim>\<open>enqueue\<close> appends
  one queued run; \<^verbatim>\<open>poll\<close> grants a prefix of the queue. Every ledger reachable from an
  empty one by the handlers, by the environment and by other processes is \<open>sound\<close>.
\<close>

section \<open>What a handler may do to the rows\<close>

definition settles :: "ledger \<Rightarrow> ledger \<Rightarrow> bool" where
  "settles d d' \<longleftrightarrow>
     sound d' \<and> d_domain_id d' = d_domain_id d
     \<and> (\<exists>d1. quiet d d1 \<and> set (d_jobs d') \<subseteq> set (d_jobs d1))
     \<and> (\<forall>j\<in>set (d_jobs d'). row_resources d' (j_run_id j) = row_resources d (j_run_id j))"

lemma settles_refl: "sound d \<Longrightarrow> settles d d"
  unfolding settles_def using quiet_refl by blast

lemma quiet_resources: "quiet d d' \<Longrightarrow> row_resources d' rid = row_resources d rid"
  by (simp add: quiet_def row_resources_def)

lemma settles_quiet: "sound d \<Longrightarrow> quiet d d' \<Longrightarrow> settles d d'"
  unfolding settles_def using quiet_sound quiet_resources quiet_def by blast

lemma settles_delete:
  assumes "sound d" and "quiet d d1" and "\<And>j. j \<in> set (d_jobs d1) \<Longrightarrow> P j \<Longrightarrow> job_terminal j"
  shows "settles d (delete_jobs P d1)"
proof -
  have "sound (delete_jobs P d1)" using delete_sound[OF quiet_sound[OF assms(2,1)] assms(3)] .
  moreover have "d_domain_id (delete_jobs P d1) = d_domain_id d" using assms(2) by (simp add: quiet_def ledger_simps)
  moreover have "set (d_jobs (delete_jobs P d1)) \<subseteq> set (d_jobs d1)" by (simp add: ledger_simps)
  moreover have "row_resources (delete_jobs P d1) (j_run_id j) = row_resources d (j_run_id j)"
    if "j \<in> set (d_jobs (delete_jobs P d1))" for j
    using that delete_resources[OF soundD(2)[OF quiet_sound[OF assms(2,1)]], of j P] quiet_resources[OF assms(2)]
    by (simp add: ledger_simps)
  ultimately show ?thesis unfolding settles_def using assms(2) by blast
qed

lemma settles_prune: "sound d \<Longrightarrow> quiet d d1 \<Longrightarrow> settles d (prune_terminal d1)"
  unfolding prune_terminal_def Let_def
  by (rule settles_delete)
     (auto dest!: in_set_dropD dest: distinct_key_unique[OF soundD(2)[OF quiet_sound]])

text \<open>Every row a settling step leaves descends quietly from a row before it.\<close>

lemma settles_origin:
  assumes "settles d d'" and "j' \<in> set (d_jobs d')"
  obtains j where "j \<in> set (d_jobs d)" "quiet_row j j'"
proof -
  obtain d1 where q: "quiet d d1" and sub: "set (d_jobs d') \<subseteq> set (d_jobs d1)"
    using assms(1) by (auto simp: settles_def)
  have "list_all2 quiet_row (d_jobs d) (d_jobs d1)" using q by (simp add: quiet_def)
  moreover have "j' \<in> set (d_jobs d1)" using sub assms(2) by blast
  ultimately show ?thesis by (rule list_all2_obtain) (rule that)
qed

lemma quiet_total_slots:
  assumes "sound d" and "quiet d d1"
  shows "total_slots d1 \<le> total_slots d"
  using quiet_slots[of "d_jobs d" "d_jobs d1"] assms soundD(3) by (auto simp: quiet_def total_slots_def active_jobs_def)

lemma settles_active:
  assumes "settles d d'" and "sound d" and "j' \<in> set (d_jobs d')" and "job_active j'"
  shows "\<exists>j\<in>set (d_jobs d). j_run_id j = j_run_id j' \<and> job_active j \<and> j_slots j = j_slots j'"
proof -
  obtain j where j: "j \<in> set (d_jobs d)" "quiet_row j j'"
    using settles_origin[OF assms(1,3)] by blast
  then show ?thesis
    using quiet_rowD(2)[OF j(2) soundD(3)[OF assms(2) j(1)]] assms(4) by (auto simp: quiet_row_def)
qed

lemma settles_same_run:
  assumes "settles d d'" and "sound d" and "j \<in> set (d_jobs d)" and "j' \<in> set (d_jobs d')"
    and "j_run_id j' = j_run_id j"
  shows "quiet_row j j'"
proof -
  obtain j0 where j0: "j0 \<in> set (d_jobs d)" "quiet_row j0 j'"
    using settles_origin[OF assms(1,4)] by blast
  then have "j0 = j"
    using distinct_key_unique[OF soundD(2)[OF assms(2)]] assms(3,5) by (simp add: quiet_row_def)
  then show ?thesis using j0 by simp
qed

locale settling =
  fixes run :: "ledger \<Rightarrow> lease_store \<Rightarrow> nat \<Rightarrow> 'a outcome"
  assumes settled: "run d s t = (r, d', s', t') \<Longrightarrow> sound d \<Longrightarrow> settles d d'"
begin

lemma run_sound: "run d s t = (r, d', s', t') \<Longrightarrow> sound d \<Longrightarrow> sound d'"
  using settled by (auto simp: settles_def)

text \<open>No settling handler ever starts a run: an active run was active before, with the same slots.\<close>

lemma run_activates_nothing:
  "run d s t = (r, d', s', t') \<Longrightarrow> sound d \<Longrightarrow> j' \<in> set (d_jobs d') \<Longrightarrow> job_active j' \<Longrightarrow>
   \<exists>j\<in>set (d_jobs d). j_run_id j = j_run_id j' \<and> job_active j \<and> j_slots j = j_slots j'"
  using settles_active settled by blast

text \<open>A finished run stays finished.\<close>

lemma run_keeps_terminal:
  "run d s t = (r, d', s', t') \<Longrightarrow> sound d \<Longrightarrow> j \<in> set (d_jobs d) \<Longrightarrow> job_terminal j \<Longrightarrow>
   j' \<in> set (d_jobs d') \<Longrightarrow> j_run_id j' = j_run_id j \<Longrightarrow> job_terminal j'"
  using settles_same_run[OF settled] by (simp add: quiet_row_def)

end

section \<open>The row updates of the handlers are quiet\<close>

lemma find_job_in: "find_job d rid = Some j \<Longrightarrow> j \<in> set (d_jobs d) \<and> j_run_id j = rid"
  by (auto simp: find_job_def dest: find_Some_in)

lemma find_ticket_in: "find_ticket d k = Some j \<Longrightarrow> j \<in> set (d_jobs d) \<and> j_run_id j = t_run_id k \<and> j_sequence j = t_sequence k"
  by (auto simp: find_ticket_def dest: find_Some_in)

lemma set_running_quiet: "registrable rid j \<Longrightarrow> quiet_row j (set_running g j)"
  by (simp add: registrable_def set_running_def quiet_row_def row_ok_def job_active_def job_terminal_def)

lemma set_draining_quiet: "drainable g guard j \<Longrightarrow> quiet_row j (set_draining j)"
  by (auto simp: drainable_def set_draining_def quiet_row_def row_ok_def job_active_def job_terminal_def)

lemma set_cancelled_quiet: "cancellable k owner j \<Longrightarrow> quiet_row j (set_cancelled j)"
  by (auto simp: cancellable_def set_cancelled_def quiet_row_def row_ok_def job_active_def job_terminal_def)

lemma set_finalizing_quiet: "finalizable g guard j \<Longrightarrow> quiet_row j (set_finalizing j)"
  by (simp add: finalizable_def set_finalizing_def quiet_row_def row_ok_def job_active_def job_terminal_def)

lemma set_finished_quiet: "job_active j \<Longrightarrow> quiet_row j (set_finished final j)"
  by (auto simp: set_finished_def quiet_row_def row_ok_def job_active_def job_terminal_def)

lemma set_released_quiet: "terminal_state st \<Longrightarrow> quiet_row j (set_released st j)"
  by (cases st) (auto simp: set_released_def quiet_row_def row_ok_def job_active_def job_terminal_def)

lemma mark_uncertain_quiet: "job_active j \<Longrightarrow> quiet_row j (mark_row_uncertain j m c)"
  by (cases "j_state j") (simp_all add: mark_row_uncertain_def quiet_row_def row_ok_def job_active_def job_terminal_def)

lemma finalization_failure_quiet:
  assumes "sound d" and "j \<in> set (d_jobs d)" and "j_run_id j = rid" and "job_active j"
  shows "quiet d (finalization_failure rid escaped d)"
  unfolding finalization_failure_def
  using assms distinct_key_unique[OF soundD(2)[OF assms(1)]] by (intro quiet_update mark_uncertain_quiet) metis

lemma quiet_observations [simp]: "quiet d (d\<lparr>d_observations := obs\<rparr>)"
  by (rule quiet_same_jobs) (simp_all add: ledger_limits_def)

lemma matches_grant_active: "matches_grant row g d \<Longrightarrow> row_ok row \<Longrightarrow> j_state row \<noteq> Queued"
  by (auto simp: matches_grant_def row_ok_def)

section \<open>The handlers honour the contract\<close>

lemma register_settles:
  assumes "register_guard e g guard d s t = (r, d', s', t')" and s: "sound d"
  shows "settles d d'"
proof -
  obtain observer t1 where "namespace_identity e t = (observer, t1)" by fastforce
  moreover obtain s1 t2 where "sweep_leases e d s t1 = (s1, t2)" by fastforce
  moreover obtain booted t4 where b: "recover_boot e (e_now e t2) d (Suc t2) = (booted, t4)" by fastforce
  moreover note assms(1)
  ultimately have run: "d' = d \<or> (\<exists>d1 d2 t5. booted = Inr d1
      \<and> reconcile_locked e observer s1 (e_now e t4) d1 (Suc t4) = (d2, t5)
      \<and> (d' = d2 \<or> d' = snd (register_write g guard d2)))"
    by (auto simp: register_guard_def now_def Let_def split: sum.splits prod.splits if_splits)
  show ?thesis
  proof (cases "d' = d")
    case False
    then obtain d1 d2 t5 where bo: "booted = Inr d1"
      and rec: "reconcile_locked e observer s1 (e_now e t4) d1 (Suc t4) = (d2, t5)"
      and d': "d' = d2 \<or> d' = snd (register_write g guard d2)"
      using run by blast
    have q1: "quiet d d1" using recover_boot_quiet b bo by blast
    have q2: "quiet d d2" using quiet_trans[OF q1 reconcile_locked_quiet[OF rec quiet_sound[OF q1 s]]] .
    have "quiet d2 (snd (register_write g guard d2))"
      unfolding register_write_def by (simp, rule quiet_update) (rule set_running_quiet)
    then show ?thesis using d' q2 quiet_trans settles_quiet[OF s] by blast
  qed (use s settles_refl in simp)
qed

lemma draining_settles:
  assumes "mark_draining e g guard d s t = (r, d', s', t')" and "sound d"
  shows "settles d d'"
proof -
  have "quiet d (update_jobs (drainable g guard) set_draining d)"
    by (rule quiet_update) (rule set_draining_quiet)
  moreover have "d' = d \<or> d' = update_jobs (drainable g guard) set_draining d"
    using assms(1) by (auto simp: mark_draining_def Let_def split: prod.splits sum.splits option.splits if_splits)
  ultimately show ?thesis using assms(2) settles_refl settles_quiet by metis
qed

lemma cancel_settles:
  assumes "cancel_pending e k owner d s t = (r, d', s', t')" and "sound d"
  shows "settles d d'"
proof -
  have "quiet d (update_jobs (cancellable k owner) set_cancelled d)"
    by (rule quiet_update) (rule set_cancelled_quiet)
  moreover have "d' = d \<or> d' = update_jobs (cancellable k owner) set_cancelled d"
    using assms(1) by (auto simp: cancel_pending_def Let_def split: prod.splits sum.splits option.splits if_splits)
  ultimately show ?thesis using assms(2) settles_refl settles_quiet by metis
qed

lemma begin_finalization_ledger:
  assumes "begin_finalization e g d s t = (r, d', s', t')"
  shows "d' = d \<or> (\<exists>row guard table. find_job d (g_run_id g) = Some row \<and> matches_grant row g d
    \<and> j_state row = Draining \<and> j_guard row = Some guard
    \<and> (d' = finalization_failure (g_run_id g) False d
       \<or> (\<exists>escaped. d' = finalization_failure (g_run_id g) escaped (d\<lparr>d_observations := table\<rparr>))
       \<or> d' = update_jobs (finalizable g guard) set_finalizing (d\<lparr>d_observations := table\<rparr>)))"
  using assms
  by (auto simp: begin_finalization_def Let_def split: prod.splits sum.splits option.splits if_splits)

lemma begin_finalization_settles:
  assumes "begin_finalization e g d s t = (r, d', s', t')" and s: "sound d"
  shows "settles d d'"
proof (cases "d' = d")
  case False
  then obtain row guard table where row: "find_job d (g_run_id g) = Some row" "j_state row = Draining"
    and d': "d' = finalization_failure (g_run_id g) False d
       \<or> (\<exists>escaped. d' = finalization_failure (g_run_id g) escaped (d\<lparr>d_observations := table\<rparr>))
       \<or> d' = update_jobs (finalizable g guard) set_finalizing (d\<lparr>d_observations := table\<rparr>)"
    using begin_finalization_ledger[OF assms(1)] by blast
  let ?d = "d\<lparr>d_observations := table\<rparr>"
  have so: "sound ?d" using quiet_sound[OF quiet_observations s] .
  have act: "job_active row" using row(2) by (simp add: job_active_def)
  have "quiet d (finalization_failure (g_run_id g) False d)"
    using finalization_failure_quiet[OF s _ _ act] find_job_in[OF row(1)] by blast
  moreover have "quiet ?d (finalization_failure (g_run_id g) escaped ?d)" for escaped
    using finalization_failure_quiet[OF so _ _ act] find_job_in[OF row(1)] by simp
  moreover have "quiet ?d (update_jobs (finalizable g guard) set_finalizing ?d)"
    by (rule quiet_update) (rule set_finalizing_quiet)
  ultimately show ?thesis
    using d' quiet_trans[OF quiet_observations] settles_quiet[OF s] by metis
qed (use s settles_refl in simp)

lemma finish_check_ledger:
  assumes "finish_check e g proof clock row d t = (((valid, escaped), d'), t')"
  shows "\<exists>table. d' = d\<lparr>d_observations := table\<rparr>"
  using assms by (auto simp: finish_check_def Let_def split: option.splits prod.splits if_splits)
     (metis ledger.surjective ledger.update_convs(9))+

lemma finish_ledger:
  assumes "finish e g proof final d s t = (r, d', s', t')"
  shows "d' = d \<or> (\<exists>d1 u row table. recover_boot e (e_now e t) d (Suc t) = (Inr d1, u)
    \<and> find_job d1 (g_run_id g) = Some row \<and> job_active row
    \<and> ((\<exists>escaped. d' = finalization_failure (g_run_id g) escaped (d1\<lparr>d_observations := table\<rparr>))
       \<or> d' = finish_write g final (d1\<lparr>d_observations := table\<rparr>)))"
proof -
  obtain booted t1 where b: "recover_boot e (e_now e t) d (Suc t) = (booted, t1)" by fastforce
  show ?thesis
  proof (cases booted)
    case (Inl p)
    then show ?thesis using assms b by (simp add: finish_def now_def)
  next
    case (Inr d1)
    show ?thesis
    proof (cases "find_job d1 (g_run_id g)")
      case None
      then show ?thesis using assms b Inr by (simp add: finish_def now_def)
    next
      case (Some row)
      obtain valid escaped d2 t2 where c: "finish_check e g proof (e_now e t) row d1 t1 = (((valid, escaped), d2), t2)"
        by (metis prod.collapse)
      obtain table where d2: "d2 = d1\<lparr>d_observations := table\<rparr>" using finish_check_ledger[OF c] by blast
      show ?thesis
        using assms b Inr Some c d2
        by (auto simp: finish_def now_def Let_def simp del: split_paired_Ex split: if_splits prod.splits)
    qed
  qed
qed

lemma finish_write_settles:
  assumes s: "sound d" and row: "find_job d (g_run_id g) = Some row" "job_active row" and q0: "quiet d0 d" "sound d0"
  shows "settles d0 (finish_write g final d)"
proof -
  let ?P = "\<lambda>j. j_run_id j = g_run_id g \<and> j_nonce j = Some (g_nonce g) \<and> j_generation j = Some (g_generation g)"
  let ?d1 = "update_jobs (\<lambda>j. j_run_id j = g_run_id g) (set_finished final) (update_jobs ?P set_finalizing d)"
  have one: "j = row" if "j \<in> set (d_jobs d)" "j_run_id j = g_run_id g" for j
    using that find_job_in[OF row(1)] distinct_key_unique[OF soundD(2)[OF s]] by metis
  have "?d1 = update_jobs (\<lambda>j. j_run_id j = g_run_id g) (set_finished final) d"
    by (auto simp: update_jobs_def set_finalizing_def set_finished_def)
  moreover have "quiet d (update_jobs (\<lambda>j. j_run_id j = g_run_id g) (set_finished final) d)"
    by (rule quiet_update) (use one row(2) in \<open>auto intro: set_finished_quiet\<close>)
  ultimately show ?thesis
    unfolding finish_write_def using settles_prune[OF q0(2)] quiet_trans[OF q0(1)] by simp
qed

lemma finish_settles:
  assumes "finish e g proof final d s t = (r, d', s', t')" and s: "sound d"
  shows "settles d d'"
proof (cases "d' = d")
  case False
  then obtain d1 u row table where b: "recover_boot e (e_now e t) d (Suc t) = (Inr d1, u)"
    and row: "find_job d1 (g_run_id g) = Some row" "job_active row"
    and d': "(\<exists>escaped. d' = finalization_failure (g_run_id g) escaped (d1\<lparr>d_observations := table\<rparr>))
       \<or> d' = finish_write g final (d1\<lparr>d_observations := table\<rparr>)"
    using finish_ledger[OF assms(1)] by blast
  let ?d = "d1\<lparr>d_observations := table\<rparr>"
  have q: "quiet d ?d" using recover_boot_quiet[OF b] quiet_trans quiet_observations by blast
  have so: "sound ?d" using quiet_sound[OF q s] .
  have row': "find_job ?d (g_run_id g) = Some row" using row(1) by (simp add: find_job_def)
  have "quiet ?d (finalization_failure (g_run_id g) escaped ?d)" for escaped
    using finalization_failure_quiet[OF so _ _ row(2)] find_job_in[OF row'] by blast
  then show ?thesis
    using d' finish_write_settles[OF so row' row(2) q s] settles_quiet[OF s] quiet_trans[OF q] by blast
qed (use s settles_refl in simp)

lemma release_write_quiet:
  assumes "release_write row d = Inr (st, d')"
  shows "quiet d d'"
proof -
  have d': "d' = (update_jobs (release_cas row) (set_released st) d)\<lparr>d_observations := filter (\<lambda>ob. o_run_id ob \<noteq> j_run_id row) (d_observations d)\<rparr>"
    and st: "terminal_state st"
    using assms by (auto simp: release_write_def terminal_for_def Let_def split: if_splits)
  have "quiet d (update_jobs (release_cas row) (set_released st) d)"
    by (rule quiet_update) (rule set_released_quiet[OF st])
  then show ?thesis unfolding d' using quiet_trans quiet_observations by blast
qed

lemma release_live_ledger:
  assumes "release_live e force observer clock before row d s t = (r, d', s', t')"
  shows "d' = d \<or> (\<exists>st. release_write row d = Inr (st, d'))"
  using assms by (auto simp: release_live_def Let_def split: prod.splits sum.splits)

lemma release_settles:
  assumes "release_run e rid force d s t = (r, d', s', t')" and s: "sound d"
  shows "settles d d'"
proof (cases "d' = d")
  case False
  then obtain observer s1 clock d1 before t1 t2 where rec: "recover_ledger e observer s1 clock d t1 = (Inr d1, t2)"
    and run: "release_recovered e rid force observer clock before d d1 s1 t2 = (r, d', s', t')"
    using assms(1) by (auto simp: release_run_def Let_def split: prod.splits sum.splits option.splits if_splits)
  have q: "quiet d d1" using recover_ledger_quiet[OF rec s] .
  have "d' = d \<or> d' = d1 \<or> (\<exists>row st. release_write row d1 = Inr (st, d'))"
    using run by (auto simp: release_recovered_def Let_def dest!: release_live_ledger
        split: option.splits prod.splits if_splits)
  then have "quiet d d'"
    using q quiet_refl release_write_quiet quiet_trans by blast
  then show ?thesis by (rule settles_quiet[OF s])
qed (use s settles_refl in simp)

lemma forget_settles:
  assumes "forget_checkouts e wanted d s t = (r, d', s', t')" and s: "sound d"
  shows "settles d d'"
proof (cases "d' = d")
  case False
  then obtain observer s1 clock d1 t1 t2 where rec: "recover_ledger e observer s1 clock d t1 = (Inr d1, t2)"
    and d': "d' = delete_jobs (\<lambda>j. j_checkout_id j \<in> set wanted \<and> job_terminal j) d1"
    using assms(1) by (auto simp: forget_checkouts_def Let_def split: prod.splits sum.splits if_splits)
  show ?thesis
    unfolding d' by (rule settles_delete[OF s recover_ledger_quiet[OF rec s]]) simp
qed (use s settles_refl in simp)

interpretation register: settling "register_guard e g guard" for e g guard
  by unfold_locales (rule register_settles)

interpretation drain: settling "mark_draining e g guard" for e g guard
  by unfold_locales (rule draining_settles)

interpretation cancel: settling "cancel_pending e k owner" for e k owner
  by unfold_locales (rule cancel_settles)

interpretation finalize: settling "begin_finalization e g" for e g
  by unfold_locales (rule begin_finalization_settles)

interpretation finishing: settling "finish e g proof final" for e g "proof" final
  by unfold_locales (rule finish_settles)

interpretation release: settling "release_run e rid force" for e rid force
  by unfold_locales (rule release_settles)

interpretation forget: settling "forget_checkouts e wanted" for e wanted
  by unfold_locales (rule forget_settles)

section \<open>Enqueueing appends one queued run\<close>

text \<open>The checks of the constructor \<^verbatim>\<open>contracts.AdmissionRequest\<close> on the numbers.\<close>

definition valid_request :: "request \<Rightarrow> bool" where
  "valid_request rq \<longleftrightarrow>
     hex_id 32 (r_run_id rq) \<and> 1 \<le> r_slots rq \<and> r_slots rq \<le> 64
     \<and> (case r_memory_mb rq of None \<Rightarrow> True | Some m \<Rightarrow> 0 < m) \<and> 0 \<le> r_deadline rq"

text \<open>The ledger after the inserts and before the pruning.\<close>

definition appended :: "ledger \<Rightarrow> job \<Rightarrow> string list \<Rightarrow> ledger" where
  "appended d row locks =
     d\<lparr>d_jobs := d_jobs d @ [row], d_resources := d_resources d @ map (Pair (j_run_id row)) locks\<rparr>"

definition enqueued :: "request \<Rightarrow> ledger \<Rightarrow> ticket \<Rightarrow> job \<Rightarrow> bool" where
  "enqueued rq d k row \<longleftrightarrow>
     (\<exists>slots estimate reserved clock deadline.
        row = new_row rq (next_sequence d) slots estimate reserved clock deadline
        \<and> admit_check rq d = Inr (slots, estimate, reserved)
        \<and> deadline_for rq clock = Inr deadline)
     \<and> k = \<lparr>t_run_id = r_run_id rq, t_sequence = next_sequence d\<rparr>
     \<and> distinct (r_locks rq) \<and> (\<forall>x\<in>set (r_locks rq). (r_run_id rq, x) \<notin> set (d_resources d))"

lemma enqueue_row_cases:
  assumes "enqueue_row e rq clock d0 d s t = (r, d', s', t')"
  shows "(\<exists>p. r = Inl p \<and> d' = d0)
    \<or> (\<exists>k row. r = Inr k \<and> enqueued rq d k row \<and> d' = prune_terminal (appended d row (r_locks rq)))"
proof (cases "admit_check rq d")
  case (Inl p)
  then show ?thesis using assms by (auto simp: enqueue_row_def)
next
  case (Inr c)
  obtain slots estimate reserved where c: "c = (slots, estimate, reserved)" by (cases c)
  obtain made s1 t1 where l: "create_lease e s (r_run_id rq) t = (made, s1, t1)" by (metis prod.collapse)
  show ?thesis
  proof (cases made)
    case (Inl p)
    then show ?thesis using assms Inr c l by (auto simp: enqueue_row_def)
  next
    case made: (Inr ident)
    show ?thesis
    proof (cases "deadline_for rq clock")
      case (Inl p)
      then show ?thesis using assms Inr c l made by (auto simp: enqueue_row_def Let_def split: prod.splits)
    next
      case deadline: (Inr deadline)
      let ?row = "new_row rq (next_sequence d) slots estimate reserved clock deadline"
      show ?thesis
      proof (cases "insert_resources (r_run_id rq) (r_locks rq) (d_resources d)")
        case None
        then show ?thesis
          using assms Inr c l made deadline
          by (auto simp: enqueue_row_def insert_job_def new_row_def Let_def split: prod.splits)
      next
        case (Some rs)
        have rid: "j_run_id ?row = r_run_id rq" by (simp add: new_row_def)
        have "r = Inr \<lparr>t_run_id = r_run_id rq, t_sequence = next_sequence d\<rparr>"
          "d' = prune_terminal (appended d ?row (r_locks rq))"
          using assms Inr c l made deadline Some insert_resources_ok[OF Some]
          by (simp_all add: enqueue_row_def insert_job_def appended_def rid Let_def)
        moreover have "enqueued rq d \<lparr>t_run_id = r_run_id rq, t_sequence = next_sequence d\<rparr> ?row"
          using Inr c deadline insert_resources_some[of "r_run_id rq" "r_locks rq" "d_resources d"] Some
          by (auto simp: enqueued_def)
        ultimately show ?thesis by blast
      qed
    qed
  qed
qed

lemma enqueue_cases:
  assumes "enqueue e f rq d s t = Some (r, d', s', t')" and s: "sound d"
  shows "(\<exists>p. r = Inl p \<and> d' = d)
    \<or> (\<exists>d2 k row. r = Inr k \<and> quiet d d2 \<and> enqueued rq d2 k row
         \<and> d' = prune_terminal (appended d2 row (r_locks rq)))"
proof (cases "d' = d \<and> (\<exists>p. r = Inl p)")
  case False
  then obtain observer s1 clock d1 d2 t1 t2 t3 t4 where
    rec: "recover_ledger e observer s1 clock d t1 = (Inr d1, t2)" and
    lim: "refresh_limits e d1 t2 = (Inr d2, t3)" and
    run: "enqueue_row e rq clock d d2 s1 t4 = (r, d', s', t')"
    using assms(1)
    by (auto simp: enqueue_def Let_def split: prod.splits sum.splits option.splits if_splits)
  have "quiet d d2"
    using recover_ledger_quiet[OF rec s] refresh_limits_quiet[OF lim] quiet_trans by blast
  then show ?thesis using enqueue_row_cases[OF run] by blast
qed simp

lemma admit_check_ok:
  assumes "admit_check rq d = Inr (slots, estimate, reserved)" and "valid_request rq" and "sound d"
  shows "pending_count d < MAX_PENDING_JOBS" "find_job d (r_run_id rq) = None"
    "1 \<le> slots" "slots \<le> r_slots rq" "slots \<le> d_config_slots d"
proof -
  have slots: "slots = actual_slots (r_slots rq) (d_config_slots d) (r_memory_mb rq) (d_config_memory d)"
    and *: "pending_count d < MAX_PENDING_JOBS" "find_job d (r_run_id rq) = None"
    using assms(1) by (auto simp: admit_check_def Let_def split: if_splits prod.splits option.splits)
  have "1 \<le> r_slots rq" "1 \<le> d_config_slots d"
    using assms(2) soundD(8)[OF assms(3)] by (auto simp: valid_request_def valid_limits_def ledger_limits_def)
  then show "pending_count d < MAX_PENDING_JOBS" "find_job d (r_run_id rq) = None"
    "1 \<le> slots" "slots \<le> r_slots rq" "slots \<le> d_config_slots d"
    using * actual_slots_pos actual_slots_le unfolding slots by blast+
qed

lemma enqueued_row:
  assumes "enqueued rq d k row" and "valid_request rq" and s: "sound d"
  shows "j_state row = Queued" "row_ok row" "j_run_id row = r_run_id rq" "j_sequence row = next_sequence d"
    "find_job d (j_run_id row) = None" "pending_count d < MAX_PENDING_JOBS" "sound (appended d row (r_locks rq))"
proof -
  obtain slots estimate reserved clock deadline where
    row: "row = new_row rq (next_sequence d) slots estimate reserved clock deadline" and
    c: "admit_check rq d = Inr (slots, estimate, reserved)"
    using assms(1) by (auto simp: enqueued_def)
  note ok = admit_check_ok[OF c assms(2) s]
  show *: "j_state row = Queued" "row_ok row" "j_run_id row = r_run_id rq" "j_sequence row = next_sequence d"
    "find_job d (j_run_id row) = None" "pending_count d < MAX_PENDING_JOBS"
    using ok by (simp_all add: row new_row_def row_ok_def job_active_def)
  show "sound (appended d row (r_locks rq))"
    unfolding appended_def by (rule append_sound[OF s *(2,1,5,4,6)])
qed

lemma enqueue_sound:
  assumes "enqueue e f rq d s t = Some (r, d', s', t')" and "sound d" and "valid_request rq"
  shows "sound d'"
  using enqueue_cases[OF assms(1,2)] enqueued_row(7)[OF _ assms(3)] quiet_sound[OF _ assms(2)]
    prune_terminal_sound assms(2) by blast

section \<open>Polling grants a prefix of the queue\<close>

lemma poll_cases:
  assumes "poll e k d s t = (r, d', s', t')" and s: "sound d"
  shows "(\<exists>p. r = Inl p \<and> d' = d)
    \<or> (\<exists>d2 clock u v row. quiet d d2 \<and> sound d2 \<and> grant_queued e clock d2 u = (d', v)
         \<and> find_ticket d' k = Some row \<and> r = Inr (admission_view d' row))"
proof (cases "d' = d \<and> (\<exists>p. r = Inl p)")
  case False
  then obtain observer s1 clock d1 d2 t1 t2 t3 t4 row where
    rec: "recover_ledger e observer s1 clock d t1 = (Inr d1, t2)" and
    lim: "refresh_limits e d1 t2 = (Inr d2, t3)" and
    "grant_queued e clock d2 t3 = (d', t4)" "find_ticket d' k = Some row" "r = Inr (admission_view d' row)"
    using assms(1)
    by (auto simp: poll_def Let_def split: prod.splits sum.splits option.splits)
  moreover have "quiet d d2"
    using recover_ledger_quiet[OF rec s] refresh_limits_quiet[OF lim] quiet_trans by blast
  ultimately show ?thesis using quiet_sound[OF _ s] by blast
qed simp

lemma poll_sound:
  assumes "poll e k d s t = (r, d', s', t')" and s: "sound d"
  shows "sound d'"
proof -
  have "sound d3" if "sound d2" "grant_queued e clock d2 u = (d3, v)" for d2 clock u d3 v
    using grant_rows_fifo[of e clock "queued_jobs d2" d2 u d3 v] that by (auto simp: grant_queued_def)
  then show ?thesis using poll_cases[OF assms] s by blast
qed

section \<open>The system\<close>

text \<open>
  One transaction of any process on the shared ledger. The process, its process table and
  clock, its lease files and the descriptors it holds are those of the moment of the call:
  every step has its own world \<open>e\<close>, lease store \<open>s\<close> and tick \<open>t\<close>. The ledger
  lock serialises the transactions.
\<close>

inductive step :: "ledger \<Rightarrow> ledger \<Rightarrow> bool" where
  step_enqueue: "valid_request rq \<Longrightarrow> enqueue e f rq d s t = Some (r, d', s', t') \<Longrightarrow> step d d'"
| step_poll: "poll e k d s t = (r, d', s', t') \<Longrightarrow> step d d'"
| step_register: "register_guard e g guard d s t = (r, d', s', t') \<Longrightarrow> step d d'"
| step_drain: "mark_draining e g guard d s t = (r, d', s', t') \<Longrightarrow> step d d'"
| step_cancel: "cancel_pending e k owner d s t = (r, d', s', t') \<Longrightarrow> step d d'"
| step_finalize: "begin_finalization e g d s t = (r, d', s', t') \<Longrightarrow> step d d'"
| step_finish: "finish e g proof final d s t = (r, d', s', t') \<Longrightarrow> step d d'"
| step_release: "release_run e rid force d s t = (r, d', s', t') \<Longrightarrow> step d d'"
| step_forget: "forget_checkouts e wanted d s t = (r, d', s', t') \<Longrightarrow> step d d'"

inductive_cases stepE: "step d d'"

definition initial :: "ledger \<Rightarrow> bool" where
  "initial d \<longleftrightarrow> d_jobs d = [] \<and> d_resources d = [] \<and> d_observations d = [] \<and> valid_limits (ledger_limits d)"

inductive reachable :: "ledger \<Rightarrow> bool" where
  reach_initial: "initial d \<Longrightarrow> reachable d"
| reach_step: "reachable d \<Longrightarrow> step d d' \<Longrightarrow> reachable d'"

lemma initial_sound: "initial d \<Longrightarrow> sound d"
  by (simp add: initial_def sound_def active_jobs_def total_slots_def pending_count_def)

lemmas handler_settles =
  register.settled drain.settled cancel.settled finalize.settled finishing.settled release.settled forget.settled

text \<open>The three kinds of steps.\<close>

lemma step_kinds:
  assumes "step d d'" and "sound d"
  obtains (enqueue) e rq f s t r s' t' where "valid_request rq" "enqueue e f rq d s t = Some (r, d', s', t')"
  | (poll) e k s t r s' t' where "poll e k d s t = (r, d', s', t')"
  | (settle) "settles d d'"
  using assms(1)
  by (rule stepE)
     (rule enqueue; assumption | rule poll; assumption
      | rule settle; rule handler_settles[OF _ assms(2)]; assumption)+

lemma step_sound:
  assumes "step d d'" and "sound d"
  shows "sound d'"
  using assms
proof (cases rule: step_kinds)
  case (enqueue e rq f s t r s' t')
  then show ?thesis using enqueue_sound assms(2) by blast
next
  case (poll e k s t r s' t')
  then show ?thesis using poll_sound assms(2) by blast
qed (simp add: settles_def)

lemma reachable_sound: "reachable d \<Longrightarrow> sound d"
  by (induction rule: reachable.induct) (simp_all add: initial_sound step_sound)

section \<open>Terminal rows and activations over a step\<close>

lemma prune_subset: "set (d_jobs (prune_terminal d)) \<subseteq> set (d_jobs d)"
  by (auto simp: prune_terminal_def Let_def ledger_simps)

lemma enqueue_origin:
  assumes "enqueue e f rq d s t = Some (r, d', s', t')" and s: "sound d" and "valid_request rq"
    and "j' \<in> set (d_jobs d')"
  shows "(\<exists>j\<in>set (d_jobs d). quiet_row j j')
    \<or> (j_state j' = Queued \<and> (\<forall>j\<in>set (d_jobs d). j_run_id j \<noteq> j_run_id j'))"
  using enqueue_cases[OF assms(1,2)]
proof
  assume "\<exists>p. r = Inl p \<and> d' = d"
  then show ?thesis using assms(4) quiet_row_refl by blast
next
  assume "\<exists>d2 k row. r = Inr k \<and> quiet d d2 \<and> enqueued rq d2 k row \<and> d' = prune_terminal (appended d2 row (r_locks rq))"
  then obtain d2 k row where q: "quiet d d2" and en: "enqueued rq d2 k row"
    and d': "d' = prune_terminal (appended d2 row (r_locks rq))" by blast
  note row = enqueued_row[OF en assms(3) quiet_sound[OF q s]]
  have l: "list_all2 quiet_row (d_jobs d) (d_jobs d2)" using q by (simp add: quiet_def)
  have "j' \<in> set (d_jobs d2) \<or> j' = row"
    using assms(4) prune_subset[of "appended d2 row (r_locks rq)"] by (auto simp: d' appended_def)
  then show ?thesis
  proof
    assume "j' \<in> set (d_jobs d2)"
    with l obtain j where "j \<in> set (d_jobs d)" "quiet_row j j'" by (rule list_all2_obtain)
    then show ?thesis by blast
  next
    assume j': "j' = row"
    have "j_run_id row \<notin> set (map j_run_id (d_jobs d2))"
      using row(5) by (auto simp: find_job_def find_None_iff)
    then have "\<forall>j\<in>set (d_jobs d). j_run_id j \<noteq> j_run_id row" unfolding quiet_keys[OF l] by (metis image_eqI set_map)
    then show ?thesis using row(1) j' by simp
  qed
qed

lemma poll_origin:
  assumes "poll e k d s t = (r, d', s', t')" and s: "sound d" and "j' \<in> set (d_jobs d')"
  shows "\<exists>j\<in>set (d_jobs d). quiet_row j j' \<or> (j_state j = Queued \<and> j_run_id j = j_run_id j' \<and> j_state j' = Granted)"
  using poll_cases[OF assms(1,2)]
proof
  assume "\<exists>p. r = Inl p \<and> d' = d"
  then show ?thesis using assms(3) quiet_row_refl by blast
next
  assume "\<exists>d2 clock u v row. quiet d d2 \<and> sound d2 \<and> grant_queued e clock d2 u = (d', v)
         \<and> find_ticket d' k = Some row \<and> r = Inr (admission_view d' row)"
  then obtain d2 clock u v where q: "quiet d d2" and s2: "sound d2" and g: "grant_queued e clock d2 u = (d', v)"
    by blast
  obtain n where "grants e (take n (queued_jobs d2)) d2 d'"
    using grant_rows_fifo[OF g[unfolded grant_queued_def] s2 refl] by blast
  then have "list_all2 (\<lambda>j j'. if j \<in> set (take n (queued_jobs d2)) then granted_row e j j' else j' = j) (d_jobs d2) (d_jobs d')"
    by (simp add: grants_def)
  then obtain j2 where j2: "j2 \<in> set (d_jobs d2)" and
    or: "if j2 \<in> set (take n (queued_jobs d2)) then granted_row e j2 j' else j' = j2"
    using assms(3) by (rule list_all2_obtain)
  have "list_all2 quiet_row (d_jobs d) (d_jobs d2)" using q by (simp add: quiet_def)
  then obtain j where j: "j \<in> set (d_jobs d)" "quiet_row j j2" using j2 by (rule list_all2_obtain)
  show ?thesis
  proof (cases "j2 \<in> set (take n (queued_jobs d2))")
    case True
    then have "j2 \<in> set (queued_jobs d2)" by (rule in_set_takeD)
    then have "j_state j2 = Queued" by (simp add: queued_jobs_def)
    moreover have "j_run_id j' = j_run_id j2" "j_state j' = Granted"
      using True or by (auto simp: granted_row_def)
    ultimately show ?thesis
      using j quiet_rowD(3)[OF j(2) soundD(3)[OF s j(1)]] by (auto simp: quiet_row_def)
  next
    case False
    then show ?thesis using j or by auto
  qed
qed

lemma step_keeps_terminal:
  assumes st: "step d d'" and so: "sound d" and j: "j \<in> set (d_jobs d)" "job_terminal j"
    and j': "j' \<in> set (d_jobs d')" "j_run_id j' = j_run_id j"
  shows "job_terminal j'"
  using st so
proof (cases rule: step_kinds)
  case (enqueue e rq f s t r s' t')
  consider j0 where "j0 \<in> set (d_jobs d)" "quiet_row j0 j'" | "\<forall>j\<in>set (d_jobs d). j_run_id j \<noteq> j_run_id j'"
    using enqueue_origin[OF enqueue(2) so enqueue(1) j'(1)] by blast
  then show ?thesis
  proof cases
    case 1
    then have "j0 = j" using distinct_key_unique[OF soundD(2)[OF so]] j(1) j'(2) by (simp add: quiet_row_def)
    then show ?thesis using 1 j by (simp add: quiet_row_def)
  qed (use j j' in auto)
next
  case (poll e k s t r s' t')
  obtain j0 where j0: "j0 \<in> set (d_jobs d)"
    "quiet_row j0 j' \<or> (j_state j0 = Queued \<and> j_run_id j0 = j_run_id j' \<and> j_state j' = Granted)"
    using poll_origin[OF poll so j'(1)] by blast
  then have "j0 = j" using distinct_key_unique[OF soundD(2)[OF so]] j(1) j'(2) by (auto simp: quiet_row_def)
  then show ?thesis using j0 j(2) by (auto simp: quiet_row_def job_terminal_def)
next
  case settle
  then show ?thesis using settles_same_run[OF _ so j(1) j'] j(2) by (simp add: quiet_row_def)
qed

text \<open>Only a poll starts a run, and it starts a queued one.\<close>

lemma step_activates:
  assumes st: "step d d'" and so: "sound d" and j': "j' \<in> set (d_jobs d')" "job_active j'"
  shows "(\<exists>j\<in>set (d_jobs d). j_run_id j = j_run_id j' \<and> job_active j)
    \<or> (\<exists>e k s t r s' t'. poll e k d s t = (r, d', s', t') \<and> j_state j' = Granted
         \<and> (\<exists>j\<in>set (d_jobs d). j_run_id j = j_run_id j' \<and> j_state j = Queued))"
  using st so
proof (cases rule: step_kinds)
  case (enqueue e rq f s t r s' t')
  then obtain j where j: "j \<in> set (d_jobs d)" "quiet_row j j'"
    using enqueue_origin[OF enqueue(2) so enqueue(1) j'(1)] j'(2) by (auto simp: job_active_def)
  then show ?thesis
    using quiet_rowD(2)[OF j(2) soundD(3)[OF so j(1)] j'(2)] by (auto simp: quiet_row_def)
next
  case (poll e k s t r s' t')
  then obtain j where j: "j \<in> set (d_jobs d)"
    "quiet_row j j' \<or> (j_state j = Queued \<and> j_run_id j = j_run_id j' \<and> j_state j' = Granted)"
    using poll_origin[OF poll so j'(1)] by blast
  from j(2) show ?thesis
  proof
    assume q: "quiet_row j j'"
    then show ?thesis
      using quiet_rowD(2)[OF q soundD(3)[OF so j(1)] j'(2)] j(1) by (auto simp: quiet_row_def)
  qed (use poll j(1) in blast)
next
  case settle
  then show ?thesis using settles_active[OF _ so j'] by blast
qed

end
