(* ===== verification/Sched_Evidence.thy ===== *)
theory Sched_Evidence
  imports Sched_System
begin

text \<open>
  What the answers of the handlers mean: a registered guard, a started drain and a
  cancelled ticket were authenticated; a quiescence proof, a finished run and an operator
  release rest on what was observed of the processes; an enqueued run waits behind every
  other; and the ancestry retry ends once the clock passes its deadline.
\<close>

section \<open>Finding a row after an update\<close>

lemma find_job_update:
  assumes "distinct (map j_run_id (d_jobs d))" and "\<And>j. j_run_id (f j) = j_run_id j"
  shows "find_job (update_jobs P f d) rid = map_option (\<lambda>j. if P j then f j else j) (find_job d rid)"
  by (simp add: find_job_def update_jobs_def find_map comp_def assms(2) if_distrib[of j_run_id] cong: if_cong)

lemma find_job_unique:
  "distinct (map j_run_id (d_jobs d)) \<Longrightarrow> j \<in> set (d_jobs d) \<Longrightarrow> find_job d (j_run_id j) = Some j"
  unfolding find_job_def by (rule find_key)

lemma rowcount_one:
  assumes "distinct (map j_run_id (d_jobs d))" and "\<And>j. P j \<Longrightarrow> j_run_id j = rid"
  shows "rowcount P d = 1 \<longleftrightarrow> (\<exists>j. find_job d rid = Some j \<and> P j)"
proof
  assume "rowcount P d = 1"
  then obtain j where "filter P (d_jobs d) = [j]"
    by (auto simp: rowcount_def length_Suc_conv)
  then have "j \<in> set (filter P (d_jobs d))" by simp
  then have j: "j \<in> set (d_jobs d)" "P j" by simp_all
  have "find_job d rid = Some j"
    using find_job_unique[OF assms(1) j(1)] unfolding assms(2)[OF j(2)] .
  then show "\<exists>j. find_job d rid = Some j \<and> P j"
    using j(2) by (intro exI[of _ j] conjI)
next
  assume "\<exists>j. find_job d rid = Some j \<and> P j"
  then obtain j where j: "find_job d rid = Some j" "P j" by blast
  then have in_d: "j \<in> set (d_jobs d)" "j_run_id j = rid" using find_job_in by blast+
  have "x = j" if "x \<in> set (d_jobs d)" "P x" for x
  proof (rule distinct_key_unique[OF assms(1) that(1) in_d(1)])
    show "j_run_id x = j_run_id j" using assms(2)[OF that(2)] in_d(2) by simp
  qed
  then have "set (filter P (d_jobs d)) = {j}" unfolding set_filter using in_d(1) j(2) by blast
  moreover have "distinct (filter P (d_jobs d))" using assms(1) by (simp add: distinct_map)
  ultimately have "card {j} = length (filter P (d_jobs d))" by (metis distinct_card)
  then show "rowcount P d = 1" by (simp add: rowcount_def)
qed

section \<open>Registration, draining and cancellation\<close>

text \<open>\<open>live_identity e i\<close>: the process table showed exactly this identity at some moment.\<close>

definition live_identity :: "env \<Rightarrow> identity \<Rightarrow> bool" where
  "live_identity e i \<longleftrightarrow> (\<exists>t. fst (process_identity e (i_pid i) t) = Some i)"

lemma register_valid_evidence:
  assumes "register_valid e g guard d t = (True, t')"
  shows "\<exists>row. find_job d (g_run_id g) = Some row \<and> j_state row = Granted \<and> matches_grant row g d
    \<and> live_identity e (j_owner row) \<and> live_identity e guard"
proof -
  obtain row where row: "find_job d (g_run_id g) = Some row" "j_state row = Granted" "matches_grant row g d"
    using assms by (auto simp: register_valid_def split: option.splits if_splits)
  obtain ow t1 where o: "process_identity e (i_pid (j_owner row)) t = (ow, t1)" by fastforce
  obtain gu t2 where g: "process_identity e (i_pid guard) t1 = (gu, t2)" by fastforce
  have "ow = Some (j_owner row)" "gu = Some guard"
    using assms row o g by (auto simp: register_valid_def same_identity_def split: if_splits)
  then show ?thesis using row o g unfolding live_identity_def by (metis fst_conv)
qed

theorem register_guard_true:
  assumes "register_guard e g guard d s t = (Inr True, d', s', t')" and so: "sound d"
  shows "\<exists>row. find_job d' (g_run_id g) = Some (set_running guard row) \<and> j_state row = Granted
    \<and> matches_grant row g d' \<and> live_identity e (j_owner row) \<and> live_identity e guard"
proof -
  obtain observer t1 where "namespace_identity e t = (observer, t1)" by fastforce
  moreover obtain s1 t2 where "sweep_leases e d s t1 = (s1, t2)" by fastforce
  moreover obtain booted t4 where b: "recover_boot e (e_now e t2) d (Suc t2) = (booted, t4)" by fastforce
  moreover note assms(1)
  ultimately obtain d1 d2 t5 t6 where bo: "booted = Inr d1"
    and rec: "reconcile_locked e observer s1 (e_now e t4) d1 (Suc t4) = (d2, t5)"
    and valid: "register_valid e g guard d2 t5 = (True, t6)" and w: "register_write g guard d2 = (True, d')"
    by (auto simp: register_guard_def now_def Let_def split: sum.splits prod.splits if_splits)
  have "sound d1" using recover_boot_quiet b bo quiet_sound so by blast
  then have s2: "sound d2" using reconcile_locked_quiet[OF rec] quiet_sound by blast
  obtain row where row: "find_job d2 (g_run_id g) = Some row" "j_state row = Granted" "matches_grant row g d2"
    "live_identity e (j_owner row)" "live_identity e guard"
    using register_valid_evidence[OF valid] by blast
  have d': "d' = update_jobs (registrable (g_run_id g)) (set_running guard) d2"
    and one: "rowcount (registrable (g_run_id g)) d2 = 1"
    using w by (simp_all add: register_write_def)
  have "registrable (g_run_id g) row"
    using one rowcount_one[OF soundD(2)[OF s2], of "registrable (g_run_id g)" "g_run_id g"] row(1)
    by (auto simp: registrable_def)
  then have "find_job d' (g_run_id g) = Some (set_running guard row)"
    using find_job_update[OF soundD(2)[OF s2], of "set_running guard"] row(1) by (simp add: d' set_running_def)
  moreover have "matches_grant row g d'" using row(3) by (simp add: d' matches_grant_def update_jobs_def)
  ultimately show ?thesis using row by blast
qed

theorem mark_draining_true:
  assumes "mark_draining e g guard d s t = (Inr True, d', s', t')" and so: "sound d"
  shows "\<exists>row. find_job d (g_run_id g) = Some row \<and> j_state row = Running \<and> j_guard row = Some guard
    \<and> matches_grant row g d \<and> live_identity e guard \<and> i_pid guard = e_getpid e \<and> i_pgid guard = i_pid guard
    \<and> find_job d' (g_run_id g) = Some (set_draining row)"
proof -
  obtain boot t1 where b: "boot_identity e t = (boot, t1)" by fastforce
  obtain live t2 where l: "process_identity e (i_pid guard) t1 = (live, t2)" by fastforce
  have *: "live = Some guard" "g_domain_id g = d_domain_id d" "i_pid guard = e_getpid e" "i_pgid guard = i_pid guard"
    "rowcount (drainable g guard) d = 1" and d': "d' = update_jobs (drainable g guard) set_draining d"
    using assms(1) b l by (auto simp: mark_draining_def split: sum.splits option.splits if_splits)
  obtain row where row: "find_job d (g_run_id g) = Some row" "drainable g guard row"
    using *(5) rowcount_one[OF soundD(2)[OF so], of "drainable g guard" "g_run_id g"] by (auto simp: drainable_def)
  have "j_state row \<noteq> Cancelling" using soundD(3)[OF so] find_job_in[OF row(1)] by (auto simp: row_ok_def)
  then have "j_state row = Running" using row(2) by (auto simp: drainable_def)
  moreover have "find_job d' (g_run_id g) = Some (set_draining row)"
    using find_job_update[OF soundD(2)[OF so], of set_draining] row by (simp add: d' set_draining_def)
  ultimately show ?thesis
    using row * l by (auto simp: drainable_def matches_grant_def live_identity_def) (metis fst_conv)
qed

theorem cancel_pending_true:
  assumes "cancel_pending e k owner d s t = (Inr True, d', s', t')" and so: "sound d"
  shows "\<exists>row. find_job d (t_run_id k) = Some row \<and> j_sequence row = t_sequence k
    \<and> j_state row \<in> {Queued, Granted} \<and> j_guard row = None \<and> j_owner row = owner
    \<and> i_pid owner = e_getpid e \<and> live_identity e owner
    \<and> find_job d' (t_run_id k) = Some (set_cancelled row)"
proof -
  obtain boot t1 where b: "boot_identity e t = (boot, t1)" by fastforce
  obtain row where k: "find_ticket d k = Some row"
    using assms(1) b by (auto simp: cancel_pending_def split: sum.splits option.splits if_splits)
  obtain mine t2 where m: "matches_owner e row owner t1 = (mine, t2)" by fastforce
  have *: "mine" "j_state row \<in> {Queued, Granted}" "j_guard row = None" "rowcount (cancellable k owner) d = 1"
    and d': "d' = update_jobs (cancellable k owner) set_cancelled d"
    using assms(1) b k m
    by (auto simp: cancel_pending_def Let_def split: sum.splits prod.splits if_splits)
  have own: "owner = j_owner row" "i_pid owner = e_getpid e" "live_identity e owner"
    using m *(1) by (auto simp: matches_owner_def live_identity_def Let_def split: if_splits prod.splits) (metis fst_conv)+
  have row: "row \<in> set (d_jobs d)" "j_run_id row = t_run_id k" "j_sequence row = t_sequence k"
    using find_ticket_in[OF k] by auto
  have f: "find_job d (t_run_id k) = Some row" using find_job_unique[OF soundD(2)[OF so] row(1)] row(2) by simp
  have "cancellable k owner row" using * row own by (simp add: cancellable_def)
  then have "find_job d' (t_run_id k) = Some (set_cancelled row)"
    using find_job_update[OF soundD(2)[OF so], of set_cancelled] f by (simp add: d' set_cancelled_def)
  then show ?thesis using f * row own by blast
qed

section \<open>Quiescence\<close>

text \<open>
  The guard and its group were absent, and every descendant the run recorded was cleared.
\<close>

definition quiescent_evidence :: "env \<Rightarrow> string \<Rightarrow> identity \<Rightarrow> bool" where
  "quiescent_evidence e rid guard \<longleftrightarrow>
     (\<exists>u. e_kill e u (i_pid guard) = Kill_esrch) \<and> (\<exists>u. e_killpg e u (i_pgid guard) = Kill_esrch)
     \<and> (\<exists>persist table u observed table' v. observations e rid guard persist table u = ((observed, table'), v)
          \<and> (\<forall>ob\<in>set observed. cleared e guard True ob))"

lemma same_identity_live:
  "observe_process e (i_pid i) t = ((observed, absent), t') \<Longrightarrow> same_identity observed i \<Longrightarrow> live_identity e i"
  by (auto simp: observe_process_def same_identity_def live_identity_def split: prod.splits option.splits)
     (metis fst_conv)

lemma quiescent_valid:
  assumes "quiescent e row guard observed t = (((grp, escaped), True), t')"
  shows "(\<exists>u. e_kill e u (i_pid guard) = Kill_esrch) \<and> (\<exists>u. e_killpg e u (i_pgid guard) = Kill_esrch)
    \<and> (\<forall>ob\<in>set observed. cleared e guard True ob)
    \<and> (\<exists>granted. j_grant_time row = Some granted \<and> granted \<le> go_checked_at grp)"
proof -
  obtain grp0 t1 where g: "probe_group e (i_pgid guard) t = (grp0, t1)" by fastforce
  obtain esc t2 where x: "escaped_or_unknown e guard (go_exists grp0 = Some False) observed t1 = (esc, t2)" by fastforce
  obtain ob ab t3 where p: "observe_process e (i_pid guard) t2 = ((ob, ab), t3)" by (metis prod.collapse)
  have *: "grp = grp0" "\<not> esc" "ab" "go_exists grp0 = Some False"
    "\<exists>granted. j_grant_time row = Some granted \<and> granted \<le> go_checked_at grp0"
    using assms g x p by (auto simp: quiescent_def split: option.splits)
  have "escaped_or_unknown e guard True observed t1 = (False, t2)" using x * by simp
  then have "\<forall>ob\<in>set observed. cleared e guard True ob" using escaped_false by blast
  then show ?thesis
    using * probe_group_absent[OF g] observe_process_cases[OF p] by blast
qed

theorem begin_finalization_proof:
  assumes "begin_finalization e g d s t = (Inr proof, d', s', t')" and so: "sound d"
  shows "\<exists>row guard granted. find_job d (g_run_id g) = Some row \<and> matches_grant row g d
    \<and> j_state row = Draining \<and> j_guard row = Some guard \<and> live_identity e (j_owner row)
    \<and> quiescent_evidence e (g_run_id g) guard
    \<and> j_grant_time row = Some granted \<and> granted \<le> q_checked_at proof
    \<and> proof = quiescence g guard (q_checked_at proof)
    \<and> find_job d' (g_run_id g) = Some (set_finalizing row)"
proof -
  obtain boot t1 where b: "boot_identity e t = (boot, t1)" by fastforce
  obtain row guard where row: "find_job d (g_run_id g) = Some row" "matches_grant row g d" "j_state row = Draining"
    "j_guard row = Some guard"
    using assms(1) b by (auto simp: begin_finalization_def split: sum.splits option.splits if_splits)
  obtain ow ab t2 where o: "observe_process e (i_pid (j_owner row)) t1 = ((ow, ab), t2)" by (metis prod.collapse)
  obtain observed table t3 where ob: "observations e (g_run_id g) guard True (d_observations d) t2 = ((observed, table), t3)"
    by (metis prod.collapse)
  obtain grp escaped valid t4 where q: "quiescent e row guard observed t3 = (((grp, escaped), valid), t4)"
    by (metis prod.collapse)
  let ?d = "d\<lparr>d_observations := table\<rparr>"
  have *: "same_identity ow (j_owner row)" "valid" "proof = quiescence g guard (go_checked_at grp)"
    "d' = update_jobs (finalizable g guard) set_finalizing ?d"
    using assms(1) b row o ob q
    by (auto simp: begin_finalization_def Let_def split: sum.splits if_splits)
  have "finalizable g guard row"
    using row find_job_in[OF row(1)] by (simp add: finalizable_def matches_grant_def)
  then have "find_job d' (g_run_id g) = Some (set_finalizing row)"
    using find_job_update[of ?d set_finalizing "finalizable g guard"] soundD(2)[OF so] row(1)
    by (simp add: *(4) set_finalizing_def find_job_def)
  moreover have "quiescent_evidence e (g_run_id g) guard"
    using quiescent_valid[OF q[unfolded eqTrueI[OF *(2)]]] ob unfolding quiescent_evidence_def by blast
  ultimately show ?thesis
    using row *(3) same_identity_live[OF o *(1)] quiescent_valid[OF q[unfolded eqTrueI[OF *(2)]]]
    by (auto simp: quiescence_def)
qed

lemma finish_valid_true:
  assumes "finish_valid e g proof clock checked_at row guard grp escaped owner t = (True, t')"
  shows "q_run_id proof = g_run_id g \<and> q_generation proof = g_generation g \<and> q_pgid proof = i_pgid guard
    \<and> q_group_absent proof \<and> \<not> escaped
    \<and> (\<exists>granted. j_grant_time row = Some granted \<and> granted \<le> q_checked_at proof) \<and> q_checked_at proof \<le> clock
    \<and> go_exists grp = Some False \<and> (\<exists>u. e_kill e u (i_pid guard) = Kill_esrch)
    \<and> same_identity owner (j_owner row)"
proof -
  obtain ob ab t1 where p: "observe_process e (i_pid guard) t = ((ob, ab), t1)" by (metis prod.collapse)
  show ?thesis
    using assms p observe_process_cases[OF p]
    by (auto simp: finish_valid_def split: if_splits option.splits)
qed

lemma finish_check_valid:
  assumes "finish_check e g proof clock row d t = (((True, escaped), d'), t')"
  shows "\<exists>guard. j_guard row = Some guard \<and> quiescent_evidence e (g_run_id g) guard
    \<and> live_identity e (j_owner row) \<and> q_run_id proof = g_run_id g \<and> q_generation proof = g_generation g
    \<and> q_pgid proof = i_pgid guard \<and> q_group_absent proof \<and> \<not> q_escaped_survivors proof
    \<and> (\<exists>granted. j_grant_time row = Some granted \<and> granted \<le> q_checked_at proof) \<and> q_checked_at proof \<le> clock"
proof -
  obtain guard where guard: "j_guard row = Some guard"
    using assms by (auto simp: finish_check_def Let_def split: option.splits prod.splits)
  obtain observed table t1 where ob: "observations e (g_run_id g) guard True (d_observations d) t = ((observed, table), t1)"
    by (metis prod.collapse)
  obtain grp t2 where grp: "probe_group e (i_pgid guard) (Suc t1) = (grp, t2)" by fastforce
  obtain esc t3 where esc: "(if q_escaped_survivors proof then (True, t2)
      else escaped_or_unknown e guard (go_exists grp = Some False) observed t2) = (esc, t3)" by fastforce
  obtain ow ab t4 where o: "observe_process e (i_pid (j_owner row)) t3 = ((ow, ab), t4)" by (metis prod.collapse)
  have v: "finish_valid e g proof clock (e_now e t1) row guard grp esc ow t4 = (True, t')"
    using assms guard ob grp esc o
    by (auto simp: finish_check_def now_def Let_def split: prod.splits)
  note valid = finish_valid_true[OF v]
  then have "\<not> q_escaped_survivors proof" "escaped_or_unknown e guard True observed t2 = (False, t3)"
    using esc by (auto split: if_splits)
  then show ?thesis
    using valid guard ob probe_group_absent[OF grp] escaped_false same_identity_live[OF o]
    unfolding quiescent_evidence_def by blast
qed

text \<open>A grant of an earlier boot authenticates nothing: its nonce is gone.\<close>

lemma boot_transition_grant: "row_ok j \<Longrightarrow> \<not> (job_active (boot_transition j clock))"
  by (cases "j_state j") (auto simp: boot_transition_def Let_def job_active_def job_terminal_def)

theorem finish_done:
  assumes "finish e g proof final d s t = (Inr u, d', s', t')" and so: "sound d"
  shows "\<exists>row guard. find_job d (g_run_id g) = Some row \<and> matches_grant row g d \<and> job_active row
    \<and> j_guard row = Some guard \<and> quiescent_evidence e (g_run_id g) guard \<and> live_identity e (j_owner row)
    \<and> q_run_id proof = g_run_id g \<and> q_generation proof = g_generation g \<and> q_pgid proof = i_pgid guard
    \<and> \<not> q_escaped_survivors proof
    \<and> (\<forall>j\<in>set (d_jobs d'). j_run_id j = g_run_id g \<longrightarrow>
         j_state j = Released \<and> j_final_status j = Some (f_status final)
         \<and> j_final_exit_code j = Some (f_exit_code final) \<and> j_final_committed j = Some (f_committed final)
         \<and> j_final_source_valid j = Some (f_source_valid final))"
proof -
  obtain booted t1 where b: "recover_boot e (e_now e t) d (Suc t) = (booted, t1)" by fastforce
  obtain d1 row where d1: "booted = Inr d1" and row: "find_job d1 (g_run_id g) = Some row" "matches_grant row g d1"
    "job_active row"
    using assms(1) b by (auto simp: finish_def now_def split: sum.splits option.splits if_splits)
  obtain valid escaped d2 t2 where c: "finish_check e g proof (e_now e t) row d1 t1 = (((valid, escaped), d2), t2)"
    by (metis prod.collapse)
  have ok: "valid" "d' = finish_write g final d2"
    using assms(1) b d1 row c by (auto simp: finish_def now_def Let_def split: if_splits prod.splits)
  have jobs: "d_jobs d1 = d_jobs d" and dom: "d_domain_id d1 = d_domain_id d"
  proof -
    have "row \<in> set (d_jobs d1)" using find_job_in[OF row(1)] by simp
    then have "e_boot e (Suc t) = Some (d_boot_id d)"
      using recover_boot_jobs[of e "e_now e t" d "Suc t" d1 t1] b d1 row(3) soundD(3)[OF so] boot_transition_grant
      by (auto split: if_splits)
    then show "d_jobs d1 = d_jobs d" "d_domain_id d1 = d_domain_id d"
      using recover_boot_jobs[of e "e_now e t" d "Suc t" d1 t1] b d1 by auto
  qed
  have "\<forall>j\<in>set (d_jobs d'). j_run_id j = g_run_id g \<longrightarrow> j_state j = Released \<and> j_final_status j = Some (f_status final)
         \<and> j_final_exit_code j = Some (f_exit_code final) \<and> j_final_committed j = Some (f_committed final)
         \<and> j_final_source_valid j = Some (f_source_valid final)"
    unfolding ok(2) finish_write_def using prune_subset by (force simp: update_jobs_def set_finished_def set_finalizing_def)
  moreover have "find_job d (g_run_id g) = Some row" "matches_grant row g d"
    using row jobs dom by (simp_all add: find_job_def matches_grant_def)
  ultimately show ?thesis
    using finish_check_valid[OF c[unfolded eqTrueI[OF ok(1)]]] row(3) by blast
qed

section \<open>Operator release\<close>

text \<open>A process of the run was not seen with its recorded identity, and was absent or its lease lock free.\<close>

definition not_live :: "env \<Rightarrow> identity \<Rightarrow> bool \<Rightarrow> bool" where
  "not_live e i lock_free \<longleftrightarrow>
     (\<exists>u. fst (process_identity e (i_pid i) u) \<noteq> Some i) \<and> (was_absent e i \<or> lock_free)"

definition release_ground :: "env \<Rightarrow> verdict \<Rightarrow> job \<Rightarrow> bool" where
  "release_ground e lock row \<longleftrightarrow>
     not_live e (j_owner row) (lock = Acquirable)
     \<and> (case j_guard row of
          None \<Rightarrow> True
        | Some g \<Rightarrow> not_live e g (lock = Acquirable) \<and> (\<exists>u. e_killpg e u (i_pgid g) = Kill_esrch))"

lemma observed_identity:
  "observe_process e pid t = ((observed, absent), t') \<Longrightarrow> observed = fst (process_identity e pid t)"
  by (auto simp: observe_process_def split: prod.splits option.splits)

lemma same_evidence_none:
  assumes "same_evidence_of e who i lock_free t = (None, t')"
  shows "not_live e i lock_free"
proof -
  obtain ob ab t1 where o: "observe_process e (i_pid i) t = ((ob, ab), t1)" by (metis prod.collapse)
  have "\<not> same_identity ob i" "proven_gone ob ab (Some (i_birth i)) \<or> lock_free"
    using assms o by (auto simp: same_evidence_of_def split: if_splits)
  then show ?thesis
    using proven_gone_absent[OF o] observed_identity[OF o] by (auto simp: not_live_def same_identity_def)
qed

lemma legacy_evidence_none:
  assumes "legacy_evidence_of e who i t = (None, t')"
  shows "was_absent e i"
proof -
  obtain ob ab t1 where o: "observe_process e (i_pid i) t = ((ob, ab), t1)" by (metis prod.collapse)
  show ?thesis
    using assms o proven_gone_absent[OF o] by (auto simp: legacy_evidence_of_def split: if_splits)
qed

lemma group_evidence_none:
  assumes "group_evidence e guard t = (None, t')"
  shows "\<exists>u. e_killpg e u (i_pgid guard) = Kill_esrch"
proof -
  obtain grp t1 where g: "probe_group e (i_pgid guard) t = (grp, t1)" by fastforce
  have "go_exists grp = Some False"
    using assms g by (auto simp: group_evidence_def split: option.splits bool.splits)
  then show ?thesis using probe_group_absent[OF g] by blast
qed

text \<open>What an operator release without force rests on.\<close>

definition release_justified :: "env \<Rightarrow> row_kind \<Rightarrow> verdict \<Rightarrow> job \<Rightarrow> bool" where
  "release_justified e kind lock row \<longleftrightarrow>
     (case kind of
        Foreign \<Rightarrow> lock = Acquirable
      | Same \<Rightarrow> release_ground e lock row
      | Legacy \<Rightarrow> was_absent e (j_owner row)
          \<and> (case j_guard row of None \<Rightarrow> True
             | Some g \<Rightarrow> was_absent e g \<and> (\<exists>u. e_killpg e u (i_pgid g) = Kill_esrch)))"

lemma release_same_ground:
  assumes "release_evidence_same e row (lock = Acquirable) t = (Inr ev, t')"
  shows "release_ground e lock row"
  using assms
  by (auto simp: release_evidence_same_def release_ground_def Let_def dest: same_evidence_none group_evidence_none
      split: prod.splits option.splits)

lemma release_legacy_ground:
  assumes "release_evidence_legacy e row t = (Inr ev, t')"
  shows "was_absent e (j_owner row) \<and> (case j_guard row of None \<Rightarrow> True
    | Some g \<Rightarrow> was_absent e g \<and> (\<exists>u. e_killpg e u (i_pgid g) = Kill_esrch))"
  using assms
  by (auto simp: release_evidence_legacy_def Let_def dest: legacy_evidence_none group_evidence_none
      split: prod.splits option.splits)

lemma release_evidence_sound:
  assumes "release_evidence e force clock kind lock row t = (Inr (evidence, forced), t')"
  shows "lock \<noteq> Held \<and> forced = force
    \<and> (if force then RELEASE_FORCE_AFTER_S \<le> row_age row clock else release_justified e kind lock row)"
proof (cases force)
  case True
  then show ?thesis using assms by (auto simp: release_evidence_def split: if_splits)
next
  case False
  then show ?thesis
    using assms release_same_ground[of e row lock t] release_legacy_ground[of e row t]
    by (cases kind) (auto simp: release_evidence_def release_justified_def Let_def split: if_splits sum.splits prod.splits)
qed

theorem release_live_released:
  assumes "release_live e force observer clock before row d s t = (Inr out, d', s', t')"
  shows "\<exists>kind sc lock u v. classify_row e observer s (j_run_id row) t = ((kind, sc), u)
    \<and> release_lock e s (j_run_id row) sc u = (lock, v) \<and> lock \<noteq> Held
    \<and> (if force then RELEASE_FORCE_AFTER_S \<le> row_age row clock else release_justified e kind lock row)
    \<and> ro_forced out = force \<and> ro_released out \<and> terminal_state (ro_state out)"
proof -
  obtain kind sc t1 where k: "classify_row e observer s (j_run_id row) t = ((kind, sc), t1)" by (metis prod.collapse)
  obtain lock t2 where l: "release_lock e s (j_run_id row) sc t1 = (lock, t2)" by fastforce
  obtain proved t3 where p: "release_evidence e force clock kind lock row t2 = (proved, t3)" by fastforce
  obtain evidence forced where pr: "proved = Inr (evidence, forced)"
    using assms k l p by (auto simp: release_live_def Let_def split: sum.splits)
  obtain st d1 where w: "release_write row d = Inr (st, d1)"
    using assms k l p pr by (auto simp: release_live_def Let_def split: sum.splits)
  have "ro_forced out = forced" "ro_released out" "ro_state out = st"
    using assms k l p pr w by (auto simp: release_live_def Let_def split: prod.splits)
  moreover have "terminal_state st"
    using w by (auto simp: release_write_def terminal_for_def Let_def split: if_splits)
  ultimately show ?thesis
    using k l release_evidence_sound[OF p[unfolded pr]] by blast
qed

section \<open>Enqueued runs wait behind the others\<close>

lemma find_filter: "(\<And>x. x \<in> set xs \<Longrightarrow> P x \<Longrightarrow> Q x) \<Longrightarrow> find P (filter Q xs) = find P xs"
  by (induction xs) auto

lemma prune_keeps_live:
  assumes "distinct (map j_run_id (d_jobs d))" and "j \<in> set (d_jobs d)" and "\<not> job_terminal j"
  shows "j \<in> set (d_jobs (prune_terminal d))"
proof -
  let ?gone = "drop MAX_TERMINAL_SUMMARIES (rev (sort_key j_sequence (filter job_terminal (d_jobs d))))"
  have "j_run_id j \<noteq> j_run_id x" if "x \<in> set ?gone" for x
  proof -
    have "x \<in> set (d_jobs d)" "job_terminal x" using in_set_dropD[OF that] by simp_all
    then show ?thesis using distinct_key_unique[OF assms(1,2)] assms(3) by metis
  qed
  then have "j_run_id j \<notin> set (map j_run_id ?gone)" by auto
  then show ?thesis
    unfolding prune_terminal_def Let_def ledger_simps using assms(2) by simp
qed

theorem enqueue_waits:
  assumes "enqueue e f rq d s t = Some (Inr k, d', s', t')" and s: "sound d" and v: "valid_request rq"
  shows "\<exists>row. find_job d' (r_run_id rq) = Some row \<and> j_state row = Queued
    \<and> j_sequence row = t_sequence k \<and> t_run_id k = r_run_id rq \<and> j_owner row = r_owner rq
    \<and> j_checkout_id row = r_checkout_id rq \<and> j_exclusive row = r_exclusive rq
    \<and> (\<forall>j\<in>set (d_jobs d'). j \<noteq> row \<longrightarrow> j_sequence j < j_sequence row)
    \<and> (\<forall>j\<in>set (d_jobs d). j_run_id j \<noteq> r_run_id rq)"
proof -
  obtain d2 row where q: "quiet d d2" and en: "enqueued rq d2 k row"
    and d': "d' = prune_terminal (appended d2 row (r_locks rq))"
    using enqueue_cases[OF assms(1) s] by auto
  note r = enqueued_row[OF en v quiet_sound[OF q s]]
  have so: "sound d'" unfolding d' using prune_terminal_sound[OF r(7)] .
  have "row \<in> set (d_jobs (appended d2 row (r_locks rq)))" by (simp add: appended_def)
  then have row: "row \<in> set (d_jobs d')"
    unfolding d' using r(1) by (intro prune_keeps_live[OF soundD(2)[OF r(7)]]) (simp_all add: job_terminal_def)
  have old: "j \<in> set (d_jobs d2)" if "j \<in> set (d_jobs d')" "j \<noteq> row" for j
    using that prune_subset[of "appended d2 row (r_locks rq)"] by (auto simp: d' appended_def)
  have fields: "j_sequence row = t_sequence k" "t_run_id k = r_run_id rq" "j_owner row = r_owner rq"
    "j_checkout_id row = r_checkout_id rq" "j_exclusive row = r_exclusive rq"
    using en by (auto simp: enqueued_def new_row_def)
  have l: "list_all2 quiet_row (d_jobs d) (d_jobs d2)" using q by (simp add: quiet_def)
  have "r_run_id rq \<notin> set (map j_run_id (d_jobs d2))"
    using r(3,5) by (auto simp: find_job_def find_None_iff)
  then have "r_run_id rq \<notin> j_run_id ` set (d_jobs d)" unfolding quiet_keys[OF l] by simp
  then have "\<forall>j\<in>set (d_jobs d). j_run_id j \<noteq> r_run_id rq" by (metis imageI)
  moreover have "find_job d' (r_run_id rq) = Some row"
    using find_job_unique[OF soundD(2)[OF so] row] r(3) by simp
  moreover have "\<forall>j\<in>set (d_jobs d'). j \<noteq> row \<longrightarrow> j_sequence j < j_sequence row"
    using old next_sequence_bound r(4) by simp
  ultimately show ?thesis using r(1) fields by blast
qed

section \<open>The ancestry retry ends\<close>

lemma nested_loop_more:
  "nested_loop e observer s d owner deadline k t = Some r \<Longrightarrow> k \<le> k' \<Longrightarrow>
   nested_loop e observer s d owner deadline k' t = Some r"
proof (induction k arbitrary: t k')
  case (Suc k)
  then obtain n where "k' = Suc n" "k \<le> n" by (cases k') auto
  then show ?case using Suc by (auto split: prod.splits nested.splits simp: Let_def)
qed simp

lemma read_sidecar_tick: "read_sidecar e s rid t = (r, t') \<Longrightarrow> t \<le> t'"
  by (auto simp: read_sidecar_def open_regular_fd_def fault_def Let_def split: if_splits option.splits file_kind.splits)

lemma classify_row_tick: "classify_row e observer s rid t = (k, t') \<Longrightarrow> t \<le> t'"
  using read_sidecar_tick
  by (auto simp: classify_row_def split: prod.splits sum.splits sidecar.splits)

lemma local_guards_tick: "local_guards e observer s rows t = (gs, t') \<Longrightarrow> t \<le> t'"
proof (induction rows arbitrary: t gs t')
  case (Cons row rows)
  obtain kind sc t1 where k: "classify_row e observer s (j_run_id row) t = ((kind, sc), t1)" by (metis prod.collapse)
  obtain kept t2 where l: "local_guards e observer s rows t1 = (kept, t2)" by fastforce
  show ?case using Cons.prems Cons.IH[OF l] classify_row_tick[OF k] k l by auto
qed simp

lemma process_identity_tick [simp]: "snd (process_identity e pid t) = Suc t"
  by (auto simp: process_identity_def)

lemma ancestry_walk_tick: "ancestry_walk e guards n visited pid t = (r, t') \<Longrightarrow> t \<le> t'"
proof (induction n arbitrary: visited pid t)
  case 0
  then show ?case by (simp add: ancestry_walk.simps split: if_splits)
next
  case (Suc n)
  have step: "t \<le> t'" if "ancestry_walk e guards n v parent (Suc (Suc (Suc t))) = (r, t')" for v parent
    using Suc.IH[OF that] by simp
  show ?case
    using Suc.prems step
    by (subst (asm) ancestry_walk.simps) (auto split: if_splits option.splits simp: Let_def case_prod_unfold)
qed

lemma check_nested_once_tick: "check_nested_once e observer s d owner t = (r, t') \<Longrightarrow> t \<le> t'"
proof -
  assume c: "check_nested_once e observer s d owner t = (r, t')"
  obtain gs t1 where g: "local_guards e observer s (filter (\<lambda>j. j_guard j \<noteq> None \<and> \<not> job_terminal j) (d_jobs d)) t = (gs, t1)"
    by fastforce
  obtain ob ab t2 where o: "observe_process e (i_pid owner) t1 = ((ob, ab), t2)" by (metis prod.collapse)
  have "t1 \<le> t2" using o by (auto simp: observe_process_def case_prod_unfold Let_def split: option.splits)
  then show ?thesis
    using c g o local_guards_tick[OF g]
    by (auto simp: check_nested_once_def dest!: ancestry_walk_tick split: if_splits option.splits)
qed

text \<open>If every clock read from tick \<open>t + n\<close> on is past the deadline, \<open>n + 1\<close> attempts are enough.\<close>

lemma nested_loop_ends:
  assumes "\<forall>u\<ge>t + n. deadline \<le> e_now e u"
  shows "nested_loop e observer s d owner deadline (Suc n) t \<noteq> None"
  using assms
proof (induction n arbitrary: t)
  case 0
  obtain r t1 where c: "check_nested_once e observer s d owner t = (r, t1)" by fastforce
  then show ?case
    using 0 check_nested_once_tick[OF c] by (auto simp: now_def split: nested.splits)
next
  case (Suc n)
  obtain r t1 where c: "check_nested_once e observer s d owner t = (r, t1)" by fastforce
  have "\<forall>u\<ge>Suc t1 + n. deadline \<le> e_now e u" using Suc.prems check_nested_once_tick[OF c] by simp
  from Suc.IH[OF this] show ?case
    using c by (cases r) (simp_all add: now_def Let_def del: nested_loop.simps(2), simp_all add: now_def Let_def)
qed

lemma check_nested_ends:
  assumes "\<forall>x. \<exists>u0. \<forall>u\<ge>u0. x \<le> e_now e u"
  shows "\<exists>k r. check_nested e k observer s d owner t = Some r"
proof -
  let ?deadline = "e_now e t + ANCESTRY_RETRY_DEADLINE_S"
  obtain u0 where "\<forall>u\<ge>u0. ?deadline \<le> e_now e u" using assms by blast
  then have "\<forall>u\<ge>Suc t + u0. ?deadline \<le> e_now e u" by simp
  then have "nested_loop e observer s d owner ?deadline (Suc u0) (Suc t) \<noteq> None"
    by (rule nested_loop_ends)
  then have "check_nested e (Suc u0) observer s d owner t \<noteq> None"
    unfolding check_nested_def now_def Let_def prod.case .
  then show ?thesis by blast
qed

lemma check_nested_more:
  "check_nested e k observer s d owner t = Some r \<Longrightarrow> k \<le> k' \<Longrightarrow> check_nested e k' observer s d owner t = Some r"
  unfolding check_nested_def now_def Let_def prod.case by (rule nested_loop_more)

text \<open>With a clock that passes every deadline, enough fuel always gives the answer, the same for any more fuel.\<close>

theorem enqueue_ends:
  assumes "\<forall>x. \<exists>u0. \<forall>u\<ge>u0. x \<le> e_now e u"
  shows "\<exists>k0 r. \<forall>k\<ge>k0. enqueue e k rq d s t = Some r"
proof -
  obtain observer t1 where n: "namespace_identity e t = (observer, t1)" by fastforce
  obtain s1 t2 where w: "sweep_leases e d s t1 = (s1, t2)" by fastforce
  obtain recovered t3 where rec: "recover_ledger e observer s1 (e_now e t2) d (Suc t2) = (recovered, t3)" by fastforce
  consider (early) p where "\<And>k. enqueue e k rq d s t = Some (Inl p, d, s, t)"
    | (admitted) "request_contained False [] (r_checkout_root rq) (r_fixture rq) = None" "i_uid (r_owner rq) = e_getuid e"
  proof (cases "request_contained False [] (r_checkout_root rq) (r_fixture rq)")
    case None
    have "enqueue e k rq d s t = Some (Inl (uncertain_problem ''admission owner is not the current account''), d, s, t)"
      if "i_uid (r_owner rq) \<noteq> e_getuid e" for k using None that by (simp add: enqueue_def)
    then show ?thesis using None early admitted by blast
  next
    case (Some p)
    have "enqueue e k rq d s t = Some (Inl p, d, s, t)" for k using Some by (simp add: enqueue_def)
    then show ?thesis using early by blast
  qed
  then show ?thesis
  proof cases
    case (early p)
    then show ?thesis by blast
  next
    case admitted
    note run = enqueue_def now_def n w rec admitted
    show ?thesis
    proof (cases recovered)
      case (Inl p)
      then have "enqueue e k rq d s t = Some (Inl p, d, s1, t3)" for k by (simp add: run)
      then show ?thesis by blast
    next
      case (Inr d1)
      obtain limited t4 where lim: "refresh_limits e d1 t3 = (limited, t4)" by fastforce
      show ?thesis
      proof (cases limited)
        case (Inl p)
        then have "enqueue e k rq d s t = Some (Inl p, d, s1, t4)" for k by (simp add: run Inr lim)
        then show ?thesis by blast
      next
        case d2: (Inr d2)
        obtain k0 c u where "check_nested e k0 observer s1 d2 (r_owner rq) t4 = Some (c, u)"
          using check_nested_ends[OF assms] by (metis prod.collapse)
        then have c: "check_nested e k observer s1 d2 (r_owner rq) t4 = Some (c, u)" if "k0 \<le> k" for k
          using check_nested_more that by blast
        define r where "r = (case c of Inl p \<Rightarrow> (Inl p, d, s1, u) | Inr _ \<Rightarrow> enqueue_row e rq (e_now e t2) d d2 s1 u)"
        have "enqueue e k rq d s t = Some r" if "k0 \<le> k" for k
          by (cases c) (simp_all add: run Inr lim d2 c[OF that] r_def)
        then show ?thesis by blast
      qed
    qed
  qed
qed

end
