(* ===== verification/Sched_Example.thy ===== *)
theory Sched_Example
  imports Sched_Evidence
begin

text \<open>
  A concrete world and a concrete ledger, on which the properties of the scheduler are
  instantiated: a run is admitted, granted, guarded, drained, finalized and finished.
\<close>

definition example_owner :: identity where
  "example_owner = \<lparr>i_pid = 100, i_birth = 1, i_uid = 1000, i_pgid = 100\<rparr>"

definition example_guard :: identity where
  "example_guard = \<lparr>i_pid = 200, i_birth = 2, i_uid = 1000, i_pgid = 200\<rparr>"

text \<open>The process \<open>me\<close> calls; the processes of \<open>alive\<close> exist, without children.\<close>

definition world :: "int \<Rightarrow> identity list \<Rightarrow> env" where
  "world me alive =
     \<lparr>e_now = (\<lambda>_. 10),
      e_ident = (\<lambda>_ pid. find (\<lambda>i. i_pid i = pid) alive),
      e_kill = (\<lambda>_ pid. if pid \<in> set (map i_pid alive) then Kill_ok else Kill_esrch),
      e_killpg = (\<lambda>_ pgid. if pgid \<in> set (map i_pgid alive) then Kill_ok else Kill_esrch),
      e_children = (\<lambda>_ _. Children []), e_ppid = (\<lambda>_ _. Some 0), e_boot = (\<lambda>_. Some ''boot''),
      e_machine = (\<lambda>_. Inr (Some (TTable [(''max_slots'', TInt 4), (''max_jobs'', TInt 2)]))),
      e_token = (\<lambda>_. ''nonce''), e_getpid = me, e_getuid = 1000,
      e_locked = (\<lambda>_ _. False), e_fault = (\<lambda>_. False), e_new_ino = (\<lambda>t. (1, int t)),
      e_linux = False, e_ns_link = (\<lambda>_. None), e_proc_self = (\<lambda>_. None), e_init_start = (\<lambda>_. None)\<rparr>"

definition example_ledger :: ledger where
  "example_ledger =
     \<lparr>d_domain_id = ''domain'', d_boot_id = ''boot'', d_config_slots = 4, d_config_jobs = 2,
      d_config_memory = None, d_config_generation = 1, d_jobs = [], d_resources = [], d_observations = []\<rparr>"

definition example_run :: string where
  "example_run = replicate 32 (CHR ''a'')"

definition example_request :: request where
  "example_request =
     \<lparr>r_run_id = example_run, r_checkout_id = ''checkout'', r_checkout_root = ''/repo'', r_owner = example_owner,
      r_slots = 2, r_exclusive = False, r_locks = [''db''], r_memory_mb = None, r_deadline = 0, r_fixture = False\<rparr>"

definition example_store :: lease_store where
  "example_store = \<lparr>l_files = [], l_held = []\<rparr>"

definition other_run :: string where
  "other_run = replicate 32 (CHR ''b'')"

definition other_request :: request where
  "other_request = example_request\<lparr>r_run_id := other_run, r_checkout_id := ''other'', r_locks := [''cache'']\<rparr>"

section \<open>The ledgers of the example\<close>

definition example_row :: job where
  "example_row = new_row example_request 1 2 None None 10 14410"

definition other_row :: job where
  "other_row = new_row other_request 2 2 None None 10 14410"

definition grant_example :: "job \<Rightarrow> job" where
  "grant_example row =
     row\<lparr>j_state := Granted, j_grant_time := Some 10, j_nonce := Some ''nonce'', j_generation := Some 1\<rparr>"

definition example_grant :: grant where
  "example_grant =
     \<lparr>g_run_id = example_run, g_nonce = ''nonce'', g_slots = 2, g_memory_estimate_mb = None,
      g_reserved_memory_mb = None, g_generation = 1, g_domain_id = ''domain''\<rparr>"

definition example_proof :: quiescence_proof where
  "example_proof = quiescence example_grant example_guard 10"

definition example_final :: finalization where
  "example_final = \<lparr>f_status = Passed, f_exit_code = 0, f_source_valid = True, f_committed = True\<rparr>"

definition queued_one :: ledger where
  "queued_one = example_ledger\<lparr>d_jobs := [example_row], d_resources := [(example_run, ''db'')]\<rparr>"

definition with_rows :: "job list \<Rightarrow> ledger" where
  "with_rows rows =
     example_ledger\<lparr>d_jobs := rows, d_resources := [(example_run, ''db''), (other_run, ''cache'')]\<rparr>"

definition running_row :: job where
  "running_row = set_running example_guard (grant_example example_row)"

definition queued_two :: ledger where "queued_two = with_rows [example_row, other_row]"
definition granted_two :: ledger where "granted_two = with_rows [grant_example example_row, grant_example other_row]"
definition running_one :: ledger where "running_one = with_rows [running_row, grant_example other_row]"
definition draining_one :: ledger where
  "draining_one = with_rows [set_draining running_row, grant_example other_row]"
definition finalizing_one :: ledger where
  "finalizing_one = with_rows [set_finalizing (set_draining running_row), grant_example other_row]"
definition finished_one :: ledger where
  "finished_one =
     with_rows [set_finished example_final (set_finalizing (set_draining running_row)), grant_example other_row]"

section \<open>The handlers on the example\<close>

definition ends :: "'a outcome \<Rightarrow> (problem + 'a) \<times> ledger" where
  "ends out = (fst out, fst (snd out))"

lemma endsE:
  assumes "ends out = (r, d)"
  obtains s t where "out = (r, d, s, t)"
  using assms by (cases out) (auto simp: ends_def)

lemma example_enqueue:
  "map_option ends (enqueue (world 100 [example_owner]) 1 example_request example_ledger example_store 0) =
     Some (Inr \<lparr>t_run_id = example_run, t_sequence = 1\<rparr>, queued_one)"
  by code_simp

lemma other_enqueue:
  "map_option ends (enqueue (world 100 [example_owner]) 1 other_request queued_one example_store 0) =
     Some (Inr \<lparr>t_run_id = other_run, t_sequence = 2\<rparr>, queued_two)"
  by code_simp

lemma example_poll:
  "snd (ends (poll (world 100 [example_owner]) \<lparr>t_run_id = example_run, t_sequence = 1\<rparr> queued_two example_store 0)) =
     granted_two"
  by code_simp

lemma example_register:
  "ends (register_guard (world 100 [example_owner, example_guard]) example_grant example_guard granted_two example_store 0) =
     (Inr True, running_one)"
  by code_simp

lemma example_drain:
  "ends (mark_draining (world 200 [example_owner, example_guard]) example_grant example_guard running_one example_store 0) =
     (Inr True, draining_one)"
  by code_simp

lemma example_begin:
  "ends (begin_finalization (world 100 [example_owner]) example_grant draining_one example_store 0) =
     (Inr example_proof, finalizing_one)"
  by code_simp

lemma example_finish:
  "ends (finish (world 100 [example_owner]) example_grant example_proof example_final finalizing_one example_store 0) =
     (Inr (), finished_one)"
  by code_simp

lemma example_cancel:
  "ends (cancel_pending (world 100 [example_owner]) \<lparr>t_run_id = example_run, t_sequence = 1\<rparr> example_owner
      queued_one example_store 0) = (Inr True, queued_one\<lparr>d_jobs := [set_cancelled example_row]\<rparr>)"
  by code_simp

lemma example_release:
  "map_sum id ro_evidence (fst (ends (release_run (world 300 []) example_run False running_one example_store 0))) =
     Inr EVIDENCE_RECOVERED"
  by code_simp

section \<open>The example is reachable\<close>

lemma example_initial: "initial example_ledger"
  by (simp add: initial_def example_ledger_def ledger_limits_def valid_limits_def)

lemma example_valid: "valid_request example_request" "valid_request other_request"
  by code_simp+

lemma step_of_enqueue:
  assumes "map_option ends (enqueue e f rq d s t) = Some (r, d')" and "valid_request rq"
  shows "step d d'"
proof -
  obtain s' t' where "enqueue e f rq d s t = Some (r, d', s', t')" using assms(1) by (auto elim: endsE)
  then show ?thesis by (rule step_enqueue[OF assms(2)])
qed

lemma step_of_poll: "snd (ends (poll e k d s t)) = d' \<Longrightarrow> step d d'"
  by (cases "poll e k d s t") (auto simp: ends_def intro: step_poll)

lemma example_reachable:
  shows queued_one_reachable: "reachable queued_one"
    and queued_two_reachable: "reachable queued_two"
    and granted_two_reachable: "reachable granted_two"
    and running_one_reachable: "reachable running_one"
    and draining_one_reachable: "reachable draining_one"
    and finalizing_one_reachable: "reachable finalizing_one"
    and finished_one_reachable: "reachable finished_one"
proof -
  note more = reach_step
  show 1: "reachable queued_one"
    by (rule more[OF reach_initial[OF example_initial] step_of_enqueue[OF example_enqueue example_valid(1)]])
  show 2: "reachable queued_two" by (rule more[OF 1 step_of_enqueue[OF other_enqueue example_valid(2)]])
  show 3: "reachable granted_two" by (rule more[OF 2 step_of_poll[OF example_poll]])
  show 4: "reachable running_one" by (rule endsE[OF example_register], rule more[OF 3 step_register])
  show 5: "reachable draining_one" by (rule endsE[OF example_drain], rule more[OF 4 step_drain])
  show 6: "reachable finalizing_one" by (rule endsE[OF example_begin], rule more[OF 5 step_finalize])
  show "reachable finished_one" by (rule endsE[OF example_finish], rule more[OF 6 step_finish])
qed

lemmas example_sound = example_reachable[THEN reachable_sound]

end
