(* ===== verification/Sched_Refine.thy ===== *)
theory Sched_Refine
  imports Sched_System "HOL-Library.Sublist"
begin

text \<open>
  What the coordinator promises, as an abstract machine: a lock manager with one queue and
  a set of holders. A run enters at the end of the queue, only its head can become a holder,
  and only when it conflicts with no holder; runs leave at any time. Every transaction on
  the ledger is a sequence of its steps, so the protocol of guards, proofs, recoveries and
  releases adds nothing a user of the locks can see.
\<close>

section \<open>The abstract lock manager\<close>

record claim =
  cl_run :: string
  cl_checkout :: string
  cl_exclusive :: bool
  cl_locks :: "string set"

definition conflicts :: "claim \<Rightarrow> claim \<Rightarrow> bool" where
  "conflicts a b \<longleftrightarrow>
     cl_checkout a = cl_checkout b \<or> cl_exclusive a \<or> cl_exclusive b \<or> cl_locks a \<inter> cl_locks b \<noteq> {}"

type_synonym lock_manager = "claim list \<times> claim set"

inductive lm_step :: "lock_manager \<Rightarrow> lock_manager \<Rightarrow> bool" where
  lm_request: "cl_run c \<notin> cl_run ` (set q \<union> h) \<Longrightarrow> lm_step (q, h) (q @ [c], h)"
| lm_acquire: "\<forall>b\<in>h. \<not> conflicts c b \<Longrightarrow> lm_step (c # q, h) (q, insert c h)"
| lm_leave: "subseq q' q \<Longrightarrow> h' \<subseteq> h \<Longrightarrow> lm_step (q, h) (q', h')"

inductive_cases lm_stepE: "lm_step (q, h) (q', h')"

abbreviation lm_steps :: "lock_manager \<Rightarrow> lock_manager \<Rightarrow> bool" where
  "lm_steps \<equiv> lm_step\<^sup>*\<^sup>*"

text \<open>The abstract machine excludes: no two of its holders conflict.\<close>

definition exclusion :: "lock_manager \<Rightarrow> bool" where
  "exclusion m \<longleftrightarrow> (\<forall>a\<in>snd m. \<forall>b\<in>snd m. a \<noteq> b \<longrightarrow> \<not> conflicts a b)"

lemma conflicts_sym: "conflicts a b \<longleftrightarrow> conflicts b a"
  by (auto simp: conflicts_def)

lemma lm_step_exclusion: "lm_step m m' \<Longrightarrow> exclusion m \<Longrightarrow> exclusion m'"
proof (induction rule: lm_step.induct)
  case (lm_acquire h c q)
  then show ?case using conflicts_sym by (auto simp: exclusion_def)
qed (auto simp: exclusion_def)

lemma lm_steps_exclusion: "lm_steps m m' \<Longrightarrow> exclusion m \<Longrightarrow> exclusion m'"
  by (induction rule: rtranclp_induct) (blast intro: lm_step_exclusion)+

section \<open>The ledger as a lock manager\<close>

definition claim_of :: "ledger \<Rightarrow> job \<Rightarrow> claim" where
  "claim_of d j =
     \<lparr>cl_run = j_run_id j, cl_checkout = j_checkout_id j, cl_exclusive = j_exclusive j,
      cl_locks = row_resources d (j_run_id j)\<rparr>"

definition lock_view :: "ledger \<Rightarrow> lock_manager" where
  "lock_view d = (map (claim_of d) (queued_jobs d), claim_of d ` set (active_jobs d))"

lemma claim_of_simps [simp]:
  "cl_run (claim_of d j) = j_run_id j" "cl_checkout (claim_of d j) = j_checkout_id j"
  "cl_exclusive (claim_of d j) = j_exclusive j" "cl_locks (claim_of d j) = row_resources d (j_run_id j)"
  by (simp_all add: claim_of_def)

lemma claim_of_same:
  "quiet_row j j' \<Longrightarrow> row_resources d' (j_run_id j) = row_resources d (j_run_id j) \<Longrightarrow> claim_of d' j' = claim_of d j"
  by (simp add: claim_of_def quiet_row_def)

abbreviation queued :: "job \<Rightarrow> bool" where
  "queued j \<equiv> j_state j = Queued"

text \<open>Rows that change quietly only leave the queue.\<close>

lemma quiet_queue:
  assumes "list_all2 quiet_row xs ys" and "\<forall>j\<in>set xs. row_ok j"
    and "\<forall>j\<in>set ys. row_resources d' (j_run_id j) = row_resources d (j_run_id j)"
  shows "subseq (map (claim_of d') (filter queued ys)) (map (claim_of d) (filter queued xs))"
  using assms
proof (induction rule: list_all2_induct)
  case (Cons x xs y ys)
  have run: "j_run_id y = j_run_id x" and q: "queued y \<longrightarrow> queued x"
    using Cons.hyps(1) Cons.prems(1) by (simp_all add: quiet_row_def)
  have "claim_of d' y = claim_of d x"
    using claim_of_same[OF Cons.hyps(1)] Cons.prems(2) run by simp
  then show ?case using Cons q by auto
qed simp

lemma quiet_holders:
  assumes "list_all2 quiet_row xs ys" and "\<forall>j\<in>set xs. row_ok j" and "j' \<in> set ys" and "job_active j'"
    and "row_resources d' (j_run_id j') = row_resources d (j_run_id j')"
  shows "claim_of d' j' \<in> claim_of d ` set (filter job_active xs)"
proof -
  obtain j where j: "j \<in> set xs" "quiet_row j j'" using list_all2_obtain[OF assms(1,3)] .
  then have "claim_of d' j' = claim_of d j" using claim_of_same assms(5) by (simp add: quiet_row_def)
  moreover have "job_active j" using j assms(2,4) quiet_rowD(2) by blast
  ultimately show ?thesis using j(1) by simp
qed

text \<open>A part of a list in the same strict order is a subsequence of it.\<close>

lemma sorted_part_subseq:
  fixes f :: "'a \<Rightarrow> int"
  assumes "sorted_wrt (<) (map f xs)" and "sorted_wrt (<) (map f ys)" and "set ys \<subseteq> set xs"
  shows "subseq ys xs"
proof -
  have "ys = filter (\<lambda>x. x \<in> set ys) xs"
    using assms
  proof (induction xs arbitrary: ys)
    case (Cons x xs)
    show ?case
    proof (cases "x \<in> set ys")
      case True
      have "ys = x # tl ys"
      proof (cases ys)
        case (Cons y zs)
        have "y = x"
        proof (rule ccontr)
          assume "y \<noteq> x"
          then have "y \<in> set xs" "x \<in> set zs" using True Cons.prems(3) Cons by auto
          then show False using Cons.prems(1,2) Cons by (auto dest: bspec order_less_trans)
        qed
        then show ?thesis using Cons by simp
      qed (use True in simp)
      then obtain zs where zs: "ys = x # zs" by blast
      have "x \<notin> set xs" "x \<notin> set zs" using Cons.prems(1,2) zs by auto
      then have "set zs \<subseteq> set xs" using Cons.prems(3) zs by auto
      then have "zs = filter (\<lambda>y. y \<in> set zs) xs"
        using Cons.IH[of zs] Cons.prems(1,2) zs by simp
      moreover have "filter (\<lambda>y. y \<in> set ys) xs = filter (\<lambda>y. y \<in> set zs) xs"
        using \<open>x \<notin> set xs\<close> zs by (intro filter_cong) auto
      ultimately show ?thesis using zs by simp
    next
      case False
      then have "set ys \<subseteq> set xs" using Cons.prems(3) by auto
      then show ?thesis using Cons.IH[of ys] Cons.prems(1,2) False by simp
    qed
  qed simp
  then show ?thesis by (metis subseq_filter_left)
qed

section \<open>The simulation\<close>

lemma settles_leaves:
  assumes "settles d d'" and s: "sound d"
  shows "lm_step (lock_view d) (lock_view d')"
proof -
  obtain d1 where q: "quiet d d1" and sub: "set (d_jobs d') \<subseteq> set (d_jobs d1)"
    and res: "\<forall>j\<in>set (d_jobs d'). row_resources d' (j_run_id j) = row_resources d (j_run_id j)" and s': "sound d'"
    using assms(1) by (auto simp: settles_def)
  have l: "list_all2 quiet_row (d_jobs d) (d_jobs d1)" using q by (simp add: quiet_def)
  have ok: "\<forall>j\<in>set (d_jobs d). row_ok j" using soundD(3)[OF s] by blast
  have part: "subseq (d_jobs d') (d_jobs d1)"
    using sorted_part_subseq[OF soundD(1)[OF quiet_sound[OF q s]] soundD(1)[OF s'] sub] .
  have "map (claim_of d') (filter queued (d_jobs d')) = map (claim_of d1) (filter queued (d_jobs d'))"
    using res quiet_resources[OF q] by (intro map_cong) (auto simp: claim_of_def)
  also have "subseq \<dots> (map (claim_of d1) (filter queued (d_jobs d1)))"
    by (intro subseq_map subseq_filter part)
  also have "subseq (map (claim_of d1) (filter queued (d_jobs d1))) (map (claim_of d) (filter queued (d_jobs d)))"
    using quiet_queue[OF l ok] quiet_resources[OF q] by blast
  finally have "subseq (map (claim_of d') (queued_jobs d')) (map (claim_of d) (queued_jobs d))"
    by (simp add: queued_filter[OF s] queued_filter[OF s'])
  moreover have "claim_of d' ` set (active_jobs d') \<subseteq> claim_of d ` set (active_jobs d)"
  proof
    fix c
    assume "c \<in> claim_of d' ` set (active_jobs d')"
    then obtain j where j: "j \<in> set (d_jobs d')" "job_active j" "c = claim_of d' j" by (auto simp: active_jobs_def)
    then show "c \<in> claim_of d ` set (active_jobs d)"
      using quiet_holders[OF l ok _ j(2), of d' d] res sub by (auto simp: active_jobs_def)
  qed
  ultimately show ?thesis unfolding lock_view_def by (rule lm_leave)
qed

lemma quiet_leaves: "quiet d d' \<Longrightarrow> sound d \<Longrightarrow> lm_step (lock_view d) (lock_view d')"
  using settles_leaves settles_quiet by blast

lemma appended_requests:
  assumes "enqueued rq d k row" and "valid_request rq" and s: "sound d"
  shows "lm_step (lock_view d) (lock_view (appended d row (r_locks rq)))"
proof -
  let ?d = "appended d row (r_locks rq)"
  note row = enqueued_row[OF assms]
  have new: "j_run_id row \<notin> j_run_id ` set (d_jobs d)" using row(5) by (auto simp: find_job_def find_None_iff)
  have same: "claim_of ?d j = claim_of d j" if "j \<in> set (d_jobs d)" for j
    using that new by (auto simp: claim_of_def row_resources_def appended_def)
  have "queued_jobs ?d = queued_jobs d @ [row]"
    using row(1) by (simp add: queued_filter[OF s] queued_filter[OF row(7)]) (simp add: appended_def)
  moreover have "active_jobs ?d = active_jobs d"
    using row(1) by (simp add: active_jobs_def appended_def job_active_def)
  ultimately have view: "lock_view ?d = (fst (lock_view d) @ [claim_of ?d row], snd (lock_view d))"
    using same by (auto simp: lock_view_def queued_filter[OF s] active_jobs_def)
  have "cl_run (claim_of ?d row) \<notin> cl_run ` (set (fst (lock_view d)) \<union> snd (lock_view d))"
    using new by (auto simp: lock_view_def queued_filter[OF s] active_jobs_def)
  then show ?thesis unfolding view using lm_request by (metis prod.collapse)
qed

lemma enqueue_refines:
  assumes "enqueue e f rq d s t = Some (r, d', s', t')" and s: "sound d" and v: "valid_request rq"
  shows "lm_steps (lock_view d) (lock_view d')"
  using enqueue_cases[OF assms(1) s]
proof
  assume "\<exists>d2 k row. r = Inr k \<and> quiet d d2 \<and> enqueued rq d2 k row \<and> d' = prune_terminal (appended d2 row (r_locks rq))"
  then obtain d2 k row where q: "quiet d d2" and en: "enqueued rq d2 k row"
    and d': "d' = prune_terminal (appended d2 row (r_locks rq))" by blast
  note s2 = quiet_sound[OF q s]
  have "lm_step (lock_view (appended d2 row (r_locks rq))) (lock_view d')"
    unfolding d' by (rule settles_leaves[OF settles_prune[OF _ quiet_refl]]) (rule enqueued_row(7)[OF en v s2])+
  then show ?thesis
    using quiet_leaves[OF q s] appended_requests[OF en v s2] by (meson rtranclp.rtrancl_into_rtrancl r_into_rtranclp)
qed auto

lemma grant_acquires:
  assumes s: "sound d" and q: "queued_jobs d = row # rows" and g: "grant_one e clock row d t = Some d1"
  shows "lm_step (lock_view d) (lock_view d1)"
proof -
  note one = grant_one_queue[OF assms]
  have f: "filter queued (d_jobs d) = row # rows" using queued_filter[OF s] q by simp
  have "row \<in> set (filter queued (d_jobs d))" by (simp add: f)
  then have row: "row \<in> set (d_jobs d)" "queued row" by simp_all
  note some = grant_one_some[OF g soundD(2)[OF s] row(1)]
  let ?g = "grant_of e clock d t row"
  have same: "claim_of d1 = claim_of d" by (rule ext) (simp add: claim_of_def row_resources_def one(4))
  have "a \<in> set (active_jobs d1) \<longleftrightarrow> a \<in> set (active_jobs d) \<or> a = ?g" for a
    using grant_active(2)[OF soundD(2)[OF s] row some(2)] by (simp add: job_active_def)
  then have "set (active_jobs d1) = insert ?g (set (active_jobs d))" by blast
  moreover have "claim_of d ?g = claim_of d row" by (simp only: claim_of_def grant_of_fields)
  ultimately have view: "lock_view d1 = (map (claim_of d) rows, insert (claim_of d row) (claim_of d ` set (active_jobs d)))"
    by (simp only: lock_view_def same one(1) image_insert)
  have "\<not> conflicts (claim_of d row) (claim_of d j)" if "j \<in> set (active_jobs d)" for j
    using some(1) that by (auto simp: available_for_iff conflicts_def)
  then show ?thesis unfolding view by (simp add: lock_view_def q) (rule lm_acquire, blast)
qed

lemma grant_rows_refine:
  assumes "grant_rows e clock rows d t = (d', t')" and "sound d" and "queued_jobs d = rows"
  shows "lm_steps (lock_view d) (lock_view d')"
  using assms
proof (induction rows arbitrary: d t)
  case (Cons row rows)
  show ?case
  proof (cases "grant_one e clock row d t")
    case (Some d1)
    note one = grant_one_queue[OF Cons.prems(2,3) Some]
    have "grant_rows e clock rows d1 (Suc t) = (d', t')" using Cons.prems(1) Some by simp
    then show ?thesis
      using Cons.IH[OF _ one(2,1)] grant_acquires[OF Cons.prems(2,3) Some]
      by (metis converse_rtranclp_into_rtranclp)
  qed (use Cons.prems in simp)
qed simp

lemma poll_refines:
  assumes "poll e k d s t = (r, d', s', t')" and s: "sound d"
  shows "lm_steps (lock_view d) (lock_view d')"
  using poll_cases[OF assms]
proof
  assume "\<exists>d2 clock u v row. quiet d d2 \<and> sound d2 \<and> grant_queued e clock d2 u = (d', v)
      \<and> find_ticket d' k = Some row \<and> r = Inr (admission_view d' row)"
  then obtain d2 clock u v where q: "quiet d d2" "sound d2" and g: "grant_queued e clock d2 u = (d', v)" by blast
  have "lm_steps (lock_view d2) (lock_view d')"
    using grant_rows_refine[OF g[unfolded grant_queued_def] q(2) refl] .
  then show ?thesis using quiet_leaves[OF q(1) s] by (meson converse_rtranclp_into_rtranclp)
qed auto

lemma step_refines:
  assumes "step d d'" and "sound d"
  shows "lm_steps (lock_view d) (lock_view d')"
  using assms(1,2)
proof (cases rule: step_kinds)
  case (enqueue e rq f s t r s' t')
  then show ?thesis using enqueue_refines assms(2) by blast
next
  case (poll e k s t r s' t')
  then show ?thesis using poll_refines assms(2) by blast
next
  case settle
  then show ?thesis using settles_leaves[OF _ assms(2)] by blast
qed

lemma reachable_refines: "reachable d \<Longrightarrow> lm_steps ([], {}) (lock_view d)"
proof (induction rule: reachable.induct)
  case (reach_initial d)
  then have "lock_view d = ([], {})" by (simp add: lock_view_def initial_def queued_jobs_def active_jobs_def)
  then show ?case by simp
next
  case (reach_step d d')
  then show ?case using step_refines[OF _ reachable_sound] rtranclp_trans by metis
qed

end
