(* ===== verification/Select_Policy.thy ===== *)
theory Select_Policy
  imports Prelude
begin

text \<open>
  The policy selection of \<^verbatim>\<open>src/ptest/selection.py\<close>: from a static snapshot of the
  checkout, the recorded history and the declared policy to a test plan. A plan selects
  tests only by unions the policy declares; whatever is ambiguous is a full gate.

  The policy digest (\<^verbatim>\<open>hashlib.sha256\<close> of the policy's \<^verbatim>\<open>repr\<close>) is an argument.
  The ratio of the selected tests is compared as a rational number; the rounding of the
  floating-point division is not modelled.
\<close>

section \<open>The records of the contract\<close>

datatype mode = Automatic | Scoped_mode | Full_mode | Shadow_mode | Probe_mode

record pgroup =
  pg_name :: string
  pg_sources :: "string list"
  pg_tests :: "string list"

record policy =
  po_enabled :: bool
  po_closed_inputs :: bool
  po_input_roots :: "string list"
  po_ignored_inputs :: "string list"
  po_full_triggers :: "string list"
  po_always :: "string list"
  po_no_tests :: "string list"
  po_non_input_outputs :: "string list"
  po_full_ratio :: rat
  po_groups :: "pgroup list"

record path_change =
  pc_old :: "string option"
  pc_new :: "string option"
  pc_kind :: string

record snapshot =
  sn_digest :: "string option"
  sn_compatibility :: "string option"
  sn_head :: "string option"
  sn_changes :: "path_change list"
  sn_limited :: bool
  sn_files :: "string list"
  sn_baseline_head :: "string option"

record baseline =
  bl_run_id :: string
  bl_head :: string
  bl_input_digest :: string
  bl_compatibility :: string
  bl_complete :: bool
  bl_files :: "string list"
  bl_policy_digest :: string

record obligation =
  ob_file :: "string option"
  ob_test_id :: "string option"

record history_view =
  hv_baseline :: "baseline option"
  hv_obligations :: "obligation list"
  hv_disabled :: bool
  hv_limitations :: "string list"
  hv_quarantine :: "string option"

datatype execution = Run_full | Run_selected | Run_scoped | Run_none

record plan =
  pl_mode :: mode
  pl_execution :: execution
  pl_files :: "string list"
  pl_reasons :: "(string \<times> string) list"
  pl_input_digest :: "string option"
  pl_compatibility :: "string option"
  pl_baseline_run_id :: "string option"

text \<open>\<open>sn_limited\<close>: the snapshot has limitations; \<open>hv_limitations\<close> are the codes of the
  history's limitations, \<open>hv_quarantine\<close> the run of a shadow quarantine.\<close>

section \<open>Policy paths\<close>

definition path_matches :: "string \<Rightarrow> string list \<Rightarrow> bool" where
  "path_matches path patterns \<longleftrightarrow>
     (\<exists>item\<in>set patterns. path = item \<or> starts_with (item @ ''/'') path)"

definition overlaps :: "string \<Rightarrow> string \<Rightarrow> bool" where
  "overlaps l r \<longleftrightarrow> path_matches l [r] \<or> path_matches r [l]"

definition BUILTIN_OUTPUTS :: "string list" where
  "BUILTIN_OUTPUTS = [''graphify-out'', ''.ruff_cache'', ''.mypy_cache'']"

definition grouped_paths :: "policy \<Rightarrow> string list" where
  "grouped_paths p = concat (map (\<lambda>g. pg_sources g @ pg_tests g) (po_groups p))"

definition non_input_outputs :: "policy \<Rightarrow> string list \<Rightarrow> string list" where
  "non_input_outputs p test_roots =
     (let claimed = po_input_roots p @ po_full_triggers p @ po_always p @ po_ignored_inputs p
                    @ po_no_tests p @ test_roots @ grouped_paths p
      in po_non_input_outputs p
         @ filter (\<lambda>item. item \<notin> set (po_non_input_outputs p) \<and> \<not> (\<exists>other\<in>set claimed. overlaps item other))
             BUILTIN_OUTPUTS)"

definition bad_entry :: "string \<Rightarrow> bool" where
  "bad_entry path \<longleftrightarrow>
     path = [] \<or> starts_with ''/'' path
     \<or> (path \<noteq> ''.'' \<and> (\<exists>part\<in>set (split_on (CHR ''/'') path). part \<in> {'''', ''.'', ''..''}))"

definition protected_paths :: "policy \<Rightarrow> string list \<Rightarrow> string list" where
  "protected_paths p test_roots =
     po_input_roots p @ po_full_triggers p @ po_always p @ po_ignored_inputs p @ test_roots @ [''.ptest.toml'']"

definition invalid_policy :: "policy \<Rightarrow> string list \<Rightarrow> bool" where
  "invalid_policy p test_roots \<longleftrightarrow>
     (let protected = protected_paths p test_roots; grouped = grouped_paths p in
      (\<exists>path\<in>set (protected @ grouped @ po_no_tests p @ po_non_input_outputs p). bad_entry path)
      \<or> (\<exists>pre\<in>set (po_no_tests p). \<exists>item\<in>set (protected @ grouped @ po_non_input_outputs p). overlaps pre item)
      \<or> (\<exists>out\<in>set (po_non_input_outputs p). \<exists>item\<in>set (protected @ grouped). overlaps out item))"

text \<open>The proper directory prefixes of a path, shortest first.\<close>

definition dir_prefixes :: "string \<Rightarrow> string list" where
  "dir_prefixes path =
     (let parts = split_on (CHR ''/'') path
      in map (\<lambda>i. join_with ''/'' (take i parts)) [1..<length parts])"

text \<open>
  \<^verbatim>\<open>declarable\<close>: each ignored file collapses to the shortest directory that holds no
  path that is not ignored.
\<close>

definition protected_dirs :: "string list \<Rightarrow> snapshot \<Rightarrow> string set" where
  "protected_dirs ignored sn =
     (let kept = filter (\<lambda>p. p \<notin> set ignored) (sn_files sn)
                 @ concat (map (\<lambda>c. filter (\<lambda>p. p \<noteq> []) (List.map_filter id [pc_old c, pc_new c]))
                             (filter (\<lambda>c. pc_kind c \<noteq> ''ignored'') (sn_changes sn)))
      in \<Union>(set ` dir_prefixes ` set kept))"

definition declared_prefix :: "string set \<Rightarrow> string \<Rightarrow> string" where
  "declared_prefix guarded path =
     (case find (\<lambda>d. d \<notin> guarded) (dir_prefixes path) of None \<Rightarrow> path | Some d \<Rightarrow> d)"

definition declarable :: "string list \<Rightarrow> snapshot \<Rightarrow> string list" where
  "declarable ignored sn = sorted_set (map (declared_prefix (protected_dirs ignored sn)) ignored)"

text \<open>\<^verbatim>\<open>_expand\<close>: every prefix must name at least one inventory test.\<close>

fun expand :: "string list \<Rightarrow> string list \<Rightarrow> string list option" where
  "expand [] inventory = Some []"
| "expand (p # ps) inventory =
     (let matched = filter (\<lambda>path. path_matches path [p]) inventory in
      if matched = [] then None
      else map_option ((@) matched) (expand ps inventory))"

section \<open>Choosing a plan\<close>

definition full_plan :: "mode \<Rightarrow> snapshot \<Rightarrow> string \<Rightarrow> string \<Rightarrow> plan" where
  "full_plan m sn code message =
     \<lparr>pl_mode = m, pl_execution = Run_full, pl_files = [], pl_reasons = [(code, message)],
      pl_input_digest = sn_digest sn, pl_compatibility = sn_compatibility sn, pl_baseline_run_id = None\<rparr>"

text \<open>A refusal to select is the code and the message of the full gate.\<close>

type_synonym refusal = "string \<times> string"

definition change_paths :: "path_change \<Rightarrow> string list" where
  "change_paths c = List.map_filter id [pc_old c, pc_new c]"

fun expand_groups :: "pgroup list \<Rightarrow> string list \<Rightarrow> string list option" where
  "expand_groups [] inventory = Some []"
| "expand_groups (g # gs) inventory =
     (case expand (pg_tests g) inventory of
        None \<Rightarrow> None
      | Some files \<Rightarrow> map_option ((@) files) (expand_groups gs inventory))"

definition involved :: "policy \<Rightarrow> string \<Rightarrow> pgroup list" where
  "involved p path = filter (\<lambda>g. path_matches path (pg_sources g) \<or> path_matches path (pg_tests g)) (po_groups p)"

definition exempt_path :: "policy \<Rightarrow> string list \<Rightarrow> string \<Rightarrow> string \<Rightarrow> bool" where
  "exempt_path p test_roots kind path \<longleftrightarrow>
     path_matches path (po_no_tests p)
     \<or> (kind \<in> {''untracked'', ''ignored''} \<and> path_matches path (non_input_outputs p test_roots))"

text \<open>One path of one change: the tests it selects, or the refusal.\<close>

definition select_path ::
  "policy \<Rightarrow> string list \<Rightarrow> string list \<Rightarrow> string \<Rightarrow> string \<Rightarrow> refusal + string list" where
  "select_path p test_roots inventory kind path =
     (if path_matches path (po_full_triggers p @ [''.ptest.toml''])
      then Inl (''policy-changed'', ''full-trigger input changed'')
      else if exempt_path p test_roots kind path then Inr []
      else if kind = ''ignored'' \<and> \<not> path_matches path (po_ignored_inputs p)
      then Inl (''unknown-input'', ''ignored input is not declared'')
      else if involved p path = [] then Inl (''unknown-input'', ''changed path has no declared group'')
      else if path \<notin> set inventory \<and> (\<exists>g\<in>set (involved p path). path_matches path (pg_tests g))
      then Inl (''incomplete-inventory'', ''changed test is absent from inventory'')
      else (case expand_groups (involved p path) inventory of
              None \<Rightarrow> Inl (''incomplete-inventory'', ''group test prefix is absent from inventory'')
            | Some files \<Rightarrow> Inr (files @ (if path \<in> set inventory then [path] else []))))"

fun select_paths ::
  "policy \<Rightarrow> string list \<Rightarrow> string list \<Rightarrow> string \<Rightarrow> string list \<Rightarrow> refusal + string list" where
  "select_paths p test_roots inventory kind [] = Inr []"
| "select_paths p test_roots inventory kind (path # paths) =
     (case select_path p test_roots inventory kind path of
        Inl r \<Rightarrow> Inl r
      | Inr files \<Rightarrow>
          (case select_paths p test_roots inventory kind paths of
             Inl r \<Rightarrow> Inl r
           | Inr rest \<Rightarrow> Inr (files @ rest)))"

definition CHANGE_KINDS :: "string list" where
  "CHANGE_KINDS = [''added'', ''modified'', ''deleted'', ''renamed'', ''untracked'', ''ignored'']"

definition select_change ::
  "policy \<Rightarrow> string list \<Rightarrow> string list \<Rightarrow> path_change \<Rightarrow> refusal + string list" where
  "select_change p test_roots inventory c =
     (if pc_kind c \<notin> set CHANGE_KINDS then Inl (''unknown-input'', ''unclassified source change'')
      else if pc_kind c \<in> {''deleted'', ''renamed''} \<and> change_paths c \<noteq> [] \<and> hd (change_paths c) \<in> set inventory
      then Inl (''incomplete-inventory'', ''inventory test was deleted or renamed'')
      else select_paths p test_roots inventory (pc_kind c) (change_paths c))"

fun select_changes ::
  "policy \<Rightarrow> string list \<Rightarrow> string list \<Rightarrow> path_change list \<Rightarrow> refusal + string list" where
  "select_changes p test_roots inventory [] = Inr []"
| "select_changes p test_roots inventory (c # cs) =
     (case select_change p test_roots inventory c of
        Inl r \<Rightarrow> Inl r
      | Inr files \<Rightarrow>
          (case select_changes p test_roots inventory cs of
             Inl r \<Rightarrow> Inl r
           | Inr rest \<Rightarrow> Inr (files @ rest)))"

fun obligation_files :: "string list \<Rightarrow> obligation list \<Rightarrow> refusal + string list" where
  "obligation_files inventory [] = Inr []"
| "obligation_files inventory (ob # obs) =
     (case ob_file ob of
        None \<Rightarrow> Inl (''prior-failure'', ''failed test is absent from inventory'')
      | Some f \<Rightarrow>
          (if f \<notin> set inventory then Inl (''prior-failure'', ''failed test is absent from inventory'')
           else (case obligation_files inventory obs of Inl r \<Rightarrow> Inl r | Inr fs \<Rightarrow> Inr (f # fs))))"

text \<open>The evidence checks, in the order of the source; the baseline when they all pass.\<close>

definition usable_baseline ::
  "(policy \<Rightarrow> string) \<Rightarrow> policy \<Rightarrow> string list \<Rightarrow> snapshot \<Rightarrow> history_view \<Rightarrow> refusal + baseline" where
  "usable_baseline digest p test_roots sn h =
     (if \<not> po_enabled p then Inl (''selection-disabled'', ''selection is not enabled'')
      else if \<not> po_closed_inputs p then Inl (''selection-not-closed'', ''selection is not explicitly closed'')
      else if invalid_policy p test_roots
      then Inl (''policy-invalid'', ''exclusion overlaps an input contract or contains an unsafe prefix'')
      else if hv_quarantine h \<noteq> None
      then Inl (''selection-shadow-quarantine'', ''selection is quarantined pending a corrected shadow comparison'')
      else if sn_digest sn = None \<or> sn_compatibility sn = None \<or> sn_limited sn \<or> hv_limitations h \<noteq> []
      then Inl (''unknown-input'', ''static input evidence is incomplete'')
      else (case hv_baseline h of
              None \<Rightarrow> Inl (''no-baseline'', ''no compatible baseline exists'')
            | Some b \<Rightarrow>
                (if hv_disabled h then Inl (''selection-disabled'', ''history disabled selection'')
                 else if sn_head sn = None \<or> sn_baseline_head sn \<noteq> Some (bl_head b)
                 then Inl (''incompatible-baseline'', ''snapshot does not cover this baseline's committed delta'')
                 else if Some (bl_compatibility b) \<noteq> sn_compatibility sn \<or> bl_policy_digest b \<noteq> digest p
                 then Inl (''incompatible-baseline'', ''baseline compatibility or policy changed'')
                 else if Some (bl_input_digest b) \<noteq> sn_digest sn \<and> sn_changes sn = []
                 then Inl (''unknown-input'', ''fingerprint changed without a classifiable path'')
                 else if \<not> bl_complete b
                 then Inl (''incomplete-inventory'', ''baseline inventory is incomplete'')
                 else if \<exists>ob\<in>set (hv_obligations h). ob_file ob = None \<or> ob_test_id ob = None
                 then Inl (''full-gate-obligation'', ''whole-gate obligation remains'')
                 else Inr b)))"

definition plan_of :: "mode \<Rightarrow> snapshot \<Rightarrow> baseline \<Rightarrow> execution \<Rightarrow> string list \<Rightarrow> (string \<times> string) list \<Rightarrow> plan" where
  "plan_of m sn b execution paths reasons =
     \<lparr>pl_mode = m, pl_execution = execution, pl_files = paths, pl_reasons = reasons,
      pl_input_digest = sn_digest sn, pl_compatibility = sn_compatibility sn,
      pl_baseline_run_id = Some (bl_run_id b)\<rparr>"

definition select_from ::
  "mode \<Rightarrow> policy \<Rightarrow> string list \<Rightarrow> snapshot \<Rightarrow> history_view \<Rightarrow> baseline \<Rightarrow> refusal + plan" where
  "select_from m p test_roots sn h b =
     (let inventory = bl_files b in
      case obligation_files inventory (hv_obligations h) of
        Inl r \<Rightarrow> Inl r
      | Inr failed \<Rightarrow>
          (case select_changes p test_roots inventory (sn_changes sn) of
             Inl r \<Rightarrow> Inl r
           | Inr changed \<Rightarrow>
               (if failed @ changed = []
                then Inr (plan_of m sn b Run_none [] [(''no-tests-needed'', ''no relevant inputs changed'')])
                else (case expand (po_always p) inventory of
                        None \<Rightarrow> Inl (''incomplete-inventory'', ''always test prefix is absent from inventory'')
                      | Some always \<Rightarrow>
                          (let selected = sorted_set (failed @ changed @ always) in
                           if \<not> set selected \<subseteq> set inventory
                           then Inl (''incomplete-inventory'', ''selected test is absent from inventory'')
                           else if po_full_ratio p
                                   \<le> of_nat (length selected) / of_nat (max 1 (card (set inventory)))
                           then Inl (''full-gate-obligation'', ''selection reaches full ratio'')
                           else Inr (plan_of m sn b Run_selected selected []))))))"

definition choose_plan ::
  "(policy \<Rightarrow> string) \<Rightarrow> policy \<Rightarrow> string list \<Rightarrow> snapshot \<Rightarrow> history_view \<Rightarrow> mode \<Rightarrow> plan" where
  "choose_plan digest p test_roots sn h m =
     (if m = Full_mode then full_plan m sn ''full-gate-obligation'' ''explicit full request''
      else if m = Scoped_mode
      then \<lparr>pl_mode = m, pl_execution = Run_scoped, pl_files = [], pl_reasons = [], pl_input_digest = sn_digest sn,
            pl_compatibility = sn_compatibility sn, pl_baseline_run_id = None\<rparr>
      else (case usable_baseline digest p test_roots sn h of
              Inl (code, message) \<Rightarrow> full_plan m sn code message
            | Inr b \<Rightarrow>
                (case select_from m p test_roots sn h b of
                   Inl (code, message) \<Rightarrow> full_plan m sn code message
                 | Inr chosen \<Rightarrow> chosen)))"

text \<open>The diagnostic pair; the support is its selection flag, its profile and whether it is limited.\<close>

definition choose_shadow_plans ::
  "(policy \<Rightarrow> string) \<Rightarrow> policy \<Rightarrow> string list \<Rightarrow> snapshot \<Rightarrow> history_view \<Rightarrow> mode
     \<Rightarrow> bool \<Rightarrow> string option \<Rightarrow> bool \<Rightarrow> plan \<times> plan \<times> string option" where
  "choose_shadow_plans digest p test_roots sn h m selection profile limited =
     (let unrelated = filter (\<lambda>c. c \<noteq> ''selection-shadow-quarantine'') (hv_limitations h);
          diagnostic = (if hv_quarantine h \<noteq> None \<and> unrelated = []
                        then h\<lparr>hv_quarantine := None, hv_limitations := [], hv_disabled := False\<rparr> else h);
          selected = choose_plan digest p test_roots sn diagnostic m;
          selected = (if \<not> selection \<or> profile = None \<or> limited
                      then full_plan m sn ''unsupported-capability''
                             ''the runner profile is not qualified for selected/full comparison''
                      else selected)
      in (selected,
          full_plan m sn ''full-gate-obligation'' ''shadow comparison requires the configured full gate'',
          hv_quarantine h))"

section \<open>A selected plan is a union of proven groups\<close>

lemma expand_ok:
  assumes "expand ps inventory = Some files"
  shows "set files = {path \<in> set inventory. path_matches path ps}"
proof -
  have "set files = {path \<in> set inventory. \<exists>p\<in>set ps. path_matches path [p]}"
    using assms by (induction ps arbitrary: files) (auto simp: Let_def split: if_splits)
  then show ?thesis by (auto simp: path_matches_def)
qed

lemma expand_groups_ok:
  "expand_groups gs inventory = Some files \<Longrightarrow>
   set files = {path \<in> set inventory. \<exists>g\<in>set gs. path_matches path (pg_tests g)}"
  by (induction gs arbitrary: files) (auto simp: expand_ok split: option.splits)

text \<open>The tests one changed path must bring in.\<close>

definition tests_for :: "policy \<Rightarrow> string list \<Rightarrow> string \<Rightarrow> string set" where
  "tests_for p inventory path =
     {t \<in> set inventory. t = path \<or> (\<exists>g\<in>set (involved p path). path_matches t (pg_tests g))}"

lemma select_path_ok:
  assumes "select_path p roots inventory kind path = Inr files"
  shows "\<not> path_matches path (po_full_triggers p @ [''.ptest.toml''])"
    "if exempt_path p roots kind path then files = [] else involved p path \<noteq> [] \<and> set files = tests_for p inventory path"
  using assms
  by (auto simp: select_path_def tests_for_def dest!: expand_groups_ok split: if_splits option.splits)

lemma select_paths_ok:
  assumes "select_paths p roots inventory kind paths = Inr files"
  shows "set files = (\<Union>path\<in>set paths. if exempt_path p roots kind path then {} else tests_for p inventory path)
    \<and> (\<forall>path\<in>set paths. \<not> path_matches path (po_full_triggers p @ [''.ptest.toml''])
         \<and> (exempt_path p roots kind path \<or> involved p path \<noteq> []))"
  using assms
proof (induction paths arbitrary: files)
  case (Cons path paths)
  obtain f where f: "select_path p roots inventory kind path = Inr f"
    and more: "\<exists>m. select_paths p roots inventory kind paths = Inr m \<and> files = f @ m"
    using Cons.prems by (auto split: sum.splits)
  then obtain m where m: "select_paths p roots inventory kind paths = Inr m" "files = f @ m" by blast
  show ?case using select_path_ok[OF f] Cons.IH[OF m(1)] m(2) by (auto split: if_splits)
qed simp

definition needed_tests :: "policy \<Rightarrow> string list \<Rightarrow> string list \<Rightarrow> path_change list \<Rightarrow> string set" where
  "needed_tests p roots inventory cs =
     (\<Union>c\<in>set cs. \<Union>path\<in>set (change_paths c).
        if exempt_path p roots (pc_kind c) path then {} else tests_for p inventory path)"

definition classified :: "policy \<Rightarrow> string list \<Rightarrow> path_change \<Rightarrow> bool" where
  "classified p roots c \<longleftrightarrow>
     pc_kind c \<in> set CHANGE_KINDS
     \<and> (\<forall>path\<in>set (change_paths c). \<not> path_matches path (po_full_triggers p @ [''.ptest.toml''])
          \<and> (exempt_path p roots (pc_kind c) path \<or> involved p path \<noteq> []))"

lemma select_changes_ok:
  assumes "select_changes p roots inventory cs = Inr files"
  shows "set files = needed_tests p roots inventory cs \<and> (\<forall>c\<in>set cs. classified p roots c)"
  using assms
proof (induction cs arbitrary: files)
  case (Cons c cs)
  obtain f m where f: "select_change p roots inventory c = Inr f"
    and m: "select_changes p roots inventory cs = Inr m" "files = f @ m"
    using Cons.prems by (auto split: sum.splits)
  have "pc_kind c \<in> set CHANGE_KINDS" "select_paths p roots inventory (pc_kind c) (change_paths c) = Inr f"
    using f by (auto simp: select_change_def split: if_splits)
  then show ?case
    using select_paths_ok[of p roots inventory "pc_kind c" "change_paths c" f] Cons.IH[OF m(1)] m(2)
    by (simp add: needed_tests_def classified_def)
qed (simp add: needed_tests_def)

lemma obligation_files_ok:
  "obligation_files inventory obs = Inr fs \<Longrightarrow>
   set fs \<subseteq> set inventory \<and> (\<forall>ob\<in>set obs. \<exists>f. ob_file ob = Some f \<and> f \<in> set fs) \<and> (fs = [] \<longleftrightarrow> obs = [])"
  by (induction obs arbitrary: fs) (auto split: option.splits if_splits sum.splits)

lemma needed_in_inventory: "needed_tests p roots inventory cs \<subseteq> set inventory"
  by (auto simp: needed_tests_def tests_for_def split: if_splits)

text \<open>What the evidence checks established when they let a selection through.\<close>

definition proven_baseline ::
  "(policy \<Rightarrow> string) \<Rightarrow> policy \<Rightarrow> string list \<Rightarrow> snapshot \<Rightarrow> history_view \<Rightarrow> baseline \<Rightarrow> bool" where
  "proven_baseline digest p roots sn h b \<longleftrightarrow>
     po_enabled p \<and> po_closed_inputs p \<and> \<not> invalid_policy p roots \<and> hv_quarantine h = None
     \<and> \<not> sn_limited sn \<and> hv_limitations h = [] \<and> \<not> hv_disabled h \<and> hv_baseline h = Some b
     \<and> sn_baseline_head sn = Some (bl_head b) \<and> sn_compatibility sn = Some (bl_compatibility b)
     \<and> bl_policy_digest b = digest p \<and> (sn_digest sn = Some (bl_input_digest b) \<or> sn_changes sn \<noteq> [])
     \<and> bl_complete b \<and> (\<forall>ob\<in>set (hv_obligations h). ob_file ob \<noteq> None \<and> ob_test_id ob \<noteq> None)"

lemma usable_baseline_proven:
  "usable_baseline digest p roots sn h = Inr b \<Longrightarrow> proven_baseline digest p roots sn h b"
  by (auto simp: usable_baseline_def proven_baseline_def split: if_splits option.splits)

lemma full_plan_execution [simp]: "pl_execution (full_plan m sn code message) = Run_full"
  by (simp add: full_plan_def)

lemma choose_plan_cases:
  assumes "pl_execution (choose_plan digest p roots sn h m) \<in> {Run_selected, Run_none}"
  obtains b where "proven_baseline digest p roots sn h b"
    "select_from m p roots sn h b = Inr (choose_plan digest p roots sn h m)"
proof -
  obtain b where b: "usable_baseline digest p roots sn h = Inr b"
    using assms by (cases "usable_baseline digest p roots sn h") (auto simp: choose_plan_def split: if_splits)
  obtain pl where pl: "select_from m p roots sn h b = Inr pl"
    using assms b by (cases "select_from m p roots sn h b") (auto simp: choose_plan_def split: if_splits)
  have "choose_plan digest p roots sn h m = pl"
    using assms b pl by (auto simp: choose_plan_def split: if_splits)
  then show ?thesis using that[OF usable_baseline_proven[OF b]] pl by simp
qed

lemma select_from_selected:
  assumes "select_from m p roots sn h b = Inr pl" and "pl_execution pl = Run_selected"
  shows "sorted (pl_files pl) \<and> distinct (pl_files pl) \<and> set (pl_files pl) \<subseteq> set (bl_files b)
    \<and> (\<forall>ob\<in>set (hv_obligations h). \<exists>f. ob_file ob = Some f \<and> f \<in> set (pl_files pl))
    \<and> needed_tests p roots (bl_files b) (sn_changes sn) \<subseteq> set (pl_files pl)
    \<and> {t \<in> set (bl_files b). path_matches t (po_always p)} \<subseteq> set (pl_files pl)
    \<and> (\<forall>c\<in>set (sn_changes sn). classified p roots c)
    \<and> of_nat (length (pl_files pl)) / of_nat (max 1 (card (set (bl_files b)))) < po_full_ratio p"
proof -
  obtain failed changed always where o: "obligation_files (bl_files b) (hv_obligations h) = Inr failed"
    and c: "select_changes p roots (bl_files b) (sn_changes sn) = Inr changed"
    and e: "expand (po_always p) (bl_files b) = Some always"
    and pl: "pl = plan_of m sn b Run_selected (sorted_set (failed @ changed @ always)) []"
    and sub: "set (sorted_set (failed @ changed @ always)) \<subseteq> set (bl_files b)"
    and ratio: "\<not> po_full_ratio p \<le> of_nat (length (sorted_set (failed @ changed @ always))) / of_nat (max 1 (card (set (bl_files b))))"
    using assms by (auto simp: select_from_def plan_of_def Let_def simp del: set_sorted_set split: sum.splits option.splits if_splits)
  have "pl_files pl = sorted_set (failed @ changed @ always)" by (simp add: pl plan_of_def)
  then show ?thesis
    using obligation_files_ok[OF o] select_changes_ok[OF c] expand_ok[OF e] sub ratio by auto
qed

lemma select_from_none:
  assumes "select_from m p roots sn h b = Inr pl" and "pl_execution pl = Run_none"
  shows "hv_obligations h = [] \<and> needed_tests p roots (bl_files b) (sn_changes sn) = {}
    \<and> (\<forall>c\<in>set (sn_changes sn). classified p roots c)"
proof -
  obtain failed changed where o: "obligation_files (bl_files b) (hv_obligations h) = Inr failed"
    and c: "select_changes p roots (bl_files b) (sn_changes sn) = Inr changed" and "failed @ changed = []"
    using assms by (auto simp: select_from_def plan_of_def Let_def split: sum.splits option.splits if_splits)
  then show ?thesis using obligation_files_ok[OF o] select_changes_ok[OF c] by simp
qed

section \<open>Built-in outputs never break a valid policy\<close>

lemma overlaps_sym: "overlaps a b = overlaps b a"
  by (auto simp: overlaps_def)

lemma builtin_overlap: "b \<in> set BUILTIN_OUTPUTS \<Longrightarrow> \<not> overlaps b ''.ptest.toml'' \<and> \<not> bad_entry b"
  by (auto simp: BUILTIN_OUTPUTS_def overlaps_def path_matches_def starts_with_def bad_entry_def)

lemma non_input_outputs_new:
  assumes "out \<in> set (non_input_outputs p roots)" and "out \<notin> set (po_non_input_outputs p)"
  shows "out \<in> set BUILTIN_OUTPUTS"
    and "item \<in> set (protected_paths p roots @ grouped_paths p @ po_no_tests p) \<Longrightarrow> \<not> overlaps out item"
proof -
  show b: "out \<in> set BUILTIN_OUTPUTS" using assms by (auto simp: non_input_outputs_def Let_def)
  assume "item \<in> set (protected_paths p roots @ grouped_paths p @ po_no_tests p)"
  then show "\<not> overlaps out item"
    using assms builtin_overlap[OF b] by (auto simp: non_input_outputs_def protected_paths_def Let_def)
qed

lemma non_input_outputs_valid:
  assumes "\<not> invalid_policy p roots"
  shows "\<not> invalid_policy (p\<lparr>po_non_input_outputs := non_input_outputs p roots\<rparr>) roots"
proof -
  let ?p = "p\<lparr>po_non_input_outputs := non_input_outputs p roots\<rparr>"
  have same: "protected_paths ?p roots = protected_paths p roots" "grouped_paths ?p = grouped_paths p"
    by (simp_all add: protected_paths_def grouped_paths_def)
  have bad: "\<not> bad_entry path" if "path \<in> set (protected_paths p roots @ grouped_paths p @ po_no_tests p @ non_input_outputs p roots)" for path
    using that assms non_input_outputs_new(1)[of path p roots] builtin_overlap
    unfolding invalid_policy_def Let_def by (metis UnCI UnE set_append)
  have no_tests: "\<not> overlaps pre item" if "pre \<in> set (po_no_tests p)"
    "item \<in> set (protected_paths p roots @ grouped_paths p @ non_input_outputs p roots)" for pre item
    using that assms non_input_outputs_new(2)[of item p roots pre] overlaps_sym
    unfolding invalid_policy_def Let_def by (metis UnCI UnE set_append)
  have outs: "\<not> overlaps out item" if "out \<in> set (non_input_outputs p roots)"
    "item \<in> set (protected_paths p roots @ grouped_paths p)" for out item
    using that assms non_input_outputs_new(2)[of out p roots item]
    unfolding invalid_policy_def Let_def by (metis UnCI UnE set_append)
  show ?thesis
    unfolding invalid_policy_def same Let_def
    using bad no_tests outs by (simp add: ball_Un)
qed

section \<open>Declared prefixes never hide a file\<close>

lemma prefix_of_path:
  assumes "d \<in> set (dir_prefixes path)"
  shows "\<exists>rest. path = d @ ''/'' @ rest"
proof -
  let ?parts = "split_on (CHR ''/'') path"
  obtain i where i: "1 \<le> i" "i < length ?parts" "d = join_with ''/'' (take i ?parts)"
    using assms by (auto simp: dir_prefixes_def Let_def)
  have cut: "join_with ''/'' (xs @ ys) = join_with ''/'' xs @ ''/'' @ join_with ''/'' ys" if "xs \<noteq> []" "ys \<noteq> []" for xs ys
    using that by (induction xs rule: induct_list012) (auto simp: join_with_cons)
  have "path = join_with ''/'' (take i ?parts @ drop i ?parts)" by simp
  also have "\<dots> = d @ ''/'' @ join_with ''/'' (drop i ?parts)"
    using i by (subst cut) auto
  finally show ?thesis by blast
qed

lemma declared_prefix_cases:
  obtains "declared_prefix guarded path = path" "\<forall>d\<in>set (dir_prefixes path). d \<in> guarded"
  | "declared_prefix guarded path \<in> set (dir_prefixes path)" "declared_prefix guarded path \<notin> guarded"
  by (cases "find (\<lambda>d. d \<notin> guarded) (dir_prefixes path)")
     (auto simp: declared_prefix_def find_None_iff dest: find_Some_in)

lemma dir_prefixes_complete:
  assumes "path = d @ ''/'' @ rest"
  shows "d \<in> set (dir_prefixes path)"
proof -
  have app: "split_on (CHR ''/'') (xs @ CHR ''/'' # ys) = split_on (CHR ''/'') xs @ split_on (CHR ''/'') ys" for xs ys
    by (induction xs) (auto split: list.splits)
  let ?i = "length (split_on (CHR ''/'') d)"
  have parts: "split_on (CHR ''/'') path = split_on (CHR ''/'') d @ split_on (CHR ''/'') rest"
    using app[of d rest] assms by simp
  have "d = join_with ''/'' (take ?i (split_on (CHR ''/'') path))" by (simp add: parts)
  moreover have "1 \<le> ?i" "?i < length (split_on (CHR ''/'') path)"
    by (auto simp: parts Suc_le_eq)
  ultimately show ?thesis unfolding dir_prefixes_def Let_def by force
qed

text \<open>
  Every ignored file stands below its declared entry, and no entry is a directory above a
  path that is not ignored.
\<close>

lemma declarable_cover:
  assumes "path \<in> set ignored"
  shows "\<exists>d\<in>set (declarable ignored sn). path_matches path [d]"
proof -
  let ?d = "declared_prefix (protected_dirs ignored sn) path"
  have "?d \<in> set (declarable ignored sn)" using assms by (simp add: declarable_def)
  moreover have "path_matches path [?d]"
  proof (cases rule: declared_prefix_cases[of "protected_dirs ignored sn" path])
    case 1
    then show ?thesis by (simp add: path_matches_def)
  next
    case 2
    from prefix_of_path[OF 2(1)] obtain rest where "path = ?d @ ''/'' @ rest" by blast
    then have "starts_with (?d @ ''/'') path" by (metis append_assoc starts_with_iff)
    then show ?thesis by (simp add: path_matches_def)
  qed
  ultimately show ?thesis by blast
qed

lemma declarable_safe:
  assumes "d \<in> set (declarable ignored sn)"
    and "kept \<in> set (sn_files sn) \<and> kept \<notin> set ignored
      \<or> (\<exists>c\<in>set (sn_changes sn). pc_kind c \<noteq> ''ignored'' \<and> (pc_old c = Some kept \<or> pc_new c = Some kept) \<and> kept \<noteq> [])"
    and "d \<notin> set ignored"
  shows "\<not> starts_with (d @ ''/'') kept"
proof
  assume "starts_with (d @ ''/'') kept"
  then obtain rest where "kept = d @ ''/'' @ rest" by (auto simp: starts_with_iff)
  then have up: "d \<in> set (dir_prefixes kept)" by (rule dir_prefixes_complete)
  define paths where "paths = filter (\<lambda>p. p \<notin> set ignored) (sn_files sn)
                 @ concat (map (\<lambda>c. filter (\<lambda>p. p \<noteq> []) (List.map_filter id [pc_old c, pc_new c]))
                             (filter (\<lambda>c. pc_kind c \<noteq> ''ignored'') (sn_changes sn)))"
  have changed: "kept \<in> set (filter (\<lambda>p. p \<noteq> []) (List.map_filter id [pc_old c, pc_new c]))"
    if "pc_old c = Some kept \<or> pc_new c = Some kept" "kept \<noteq> []" for c
    using that by (auto simp: List.map_filter_def)
  have "kept \<in> set paths"
    using assms(2) changed unfolding paths_def by fastforce
  then have in_protected: "set (dir_prefixes kept) \<subseteq> protected_dirs ignored sn"
    unfolding protected_dirs_def Let_def paths_def[symmetric] by blast
  obtain path where path: "path \<in> set ignored" "d = declared_prefix (protected_dirs ignored sn) path"
    using assms(1) by (auto simp: declarable_def)
  show False
  proof (cases rule: declared_prefix_cases[of "protected_dirs ignored sn" path])
    case 1
    then show ?thesis using path assms(3) by simp
  next
    case 2
    then show ?thesis using path(2) up in_protected by blast
  qed
qed

section \<open>The properties of the planner\<close>

text \<open>A policy with one group, and a baseline of three test files.\<close>

definition example_policy :: policy where
  "example_policy =
     \<lparr>po_enabled = True, po_closed_inputs = True, po_input_roots = [''src''], po_ignored_inputs = [],
      po_full_triggers = [''uv.lock''], po_always = [''tests/smoke''], po_no_tests = [''docs''],
      po_non_input_outputs = [], po_full_ratio = 1,
      po_groups = [\<lparr>pg_name = ''core'', pg_sources = [''src/core''], pg_tests = [''tests/core'']\<rparr>]\<rparr>"

definition example_baseline :: baseline where
  "example_baseline =
     \<lparr>bl_run_id = ''run'', bl_head = ''head'', bl_input_digest = ''old'', bl_compatibility = ''py'',
      bl_complete = True, bl_files = [''tests/core/a.py'', ''tests/smoke/b.py'', ''tests/web/c.py''],
      bl_policy_digest = ''digest''\<rparr>"

definition example_snapshot :: "path_change list \<Rightarrow> snapshot" where
  "example_snapshot cs =
     \<lparr>sn_digest = Some ''new'', sn_compatibility = Some ''py'', sn_head = Some ''head'', sn_changes = cs,
      sn_limited = False, sn_files = [], sn_baseline_head = Some ''head''\<rparr>"

definition example_history :: history_view where
  "example_history =
     \<lparr>hv_baseline = Some example_baseline, hv_obligations = [], hv_disabled = False, hv_limitations = [],
      hv_quarantine = None\<rparr>"

definition example_change :: "string \<Rightarrow> path_change" where
  "example_change path = \<lparr>pc_old = Some path, pc_new = Some path, pc_kind = ''modified''\<rparr>"

text \<open>
  C21. A selected plan is sound: it is chosen only from a proven baseline, lists inventory
  files in order and below the full ratio, contains every file with an open obligation, every
  test the changed paths need and every always-run test, and every change was classified.
\<close>

theorem selected_plan_sound:
  assumes "pl_execution (choose_plan digest p roots sn h m) = Run_selected"
  shows "\<exists>b. proven_baseline digest p roots sn h b
    \<and> (let files = pl_files (choose_plan digest p roots sn h m) in
       sorted files \<and> distinct files \<and> set files \<subseteq> set (bl_files b)
       \<and> (\<forall>ob\<in>set (hv_obligations h). \<exists>f. ob_file ob = Some f \<and> f \<in> set files)
       \<and> needed_tests p roots (bl_files b) (sn_changes sn) \<subseteq> set files
       \<and> {t \<in> set (bl_files b). path_matches t (po_always p)} \<subseteq> set files
       \<and> (\<forall>c\<in>set (sn_changes sn). classified p roots c)
       \<and> of_nat (length files) / of_nat (max 1 (card (set (bl_files b)))) < po_full_ratio p)"
proof -
  obtain b where b: "proven_baseline digest p roots sn h b"
    "select_from m p roots sn h b = Inr (choose_plan digest p roots sn h m)"
    by (rule choose_plan_cases[of digest p roots sn h m]) (simp add: assms)
  show ?thesis unfolding Let_def using b(1) select_from_selected[OF b(2) assms] by blast
qed

lemma selected_plan_sound_witness:
  "\<exists>b. proven_baseline (\<lambda>_. ''digest'') example_policy [''tests''] (example_snapshot [example_change ''src/core/x.py'']) example_history b
    \<and> pl_files (choose_plan (\<lambda>_. ''digest'') example_policy [''tests''] (example_snapshot [example_change ''src/core/x.py''])
         example_history Automatic) = [''tests/core/a.py'', ''tests/smoke/b.py'']"
proof -
  let ?pl = "choose_plan (\<lambda>_. ''digest'') example_policy [''tests''] (example_snapshot [example_change ''src/core/x.py'']) example_history Automatic"
  have "pl_execution ?pl = Run_selected" "pl_files ?pl = [''tests/core/a.py'', ''tests/smoke/b.py'']" by code_simp+
  then show ?thesis using selected_plan_sound by blast
qed

text \<open>
  No tests are planned only if none are needed: the baseline is proven, no obligation
  is open, every change was classified and no inventory test belongs to a changed path.
\<close>

theorem empty_plan_sound:
  assumes "pl_execution (choose_plan digest p roots sn h m) = Run_none"
  shows "\<exists>b. proven_baseline digest p roots sn h b \<and> hv_obligations h = []
    \<and> needed_tests p roots (bl_files b) (sn_changes sn) = {} \<and> (\<forall>c\<in>set (sn_changes sn). classified p roots c)"
proof -
  obtain b where b: "proven_baseline digest p roots sn h b"
    "select_from m p roots sn h b = Inr (choose_plan digest p roots sn h m)"
    by (rule choose_plan_cases[of digest p roots sn h m]) (simp add: assms)
  show ?thesis using b(1) select_from_none[OF b(2) assms] by blast
qed

lemma empty_plan_sound_witness:
  "\<exists>b. needed_tests example_policy [''tests''] (bl_files b) [example_change ''docs/guide.md''] = {}
    \<and> hv_baseline example_history = Some b"
proof -
  have "pl_execution (choose_plan (\<lambda>_. ''digest'') example_policy [''tests''] (example_snapshot [example_change ''docs/guide.md''])
      example_history Automatic) = Run_none" by code_simp
  from empty_plan_sound[OF this] show ?thesis by (auto simp: proven_baseline_def example_snapshot_def)
qed

text \<open>
  The built-in outputs never make a valid policy invalid: declaring them explicitly
  gives a policy that is still valid.
\<close>

theorem builtin_outputs_keep_policy_valid:
  assumes "\<not> invalid_policy p roots"
  shows "\<not> invalid_policy (p\<lparr>po_non_input_outputs := non_input_outputs p roots\<rparr>) roots"
  using non_input_outputs_valid[OF assms] .

text \<open>
  The suggested declarations are safe and complete: every ignored file stands below its
  entry, and an entry that is a directory is above no file that is tracked, changed or
  deleted.
\<close>

theorem declarations_safe:
  assumes "path \<in> set ignored"
  shows "\<exists>d\<in>set (declarable ignored sn). path_matches path [d]
    \<and> (d \<in> set ignored
       \<or> (\<forall>kept. kept \<in> set (sn_files sn) \<and> kept \<notin> set ignored
            \<or> (\<exists>c\<in>set (sn_changes sn). pc_kind c \<noteq> ''ignored'' \<and> (pc_old c = Some kept \<or> pc_new c = Some kept) \<and> kept \<noteq> [])
            \<longrightarrow> \<not> starts_with (d @ ''/'') kept))"
proof -
  obtain d where d: "d \<in> set (declarable ignored sn)" "path_matches path [d]" using declarable_cover[OF assms] by blast
  show ?thesis
  proof (rule bexI[OF _ d(1)], intro conjI d(2))
    show "d \<in> set ignored
       \<or> (\<forall>kept. kept \<in> set (sn_files sn) \<and> kept \<notin> set ignored
            \<or> (\<exists>c\<in>set (sn_changes sn). pc_kind c \<noteq> ''ignored'' \<and> (pc_old c = Some kept \<or> pc_new c = Some kept) \<and> kept \<noteq> [])
            \<longrightarrow> \<not> starts_with (d @ ''/'') kept)"
      using declarable_safe[OF d(1), of _] by (cases "d \<in> set ignored") simp_all
  qed
qed

end
