(* ===== verification/Idle_Window.thy ===== *)
theory Idle_Window
  imports Prelude
begin

text \<open>
  Post-test stall detection (\<^verbatim>\<open>src/ptest/stall.py\<close>): a sliding window over
  cumulative CPU samples of the members of a process group. The lemmas show that an idle
  verdict is only reached over a window in which the group made less progress than the
  threshold, that progress and unreadable samples reset it, and that a group that makes no
  progress is recognised once the window has passed.
\<close>

type_synonym member_key = "int \<times> rat"

record idle_window =
  iw_window :: rat
  iw_baseline :: "(member_key \<times> rat) list"
  iw_armed :: bool
  iw_idle :: bool
  iw_total :: rat
  iw_history :: "(rat \<times> rat) list"

definition idle_threshold_s :: "rat \<Rightarrow> rat" where
  "idle_threshold_s window_s = max (1 / 2) ((2 / 100) * window_s)"

definition new_idle_window :: "rat \<Rightarrow> idle_window" where
  "new_idle_window window_s =
     \<lparr>iw_window = window_s, iw_baseline = [], iw_armed = False, iw_idle = False, iw_total = 0, iw_history = []\<rparr>"

text \<open>What one member adds: its positive delta, or its whole value when it is new.\<close>

definition member_gain :: "(member_key \<times> rat) list \<Rightarrow> member_key \<times> rat \<Rightarrow> rat" where
  "member_gain base item =
     (case map_of base (fst item) of
        None \<Rightarrow> snd item
      | Some previous \<Rightarrow> (if previous < snd item then snd item - previous else 0))"

definition gained :: "(member_key \<times> rat) list \<Rightarrow> (member_key \<times> rat) list \<Rightarrow> rat" where
  "gained base sample = sum_list (map (member_gain base) sample)"

fun trim_history :: "rat \<Rightarrow> (rat \<times> rat) list \<Rightarrow> (rat \<times> rat) list" where
  "trim_history cutoff (a # b # rest) =
     (if fst b < cutoff then trim_history cutoff (b # rest) else a # b # rest)"
| "trim_history cutoff h = h"

definition observe :: "idle_window \<Rightarrow> rat \<Rightarrow> (member_key \<times> rat) list option \<Rightarrow> bool \<times> idle_window" where
  "observe w clock sample =
     (case sample of
        None \<Rightarrow> (False, w\<lparr>iw_baseline := [], iw_armed := False, iw_idle := False, iw_total := 0, iw_history := []\<rparr>)
      | Some items \<Rightarrow>
          (if \<not> iw_armed w
           then (False, w\<lparr>iw_armed := True, iw_baseline := items, iw_total := 0, iw_history := [(clock, 0)]\<rparr>)
           else (let gain = gained (iw_baseline w) items;
                     threshold = idle_threshold_s (iw_window w);
                     total = iw_total w + gain;
                     history = trim_history (clock - iw_window w) (iw_history w @ [(clock, total)]);
                     w1 = w\<lparr>iw_baseline := items, iw_total := total, iw_history := history\<rparr> in
                 if threshold \<le> gain then (False, w1\<lparr>iw_idle := False\<rparr>)
                 else if iw_idle w then (True, w1)
                 else (let idle = iw_window w \<le> clock - fst (hd history) \<and> total - snd (hd history) < threshold
                       in (idle, w1\<lparr>iw_idle := idle\<rparr>)))))"

fun feed :: "idle_window \<Rightarrow> (rat \<times> (member_key \<times> rat) list option) list \<Rightarrow> bool \<times> idle_window" where
  "feed w [] = (iw_idle w, w)"
| "feed w ((clock, sample) # rest) =
     (let (idle, w') = observe w clock sample in if rest = [] then (idle, w') else feed w' rest)"

section \<open>Safety of the verdict\<close>



lemma trim_suffix: "h \<noteq> [] \<Longrightarrow> trim_history cutoff h \<noteq> [] \<and> (\<exists>pre. h = pre @ trim_history cutoff h)"
  by (induction cutoff h rule: trim_history.induct) (auto, metis append_Cons)



lemma trim_head:
  "h \<noteq> [] \<Longrightarrow> trim_history cutoff h = h \<or> fst (hd (trim_history cutoff h)) < cutoff"
  by (induction cutoff h rule: trim_history.induct) auto


lemma gained_self: "distinct (map fst items) \<Longrightarrow> gained items items = 0"
proof -
  assume d: "distinct (map fst items)"
  have "member_gain items x = 0" if "x \<in> set items" for x
  proof -
    have "(fst x, snd x) \<in> set items" using that by simp
    then have "map_of items (fst x) = Some (snd x)" using d by (rule map_of_is_SomeI[rotated])
    then show ?thesis by (simp add: member_gain_def)
  qed
  then have "sum_list (map (member_gain items) items) = sum_list (map (\<lambda>_. 0) items)"
    by (intro arg_cong[where f = sum_list] map_cong) auto
  then show "gained items items = 0" by (simp add: gained_def)
qed





section \<open>A silent group is recognised\<close>

text \<open>The same members with the same values.\<close>

definition silent :: "(member_key \<times> rat) list \<Rightarrow> (rat \<times> (member_key \<times> rat) list option) list \<Rightarrow> bool" where
  "silent items trace \<longleftrightarrow> distinct (map fst items) \<and> (\<forall>x\<in>set trace. snd x = Some items)"

text \<open>
  The state while the group is silent since \<open>t0\<close>: all totals are equal, and the head of the
  history is either the first entry or older than the window seen from the last reading.
\<close>

definition silent_state :: "idle_window \<Rightarrow> (member_key \<times> rat) list \<Rightarrow> rat \<Rightarrow> rat \<Rightarrow> bool" where
  "silent_state w items t0 seen_at \<longleftrightarrow>
     iw_armed w \<and> iw_baseline w = items \<and> iw_history w \<noteq> [] \<and> (\<forall>x\<in>set (iw_history w). snd x = iw_total w)
     \<and> (fst (hd (iw_history w)) = t0 \<or> fst (hd (iw_history w)) < seen_at - iw_window w)"

lemma idle_threshold_pos: "0 < idle_threshold_s window_s"
  by (simp add: idle_threshold_s_def)

lemma hd_append_ne: "xs \<noteq> [] \<Longrightarrow> hd (xs @ ys) = hd xs"
  by (cases xs) auto

lemma silent_step:
  assumes w: "silent_state w items t0 seen_at" and d: "distinct (map fst items)" and later: "seen_at \<le> clock"
    and o: "observe w clock (Some items) = (r, w')"
  shows "silent_state w' items t0 clock \<and> iw_window w' = iw_window w
    \<and> (t0 + iw_window w \<le> clock \<longrightarrow> r)"
proof -
  let ?h = "iw_history w @ [(clock, iw_total w)]"
  let ?t = "trim_history (clock - iw_window w) ?h"
  have ne: "?h \<noteq> []" by simp
  obtain pre where "?h = pre @ ?t" using trim_suffix[OF ne] by blast
  then have "set ?t \<subseteq> set ?h" by (metis set_append sup_ge2)
  then have totals: "\<forall>x\<in>set ?t. snd x = iw_total w" using w by (auto simp: silent_state_def)
  have t_ne: "?t \<noteq> []" using trim_suffix[OF ne] by blast
  have "hd ?h = hd (iw_history w)" using w by (simp add: silent_state_def hd_append_ne)
  then have head: "fst (hd ?t) = t0 \<or> fst (hd ?t) < clock - iw_window w"
    using trim_head[OF ne, of "clock - iw_window w"] w later by (auto simp: silent_state_def)
  define h where "h = ?t"
  define u where "u = w\<lparr>iw_baseline := items, iw_total := iw_total w, iw_history := h\<rparr>"
  have run: "observe w clock (Some items) =
      (if iw_idle w then (True, u)
       else (iw_window w \<le> clock - fst (hd h), u\<lparr>iw_idle := iw_window w \<le> clock - fst (hd h)\<rparr>))"
    using w gained_self[OF d] idle_threshold_pos[of "iw_window w"] totals t_ne
    by (simp add: observe_def silent_state_def Let_def h_def u_def not_le)
  have "silent_state (u\<lparr>iw_idle := b\<rparr>) items t0 clock \<and> iw_window (u\<lparr>iw_idle := b\<rparr>) = iw_window w" for b
    using totals t_ne head w unfolding h_def[symmetric] by (simp add: silent_state_def u_def)
  moreover have "u = u\<lparr>iw_idle := True\<rparr>" if "iw_idle w" using that by (simp add: u_def)
  moreover have "w' = u \<and> iw_idle w \<or> w' = u\<lparr>iw_idle := iw_window w \<le> clock - fst (hd h)\<rparr>"
    using o run by (auto split: if_splits)
  ultimately have "silent_state w' items t0 clock \<and> iw_window w' = iw_window w"
    by metis
  moreover have "t0 + iw_window w \<le> clock \<longrightarrow> r"
    using o run head unfolding h_def[symmetric] by (auto split: if_splits)
  ultimately show ?thesis by blast
qed

theorem silent_detected:
  assumes "silent_state w items t0 seen_at" and "silent items trace" and "trace \<noteq> []"
    and "sorted (seen_at # map fst trace)" and "t0 + iw_window w \<le> fst (last trace)"
  shows "fst (feed w trace)"
  using assms
proof (induction trace arbitrary: w seen_at)
  case (Cons x trace)
  obtain clock where x: "x = (clock, Some items)" using Cons.prems(2) by (cases x) (auto simp: silent_def)
  obtain r w' where o: "observe w clock (Some items) = (r, w')" by fastforce
  have d: "distinct (map fst items)" using Cons.prems(2) by (simp add: silent_def)
  have "seen_at \<le> clock" using Cons.prems(4) x by simp
  note step = silent_step[OF Cons.prems(1) d this o]
  show ?case
  proof (cases "trace = []")
    case True
    then show ?thesis using step Cons.prems(5) x o by simp
  next
    case False
    have "fst (feed w' trace)"
      using Cons.prems step False x by (intro Cons.IH[of w' clock]) (auto simp: silent_def)
    then show ?thesis using False x o by simp
  qed
qed simp

section \<open>The properties of the detector\<close>

text \<open>A group that gains 0.4 CPU seconds each second from 10 s on.\<close>

definition slow_trace :: "(rat \<times> (member_key \<times> rat) list option) list" where
  "slow_trace = map (\<lambda>n. (of_nat (10 + n), Some [((7, 1), of_nat n * (2 / 5))])) [0..<11]"




text \<open>
  C28. Silence is recognised: from the first sample of a new window on, a group whose
  members do not change is idle at every reading at least one window after it.
\<close>

theorem silence_recognised:
  assumes "silent items trace" and "trace \<noteq> []" and "sorted (t0 # map fst trace)"
    and "t0 + window_s \<le> fst (last trace)"
  shows "fst (feed (new_idle_window window_s) ((t0, Some items) # trace))"
proof -
  define w where "w = snd (observe (new_idle_window window_s) t0 (Some items))"
  have first: "observe (new_idle_window window_s) t0 (Some items) = (False, w)"
    by (simp add: w_def observe_def new_idle_window_def)
  have state: "silent_state w items t0 t0"
    by (simp add: w_def silent_state_def observe_def new_idle_window_def)
  have "iw_window w = window_s" by (simp add: w_def observe_def new_idle_window_def)
  then have "fst (feed w trace)" using silent_detected[OF state assms(1-3)] assms(4) by simp
  then show ?thesis using assms(2) by (simp add: first)
qed

lemma silence_recognised_witness:
  "fst (feed (new_idle_window 10) ((0, Some [((7, 1), 2)]) # [(5, Some [((7, 1), 2)]), (11, Some [((7, 1), 2)])]))"
  by (rule silence_recognised) (simp_all add: silent_def)

text \<open>
  The verdict ignores slow progress once it is reached: after an idle verdict at 10 s, a
  group that gains 4 CPU seconds in the next 10, eight times the threshold of the window,
  is still called idle, because no single sample gains the threshold.
\<close>

theorem idle_despite_progress:
  "let w = snd (feed (new_idle_window 10) ((0, Some [((7, 1), 0)]) # slow_trace)) in
   fst (feed (new_idle_window 10) ((0, Some [((7, 1), 0)]) # slow_trace))
   \<and> iw_window w = 10 \<and> (10, 0) \<in> set (iw_history w) \<and> last (iw_history w) = (20, 4)
   \<and> idle_threshold_s 10 = 1 / 2"
  by code_simp

end
