(* ===== verification/Green_Ledger.thy ===== *)
theory Green_Ledger
  imports Prelude
begin

text \<open>
  The project-wide ledger of green full gates (\<^verbatim>\<open>src/ptest/verified.py\<close>): a record is
  published only under a token captured before the run, a withdrawal outdates every older
  token, and every ledger on disk keeps at most one record for a tree and scope.

  The ledger file is its decoded content; the random identities
  (\<^verbatim>\<open>secrets.token_hex\<close>) and the success of each file operation are arguments.
\<close>

record green =
  gr_run_id :: string
  gr_head :: string
  gr_input_digest :: string
  gr_compatibility :: string
  gr_policy_digest :: string
  gr_runtime_identity :: "string option"
  gr_scope :: string
  gr_checkout_id :: string
  gr_root :: string
  gr_created_at :: string
  gr_coverage :: "string option"

text \<open>
  What \<^verbatim>\<open>verified.json\<close> holds: nothing, bytes that cannot be read or exceed the bound,
  bytes that are not a ledger, or a ledger.
\<close>

datatype ledger_file =
  No_file | Unreadable_file | Malformed_file
  | Ledger_file (lf_records: "green list") (lf_incarnation: string) (lf_generation: int)

definition MAX_RECORDS :: nat where "MAX_RECORDS = 64"
definition GENERATION_BOUND :: int where "GENERATION_BOUND = 2 ^ 63"

definition valid_green :: "green \<Rightarrow> bool" where
  "valid_green r \<longleftrightarrow>
     hex_id 32 (gr_run_id r) \<and> hex_id 32 (gr_checkout_id r) \<and> hex_id 64 (gr_input_digest r)
     \<and> hex_id 64 (gr_policy_digest r) \<and> gr_head r \<noteq> [] \<and> length (gr_root r) \<le> 4096
     \<and> (case gr_runtime_identity r of None \<Rightarrow> True | Some i \<Rightarrow> hex_id 64 i)
     \<and> (case gr_coverage r of None \<Rightarrow> True | Some c \<Rightarrow> hex_id 64 c)"

definition valid_ordering :: "string \<Rightarrow> int \<Rightarrow> bool" where
  "valid_ordering incarnation generation \<longleftrightarrow>
     hex_id 32 incarnation \<and> 0 \<le> generation \<and> generation < GENERATION_BOUND"

text \<open>\<^verbatim>\<open>_read(strict=True)\<close>: \<open>None\<close> when a writer must not replace the file.\<close>

definition read_strict :: "ledger_file \<Rightarrow> green list option" where
  "read_strict f =
     (case f of
        No_file \<Rightarrow> Some []
      | Unreadable_file \<Rightarrow> None
      | Malformed_file \<Rightarrow> None
      | Ledger_file records incarnation generation \<Rightarrow>
          (if valid_ordering incarnation generation then Some (filter valid_green records) else None))"

definition read_records :: "ledger_file \<Rightarrow> green list" where
  "read_records f = (case read_strict f of None \<Rightarrow> [] | Some rs \<Rightarrow> rs)"

definition ordering :: "ledger_file \<Rightarrow> (string \<times> int) option" where
  "ordering f =
     (case f of
        Ledger_file _ incarnation generation \<Rightarrow>
          (if valid_ordering incarnation generation then Some (incarnation, generation) else None)
      | _ \<Rightarrow> None)"

record token =
  tk_project_id :: string
  tk_input_digest :: string
  tk_incarnation :: string
  tk_generation :: int
  tk_coverage :: "string option"

text \<open>
  \<^verbatim>\<open>begin_full\<close>: the token, and the file it leaves. \<open>fresh\<close> are the identities it
  may draw (the reset, then the missing ordering), \<open>wrote\<close> whether the write succeeds.
\<close>

definition begin_full ::
  "string \<Rightarrow> string \<Rightarrow> string option \<Rightarrow> string \<times> string \<Rightarrow> bool \<Rightarrow> ledger_file \<Rightarrow> token option \<times> ledger_file" where
  "begin_full project_id input_digest coverage fresh wrote f =
     (if \<not> hex_id 64 input_digest \<or> \<not> hex_id 32 project_id then (None, f)
      else (let proof = (case coverage of None \<Rightarrow> None | Some c \<Rightarrow> if hex_id 64 c then Some c else None);
                issue = (\<lambda>ord f. (Some \<lparr>tk_project_id = project_id, tk_input_digest = input_digest,
                                    tk_incarnation = fst ord, tk_generation = snd ord, tk_coverage = proof\<rparr>, f))
            in case read_strict f of
                 None \<Rightarrow>
                   (if f = Unreadable_file then (None, f)
                    else if \<not> wrote then (None, f)
                    else issue (fst fresh, 0) (Ledger_file [] (fst fresh) 0))
               | Some records \<Rightarrow>
                   (case ordering f of
                      Some ord \<Rightarrow> issue ord f
                    | None \<Rightarrow>
                        (if \<not> wrote then (None, f)
                         else issue (snd fresh, 0) (Ledger_file records (snd fresh) 0)))))"

definition same_tree :: "green \<Rightarrow> green \<Rightarrow> bool" where
  "same_tree r item \<longleftrightarrow> gr_input_digest item = gr_input_digest r \<and> gr_scope item = gr_scope r"

text \<open>A plain green keeps the coverage proof of an earlier green of the same tree.\<close>

definition with_coverage :: "green list \<Rightarrow> green \<Rightarrow> green" where
  "with_coverage current r =
     (if gr_coverage r = None
      then (case find (\<lambda>item. same_tree r item \<and> gr_compatibility item = gr_compatibility r
                              \<and> gr_coverage item \<noteq> None) current of
              None \<Rightarrow> r
            | Some item \<Rightarrow> r\<lparr>gr_coverage := gr_coverage item\<rparr>)
      else r)"

definition published :: "green list \<Rightarrow> green \<Rightarrow> green list" where
  "published current r =
     take MAX_RECORDS (with_coverage current r # filter (\<lambda>item. \<not> same_tree r item) current)"

definition record_green ::
  "string \<Rightarrow> green \<Rightarrow> token option \<Rightarrow> bool \<Rightarrow> ledger_file \<Rightarrow> ledger_file" where
  "record_green project_id r tk wrote f =
     (if \<not> valid_green r \<or> \<not> hex_id 32 project_id then f
      else (case (read_strict f, tk) of
              (Some current, Some k) \<Rightarrow>
                (if tk_project_id k \<noteq> project_id \<or> tk_input_digest k \<noteq> gr_input_digest r
                    \<or> ordering f \<noteq> Some (tk_incarnation k, tk_generation k) \<or> \<not> wrote
                 then f
                 else Ledger_file (published current r) (tk_incarnation k) (tk_generation k))
            | _ \<Rightarrow> f))"

text \<open>
  \<^verbatim>\<open>forget\<close>: the identities it may draw are for a ledger without ordering and for a
  generation about to overflow.
\<close>

definition forget ::
  "string \<Rightarrow> string \<Rightarrow> string \<times> string \<Rightarrow> bool \<Rightarrow> ledger_file \<Rightarrow> ledger_file" where
  "forget project_id input_digest fresh wrote f =
     (if \<not> hex_id 32 project_id then f
      else (case read_strict f of
              None \<Rightarrow> f
            | Some records \<Rightarrow>
                (if \<not> wrote then f
                 else (let kept = filter (\<lambda>item. gr_input_digest item \<noteq> input_digest) records;
                           (incarnation, generation) =
                             (case ordering f of None \<Rightarrow> (fst fresh, 0) | Some ord \<Rightarrow> ord);
                           (incarnation, generation) =
                             (if GENERATION_BOUND - 2 \<le> generation then (snd fresh, 0) else (incarnation, generation))
                       in Ledger_file kept incarnation (generation + 1)))))"

section \<open>The ledger stays well formed\<close>

definition well_formed :: "ledger_file \<Rightarrow> bool" where
  "well_formed f \<longleftrightarrow>
     (case f of
        Ledger_file records incarnation generation \<Rightarrow>
          valid_ordering incarnation generation \<and> length records \<le> MAX_RECORDS
          \<and> (\<forall>r\<in>set records. valid_green r)
          \<and> distinct (map (\<lambda>r. (gr_input_digest r, gr_scope r)) records)
      | _ \<Rightarrow> True)"

lemma with_coverage_fields [simp]:
  "gr_input_digest (with_coverage current r) = gr_input_digest r" "gr_scope (with_coverage current r) = gr_scope r"
  by (simp_all add: with_coverage_def split: option.splits)

lemma with_coverage_valid:
  "valid_green r \<Longrightarrow> \<forall>x\<in>set current. valid_green x \<Longrightarrow> valid_green (with_coverage current r)"
  by (auto simp: with_coverage_def valid_green_def dest!: find_Some_in split: option.splits)

lemma distinct_map_take: "distinct (map g xs) \<Longrightarrow> distinct (map g (take n xs))"
  by (metis distinct_take take_map)

lemma published_distinct:
  assumes "distinct (map (\<lambda>r. (gr_input_digest r, gr_scope r)) current)"
  shows "distinct (map (\<lambda>r. (gr_input_digest r, gr_scope r)) (published current r))"
  unfolding published_def
  by (rule distinct_map_take) (use assms in \<open>auto simp: distinct_map_filter same_tree_def\<close>)

lemma published_valid:
  "valid_green r \<Longrightarrow> \<forall>x\<in>set current. valid_green x \<Longrightarrow> \<forall>x\<in>set (published current r). valid_green x"
  using with_coverage_valid by (auto simp: published_def dest!: in_set_takeD)

lemma read_strict_valid: "read_strict f = Some rs \<Longrightarrow> \<forall>x\<in>set rs. valid_green x"
  by (auto simp: read_strict_def split: ledger_file.splits if_splits)

lemma read_strict_well_formed:
  "well_formed f \<Longrightarrow> read_strict f = Some rs \<Longrightarrow>
   length rs \<le> MAX_RECORDS \<and> distinct (map (\<lambda>r. (gr_input_digest r, gr_scope r)) rs)"
  by (auto simp: read_strict_def well_formed_def distinct_map_filter split: ledger_file.splits if_splits
      intro: le_trans[OF length_filter_le])

lemma ordering_valid: "ordering f = Some (i, g) \<Longrightarrow> valid_ordering i g"
  by (auto simp: ordering_def split: ledger_file.splits if_splits)

lemma record_green_well_formed:
  assumes "well_formed f"
  shows "well_formed (record_green project_id r tk wrote f)"
proof (cases "record_green project_id r tk wrote f = f")
  case False
  then obtain current i g where c: "read_strict f = Some current" "valid_green r" "ordering f = Some (i, g)"
    "record_green project_id r tk wrote f = Ledger_file (published current r) i g"
    by (auto simp: record_green_def split: option.splits if_splits)
  have "length (published current r) \<le> MAX_RECORDS" by (simp add: published_def)
  then show ?thesis
    using c published_distinct read_strict_well_formed[OF assms c(1)] published_valid[OF c(2) read_strict_valid[OF c(1)]]
      ordering_valid[OF c(3)]
    by (simp add: well_formed_def)
qed (use assms in simp)

lemma forget_well_formed:
  assumes "well_formed f" and "hex_id 32 (fst fresh)" and "hex_id 32 (snd fresh)"
  shows "well_formed (forget project_id input_digest fresh wrote f)"
proof (cases "forget project_id input_digest fresh wrote f = f")
  case False
  then obtain rs where rs: "read_strict f = Some rs"
    by (auto simp: forget_def split: option.splits if_splits)
  obtain i g where ig: "forget project_id input_digest fresh wrote f
      = Ledger_file (filter (\<lambda>item. gr_input_digest item \<noteq> input_digest) rs) i g" "valid_ordering i g"
    using False rs assms(2,3) ordering_valid[of f]
    by (auto simp: forget_def valid_ordering_def GENERATION_BOUND_def Let_def split: option.splits if_splits)
  show ?thesis
    using read_strict_well_formed[OF assms(1) rs] read_strict_valid[OF rs] ig
    by (auto simp: well_formed_def distinct_map_filter intro: le_trans[OF length_filter_le])
qed (use assms in simp)

lemma begin_full_well_formed:
  assumes "well_formed f" and "hex_id 32 (fst fresh)" and "hex_id 32 (snd fresh)"
    and "begin_full project_id input_digest coverage fresh wrote f = (tk, f')"
  shows "well_formed f'"
proof (cases "f' = f")
  case False
  have "\<exists>rs i. f' = Ledger_file rs i 0 \<and> hex_id 32 i \<and> (rs = [] \<or> read_strict f = Some rs)"
    using assms(2-4) False
    by (auto simp: begin_full_def Let_def split: option.splits if_splits)
  then show ?thesis
    using read_strict_well_formed[OF assms(1)] read_strict_valid
    by (auto simp: well_formed_def valid_ordering_def GENERATION_BOUND_def)
qed (use assms in simp)

section \<open>A withdrawal outdates older tokens\<close>

text \<open>The ordering a withdrawal leaves is newer: the next generation, or a fresh incarnation.\<close>

lemma forget_ordering:
  assumes "hex_id 32 project_id" and "wrote" and "read_strict f \<noteq> None" and "hex_id 32 (snd fresh)"
    and "ordering f = Some (i, g)"
  shows "ordering (forget project_id input_digest fresh wrote f) = Some (i, g + 1)
    \<or> ordering (forget project_id input_digest fresh wrote f) = Some (snd fresh, 1)"
  using assms ordering_valid[OF assms(5)]
  by (auto simp: forget_def ordering_def[of "Ledger_file _ _ _"] valid_ordering_def GENERATION_BOUND_def)

lemma record_green_declined:
  assumes "ordering f \<noteq> Some (tk_incarnation k, tk_generation k)"
  shows "record_green project_id r (Some k) wrote f = f"
  using assms by (simp add: record_green_def split: option.splits)

datatype green_op =
  Op_begin string "string option" "string \<times> string" bool
  | Op_record green "token option" bool
  | Op_forget string "string \<times> string" bool

definition run_green_op :: "string \<Rightarrow> green_op \<Rightarrow> ledger_file \<Rightarrow> ledger_file" where
  "run_green_op project_id oper f =
     (case oper of
        Op_begin digest coverage fresh wrote \<Rightarrow> snd (begin_full project_id digest coverage fresh wrote f)
      | Op_record r tk wrote \<Rightarrow> record_green project_id r tk wrote f
      | Op_forget digest fresh wrote \<Rightarrow> forget project_id digest fresh wrote f)"

text \<open>The random identities an operation draws differ from \<open>i\<close>.\<close>

definition draws_other :: "string \<Rightarrow> green_op \<Rightarrow> bool" where
  "draws_other i oper \<longleftrightarrow>
     (case oper of
        Op_begin _ _ fresh _ \<Rightarrow> fst fresh \<noteq> i \<and> snd fresh \<noteq> i
      | Op_record _ _ _ \<Rightarrow> True
      | Op_forget _ fresh _ \<Rightarrow> fst fresh \<noteq> i \<and> snd fresh \<noteq> i)"

definition after :: "string \<Rightarrow> int \<Rightarrow> ledger_file \<Rightarrow> bool" where
  "after i g f \<longleftrightarrow> (\<forall>j h. ordering f = Some (j, h) \<longrightarrow> j \<noteq> i \<or> g < h)"

lemma after_declines: "after i g f \<Longrightarrow> tk_incarnation k = i \<Longrightarrow> tk_generation k \<le> g \<Longrightarrow>
    record_green project_id r (Some k) wrote f = f"
  by (rule record_green_declined) (auto simp: after_def)

lemma op_keeps_after:
  assumes "after i g f" and "draws_other i oper"
  shows "after i g (run_green_op project_id oper f)"
proof (cases oper)
  case (Op_begin digest coverage fresh wrote)
  then show ?thesis
    using assms
    by (auto simp: run_green_op_def begin_full_def after_def draws_other_def Let_def ordering_def[of "Ledger_file _ _ _"]
        split: option.splits if_splits)
next
  case (Op_record r tk wrote)
  then show ?thesis
    using assms
    by (auto simp: run_green_op_def record_green_def after_def ordering_def[of "Ledger_file _ _ _"]
        split: option.splits if_splits)
next
  case (Op_forget digest fresh wrote)
  then show ?thesis
    using assms
    by (auto simp: run_green_op_def forget_def after_def draws_other_def Let_def ordering_def[of "Ledger_file _ _ _"]
        split: option.splits if_splits)
qed

theorem ops_keep_after:
  "after i g f \<Longrightarrow> \<forall>oper\<in>set opers. draws_other i oper \<Longrightarrow> after i g (fold (run_green_op project_id) opers f)"
  by (induction opers arbitrary: f) (auto simp: op_keeps_after)

lemma forget_after:
  assumes "hex_id 32 project_id" and "wrote" and "read_strict f \<noteq> None"
    and "ordering f = Some (i, g)" and "snd fresh \<noteq> i"
  shows "after i g (forget project_id input_digest fresh wrote f)"
  using assms
  by (auto simp: forget_def after_def ordering_def[of "Ledger_file _ _ _"] Let_def split: option.splits if_splits)

section \<open>The properties of the ledger\<close>

text \<open>
  C25. A withdrawal is final for every run that began before it: once the record of a tree
  is forgotten, no later sequence of operations lets a token of an earlier or equal
  generation publish, as long as fresh identities differ from the token's incarnation.
\<close>

theorem withdrawal_outdates_tokens:
  assumes "hex_id 32 project_id" and "read_strict f \<noteq> None" and "ordering f = Some (i, g)" and "snd fresh \<noteq> i"
    and "\<forall>oper\<in>set opers. draws_other i oper" and "tk_incarnation k = i" and "tk_generation k \<le> g"
  shows "record_green project_id r (Some k) wrote
           (fold (run_green_op project_id) opers (forget project_id input_digest fresh True f))
         = fold (run_green_op project_id) opers (forget project_id input_digest fresh True f)"
  using after_declines[OF ops_keep_after[OF forget_after[OF assms(1) TrueI assms(2,3,4)] assms(5)] assms(6,7)] .

definition example_hex :: "nat \<Rightarrow> string" where
  "example_hex n = replicate n (CHR ''c'')"

definition example_token :: token where
  "example_token =
     \<lparr>tk_project_id = example_hex 32, tk_input_digest = example_hex 64, tk_incarnation = example_hex 32,
      tk_generation = 3, tk_coverage = None\<rparr>"

lemma withdrawal_outdates_tokens_witness:
  "\<forall>r. record_green (example_hex 32) r (Some example_token) True
     (fold (run_green_op (example_hex 32)) [Op_begin (example_hex 64) None ([], []) True]
        (forget (example_hex 32) (example_hex 64) ([], []) True (Ledger_file [] (example_hex 32) 3)))
   = Ledger_file [] (example_hex 32) 4"
proof
  fix r
  have "fold (run_green_op (example_hex 32)) [Op_begin (example_hex 64) None ([], []) True]
        (forget (example_hex 32) (example_hex 64) ([], []) True (Ledger_file [] (example_hex 32) 3))
      = Ledger_file [] (example_hex 32) 4" by code_simp
  moreover have "hex_id 32 (example_hex 32)" "read_strict (Ledger_file [] (example_hex 32) 3) \<noteq> None"
    "ordering (Ledger_file [] (example_hex 32) 3) = Some (example_hex 32, 3)" "example_hex 32 \<noteq> []"
    "tk_incarnation example_token = example_hex 32" "tk_generation example_token = 3"
    by code_simp+
  ultimately show "record_green (example_hex 32) r (Some example_token) True
     (fold (run_green_op (example_hex 32)) [Op_begin (example_hex 64) None ([], []) True]
        (forget (example_hex 32) (example_hex 64) ([], []) True (Ledger_file [] (example_hex 32) 3)))
   = Ledger_file [] (example_hex 32) 4"
    using withdrawal_outdates_tokens[of "example_hex 32" "Ledger_file [] (example_hex 32) 3" "example_hex 32" 3 "([], [])"
        "[Op_begin (example_hex 64) None ([], []) True]" example_token r True "example_hex 64"]
    by (simp add: draws_other_def)
qed

text \<open>
  C26. The ledger stays well formed under every sequence of operations: at most 64 valid
  records, one per tree and scope, and an ordering within its bounds.
\<close>

theorem green_ledger_well_formed:
  assumes "well_formed f"
    and "\<forall>oper\<in>set opers. case oper of
           Op_begin _ _ fresh _ \<Rightarrow> hex_id 32 (fst fresh) \<and> hex_id 32 (snd fresh)
         | Op_record _ _ _ \<Rightarrow> True
         | Op_forget _ fresh _ \<Rightarrow> hex_id 32 (fst fresh) \<and> hex_id 32 (snd fresh)"
  shows "well_formed (fold (run_green_op project_id) opers f)"
  using assms
proof (induction opers arbitrary: f)
  case (Cons oper opers)
  have "well_formed (run_green_op project_id oper f)"
  proof (cases oper)
    case (Op_begin digest coverage fresh wrote)
    obtain tk f' where b: "begin_full project_id digest coverage fresh wrote f = (tk, f')" by fastforce
    show ?thesis
      using begin_full_well_formed[OF Cons.prems(1) _ _ b] Cons.prems(2) Op_begin b by (simp add: run_green_op_def)
  next
    case (Op_record r tk wrote)
    then show ?thesis using record_green_well_formed[OF Cons.prems(1)] by (simp add: run_green_op_def)
  next
    case (Op_forget digest fresh wrote)
    then show ?thesis using forget_well_formed[OF Cons.prems(1)] Cons.prems(2) by (simp add: run_green_op_def)
  qed
  then show ?case using Cons by simp
qed simp

lemma green_ledger_well_formed_witness:
  "well_formed (fold (run_green_op (example_hex 32)) [Op_begin (example_hex 64) None (example_hex 32, example_hex 32) True] No_file)"
proof (rule green_ledger_well_formed)
  show "well_formed No_file" by (simp add: well_formed_def)
  have "hex_id 32 (example_hex 32)" by code_simp
  then show "\<forall>oper\<in>set [Op_begin (example_hex 64) None (example_hex 32, example_hex 32) True]. case oper of
           Op_begin _ _ fresh _ \<Rightarrow> hex_id 32 (fst fresh) \<and> hex_id 32 (snd fresh)
         | Op_record _ _ _ \<Rightarrow> True
         | Op_forget _ fresh _ \<Rightarrow> hex_id 32 (fst fresh) \<and> hex_id 32 (snd fresh)" by simp
qed

end
