(* ===== verification/Monorepo_Routing.thy ===== *)
theory Monorepo_Routing
  imports Prelude
begin

text \<open>
  Dispatch in a monorepo (\<^verbatim>\<open>src/ptest/monorepo.py\<close>): the manifest of child projects,
  the routing of test scopes to one child, the integrated gate over all children, and the
  changed paths read from Git.

  Git (\<^verbatim>\<open>_git_blob\<close>) is a function from the arguments to the output, \<open>None\<close> when the
  command fails; path resolution and directory tests are arguments too.
\<close>

definition config_problem :: "string \<Rightarrow> string \<Rightarrow> problem" where
  "config_problem message code = mk_problem code message ''config'' False"

definition invalid_config :: "string \<Rightarrow> problem" where
  "invalid_config message = config_problem message ''invalid-config''"

section \<open>The manifest\<close>

definition control_char :: "char \<Rightarrow> bool" where
  "control_char c \<longleftrightarrow> char_code c < 32 \<or> char_code c = 127"

definition drive_prefix :: "string \<Rightarrow> bool" where
  "drive_prefix s \<longleftrightarrow>
     (case s of
        a # b # _ \<Rightarrow> (between 65 90 a \<or> between 97 122 a) \<and> char_code b = 58
      | _ \<Rightarrow> False)"

text \<open>\<^verbatim>\<open>_safe_segments\<close>: an empty part covers a leading, a trailing and a double slash.\<close>

definition safe_path :: "string \<Rightarrow> bool" where
  "safe_path s \<longleftrightarrow>
     s \<noteq> [] \<and> (\<forall>c\<in>set s. char_code c \<noteq> 92 \<and> \<not> control_char c)
     \<and> \<not> starts_with ''/'' s \<and> \<not> ends_with ''/'' s
     \<and> (\<forall>part\<in>set (split_on (CHR ''/'') s). part \<noteq> [] \<and> part \<noteq> ''.'' \<and> part \<noteq> ''..'')
     \<and> \<not> drive_prefix s"

definition safe_segments :: "string \<Rightarrow> problem + string list" where
  "safe_segments s =
     (if safe_path s then Inr (split_on (CHR ''/'') s) else Inl (invalid_config ''monorepo path is invalid''))"

definition CONFIG_INVALID :: problem where
  "CONFIG_INVALID = invalid_config ''project configuration is invalid''"

fun declarations :: "toml list \<Rightarrow> problem + string list" where
  "declarations [] = Inr []"
| "declarations (v # vs) =
     (case v of
        TStr s \<Rightarrow>
          (case safe_segments s of
             Inl p \<Rightarrow> Inl p
           | Inr parts \<Rightarrow>
               (case declarations vs of Inl p \<Rightarrow> Inl p | Inr ds \<Rightarrow> Inr (join_with ''/'' parts # ds)))
      | _ \<Rightarrow> Inl (invalid_config ''monorepo path is invalid''))"

definition is_prefix :: "'a list \<Rightarrow> 'a list \<Rightarrow> bool" where
  "is_prefix a b \<longleftrightarrow> take (length a) b = a"

fun any_overlap :: "string list list \<Rightarrow> bool" where
  "any_overlap [] = False"
| "any_overlap (a # rest) = ((\<exists>b\<in>set rest. is_prefix a b \<or> is_prefix b a) \<or> any_overlap rest)"

definition parse_children :: "toml list \<Rightarrow> problem + string list" where
  "parse_children children =
     (if \<not> (1 \<le> length children \<and> length children \<le> 256) then Inl CONFIG_INVALID
      else (case declarations children of
              Inl p \<Rightarrow> Inl p
            | Inr ds \<Rightarrow>
                (if \<not> distinct ds then Inl (invalid_config ''monorepo children must be unique'')
                 else if any_overlap (map (split_on (CHR ''/'')) ds)
                 then Inl (invalid_config ''monorepo children must not overlap'')
                 else Inr ds)))"

text \<open>The decoded document: \<open>None\<close> when the bytes are not TOML.\<close>

definition parse_monorepo_manifest :: "toml option \<Rightarrow> problem + string list" where
  "parse_monorepo_manifest data =
     (case data of
        Some (TTable tbl) \<Rightarrow>
          (if set (map fst tbl) \<noteq> {''version'', ''monorepo''} \<or> map_of tbl ''version'' \<noteq> Some (TInt 2)
           then Inl CONFIG_INVALID
           else (case map_of tbl ''monorepo'' of
                   Some (TTable sub) \<Rightarrow>
                     (if set (map fst sub) \<noteq> {''children''} then Inl CONFIG_INVALID
                      else (case map_of sub ''children'' of
                              Some (TArr children) \<Rightarrow> parse_children children
                            | _ \<Rightarrow> Inl CONFIG_INVALID))
                 | _ \<Rightarrow> Inl CONFIG_INVALID))
      | _ \<Rightarrow> Inl CONFIG_INVALID)"

section \<open>Routing scopes to one child\<close>

record child =
  ch_declaration :: string
  ch_test_roots :: "string list"

definition quoted_name :: "string \<Rightarrow> string" where
  "quoted_name s = [CHR 0x22] @ s @ [CHR 0x22]"

definition where_text :: "string list \<Rightarrow> string" where
  "where_text names = join_with '' or '' (map (\<lambda>n. quoted_name (n @ ''/...'')) names)"

definition whole_text :: "string list \<Rightarrow> string" where
  "whole_text names = join_with '' or '' (map quoted_name names)"

fun strip_dot :: "string \<Rightarrow> string" where
  "strip_dot (a # b # rest) = (if a = CHR ''.'' \<and> b = CHR ''/'' then strip_dot rest else a # b # rest)"
| "strip_dot s = s"

definition normalize_scope :: "string \<Rightarrow> string" where
  "normalize_scope scope = rev (dropWhile (\<lambda>c. c = CHR ''/'') (rev (strip_dot scope)))"

text \<open>The loop over the declared names: the longest prefix of the scope, the first of equals.\<close>

fun best_child :: "string list \<Rightarrow> string list \<Rightarrow> (string \<times> nat) option \<Rightarrow> (string \<times> nat) option" where
  "best_child parts [] best = best"
| "best_child parts (name # names) best =
     (let segments = split_on (CHR ''/'') name in
      best_child parts names
        (if (case best of None \<Rightarrow> 0 | Some (_, n) \<Rightarrow> n) < length segments
            \<and> length segments \<le> length parts \<and> take (length segments) parts = segments
         then Some (name, length segments) else best))"

definition unknown_child :: "string list \<Rightarrow> problem" where
  "unknown_child names =
     invalid_config (''name a test path inside a project: '' @ where_text names @ '', or a whole project: ''
       @ whole_text names @ ''; to run every project use '' @ quoted_name ''ptest --full'')"

definition match_child :: "string \<Rightarrow> string list \<Rightarrow> problem + string \<times> string" where
  "match_child scope names =
     (case safe_segments scope of
        Inl p \<Rightarrow> Inl p
      | Inr parts \<Rightarrow>
          (case best_child parts names None of
             None \<Rightarrow> Inl (unknown_child names)
           | Some (best, n) \<Rightarrow> Inr (best, join_with ''/'' (drop n parts))))"

definition scope_problem :: "string \<Rightarrow> string list \<Rightarrow> problem \<Rightarrow> problem" where
  "scope_problem scope names p =
     (if safe_path scope then p
      else invalid_config (''test paths must be relative to the repository root, without ''
             @ quoted_name ''..'' @ '' (for example '' @ quoted_name (hd names @ ''/tests'') @ '')''))"

fun route_each :: "string list \<Rightarrow> child list \<Rightarrow> string option \<Rightarrow> problem + (string option \<times> string list)" where
  "route_each [] children selected = Inr (selected, [])"
| "route_each (scope # scopes) children selected =
     (let names = map ch_declaration children; scope = normalize_scope scope in
      case match_child scope names of
        Inl p \<Rightarrow> Inl (scope_problem scope names p)
      | Inr (name, rel) \<Rightarrow>
          (if selected \<noteq> None \<and> selected \<noteq> Some name
           then Inl (invalid_config (''run one project at a time: all paths must be inside the same project (''
                       @ where_text names @ '')''))
           else (let here = (if rel = []
                             then (case find (\<lambda>c. ch_declaration c = name) children of
                                     None \<Rightarrow> [] | Some c \<Rightarrow> ch_test_roots c)
                             else [rel])
                 in case route_each scopes children (Some name) of
                      Inl p \<Rightarrow> Inl p
                    | Inr (final, rest) \<Rightarrow> Inr (final, here @ rest))))"

definition route_scopes :: "string list \<Rightarrow> child list \<Rightarrow> problem + (string \<times> string list)" where
  "route_scopes scopes children =
     (if scopes = [] then Inl (invalid_config ''a monorepo scope is required'')
      else (case route_each scopes children None of
              Inl p \<Rightarrow> Inl p
            | Inr (Some name, rebased) \<Rightarrow> Inr (name, rebased)
            | Inr (None, _) \<Rightarrow> Inl (invalid_config ''a monorepo scope is required'')))"

text \<open>A scope is its typed form and its form inside the child.\<close>

datatype scope_item = File_scope (si_typed: string) (si_local: string) | Folder_scope (si_typed: string) (si_local: string)

definition node_id :: "string \<Rightarrow> bool" where
  "node_id s \<longleftrightarrow> (\<exists>i<length s. take 2 (drop i s) = ''::'')"

definition split_scope :: "(string \<Rightarrow> bool) \<Rightarrow> string list \<Rightarrow> string \<Rightarrow> scope_item" where
  "split_scope is_dir names scope =
     (let typed = normalize_scope scope in
      case match_child typed names of
        Inl p \<Rightarrow> File_scope typed typed
      | Inr (_, rel) \<Rightarrow>
          (if rel = [] then Folder_scope typed []
           else if node_id rel \<or> \<not> is_dir rel then File_scope typed rel
           else Folder_scope typed rel))"

definition split_scopes ::
  "(string \<Rightarrow> bool) \<Rightarrow> string list \<Rightarrow> child list \<Rightarrow> problem + (string \<times> scope_item list)" where
  "split_scopes is_dir scopes children =
     (case route_scopes scopes children of
        Inl p \<Rightarrow> Inl p
      | Inr (name, _) \<Rightarrow> Inr (name, map (split_scope is_dir (map ch_declaration children)) scopes))"

text \<open>\<^verbatim>\<open>execute_full\<close>: every child runs; the first failing exit code is the answer.\<close>

fun execute_each :: "('c \<Rightarrow> 's \<Rightarrow> int \<times> 's) \<Rightarrow> 'c list \<Rightarrow> int \<Rightarrow> 's \<Rightarrow> int \<times> 's" where
  "execute_each execute_child [] first_failure st = (first_failure, st)"
| "execute_each execute_child (c # cs) first_failure st =
     (let (code, st) = execute_child c st
      in execute_each execute_child cs (if code \<noteq> 0 \<and> first_failure = 0 then code else first_failure) st)"

definition execute_full :: "('c \<Rightarrow> 's \<Rightarrow> int \<times> 's) \<Rightarrow> 'c list \<Rightarrow> 's \<Rightarrow> int \<times> 's" where
  "execute_full execute_child children st = execute_each execute_child children 0 st"

section \<open>Changed paths from Git\<close>

definition repo_path :: "string \<Rightarrow> string option" where
  "repo_path value =
     (if \<not> utf8_valid value \<or> value = [] \<or> starts_with ''/'' value \<or> (\<exists>c\<in>set value. control_char c)
         \<or> (\<exists>part\<in>set (split_on (CHR ''/'') value). part \<in> {'''', ''.'', ''..''})
      then None else Some value)"

definition NUL :: char where "NUL = char_of (0 :: nat)"

fun all_some :: "'a option list \<Rightarrow> 'a list option" where
  "all_some [] = Some []"
| "all_some (x # xs) = (case x of None \<Rightarrow> None | Some y \<Rightarrow> map_option ((#) y) (all_some xs))"

definition nul_paths :: "string \<Rightarrow> string list option" where
  "nul_paths raw =
     (if raw \<noteq> [] \<and> last raw \<noteq> NUL then None
      else all_some (map repo_path (butlast (split_on NUL raw))))"

definition git_paths :: "(string list \<Rightarrow> string option) \<Rightarrow> string list \<Rightarrow> string list option" where
  "git_paths git argv = Option.bind (git argv) nul_paths"

definition diff_args :: "string list \<Rightarrow> string list" where
  "diff_args revs = [''diff'', ''--name-only'', ''-z'', ''--no-ext-diff'', ''--no-textconv'', ''--no-renames''] @ revs @ [''--'']"

definition bad_base :: "string option \<Rightarrow> bool" where
  "bad_base base = (case base of None \<Rightarrow> False | Some b \<Rightarrow> b = [] \<or> starts_with ''-'' b \<or> NUL \<in> set b)"

definition worktree_changed_files ::
  "(string list \<Rightarrow> string option) \<Rightarrow> (string \<Rightarrow> string option) \<Rightarrow> string \<Rightarrow> string option \<Rightarrow> string list option" where
  "worktree_changed_files git resolve base_dir base =
     (if bad_base base then None
      else (case git [''rev-parse'', ''--show-toplevel''] of
              None \<Rightarrow> None
            | Some found \<Rightarrow>
                (case (resolve (strip found), resolve base_dir) of
                   (Some a, Some b) \<Rightarrow>
                     (if a \<noteq> b then None
                      else (case (case base of None \<Rightarrow> Some [] | Some rev_id \<Rightarrow> git_paths git (diff_args [rev_id, ''HEAD''])) of
                              None \<Rightarrow> None
                            | Some committed \<Rightarrow>
                                (case git_paths git (diff_args [''HEAD'']) of
                                   None \<Rightarrow> None
                                 | Some worktree \<Rightarrow>
                                     (case git_paths git [''ls-files'', ''--others'', ''--exclude-standard'', ''-z''] of
                                        None \<Rightarrow> None
                                      | Some untracked \<Rightarrow> Some (sorted_set (committed @ worktree @ untracked))))))
                 | _ \<Rightarrow> None)))"

section \<open>Shared dependencies\<close>

definition SHARED_DEPENDENCY_NAMES :: "string list" where
  "SHARED_DEPENDENCY_NAMES =
     [''uv.lock'', ''pyproject.toml'', ''poetry.lock'', ''Pipfile'', ''Pipfile.lock'', ''setup.py'', ''setup.cfg'',
      ''tox.ini'', ''pytest.ini'', ''conftest.py'', ''.python-version'', ''package.json'', ''package-lock.json'',
      ''npm-shrinkwrap.json'', ''pnpm-lock.yaml'', ''pnpm-workspace.yaml'', ''yarn.lock'', ''bun.lock'',
      ''bun.lockb'', ''.npmrc'', ''.nvmrc'', ''tsconfig.json'', ''Cargo.toml'', ''Cargo.lock'', ''go.mod'', ''go.sum'',
      ''go.work'', ''go.work.sum'']"

text \<open>\<^verbatim>\<open>fnmatchcase(name, "requirements*.txt")\<close>.\<close>

definition requirements_name :: "string \<Rightarrow> bool" where
  "requirements_name name \<longleftrightarrow>
     starts_with ''requirements'' name \<and> ends_with ''.txt'' name
     \<and> length ''requirements'' + length ''.txt'' \<le> length name"

definition is_shared_dependency :: "string \<Rightarrow> bool" where
  "is_shared_dependency name \<longleftrightarrow> name \<in> set SHARED_DEPENDENCY_NAMES \<or> requirements_name name"

definition basename :: "string \<Rightarrow> string" where
  "basename path = last (split_on (CHR ''/'') path)"

definition shared_dependency_changes :: "string list option \<Rightarrow> string list \<Rightarrow> string list option" where
  "shared_dependency_changes changed children =
     map_option
       (\<lambda>paths. sort (filter (\<lambda>path. \<not> (path \<in> set children \<or> (\<exists>c\<in>set children. starts_with (c @ ''/'') path))
                                   \<and> is_shared_dependency (basename path)) paths))
       changed"

section \<open>A manifest names disjoint projects\<close>

lemma any_overlap_free:
  "\<not> any_overlap xs \<Longrightarrow> i < length xs \<Longrightarrow> j < length xs \<Longrightarrow> i \<noteq> j \<Longrightarrow> \<not> is_prefix (xs ! i) (xs ! j)"
proof (induction xs arbitrary: i j)
  case (Cons a xs)
  then show ?case by (cases i; cases j) auto
qed simp

lemma safe_segments_join: "safe_segments s = Inr parts \<Longrightarrow> safe_path s \<and> parts = split_on (CHR ''/'') s \<and> join_with ''/'' parts = s"
  by (auto simp: safe_segments_def split: if_splits)

lemma declared_paths_safe: "declarations vs = Inr ds \<Longrightarrow> \<forall>d\<in>set ds. safe_path d"
proof (induction vs arbitrary: ds)
  case (Cons v vs)
  then show ?case
    by (auto dest!: safe_segments_join split: toml.splits sum.splits)
qed simp

text \<open>The declared children: safe, distinct, and no child is a path prefix of another.\<close>

definition disjoint_children :: "string list \<Rightarrow> bool" where
  "disjoint_children names \<longleftrightarrow>
     (\<forall>a\<in>set names. \<forall>b\<in>set names. a \<noteq> b \<longrightarrow> \<not> is_prefix (split_on (CHR ''/'') a) (split_on (CHR ''/'') b))"

lemma parse_children_ok:
  assumes "parse_children children = Inr names"
  shows "names \<noteq> [] \<and> distinct names \<and> (\<forall>n\<in>set names. safe_path n) \<and> disjoint_children names"
proof -
  have d: "declarations children = Inr names" "distinct names" "\<not> any_overlap (map (split_on (CHR ''/'')) names)"
    "children \<noteq> []"
    using assms by (auto simp: parse_children_def split: if_splits sum.splits)
  have "disjoint_children names"
    unfolding disjoint_children_def
  proof (intro ballI impI)
    fix a b assume ab: "a \<in> set names" "b \<in> set names" "a \<noteq> b"
    then obtain i j where "i < length names" "names ! i = a" "j < length names" "names ! j = b" "i \<noteq> j"
      by (metis in_set_conv_nth)
    then show "\<not> is_prefix (split_on (CHR ''/'') a) (split_on (CHR ''/'') b)"
      using any_overlap_free[OF d(3), of i j] by simp
  qed
  moreover have "names \<noteq> []"
    using d(1,4) by (cases children) (auto split: toml.splits sum.splits)
  ultimately show ?thesis using d declared_paths_safe[OF d(1)] by blast
qed

lemma parse_manifest_ok:
  "parse_monorepo_manifest data = Inr names \<Longrightarrow>
   names \<noteq> [] \<and> distinct names \<and> (\<forall>n\<in>set names. safe_path n) \<and> disjoint_children names"
  by (auto simp: parse_monorepo_manifest_def dest!: parse_children_ok split: option.splits toml.splits if_splits)

section \<open>A scope belongs to at most one project\<close>

definition inside :: "string list \<Rightarrow> string \<Rightarrow> bool" where
  "inside parts name \<longleftrightarrow> is_prefix (split_on (CHR ''/'') name) parts"

lemma prefix_unique:
  assumes "disjoint_children names" and "a \<in> set names" and "b \<in> set names"
    and "inside parts a" and "inside parts b"
  shows "a = b"
proof (rule ccontr)
  assume "a \<noteq> b"
  let ?a = "split_on (CHR ''/'') a" and ?b = "split_on (CHR ''/'') b"
  have "?a = take (length ?a) parts" "?b = take (length ?b) parts"
    using assms(4,5) by (simp_all add: inside_def is_prefix_def)
  then have "is_prefix ?a ?b \<or> is_prefix ?b ?a"
    unfolding is_prefix_def by (metis linear min.absorb_iff1 min.absorb_iff2 take_take)
  then show False using assms(1-3) \<open>a \<noteq> b\<close> by (auto simp: disjoint_children_def)
qed

lemma best_child_sound:
  "best_child parts names best = Some (name, n) \<Longrightarrow>
   best = Some (name, n) \<or> (name \<in> set names \<and> n = length (split_on (CHR ''/'') name) \<and> inside parts name)"
  by (induction names arbitrary: best) (fastforce simp: Let_def inside_def is_prefix_def split: if_splits)+

lemma best_child_some: "best \<noteq> None \<Longrightarrow> best_child parts names best \<noteq> None"
  by (induction names arbitrary: best) (auto simp: Let_def)

lemma best_child_complete:
  assumes "name \<in> set names" and "inside parts name"
  shows "best_child parts names None \<noteq> None"
proof -
  have len: "length (split_on (CHR ''/'') name) \<le> length parts"
    using assms(2) by (metis inside_def is_prefix_def length_take min.cobounded1 min.commute)
  have pos: "0 < length (split_on (CHR ''/'') name)" by simp
  have "best = None \<Longrightarrow> best_child parts names best \<noteq> None" for best
    using assms(1)
  proof (induction names arbitrary: best)
    case (Cons x xs)
    then show ?case
      using assms(2) len pos best_child_some by (auto simp: Let_def inside_def is_prefix_def)
  qed simp
  then show ?thesis by simp
qed

lemma best_child_unique:
  assumes "disjoint_children names" and "name \<in> set names" and "inside parts name"
  shows "best_child parts names None = Some (name, length (split_on (CHR ''/'') name))"
proof -
  obtain m n where b: "best_child parts names None = Some (m, n)"
    using best_child_complete[OF assms(2,3)] by auto
  then have "m \<in> set names" "n = length (split_on (CHR ''/'') m)" "inside parts m"
    using best_child_sound[OF b] by auto
  then show ?thesis using b prefix_unique[OF assms(1,2)] assms(3) by blast
qed

lemma split_on_slash_append:
  "split_on c (xs @ c # ys) = split_on c xs @ split_on c ys"
  by (induction xs) (auto split: list.splits)

lemma match_child_local:
  assumes "disjoint_children names" and "name \<in> set names" and "safe_path (name @ ''/'' @ rel)"
  shows "match_child (name @ ''/'' @ rel) names = Inr (name, rel)"
proof -
  let ?parts = "split_on (CHR ''/'') (name @ ''/'' @ rel)"
  have parts: "?parts = split_on (CHR ''/'') name @ split_on (CHR ''/'') rel"
    using split_on_slash_append[of "CHR ''/''" name rel] by simp
  then have "inside ?parts name" by (simp add: inside_def is_prefix_def)
  then have "best_child ?parts names None = Some (name, length (split_on (CHR ''/'') name))"
    using best_child_unique assms(1,2) by blast
  then show ?thesis
    using assms(3) parts by (simp add: match_child_def safe_segments_def)
qed

lemma match_child_bare:
  assumes "disjoint_children names" and "name \<in> set names" and "safe_path name"
  shows "match_child name names = Inr (name, [])"
proof -
  have "inside (split_on (CHR ''/'') name) name" by (simp add: inside_def is_prefix_def)
  then show ?thesis
    using best_child_unique[OF assms(1,2)] assms(3) by (simp add: match_child_def safe_segments_def)
qed

text \<open>A match names a declared child that the scope lies in, and the scope is put back together from it.\<close>

lemma join_with_nil: "xs \<noteq> [] \<Longrightarrow> sep \<noteq> [] \<Longrightarrow> join_with sep xs = [] \<Longrightarrow> xs = [[]]"
  by (cases xs; cases "tl xs") auto

lemma match_child_sound:
  assumes "match_child scope names = Inr (name, rel)"
  shows "name \<in> set names \<and> scope = (if rel = [] then name else name @ ''/'' @ rel)"
proof -
  let ?parts = "split_on (CHR ''/'') scope"
  obtain n where safe: "safe_path scope" and b: "best_child ?parts names None = Some (name, n)"
    and rel: "rel = join_with ''/'' (drop n ?parts)"
    using assms by (auto simp: match_child_def safe_segments_def split: if_splits option.splits)
  have name: "name \<in> set names" "n = length (split_on (CHR ''/'') name)" "take n ?parts = split_on (CHR ''/'') name"
    using best_child_sound[OF b] by (auto simp: inside_def is_prefix_def)
  have scope: "scope = join_with ''/'' (take n ?parts @ drop n ?parts)" by simp
  have cut: "join_with ''/'' (xs @ ys) = join_with ''/'' xs @ ''/'' @ join_with ''/'' ys" if "xs \<noteq> []" "ys \<noteq> []" for xs ys
    using that by (induction xs rule: induct_list012) (auto simp: join_with_cons)
  show ?thesis
  proof (cases "drop n ?parts = []")
    case True
    then show ?thesis using scope name rel by (metis append_Nil2 join_split join_with.simps(1))
  next
    case False
    have "rel \<noteq> []"
    proof
      assume "rel = []"
      then have "drop n ?parts = [[]]"
        using False rel join_with_nil[of "drop n ?parts" "''/''"] by simp
      then have "[] \<in> set ?parts" by (metis in_set_dropD list.set_intros(1))
      then show False using safe by (auto simp: safe_path_def)
    qed
    moreover have "scope = name @ ''/'' @ rel"
      using scope cut[OF _ False, of "take n ?parts"] name rel by simp
    ultimately show ?thesis using name by simp
  qed
qed

section \<open>The integrated gate\<close>

fun trace_full :: "('c \<Rightarrow> 's \<Rightarrow> int \<times> 's) \<Rightarrow> 'c list \<Rightarrow> 's \<Rightarrow> int list \<times> 's" where
  "trace_full execute_child [] st = ([], st)"
| "trace_full execute_child (c # cs) st =
     (let (code, st) = execute_child c st; (codes, st) = trace_full execute_child cs st in (code # codes, st))"

lemma execute_each_trace:
  "execute_each f cs a st =
     (if a \<noteq> 0 then a else (case find (\<lambda>k. k \<noteq> 0) (fst (trace_full f cs st)) of None \<Rightarrow> 0 | Some k \<Rightarrow> k),
      snd (trace_full f cs st))"
  by (induction cs arbitrary: a st) (auto simp: Let_def split: prod.splits option.splits)

section \<open>NUL-separated paths\<close>

lemma repo_path_same: "repo_path v = Some p \<Longrightarrow> p = v"
  by (auto simp: repo_path_def split: if_splits)

lemma repo_path_no_nul: "repo_path p = Some q \<Longrightarrow> NUL \<notin> set p"
  by (auto simp: repo_path_def control_char_def NUL_def char_code_def split: if_splits)

lemma all_some_map: "\<forall>x\<in>set xs. f x = Some x \<Longrightarrow> all_some (map f xs) = Some xs"
  by (induction xs) auto

lemma split_nul: "\<forall>p\<in>set ps. NUL \<notin> set p \<Longrightarrow> split_on NUL (concat (map (\<lambda>p. p @ [NUL]) ps)) = ps @ [[]]"
  by (induction ps) (auto simp: split_on_append)

lemma nul_paths_roundtrip:
  assumes "\<forall>p\<in>set ps. repo_path p \<noteq> None"
  shows "nul_paths (concat (map (\<lambda>p. p @ [NUL]) ps)) = Some ps"
proof -
  have valid: "\<forall>p\<in>set ps. repo_path p = Some p" using assms repo_path_same by fastforce
  then have "\<forall>p\<in>set ps. NUL \<notin> set p" using repo_path_no_nul by blast
  moreover have "last (concat (map (\<lambda>p. p @ [NUL]) ps)) = NUL" if "ps \<noteq> []"
    using that by (induction ps rule: rev_induct) auto
  ultimately show ?thesis
    using all_some_map[OF valid] split_nul[of ps] by (cases ps) (auto simp: nul_paths_def)
qed

lemma all_some_parts:
  assumes "\<And>x y. f x = Some y \<Longrightarrow> y = x"
  shows "all_some (map f xs) = Some ys \<Longrightarrow> ys = xs \<and> (\<forall>x\<in>set xs. f x \<noteq> None)"
  by (induction xs arbitrary: ys) (auto split: option.splits dest: assms)

lemma split_snoc: "split_on c (xs @ [c]) = split_on c xs @ [[]]"
  using split_on_slash_append[of c xs "[]"] by simp

lemma ended_split: "concat (map (\<lambda>p. p @ [c]) (split_on c xs)) = xs @ [c]"
  by (induction xs) (auto split: list.splits)

section \<open>The properties of the dispatch\<close>

text \<open>
  C30. Round trip between a child and its scopes: with the children of a parsed manifest, a
  scope is matched to a child and a path in it exactly when it is a safe path and is the
  child's name alone or followed by that path; so the child of a scope is unique.
\<close>

theorem matched_scope_roundtrip:
  assumes "parse_monorepo_manifest data = Inr names"
  shows "match_child scope names = Inr (name, rel) \<longleftrightarrow>
    safe_path scope \<and> name \<in> set names \<and> scope = (if rel = [] then name else name @ ''/'' @ rel)"
proof
  assume m: "match_child scope names = Inr (name, rel)"
  then have "safe_path scope" by (simp add: match_child_def safe_segments_def split: if_splits)
  then show "safe_path scope \<and> name \<in> set names \<and> scope = (if rel = [] then name else name @ ''/'' @ rel)"
    using match_child_sound[OF m] by simp
next
  assume m: "safe_path scope \<and> name \<in> set names \<and> scope = (if rel = [] then name else name @ ''/'' @ rel)"
  have "disjoint_children names" using parse_manifest_ok[OF assms] by simp
  then show "match_child scope names = Inr (name, rel)"
    using m match_child_bare[of names name] match_child_local[of names name rel] by (cases "rel = []") auto
qed

definition example_manifest :: toml where
  "example_manifest =
     TTable [(''version'', TInt 2), (''monorepo'', TTable [(''children'', TArr [TStr ''api'', TStr ''web/app''])])]"

lemma matched_scope_roundtrip_witness:
  "match_child ''web/app/tests'' [''api'', ''web/app''] = Inr (''web/app'', ''tests'')"
proof -
  have data: "parse_monorepo_manifest (Some example_manifest) = Inr [''api'', ''web/app'']" by code_simp
  have "safe_path ''web/app/tests''" by code_simp
  then show ?thesis by (simp add: matched_scope_roundtrip[OF data])
qed

text \<open>
  The integrated gate runs every child once, in order, each from the state its
  predecessor left, and answers with the exit code of the first child that failed: it is 0
  exactly when every child returned 0.
\<close>

theorem gate_runs_every_child:
  "execute_full execute_child children st =
     ((case find (\<lambda>k. k \<noteq> 0) (fst (trace_full execute_child children st)) of None \<Rightarrow> 0 | Some k \<Rightarrow> k),
      snd (trace_full execute_child children st))
   \<and> length (fst (trace_full execute_child children st)) = length children
   \<and> (fst (execute_full execute_child children st) = 0 \<longleftrightarrow> set (fst (trace_full execute_child children st)) \<subseteq> {0})"
proof -
  have "length (fst (trace_full execute_child children st)) = length children"
    by (induction children arbitrary: st) (auto simp: case_prod_unfold Let_def)
  moreover have "execute_full execute_child children st =
      ((case find (\<lambda>k. k \<noteq> 0) (fst (trace_full execute_child children st)) of None \<Rightarrow> 0 | Some k \<Rightarrow> k),
       snd (trace_full execute_child children st))"
    by (simp add: execute_full_def execute_each_trace)
  moreover have "(case find (\<lambda>k. k \<noteq> 0) ks of None \<Rightarrow> 0 | Some k \<Rightarrow> k) = 0 \<longleftrightarrow> set ks \<subseteq> {0}" for ks :: "int list"
    by (induction ks) auto
  ultimately show ?thesis by simp
qed

text \<open>
  Reading Git's NUL-separated output is exact: the accepted outputs are the
  concatenations of valid repository paths, each ended by NUL, and the parse returns them.
\<close>

theorem nul_paths_exact:
  "nul_paths raw = Some ps \<longleftrightarrow>
     raw = concat (map (\<lambda>p. p @ [NUL]) ps) \<and> {p \<in> set ps. repo_path p = None} = {}"
proof
  assume r: "nul_paths raw = Some ps"
  then have parts: "all_some (map repo_path (butlast (split_on NUL raw))) = Some ps" and ended: "raw \<noteq> [] \<Longrightarrow> last raw = NUL"
    by (auto simp: nul_paths_def split: if_splits)
  have ps: "ps = butlast (split_on NUL raw)" "\<forall>p\<in>set ps. repo_path p \<noteq> None"
    using all_some_parts[OF repo_path_same parts] by auto
  have "raw = concat (map (\<lambda>p. p @ [NUL]) ps)"
  proof (cases "raw = []")
    case False
    then have "raw = butlast raw @ [NUL]" using ended by (metis append_butlast_last_id)
    then have "ps = split_on NUL (butlast raw)" using ps(1) split_snoc by (metis butlast_snoc)
    then show ?thesis using \<open>raw = butlast raw @ [NUL]\<close> by (simp add: ended_split)
  qed (simp add: ps(1))
  then show "raw = concat (map (\<lambda>p. p @ [NUL]) ps) \<and> {p \<in> set ps. repo_path p = None} = {}"
    using ps(2) by auto
next
  assume "raw = concat (map (\<lambda>p. p @ [NUL]) ps) \<and> {p \<in> set ps. repo_path p = None} = {}"
  then show "nul_paths raw = Some ps" using nul_paths_roundtrip[of ps] by auto
qed

end
