(* ===== verification/Last_Green.thy ===== *)
theory Last_Green
  imports Monorepo_Routing Lease_Files
begin

text \<open>
  The last-green reference of a project (\<^verbatim>\<open>src/ptest/lastgreen.py\<close>): the verified
  point recorded by a passing run, the failed test files merged by failing runs, and the
  choice between the verified point and the branch base.

  Git evidence (the head, ancestry, the committed range, the dirty paths) and the content
  hashes are arguments; a record is the JSON document \<^verbatim>\<open>json.loads\<close> returns.
\<close>

definition MAX_GREEN_FILES :: nat where "MAX_GREEN_FILES = 1024"
definition MAX_LAST_FAILED :: nat where "MAX_LAST_FAILED = 512"

record green_record =
  lg_root :: string
  lg_project :: string
  lg_commit :: "string option"
  lg_recorded_at :: rat
  lg_files :: "(string \<times> string option) list"
  lg_last_failed :: "string list"


definition valid_sha :: "string \<Rightarrow> bool" where
  "valid_sha s \<longleftrightarrow> hex_id 40 s"

section \<open>Reading and writing a record\<close>

fun json_strings :: "json list \<Rightarrow> string list option" where
  "json_strings [] = Some []"
| "json_strings (v # vs) =
     (case v of JStr s \<Rightarrow> map_option ((#) s) (json_strings vs) | _ \<Rightarrow> None)"

fun json_hashes :: "(string \<times> json) list \<Rightarrow> (string \<times> string option) list option" where
  "json_hashes [] = Some []"
| "json_hashes ((k, v) # rest) =
     (case v of
        JNull \<Rightarrow> map_option ((#) (k, None)) (json_hashes rest)
      | JStr s \<Rightarrow> map_option ((#) (k, Some s)) (json_hashes rest)
      | _ \<Rightarrow> None)"

definition json_number :: "json option \<Rightarrow> rat option" where
  "json_number v =
     (case v of
        Some (JInt i) \<Rightarrow> Some (of_int i)
      | Some (JFloat q) \<Rightarrow> Some q
      | Some (JBool b) \<Rightarrow> Some (if b then 1 else 0)
      | _ \<Rightarrow> None)"

text \<open>The commit: absent and \<^verbatim>\<open>null\<close> are the same; \<open>None\<close> when it is invalid.\<close>

definition json_commit :: "json option \<Rightarrow> string option option" where
  "json_commit v =
     (case v of
        None \<Rightarrow> Some None
      | Some JNull \<Rightarrow> Some None
      | Some (JStr s) \<Rightarrow> (if valid_sha s then Some (Some s) else None)
      | _ \<Rightarrow> None)"

definition version_one :: "json option \<Rightarrow> bool" where
  "version_one v \<longleftrightarrow> v = Some (JInt 1) \<or> v = Some (JFloat 1) \<or> v = Some (JBool True)"

definition decode_record :: "string \<Rightarrow> string \<Rightarrow> json option \<Rightarrow> green_record option" where
  "decode_record root_dir project payload =
     (case payload of
        Some (JObj tbl) \<Rightarrow>
          (if \<not> version_one (map_of tbl ''version'') \<or> map_of tbl ''root'' \<noteq> Some (JStr root_dir)
              \<or> map_of tbl ''project'' \<noteq> Some (JStr project)
           then None
           else (case (json_commit (map_of tbl ''commit''), json_number (map_of tbl ''recorded_at'')) of
                   (Some commit, Some recorded_at) \<Rightarrow>
                     (case (map_of tbl ''files'', map_of tbl ''last_failed'') of
                        (Some (JObj files), Some (JArr failed)) \<Rightarrow>
                          (case (json_hashes files, json_strings failed) of
                             (Some hashes, Some names) \<Rightarrow>
                               Some \<lparr>lg_root = root_dir, lg_project = project, lg_commit = commit,
                                     lg_recorded_at = recorded_at, lg_files = hashes, lg_last_failed = names\<rparr>
                           | _ \<Rightarrow> None)
                      | _ \<Rightarrow> None)
                 | _ \<Rightarrow> None))
      | _ \<Rightarrow> None)"

definition json_option :: "string option \<Rightarrow> json" where
  "json_option v = (case v of None \<Rightarrow> JNull | Some s \<Rightarrow> JStr s)"

definition encode_record :: "green_record \<Rightarrow> json" where
  "encode_record r =
     JObj [(''version'', JInt 1), (''root'', JStr (lg_root r)), (''project'', JStr (lg_project r)),
           (''commit'', json_option (lg_commit r)), (''recorded_at'', JFloat (lg_recorded_at r)),
           (''files'', JObj (map (\<lambda>(k, v). (k, json_option v)) (lg_files r))),
           (''last_failed'', JArr (map JStr (lg_last_failed r)))]"

section \<open>Recording a run\<close>

definition under :: "string \<Rightarrow> string \<Rightarrow> bool" where
  "under path pre \<longleftrightarrow> pre = [] \<or> path = pre \<or> starts_with (pre @ ''/'') path"

text \<open>\<open>None\<close>: nothing is stored.\<close>

definition record_pass ::
  "(string \<Rightarrow> string option) \<Rightarrow> string option \<Rightarrow> string list option \<Rightarrow> rat \<Rightarrow> string \<Rightarrow> string \<Rightarrow> green_record option" where
  "record_pass content_hash head dirty clock root_dir project =
     (case head of
        None \<Rightarrow> None
      | Some sha \<Rightarrow>
          (case dirty of
             None \<Rightarrow> None
           | Some paths \<Rightarrow>
               (let scoped = filter (\<lambda>path. under path project) paths in
                if MAX_GREEN_FILES < length scoped then None
                else Some \<lparr>lg_root = root_dir, lg_project = project, lg_commit = Some sha, lg_recorded_at = clock,
                           lg_files = map (\<lambda>path. (path, content_hash path)) scoped, lg_last_failed = []\<rparr>)))"

fun merge_failed :: "string list \<Rightarrow> string list \<Rightarrow> string list" where
  "merge_failed seen [] = seen"
| "merge_failed seen (item # items) =
     merge_failed (if item \<noteq> [] \<and> item \<notin> set seen then seen @ [item] else seen) items"

definition record_failure ::
  "green_record option \<Rightarrow> rat \<Rightarrow> string \<Rightarrow> string \<Rightarrow> string list \<Rightarrow> green_record option" where
  "record_failure previous clock root_dir project failed =
     (if failed = [] then None
      else (let seen = (case previous of None \<Rightarrow> [] | Some r \<Rightarrow> lg_last_failed r);
                merged = take MAX_LAST_FAILED (merge_failed seen failed)
            in Some (case previous of
                       Some r \<Rightarrow> r\<lparr>lg_last_failed := merged\<rparr>
                     | None \<Rightarrow> \<lparr>lg_root = root_dir, lg_project = project, lg_commit = None, lg_recorded_at = clock,
                               lg_files = [], lg_last_failed = merged\<rparr>)))"

section \<open>Consulting the reference\<close>

text \<open>\<^verbatim>\<open>record.files.get(path)\<close>: an absent path and a path without a hash are both \<open>None\<close>.\<close>

definition recorded_hash :: "green_record \<Rightarrow> string \<Rightarrow> string option" where
  "recorded_hash r path = Option.bind (map_of (lg_files r) path) id"

definition relative_path :: "string \<Rightarrow> string \<Rightarrow> string" where
  "relative_path project path = (if project = [] then path else drop (length project + 1) path)"

definition prefixed :: "string \<Rightarrow> string \<Rightarrow> string" where
  "prefixed project rel = (if project = [] then rel else project @ ''/'' @ rel)"

definition dirty_vs_fingerprint ::
  "(string \<Rightarrow> string option) \<Rightarrow> string list option \<Rightarrow> string \<Rightarrow> green_record \<Rightarrow> string list" where
  "dirty_vs_fingerprint content_hash dirty project r =
     (case dirty of
        None \<Rightarrow> []
      | Some paths \<Rightarrow>
          map (relative_path project)
            (filter (\<lambda>path. under path project \<and> recorded_hash r path \<noteq> content_hash path) paths))"




definition failed_paths :: "string \<Rightarrow> green_record option \<Rightarrow> string list" where
  "failed_paths project r =
     (case r of None \<Rightarrow> [] | Some g \<Rightarrow> map (prefixed project) (filter (\<lambda>item. item \<noteq> []) (lg_last_failed g)))"


text \<open>The paths changed since the verified point.\<close>

definition changed_since ::
  "(string \<Rightarrow> string option) \<Rightarrow> string list \<Rightarrow> string list option \<Rightarrow> string \<Rightarrow> green_record \<Rightarrow> string list" where
  "changed_since content_hash committed dirty project r =
     sorted_set
       (filter (\<lambda>path. under path project
                       \<and> \<not> (recorded_hash r path \<noteq> None \<and> content_hash path = recorded_hash r path)) committed
        @ map (prefixed project) (dirty_vs_fingerprint content_hash dirty project r)
        @ failed_paths project (Some r))"


section \<open>Properties\<close>

lemma json_strings_map: "json_strings (map JStr xs) = Some xs"
  by (induction xs) auto

lemma json_hashes_map: "json_hashes (map (\<lambda>(k, v). (k, json_option v)) xs) = Some xs"
  by (induction xs) (auto simp: json_option_def split: option.splits)

lemma json_commit_option: "(case c of None \<Rightarrow> True | Some s \<Rightarrow> valid_sha s) \<Longrightarrow> json_commit (Some (json_option c)) = Some c"
  by (cases c) (auto simp: json_commit_def json_option_def)

lemma decode_encode:
  assumes "case lg_commit r of None \<Rightarrow> True | Some s \<Rightarrow> valid_sha s"
  shows "decode_record (lg_root r) (lg_project r) (Some (encode_record r)) = Some r"
  by (simp add: decode_record_def encode_record_def version_one_def json_number_def
      json_strings_map json_hashes_map json_commit_option[OF assms])

lemma merge_failed_set: "set (merge_failed seen items) = set seen \<union> {x \<in> set items. x \<noteq> []}"
  by (induction items arbitrary: seen) auto

lemma merge_failed_distinct: "distinct seen \<Longrightarrow> distinct (merge_failed seen items)"
  by (induction items arbitrary: seen) auto

lemma record_failure_keeps_point:
  assumes "record_failure (Some r) clock root_dir project failed = Some r'"
  shows "lg_commit r' = lg_commit r \<and> lg_files r' = lg_files r \<and> lg_recorded_at r' = lg_recorded_at r
    \<and> length (lg_last_failed r') \<le> MAX_LAST_FAILED
    \<and> (distinct (lg_last_failed r) \<longrightarrow> distinct (lg_last_failed r'))
    \<and> set (lg_last_failed r') \<subseteq> set (lg_last_failed r) \<union> set failed"
proof -
  let ?m = "merge_failed (lg_last_failed r) failed"
  have r': "r' = r\<lparr>lg_last_failed := take MAX_LAST_FAILED ?m\<rparr>"
    using assms by (simp add: record_failure_def Let_def split: if_splits)
  have "set (take MAX_LAST_FAILED ?m) \<subseteq> set (lg_last_failed r) \<union> set failed"
    using set_take_subset[of MAX_LAST_FAILED ?m] merge_failed_set[of "lg_last_failed r" failed] by blast
  moreover have "distinct (lg_last_failed r) \<longrightarrow> distinct (take MAX_LAST_FAILED ?m)"
    using merge_failed_distinct by (blast intro: distinct_take)
  ultimately show ?thesis unfolding r' by simp
qed

lemma under_prefixed: "under path project \<Longrightarrow> path \<noteq> project \<or> project = [] \<Longrightarrow> prefixed project (relative_path project path) = path"
  by (auto simp: under_def prefixed_def relative_path_def starts_with_iff)

text \<open>What a consultation must not miss below the project, as the code decides it.\<close>

lemma changed_since_covers:
  assumes "path \<noteq> project \<or> project = []" and "under path project"
  shows "path \<in> set committed \<Longrightarrow> recorded_hash r path = None \<or> content_hash path \<noteq> recorded_hash r path \<Longrightarrow>
      path \<in> set (changed_since content_hash committed dirty project r)"
    and "dirty = Some paths \<Longrightarrow> path \<in> set paths \<Longrightarrow> recorded_hash r path \<noteq> content_hash path \<Longrightarrow>
      path \<in> set (changed_since content_hash committed dirty project r)"
proof -
  show "path \<in> set committed \<Longrightarrow> recorded_hash r path = None \<or> content_hash path \<noteq> recorded_hash r path \<Longrightarrow>
      path \<in> set (changed_since content_hash committed dirty project r)"
    using assms(2) by (auto simp: changed_since_def)
  assume d: "dirty = Some paths" "path \<in> set paths" "recorded_hash r path \<noteq> content_hash path"
  have "prefixed project (relative_path project path) = path" using under_prefixed[OF assms(2,1)] .
  moreover have "relative_path project path \<in> set (dirty_vs_fingerprint content_hash dirty project r)"
    using d assms(2) by (auto simp: dirty_vs_fingerprint_def)
  ultimately have "path \<in> set (map (prefixed project) (dirty_vs_fingerprint content_hash dirty project r))"
    by (metis image_eqI set_map)
  then show "path \<in> set (changed_since content_hash committed dirty project r)"
    unfolding changed_since_def set_sorted_set set_append by blast
qed

lemma prefixed_under:
  assumes "under path project" and "path \<noteq> project \<or> project = []"
  shows "prefixed project (relative_path project path) = path"
  using under_prefixed[OF assms] .

text \<open>The changed set, path by path.\<close>

definition plain_paths :: "string \<Rightarrow> string list option \<Rightarrow> bool" where
  "plain_paths project dirty \<longleftrightarrow> project = [] \<or> (case dirty of None \<Rightarrow> True | Some paths \<Rightarrow> project \<notin> set paths)"

lemma in_dirty_vs_fingerprint:
  assumes "plain_paths project dirty"
  shows "path \<in> prefixed project ` set (dirty_vs_fingerprint content_hash dirty project r) \<longleftrightarrow>
    under path project \<and> recorded_hash r path \<noteq> content_hash path \<and> (\<exists>paths. dirty = Some paths \<and> path \<in> set paths)"
proof -
  have same: "prefixed project (relative_path project q) = q" if "dirty = Some paths" "q \<in> set paths" "under q project" for q paths
    using that assms by (intro prefixed_under) (auto simp: plain_paths_def)
  show ?thesis
    by (auto simp: dirty_vs_fingerprint_def image_iff same split: option.splits) (metis same)+
qed

lemma in_changed_since:
  assumes "plain_paths project dirty"
  shows "path \<in> set (changed_since content_hash committed dirty project r) \<longleftrightarrow>
    (under path project \<and> path \<in> set committed \<and> (recorded_hash r path = None \<or> content_hash path \<noteq> recorded_hash r path))
    \<or> (under path project \<and> (\<exists>paths. dirty = Some paths \<and> path \<in> set paths) \<and> recorded_hash r path \<noteq> content_hash path)
    \<or> path \<in> set (failed_paths project (Some r))"
  using in_dirty_vs_fingerprint[OF assms, of path content_hash r] by (auto simp: changed_since_def)

section \<open>The properties of the reference\<close>

text \<open>
  Round trip: a record whose commit is absent or a valid identifier is read back
  unchanged from the document written for it, under the root and project it was stored for,
  and the same document is refused for any other root or project.
\<close>

theorem record_roundtrip:
  assumes "case lg_commit r of None \<Rightarrow> True | Some s \<Rightarrow> valid_sha s"
  shows "decode_record root_dir project (Some (encode_record r)) =
    (if root_dir = lg_root r \<and> project = lg_project r then Some r else None)"
proof (cases "root_dir = lg_root r \<and> project = lg_project r")
  case True
  then show ?thesis using decode_encode[OF assms] by simp
next
  case False
  then show ?thesis by (auto simp: decode_record_def encode_record_def)
qed

definition example_record :: green_record where
  "example_record =
     \<lparr>lg_root = ''/r'', lg_project = [], lg_commit = Some (replicate 40 CHR ''a''), lg_recorded_at = 100,
      lg_files = [(''a.py'', Some ''h1''), (''gone.py'', None)], lg_last_failed = [''tests/test_a.py'']\<rparr>"

lemma record_roundtrip_witness:
  "decode_record ''/r'' [] (Some (encode_record example_record)) = Some example_record
   \<and> decode_record ''/other'' [] (Some (encode_record example_record)) = None"
proof -
  have sha: "case lg_commit example_record of None \<Rightarrow> True | Some s \<Rightarrow> valid_sha s" by code_simp
  have fields: "lg_root example_record = ''/r''" "lg_project example_record = []"
    by (simp_all add: example_record_def)
  show ?thesis by (simp add: record_roundtrip[OF sha] fields)
qed



text \<open>
  What a consultation misses: of the paths that were neither committed since nor failed,
  one that is no longer dirty is not reported whatever hash was recorded for it (a revert to
  the commit), and neither is a dirty one without a recorded hash whose content cannot be
  read (a deletion).
\<close>

theorem changes_not_noticed:
  assumes "plain_paths project (Some paths)"
    and "path \<notin> set paths \<or> recorded_hash r path = None \<and> content_hash path = None"
    and "path \<notin> set committed" and "path \<notin> set (failed_paths project (Some r))"
  shows "path \<notin> set (changed_since content_hash committed (Some paths) project r)"
  using assms(2-4) by (auto simp: in_changed_since[OF assms(1)])

lemma changes_not_noticed_witness:
  "recorded_hash example_record ''a.py'' = Some ''h1''
   \<and> ''a.py'' \<notin> set (changed_since (\<lambda>_. Some ''h0'') [] (Some []) [] example_record)
   \<and> ''lib.py'' \<notin> set (changed_since (\<lambda>_. None) [] (Some [''lib.py'']) [] example_record)"
proof (intro conjI)
  show "recorded_hash example_record ''a.py'' = Some ''h1''" by code_simp
  show "''a.py'' \<notin> set (changed_since (\<lambda>_. Some ''h0'') [] (Some []) [] example_record)"
    by (rule changes_not_noticed) (code_simp | simp add: plain_paths_def)+
  show "''lib.py'' \<notin> set (changed_since (\<lambda>_. None) [] (Some [''lib.py'']) [] example_record)"
    by (rule changes_not_noticed) (code_simp | simp add: plain_paths_def)+
qed

end
