(* ===== verification/Impact_Plan.thy ===== *)
theory Impact_Plan
  imports Select_Policy Monorepo_Routing
begin

text \<open>
  The changed-by-default planner (\<^verbatim>\<open>src/ptest/impact.py\<close>): the base of the diff, the
  filter every changed set passes through, and the selection of test files by the static
  reverse-import graph (\<^verbatim>\<open>contracts.selection_static_reach\<close>).

  Git, the directory tree, the parsed project index and the import statements the Python
  parser finds in a file are arguments. The texts of the reasons are constructors;
  \<open>full_ratio\<close> is a rational number.
\<close>

definition MAX_SELECTED :: nat where "MAX_SELECTED = 200"

section \<open>The base of the diff\<close>

record diff_base =
  db_sha :: "string option"
  db_label :: string

definition git_text :: "string option \<Rightarrow> string option" where
  "git_text raw =
     (case raw of
        None \<Rightarrow> None
      | Some out \<Rightarrow> (if \<not> utf8_valid out \<or> strip out = [] then None else Some (strip out)))"

definition rev_parse_ok :: "(string list \<Rightarrow> string option) \<Rightarrow> string \<Rightarrow> bool" where
  "rev_parse_ok git ref = (git [''rev-parse'', ''--verify'', ''--quiet'', ref @ ''^{commit}'', ''--''] \<noteq> None)"

definition merge_base :: "(string list \<Rightarrow> string option) \<Rightarrow> string \<Rightarrow> string option" where
  "merge_base git ref = git_text (git [''merge-base'', ''HEAD'', ref, ''--''])"

definition ORIGIN :: string where "ORIGIN = ''refs/remotes/origin/''"

definition default_ref :: "(string list \<Rightarrow> string option) \<Rightarrow> string option" where
  "default_ref git =
     (let target = (case git [''symbolic-ref'', ''--quiet'', ''refs/remotes/origin/HEAD''] of
                      None \<Rightarrow> [] | Some out \<Rightarrow> if utf8_valid out then strip out else [])
      in if starts_with ORIGIN target \<and> rev_parse_ok git target
         then Some (drop (length ''refs/remotes/'') target)
         else find (\<lambda>name. rev_parse_ok git (''refs/heads/'' @ name)) [''main'', ''master'', ''dev''])"

definition current_branch :: "(string list \<Rightarrow> string option) \<Rightarrow> string option" where
  "current_branch git = git_text (git [''rev-parse'', ''--abbrev-ref'', ''HEAD''])"

text \<open>The first argument says whether there is a repository; \<open>Inl\<close> is the rejected option.\<close>

definition resolve_base :: "bool \<Rightarrow> (string list \<Rightarrow> string option) \<Rightarrow> string option \<Rightarrow> problem + diff_base" where
  "resolve_base in_repo git explicit =
     (case explicit of
        Some ref \<Rightarrow>
          (if \<not> in_repo then Inl (invalid_config ''--base needs a git repository'')
           else if ref = [] \<or> starts_with ''-'' ref \<or> NUL \<in> set ref \<or> \<not> rev_parse_ok git ref
           then Inl (invalid_config ''--base is not a commit in this repository'')
           else (case merge_base git ref of
                   None \<Rightarrow> Inl (invalid_config ''--base is not a commit in this repository'')
                 | Some sha \<Rightarrow> Inr \<lparr>db_sha = Some sha, db_label = ref\<rparr>))
      | None \<Rightarrow>
          (let head = \<lparr>db_sha = None, db_label = ''HEAD''\<rparr> in
           if \<not> in_repo then Inr head
           else (case default_ref git of
                   None \<Rightarrow> Inr head
                 | Some ref \<Rightarrow>
                     (if current_branch git = Some (basename ref) then Inr head
                      else (case merge_base git ref of
                              None \<Rightarrow> Inr head
                            | Some sha \<Rightarrow> Inr \<lparr>db_sha = Some sha, db_label = ref\<rparr>)))))"

section \<open>Classes of paths\<close>

datatype runner_kind = Pytest | Vitest | Go | Cargo | Command

record project_config =
  cf_policy :: policy
  cf_kind :: runner_kind
  cf_test_roots :: "string list"

text \<open>What the planner reads of the directory tree; \<open>None\<close> is a failing call.\<close>

record tree =
  tr_is_dir :: "string \<Rightarrow> bool option"
  tr_has_py :: "string \<Rightarrow> bool"
  tr_is_file :: "string \<Rightarrow> bool"
  tr_parses :: "string \<Rightarrow> bool"

definition lower_char :: "char \<Rightarrow> char" where
  "lower_char c = (if between 65 90 c then char_of (char_code c + 32) else c)"

definition lower :: "string \<Rightarrow> string" where
  "lower s = map lower_char s"

definition segments :: "string \<Rightarrow> string list" where
  "segments path = split_on (CHR ''/'') path"

definition TRIGGER_BASENAMES :: "string list" where
  "TRIGGER_BASENAMES =
     [''uv.lock'', ''poetry.lock'', ''Pipfile.lock'', ''pyproject.toml'', ''setup.py'', ''setup.cfg'', ''pytest.ini'',
      ''tox.ini'', ''conftest.py'', ''package.json'', ''package-lock.json'', ''pnpm-lock.yaml'', ''yarn.lock'',
      ''.ptest.toml'']"

definition CONFIG_PREFIXES :: "string list" where
  "CONFIG_PREFIXES = [''vitest.config.'', ''vite.config.'', ''jest.config.'']"

definition OUTPUT_DIRS :: "string list" where
  "OUTPUT_DIRS =
     [''build'', ''dist'', ''node_modules'', ''.venv'', ''venv'', ''__pycache__'', ''.pytest_cache'', ''.mypy_cache'',
      ''.ruff_cache'', ''.tox'', ''htmlcov'', ''.hypothesis'']"

definition VITEST_CODE_EXTS :: "string list" where
  "VITEST_CODE_EXTS = [''.js'', ''.jsx'', ''.ts'', ''.tsx'', ''.mjs'', ''.cjs'', ''.mts'', ''.cts'']"

definition is_output :: "string \<Rightarrow> bool" where
  "is_output path \<longleftrightarrow>
     (\<exists>part\<in>set (segments path). part \<in> set OUTPUT_DIRS \<or> ends_with ''.egg-info'' part)
     \<or> basename path = ''.coverage'' \<or> starts_with ''.coverage.'' (basename path)"

definition is_code_file :: "string \<Rightarrow> runner_kind \<Rightarrow> bool" where
  "is_code_file path kind \<longleftrightarrow>
     (if kind = Vitest then \<exists>ext\<in>set VITEST_CODE_EXTS. ends_with ext (lower path)
      else ends_with ''.py'' (lower path))"

definition is_trigger_basename :: "string \<Rightarrow> bool" where
  "is_trigger_basename name \<longleftrightarrow>
     name \<in> set TRIGGER_BASENAMES \<or> (\<exists>p\<in>set CONFIG_PREFIXES. starts_with p name) \<or> requirements_name name"

definition is_test_basename :: "string \<Rightarrow> bool" where
  "is_test_basename name \<longleftrightarrow>
     (starts_with ''test_'' name \<and> ends_with ''.py'' name) \<or> ends_with ''_test.py'' name"

definition under_root :: "string \<Rightarrow> string \<Rightarrow> bool" where
  "under_root path base \<longleftrightarrow> base = ''.'' \<or> path = base \<or> starts_with (base @ ''/'') path"

definition is_test_file :: "string \<Rightarrow> string list \<Rightarrow> bool" where
  "is_test_file path roots \<longleftrightarrow> is_test_basename (basename path) \<and> (\<exists>base\<in>set roots. under_root path base)"

definition is_test_support :: "string \<Rightarrow> string list \<Rightarrow> bool" where
  "is_test_support path roots \<longleftrightarrow>
     (\<exists>base\<in>set roots.
        if base = ''.'' then ''tests'' \<in> set (butlast (segments path)) \<or> ''test'' \<in> set (butlast (segments path))
        else under_root path base)"

definition is_ignored :: "string \<Rightarrow> policy \<Rightarrow> string list \<Rightarrow> bool" where
  "is_ignored path p roots \<longleftrightarrow>
     (\<exists>part\<in>set (segments path). starts_with ''.'' part)
     \<or> (\<exists>suffix\<in>{''.md'', ''.rst'', ''.txt''}. ends_with suffix (lower path))
     \<or> last (segments path) \<in> {''LICENSE'', ''CODEOWNERS''}
     \<or> path_matches path (po_no_tests p) \<or> path_matches path (po_ignored_inputs p)
     \<or> path_matches path (non_input_outputs p roots)"

text \<open>\<^verbatim>\<open>_inside_code_area\<close>: the ancestors from the top down.\<close>

fun code_ancestor :: "tree \<Rightarrow> string list \<Rightarrow> bool" where
  "code_ancestor tr [] = False"
| "code_ancestor tr (d # ds) =
     (case tr_is_dir tr d of
        None \<Rightarrow> True
      | Some False \<Rightarrow> False
      | Some True \<Rightarrow> (if tr_has_py tr d then True else code_ancestor tr ds))"

definition inside_code_area :: "tree \<Rightarrow> string \<Rightarrow> string list \<Rightarrow> bool" where
  "inside_code_area tr path roots \<longleftrightarrow>
     (\<exists>base\<in>set roots. under_root path base) \<or> code_ancestor tr (dir_prefixes path)"

section \<open>The filter of the changed set\<close>

datatype path_class = Relevant | Noted | Dropped

definition classify_path :: "tree \<Rightarrow> project_config \<Rightarrow> string \<Rightarrow> path_class" where
  "classify_path tr cf path =
     (if is_code_file path (cf_kind cf)
      then (if is_ignored path (cf_policy cf) (cf_test_roots cf) then Noted else Relevant)
      else if cf_kind cf \<in> {Pytest, Vitest} \<and> \<not> inside_code_area tr path (cf_test_roots cf) then Dropped
      else if is_ignored path (cf_policy cf) (cf_test_roots cf) then Noted
      else Relevant)"

definition split_scoped :: "tree \<Rightarrow> project_config \<Rightarrow> string list \<Rightarrow> string list \<times> string list \<times> nat" where
  "split_scoped tr cf scoped =
     (filter (\<lambda>p. classify_path tr cf p = Relevant) scoped, filter (\<lambda>p. classify_path tr cf p = Noted) scoped,
      length (filter (\<lambda>p. classify_path tr cf p = Dropped) scoped))"

text \<open>The paths below the project, relative to it; the prefix is empty for the top level.\<close>

definition below :: "string \<Rightarrow> string list \<Rightarrow> string list" where
  "below pre paths =
     (if pre = [] then paths
      else map (drop (length pre + 1)) (filter (\<lambda>p. p = pre \<or> starts_with (pre @ ''/'') p) paths))"

definition relevant_paths :: "tree \<Rightarrow> project_config \<Rightarrow> string option \<Rightarrow> string list \<Rightarrow> string set" where
  "relevant_paths tr cf pre paths =
     (case pre of
        None \<Rightarrow> {}
      | Some base \<Rightarrow>
          set (fst (split_scoped tr cf (filter (\<lambda>p. \<not> is_output p) (sorted_set (below base paths))))))"

section \<open>Reachability over the reverse-import graph\<close>

type_synonym reverse_graph = "(string \<times> string list) list"

definition importers :: "reverse_graph \<Rightarrow> string \<Rightarrow> string list" where
  "importers graph path = (case map_of graph path of None \<Rightarrow> [] | Some xs \<Rightarrow> xs)"

definition all_importers :: "reverse_graph \<Rightarrow> string list" where
  "all_importers graph = concat (map snd graph)"

definition fresh_importers :: "reverse_graph \<Rightarrow> string list \<Rightarrow> string \<Rightarrow> string list" where
  "fresh_importers graph seen path = remdups (filter (\<lambda>x. x \<notin> set seen) (importers graph path))"

text \<open>Pushing unseen members of a finite set moves them out of what is left to see.\<close>

lemma unseen_shrinks:
  assumes "finite A" "set new \<subseteq> A - S" "distinct new"
  shows "length new + card (A - (set new \<union> S)) = card (A - S)"
proof -
  have "A - (set new \<union> S) = (A - S) - set new" by blast
  then have "card (A - (set new \<union> S)) = card (A - S) - card (set new)"
    using assms by (simp add: card_Diff_subset)
  moreover have "card (set new) \<le> card (A - S)"
    using assms by (simp add: card_mono)
  ultimately show ?thesis
    using assms distinct_card [of new] by simp
qed

lemma importers_all: "set (importers graph path) \<subseteq> set (all_importers graph)"
proof (cases "map_of graph path")
  case (Some xs)
  then have "xs \<in> snd ` set graph" by (force dest: map_of_SomeD)
  with Some show ?thesis by (auto simp: importers_def all_importers_def)
qed (simp add: importers_def)

lemma fresh_importers_unseen:
  "set (fresh_importers graph seen path) \<subseteq> set (all_importers graph) - set seen"
  using importers_all [of graph path] by (auto simp: fresh_importers_def)

lemma distinct_fresh_importers [simp]: "distinct (fresh_importers graph seen path)"
  by (simp add: fresh_importers_def)

text \<open>The worklist: the paths seen so far and the stack.\<close>

function reach_from :: "reverse_graph \<Rightarrow> string list \<Rightarrow> string list \<Rightarrow> string list" where
  "reach_from graph seen [] = seen"
| "reach_from graph seen (path # stack) =
     reach_from graph (fresh_importers graph seen path @ seen) (rev (fresh_importers graph seen path) @ stack)"
  by pat_completeness auto
termination
  by (relation "measure (\<lambda>(graph, seen, stack). length stack + card (set (all_importers graph) - set seen))")
     (auto simp: unseen_shrinks [OF finite_set fresh_importers_unseen distinct_fresh_importers])

definition static_reach :: "reverse_graph \<Rightarrow> string list \<Rightarrow> string list" where
  "static_reach graph seeds = reach_from graph (remdups seeds) (rev seeds)"

section \<open>The verdict\<close>

datatype full_reason =
    Git_unavailable
  | Full_trigger string
  | No_import_graph
  | Selection_off
  | Outside_graph string
  | Test_support string
  | Unparsed string
  | Graph_too_large
  | Reaches_ratio nat nat
  | Too_many nat

datatype impact_kind = Full full_reason | Nothing | Vitest_run | Selected

text \<open>\<^verbatim>\<open>Impact\<close>: the fields this module sets; the engine is \<^verbatim>\<open>static\<close> exactly where \<open>im_dynamic_ok\<close> holds.\<close>

record impact =
  im_kind :: impact_kind
  im_changed :: "string list"
  im_files :: "string list"
  im_direct :: nat
  im_via :: nat
  im_total :: nat
  im_ignored :: nat
  im_dynamic_ok :: bool
  im_relevant :: "string list"

definition impact_of :: "impact_kind \<Rightarrow> string list \<Rightarrow> nat \<Rightarrow> impact" where
  "impact_of kind changed dropped =
     \<lparr>im_kind = kind, im_changed = changed, im_files = [], im_direct = 0, im_via = 0, im_total = 0,
      im_ignored = dropped, im_dynamic_ok = False, im_relevant = []\<rparr>"

text \<open>The common last step: the bounds on the number of selected files.\<close>

definition bounded_verdict :: "rat \<Rightarrow> string list \<Rightarrow> nat \<Rightarrow> nat \<Rightarrow> string list \<Rightarrow> string list \<Rightarrow> impact" where
  "bounded_verdict full_ratio changed dropped tests direct via =
     (let files = sorted_set (direct @ via) in
      if files = [] then impact_of Nothing changed dropped
      else if 0 < tests \<and> of_nat (length files) \<ge> full_ratio * of_nat tests
      then impact_of (Full (Reaches_ratio (length files) tests)) changed dropped
      else if length files > MAX_SELECTED then impact_of (Full (Too_many (length files))) changed dropped
      else (impact_of Selected changed dropped)
             \<lparr>im_files := files, im_direct := length direct, im_via := length via, im_total := tests\<rparr>)"

section \<open>Verdicts from one complete project index\<close>

text \<open>What the planner reads of \<^verbatim>\<open>contracts.ProjectIndex\<close>; \<open>ix_missing\<close> is \<^verbatim>\<open>missing_seed_importers\<close>.\<close>

record project_index =
  ix_complete :: bool
  ix_parsed :: "string \<Rightarrow> bool option"
  ix_test_files :: "string list"
  ix_reverse :: reverse_graph
  ix_missing :: "string list \<Rightarrow> reverse_graph"

definition classify_changed :: "tree \<Rightarrow> string list \<Rightarrow> string list \<Rightarrow> string list \<times> string list" where
  "classify_changed tr roots relevant =
     (let py = filter (ends_with ''.py'') (sort relevant) in
      (remdups (filter (\<lambda>p. is_test_file p roots \<and> tr_is_file tr p) py),
       filter (\<lambda>p. \<not> is_test_file p roots \<and> \<not> is_test_support p roots) py))"

definition parse_untracked :: "tree \<Rightarrow> string \<Rightarrow> bool" where
  "parse_untracked tr path \<longleftrightarrow> (if \<not> tr_is_file tr path then True else tr_parses tr path)"

text \<open>The first path that rules a selection out, with whether a dynamic engine may still decide.\<close>

fun first_blocker :: "tree \<Rightarrow> string list \<Rightarrow> (string \<Rightarrow> bool option) \<Rightarrow> string list \<Rightarrow> (full_reason \<times> bool) option" where
  "first_blocker tr roots parsed [] = None"
| "first_blocker tr roots parsed (path # paths) =
     (if \<not> ends_with ''.py'' path then Some (Outside_graph path, True)
      else if is_test_file path roots then first_blocker tr roots parsed paths
      else if is_test_support path roots then Some (Test_support path, True)
      else if \<not> (case parsed path of Some ok \<Rightarrow> ok | None \<Rightarrow> parse_untracked tr path) then Some (Unparsed path, False)
      else first_blocker tr roots parsed paths)"

definition merge_importers :: "reverse_graph \<Rightarrow> reverse_graph \<Rightarrow> reverse_graph" where
  "merge_importers graph extra = map (\<lambda>(seed, xs). (seed, importers graph seed @ xs)) extra @ graph"

definition dynamic :: "string list \<Rightarrow> impact \<Rightarrow> impact" where
  "dynamic relevant im = im\<lparr>im_dynamic_ok := True, im_relevant := relevant\<rparr>"

definition plan_with_index ::
  "tree \<Rightarrow> project_config \<Rightarrow> string list \<Rightarrow> nat \<Rightarrow> string list \<Rightarrow> string list \<Rightarrow> string list \<Rightarrow> project_index \<Rightarrow> impact" where
  "plan_with_index tr cf changed dropped relevant direct seeds index =
     (let now = sort relevant in
      case first_blocker tr (cf_test_roots cf) (ix_parsed index) now of
        Some (reason, dynamic_ok) \<Rightarrow>
          (if dynamic_ok then dynamic now (impact_of (Full reason) changed dropped)
           else (impact_of (Full reason) changed dropped)\<lparr>im_relevant := now\<rparr>)
      | None \<Rightarrow>
          (let reached = static_reach (merge_importers (ix_reverse index) (ix_missing index seeds)) seeds;
               via = filter (\<lambda>p. p \<in> set (ix_test_files index) \<and> p \<notin> set direct) reached;
               verdict = bounded_verdict (po_full_ratio (cf_policy cf)) changed dropped
                           (length (ix_test_files index)) direct via
           in if im_kind verdict = Nothing \<and> now = [] then verdict\<lparr>im_relevant := now\<rparr> else dynamic now verdict))"

section \<open>The 0.4 verdicts, for an incomplete index\<close>

text \<open>
  \<^verbatim>\<open>_iter_py_files\<close>: the entries of a directory in sorted order; \<open>None\<close> for one
  that cannot be listed. The stack of the source visits the last subdirectory first.
\<close>

datatype entry = Symlink | Regular | Special | Directory "(string \<times> entry) list option"

definition SKIP_DIRS :: "string list" where
  "SKIP_DIRS =
     [''node_modules'', ''__pycache__'', ''site-packages'', ''build'', ''dist'', ''venv'', ''.tox'', ''htmlcov'']"

definition skipped_dir :: "string \<Rightarrow> bool" where
  "skipped_dir name \<longleftrightarrow> starts_with ''.'' name \<or> name \<in> set SKIP_DIRS \<or> ends_with ''.egg-info'' name"

definition child_path :: "string \<Rightarrow> string \<Rightarrow> string" where
  "child_path dir name = (if dir = [] then name else dir @ ''/'' @ name)"

fun py_here :: "string \<Rightarrow> (string \<times> entry) list \<Rightarrow> string list" where
  "py_here dir [] = []"
| "py_here dir ((name, Regular) # es) =
     (if ends_with ''.py'' name then [child_path dir name] else []) @ py_here dir es"
| "py_here dir ((name, _) # es) = py_here dir es"

fun iter_py_files :: "string \<Rightarrow> entry \<Rightarrow> string list" and py_below :: "string \<Rightarrow> (string \<times> entry) list \<Rightarrow> string list" where
  "iter_py_files dir (Directory (Some es)) = py_here dir es @ py_below dir es"
| "iter_py_files dir (Directory None) = []"
| "iter_py_files dir Symlink = []"
| "iter_py_files dir Regular = []"
| "iter_py_files dir Special = []"
| "py_below dir [] = []"
| "py_below dir ((name, e) # es) =
     py_below dir es @ (if skipped_dir name then [] else iter_py_files (child_path dir name) e)"

text \<open>Module names: from the root, without a leading \<^verbatim>\<open>src\<close>, and from the package root.\<close>

definition strip_suffix :: "string \<Rightarrow> string \<Rightarrow> string" where
  "strip_suffix suffix s = take (length s - length suffix) s"

definition dotted :: "string list \<Rightarrow> string" where
  "dotted parts = join_with ''.'' parts"

definition module_parts :: "string list \<Rightarrow> string \<Rightarrow> string list" where
  "module_parts dirs filename =
     (if filename = ''__init__.py'' then dirs
      else if ends_with ''.py'' filename then dirs @ [strip_suffix ''.py'' filename]
      else dirs @ [filename])"

fun package_tail :: "(string \<Rightarrow> bool) \<Rightarrow> string list \<Rightarrow> string list \<Rightarrow> string list" where
  "package_tail has_init [] acc = acc"
| "package_tail has_init (d # ds) acc =
     (if has_init (join_with ''/'' (rev (d # ds))) then package_tail has_init ds (d # acc) else acc)"

definition module_names :: "(string \<Rightarrow> bool) \<Rightarrow> string \<Rightarrow> string list" where
  "module_names has_init rel =
     (let dirs = butlast (segments rel); filename = last (segments rel) in
      if filename \<noteq> ''__init__.py'' \<and> \<not> ends_with ''.py'' filename then []
      else let mods = module_parts dirs filename;
               package = module_parts (package_tail has_init (rev dirs) []) filename
           in sorted_set
                ((if mods = [] then [] else [dotted mods])
                 @ (if 1 < length mods \<and> hd mods = ''src'' then [dotted (tl mods)] else [])
                 @ (if package \<noteq> [] \<and> package \<noteq> mods then [dotted package] else [])))"

definition package_name :: "string \<Rightarrow> string" where
  "package_name rel = dotted (butlast (segments rel))"

text \<open>The import statements of a file: \<^verbatim>\<open>import a.b\<close> and \<^verbatim>\<open>from ..m import x\<close>.\<close>

datatype import_stmt = Import "string list" | Import_from nat "string option" "string list"

definition dotted_prefixes :: "string \<Rightarrow> string list" where
  "dotted_prefixes s =
     map (\<lambda>i. dotted (take i (split_on (CHR ''.'') s))) [1..<Suc (length (split_on (CHR ''.'') s))]"

definition strip_dots :: "string \<Rightarrow> string" where
  "strip_dots s = rev (dropWhile (\<lambda>c. c = CHR ''.'') (rev (dropWhile (\<lambda>c. c = CHR ''.'') s)))"

definition nonempty_name :: "string option \<Rightarrow> string" where
  "nonempty_name m = (case m of None \<Rightarrow> [] | Some s \<Rightarrow> s)"

definition import_head :: "string \<Rightarrow> nat \<Rightarrow> string option \<Rightarrow> string" where
  "import_head package level from_name =
     (if level = 0 then nonempty_name from_name
      else let parts = (if package = [] then [] else split_on (CHR ''.'') package) in
           if level - 1 > length parts then []
           else let base = dotted (take (length parts - level + 1) parts) in
                strip_dots (if nonempty_name from_name = [] then base else base @ ''.'' @ nonempty_name from_name))"

fun import_edge :: "string \<Rightarrow> import_stmt \<Rightarrow> string list" where
  "import_edge package (Import names) = concat (map dotted_prefixes names)"
| "import_edge package (Import_from level from_name names) =
     (let head = import_head package level from_name in
      if head = [] then []
      else dotted_prefixes head @ map (\<lambda>n. head @ ''.'' @ n) (filter (\<lambda>n. n \<noteq> ''*'') names))"

definition import_edges :: "import_stmt list \<Rightarrow> string \<Rightarrow> string list" where
  "import_edges stmts package = remdups (concat (map (import_edge package) stmts))"

text \<open>
  The files read of the tree: \<open>sc_imports\<close> is \<open>None\<close> for a file that cannot be read
  or parsed (the source then has no edge of it), \<open>sc_has_init\<close> whether a directory holds
  an \<^verbatim>\<open>__init__.py\<close>.
\<close>

record sources =
  sc_root :: entry
  sc_has_init :: "string \<Rightarrow> bool"
  sc_imports :: "string \<Rightarrow> import_stmt list option"

definition edges_of :: "sources \<Rightarrow> string \<Rightarrow> string list" where
  "edges_of sc rel = (case sc_imports sc rel of None \<Rightarrow> [] | Some stmts \<Rightarrow> import_edges stmts (package_name rel))"

definition importers_of_name :: "sources \<Rightarrow> string list \<Rightarrow> string \<Rightarrow> string list" where
  "importers_of_name sc files name = filter (\<lambda>rel. name \<in> set (edges_of sc rel)) files"

definition names_of :: "sources \<Rightarrow> string list \<Rightarrow> string list" where
  "names_of sc rels = concat (map (module_names (sc_has_init sc)) rels)"

definition new_files :: "sources \<Rightarrow> string list \<Rightarrow> string list \<Rightarrow> string \<Rightarrow> string list" where
  "new_files sc files reached name = remdups (filter (\<lambda>rel. rel \<notin> set reached) (importers_of_name sc files name))"

definition new_names :: "sources \<Rightarrow> string list \<Rightarrow> string list \<Rightarrow> string list" where
  "new_names sc seen rels = remdups (filter (\<lambda>n. n \<notin> set seen) (names_of sc rels))"

lemma new_names_unseen: "set (new_names sc seen (new_files sc files reached name)) \<subseteq> set (names_of sc files) - set seen"
  by (auto simp: new_names_def new_files_def names_of_def importers_of_name_def)

lemma distinct_new_names [simp]: "distinct (new_names sc seen rels)"
  by (simp add: new_names_def)

text \<open>The worklist over module names: names seen, files reached and the queue.\<close>

function legacy_reach :: "sources \<Rightarrow> string list \<Rightarrow> string list \<Rightarrow> string list \<Rightarrow> string list \<Rightarrow> string list" where
  "legacy_reach sc files seen reached [] = reached"
| "legacy_reach sc files seen reached (name # queue) =
     (let rels = new_files sc files reached name in
      legacy_reach sc files (new_names sc seen rels @ seen) (rels @ reached) (rev (new_names sc seen rels) @ queue))"
  by pat_completeness auto
termination
  by (relation "measure (\<lambda>(sc, files, seen, reached, queue). length queue + card (set (names_of sc files) - set seen))")
     (auto simp: unseen_shrinks [OF finite_set new_names_unseen distinct_new_names])

definition legacy_blocker :: "tree \<Rightarrow> string list \<Rightarrow> string list \<Rightarrow> full_reason option" where
  "legacy_blocker tr roots paths = map_option fst (first_blocker tr roots (\<lambda>_. None) paths)"

definition MAX_SCAN_FILES :: nat where "MAX_SCAN_FILES = 20000"

definition legacy_tail :: "tree \<Rightarrow> sources \<Rightarrow> project_config \<Rightarrow> string list \<Rightarrow> nat \<Rightarrow> string list \<Rightarrow> impact" where
  "legacy_tail tr sc cf changed dropped relevant =
     (let roots = cf_test_roots cf;
          files = iter_py_files [] (sc_root sc);
          tests = length (filter (\<lambda>rel. is_test_file rel roots) files);
          (direct, seeds) = classify_changed tr roots relevant
      in case legacy_blocker tr roots (sort relevant) of
           Some reason \<Rightarrow> impact_of (Full reason) changed dropped
         | None \<Rightarrow>
             (if seeds \<noteq> [] \<and> length files > MAX_SCAN_FILES then impact_of (Full Graph_too_large) changed dropped
              else let queue = names_of sc seeds;
                       reached = (if seeds = [] then [] else legacy_reach sc files (remdups queue) [] (rev queue));
                       via = filter (\<lambda>rel. is_test_file rel roots \<and> rel \<notin> set direct) reached
                   in bounded_verdict (po_full_ratio (cf_policy cf)) changed dropped tests direct via))"

section \<open>The plan\<close>

text \<open>\<open>pre\<close> is the project below the repository, \<open>None\<close> when there is none.\<close>

definition outside_trigger :: "string \<Rightarrow> string list \<Rightarrow> string option" where
  "outside_trigger pre changed =
     (if pre = [] then None
      else find (\<lambda>path. \<not> (path = pre \<or> starts_with (pre @ ''/'') path)
                        \<and> is_trigger_basename (basename path)
                        \<and> (butlast (segments path) = []
                           \<or> path_matches pre [join_with ''/'' (butlast (segments path))]))
             (sort changed))"

definition inside_trigger :: "policy \<Rightarrow> string list \<Rightarrow> string option" where
  "inside_trigger p scoped =
     find (\<lambda>path. is_trigger_basename (basename path) \<or> path_matches path (po_full_triggers p)) scoped"

definition plan_scoped :: "tree \<Rightarrow> sources \<Rightarrow> project_index \<Rightarrow> project_config \<Rightarrow> nat \<Rightarrow> string list \<Rightarrow> impact" where
  "plan_scoped tr sc index cf outputs scoped =
     (let (relevant, noted, outside) = split_scoped tr cf scoped;
          dropped = outputs + outside;
          changed = sort relevant @ sort noted
      in if relevant = [] then impact_of Nothing changed dropped
         else if cf_kind cf = Vitest then impact_of Vitest_run changed dropped
         else if cf_kind cf \<noteq> Pytest then impact_of (Full No_import_graph) changed dropped
         else if \<not> po_enabled (cf_policy cf) then impact_of (Full Selection_off) changed dropped
         else if ix_complete index
         then let (direct, seeds) = classify_changed tr (cf_test_roots cf) relevant
              in plan_with_index tr cf changed dropped relevant direct seeds index
         else (legacy_tail tr sc cf changed dropped relevant)\<lparr>im_relevant := sort relevant\<rparr>)"

definition impact_plan ::
  "tree \<Rightarrow> sources \<Rightarrow> project_index \<Rightarrow> project_config \<Rightarrow> string option \<Rightarrow> string list option \<Rightarrow> impact" where
  "impact_plan tr sc index cf location repo_changed =
     (case (location, repo_changed) of
        (Some pre, Some changed) \<Rightarrow>
          (let under = sort (below pre changed); scoped = filter (\<lambda>p. \<not> is_output p) under in
           case outside_trigger pre changed of
             Some path \<Rightarrow> impact_of (Full (Full_trigger path)) [] 0
           | None \<Rightarrow>
               (if under = [] then impact_of Nothing [] 0
                else (case inside_trigger (cf_policy cf) scoped of
                        Some path \<Rightarrow> impact_of (Full (Full_trigger path)) [] 0
                      | None \<Rightarrow> plan_scoped tr sc index cf (length under - length scoped) scoped)))
      | _ \<Rightarrow> impact_of (Full Git_unavailable) [] 0)"

section \<open>Lemmas\<close>

definition imported_by :: "reverse_graph \<Rightarrow> (string \<times> string) set" where
  "imported_by graph = {(path, importer). importer \<in> set (importers graph path)}"

lemma reach_from_keeps: "set seen \<subseteq> set (reach_from graph seen stack)"
  by (induction graph seen stack rule: reach_from.induct) auto

lemma reach_from_sound:
  assumes "\<And>x y. x \<in> R \<Longrightarrow> y \<in> set (importers graph x) \<Longrightarrow> y \<in> R"
  shows "set seen \<subseteq> R \<Longrightarrow> set stack \<subseteq> R \<Longrightarrow> set (reach_from graph seen stack) \<subseteq> R"
  using assms
proof (induction graph seen stack rule: reach_from.induct)
  case (2 graph seen path stack)
  have "set (fresh_importers graph seen path) \<subseteq> R"
    using 2(3) 2(4) [of path] by (auto simp: fresh_importers_def)
  then show ?case using 2 by simp
qed simp

lemma reach_from_closed:
  "set stack \<subseteq> set seen \<Longrightarrow> \<forall>x\<in>set seen - set stack. set (importers graph x) \<subseteq> set seen \<Longrightarrow>
   x \<in> set (reach_from graph seen stack) \<Longrightarrow> set (importers graph x) \<subseteq> set (reach_from graph seen stack)"
proof (induction graph seen stack rule: reach_from.induct)
  case (2 graph seen path stack)
  let ?new = "fresh_importers graph seen path"
  have covers: "set (importers graph path) \<subseteq> set ?new \<union> set seen"
    by (auto simp: fresh_importers_def)
  have "\<forall>x\<in>set (?new @ seen) - set (rev ?new @ stack). set (importers graph x) \<subseteq> set (?new @ seen)"
  proof
    fix z assume z: "z \<in> set (?new @ seen) - set (rev ?new @ stack)"
    show "set (importers graph z) \<subseteq> set (?new @ seen)"
    proof (cases "z = path")
      case True then show ?thesis using covers by auto
    next
      case False
      then have "z \<in> set seen - set (path # stack)" using z by auto
      then show ?thesis using 2(3) by fastforce
    qed
  qed
  moreover have "set (rev ?new @ stack) \<subseteq> set (?new @ seen)" using 2(2) by auto
  ultimately show ?case using 2(1) 2(4) by simp
qed auto

lemma static_reach_closed:
  "x \<in> set (static_reach graph seeds) \<Longrightarrow> set (importers graph x) \<subseteq> set (static_reach graph seeds)"
  unfolding static_reach_def by (rule reach_from_closed) auto

lemma static_reach_iff:
  "p \<in> set (static_reach graph seeds) \<longleftrightarrow> (\<exists>s\<in>set seeds. (s, p) \<in> (imported_by graph)\<^sup>*)"
proof
  let ?R = "{p. \<exists>s\<in>set seeds. (s, p) \<in> (imported_by graph)\<^sup>*}"
  have "set (static_reach graph seeds) \<subseteq> ?R"
    unfolding static_reach_def
    by (rule reach_from_sound) (auto simp: imported_by_def intro: rtrancl_into_rtrancl)
  then show "p \<in> set (static_reach graph seeds) \<Longrightarrow> \<exists>s\<in>set seeds. (s, p) \<in> (imported_by graph)\<^sup>*" by blast
next
  assume "\<exists>s\<in>set seeds. (s, p) \<in> (imported_by graph)\<^sup>*"
  then obtain s where s: "s \<in> set seeds" and path: "(s, p) \<in> (imported_by graph)\<^sup>*" by blast
  from path show "p \<in> set (static_reach graph seeds)"
  proof (induction rule: rtrancl_induct)
    case base
    then show ?case using s reach_from_keeps unfolding static_reach_def by fastforce
  next
    case (step y z)
    then show ?case using static_reach_closed by (auto simp: imported_by_def)
  qed
qed

lemma bounded_verdict_selected:
  assumes "im_kind (bounded_verdict r changed dropped tests direct via) = Selected"
  shows "set (im_files (bounded_verdict r changed dropped tests direct via)) = set direct \<union> set via"
    and "length (im_files (bounded_verdict r changed dropped tests direct via)) \<le> MAX_SELECTED"
    and "im_files (bounded_verdict r changed dropped tests direct via) \<noteq> []"
    and "0 < tests \<Longrightarrow> of_nat (length (im_files (bounded_verdict r changed dropped tests direct via))) < r * of_nat tests"
  using assms by (auto simp: bounded_verdict_def Let_def impact_of_def split: if_splits)

lemma bounded_verdict_nothing:
  "im_kind (bounded_verdict r changed dropped tests direct via) = Nothing \<Longrightarrow> direct = [] \<and> via = []"
  by (auto simp: bounded_verdict_def Let_def impact_of_def sorted_set_def split: if_splits)
     (metis append_is_Nil_conv remdups_eq_nil_iff set_empty set_sort)+

lemma first_blocker_none:
  "first_blocker tr roots parsed paths = None \<Longrightarrow> p \<in> set paths \<Longrightarrow>
   ends_with ''.py'' p \<and> (is_test_file p roots
     \<or> \<not> is_test_support p roots \<and> (case parsed p of Some ok \<Rightarrow> ok | None \<Rightarrow> parse_untracked tr p))"
  by (induction paths) (auto split: if_splits)

lemma split_scoped_relevant: "set (fst (split_scoped tr cf scoped)) = {p \<in> set scoped. classify_path tr cf p = Relevant}"
  by (auto simp: split_scoped_def)

lemma importers_merge: "set (importers graph path) \<subseteq> set (importers (merge_importers graph extra) path)"
proof (cases "map_of (map (\<lambda>(seed, xs). (seed, importers graph seed @ xs)) extra) path")
  case None
  then show ?thesis by (simp add: importers_def merge_importers_def map_add_def)
next
  case (Some ys)
  then have "\<exists>xs. ys = importers graph path @ xs" by (auto dest!: map_of_SomeD)
  moreover have "importers (merge_importers graph extra) path = ys"
    using Some by (simp add: merge_importers_def importers_def map_add_def)
  ultimately show ?thesis by auto
qed

lemma imported_by_merge: "imported_by graph \<subseteq> imported_by (merge_importers graph extra)"
  using importers_merge by (auto simp: imported_by_def)

lemma sort_Nil_iff [simp]: "sort xs = [] \<longleftrightarrow> xs = []"
  by (metis set_empty set_sort)

lemma relevant_paths_scoped:
  "relevant_paths tr cf (Some pre) changed =
     {p \<in> set (filter (\<lambda>p. \<not> is_output p) (sort (below pre changed))). classify_path tr cf p = Relevant}"
  by (auto simp: relevant_paths_def split_scoped_relevant)

text \<open>A verdict without a full run decides over the scoped paths.\<close>

lemma impact_plan_decided:
  assumes "im_kind (impact_plan tr sc index cf (Some pre) (Some changed)) \<in> {Selected, Nothing}"
    and "below pre changed \<noteq> []"
  shows "\<exists>outputs. impact_plan tr sc index cf (Some pre) (Some changed) =
           plan_scoped tr sc index cf outputs (filter (\<lambda>p. \<not> is_output p) (sort (below pre changed)))"
  using assms by (auto simp: impact_plan_def Let_def impact_of_def split: option.splits if_splits)

lemma classify_changed_direct:
  "p \<in> set (fst (classify_changed tr roots relevant)) \<longleftrightarrow>
     p \<in> set relevant \<and> ends_with ''.py'' p \<and> is_test_file p roots \<and> tr_is_file tr p"
  by (auto simp: classify_changed_def Let_def)

lemma classify_changed_seeds:
  "p \<in> set (snd (classify_changed tr roots relevant)) \<longleftrightarrow>
     p \<in> set relevant \<and> ends_with ''.py'' p \<and> \<not> is_test_file p roots \<and> \<not> is_test_support p roots"
  by (auto simp: classify_changed_def Let_def)

lemma dynamic_simps [simp]:
  "im_kind (dynamic relevant im) = im_kind im" "im_files (dynamic relevant im) = im_files im"
  "im_relevant (dynamic relevant im) = relevant" "im_dynamic_ok (dynamic relevant im)"
  by (simp_all add: dynamic_def)

lemma impact_of_simps [simp]:
  "im_kind (impact_of kind changed dropped) = kind" "im_files (impact_of kind changed dropped) = []"
  by (simp_all add: impact_of_def)

lemma bounded_verdict_files:
  assumes "im_kind (bounded_verdict r changed dropped tests direct via) \<in> {Selected, Nothing}"
  shows "set (im_files (bounded_verdict r changed dropped tests direct via)) = set direct \<union> set via"
proof (cases "im_kind (bounded_verdict r changed dropped tests direct via) = Selected")
  case True
  then show ?thesis by (rule bounded_verdict_selected(1))
next
  case False
  then have "direct = [] \<and> via = []" using assms bounded_verdict_nothing by blast
  then show ?thesis by (simp add: bounded_verdict_def sorted_set_def)
qed

lemma plan_with_index_files:
  assumes "im_kind (plan_with_index tr cf changed dropped relevant direct seeds index) \<in> {Selected, Nothing}"
  shows "first_blocker tr (cf_test_roots cf) (ix_parsed index) (sort relevant) = None"
    and "set (im_files (plan_with_index tr cf changed dropped relevant direct seeds index)) =
           set direct \<union> {p \<in> set (ix_test_files index).
             p \<in> set (static_reach (merge_importers (ix_reverse index) (ix_missing index seeds)) seeds)}"
proof -
  let ?via = "filter (\<lambda>p. p \<in> set (ix_test_files index) \<and> p \<notin> set direct)
                (static_reach (merge_importers (ix_reverse index) (ix_missing index seeds)) seeds)"
  let ?v = "bounded_verdict (po_full_ratio (cf_policy cf)) changed dropped (length (ix_test_files index)) direct ?via"
  show none: "first_blocker tr (cf_test_roots cf) (ix_parsed index) (sort relevant) = None"
    using assms by (auto simp: plan_with_index_def Let_def split: option.splits if_splits prod.splits)
  have same: "im_kind (plan_with_index tr cf changed dropped relevant direct seeds index) = im_kind ?v"
    "im_files (plan_with_index tr cf changed dropped relevant direct seeds index) = im_files ?v"
    using none by (auto simp: plan_with_index_def Let_def)
  show "set (im_files (plan_with_index tr cf changed dropped relevant direct seeds index)) =
           set direct \<union> {p \<in> set (ix_test_files index).
             p \<in> set (static_reach (merge_importers (ix_reverse index) (ix_missing index seeds)) seeds)}"
    using bounded_verdict_files [of "po_full_ratio (cf_policy cf)" changed dropped "length (ix_test_files index)" direct ?via]
      assms same by auto
qed

text \<open>With a complete index, a scoped verdict is the index's.\<close>

lemma plan_scoped_indexed:
  assumes "im_kind (plan_scoped tr sc index cf outputs scoped) \<in> {Selected, Nothing}"
    and "ix_complete index" "p \<in> set (fst (split_scoped tr cf scoped))"
  shows "\<exists>changed dropped. plan_scoped tr sc index cf outputs scoped =
      plan_with_index tr cf changed dropped (fst (split_scoped tr cf scoped))
        (fst (classify_changed tr (cf_test_roots cf) (fst (split_scoped tr cf scoped))))
        (snd (classify_changed tr (cf_test_roots cf) (fst (split_scoped tr cf scoped)))) index"
  using assms by (auto simp: plan_scoped_def Let_def case_prod_unfold split: if_splits)

lemma relevant_decided:
  assumes verdict: "im_kind (impact_plan tr sc index cf (Some pre) (Some changed)) \<in> {Selected, Nothing}"
    and complete: "ix_complete index" and p: "p \<in> relevant_paths tr cf (Some pre) changed"
  shows "ends_with ''.py'' p"
    and "is_test_file p (cf_test_roots cf) \<Longrightarrow> tr_is_file tr p \<Longrightarrow>
           p \<in> set (im_files (impact_plan tr sc index cf (Some pre) (Some changed)))"
    and "\<not> is_test_file p (cf_test_roots cf) \<Longrightarrow> (p, q) \<in> (imported_by (ix_reverse index))\<^sup>* \<Longrightarrow>
           q \<in> set (ix_test_files index) \<Longrightarrow>
           q \<in> set (im_files (impact_plan tr sc index cf (Some pre) (Some changed)))"
proof -
  let ?scoped = "filter (\<lambda>p. \<not> is_output p) (sort (below pre changed))"
  let ?rel = "fst (split_scoped tr cf ?scoped)"
  let ?cl = "classify_changed tr (cf_test_roots cf) ?rel"
  have rel: "p \<in> set ?rel" using p by (simp add: relevant_paths_scoped split_scoped_relevant)
  then have "below pre changed \<noteq> []" by (auto simp: split_scoped_relevant)
  then obtain outputs where 1: "impact_plan tr sc index cf (Some pre) (Some changed) = plan_scoped tr sc index cf outputs ?scoped"
    using impact_plan_decided [OF verdict] by auto
  obtain ch dr where 2: "plan_scoped tr sc index cf outputs ?scoped =
      plan_with_index tr cf ch dr ?rel (fst ?cl) (snd ?cl) index"
    using plan_scoped_indexed [OF _ complete rel] verdict 1 by metis
  have kind: "im_kind (plan_with_index tr cf ch dr ?rel (fst ?cl) (snd ?cl) index) \<in> {Selected, Nothing}"
    using verdict 1 2 by simp
  have ok: "ends_with ''.py'' p \<and> (is_test_file p (cf_test_roots cf) \<or> \<not> is_test_support p (cf_test_roots cf))"
    using first_blocker_none [OF plan_with_index_files(1) [OF kind], of p] rel by auto
  then show "ends_with ''.py'' p" by simp
  have files: "set (im_files (impact_plan tr sc index cf (Some pre) (Some changed))) =
      set (fst ?cl) \<union> {p \<in> set (ix_test_files index).
        p \<in> set (static_reach (merge_importers (ix_reverse index) (ix_missing index (snd ?cl))) (snd ?cl))}"
    using plan_with_index_files(2) [OF kind] 1 2 by simp
  show "is_test_file p (cf_test_roots cf) \<Longrightarrow> tr_is_file tr p \<Longrightarrow>
      p \<in> set (im_files (impact_plan tr sc index cf (Some pre) (Some changed)))"
    using files rel ok by (simp add: classify_changed_direct)
  assume nt: "\<not> is_test_file p (cf_test_roots cf)" and path: "(p, q) \<in> (imported_by (ix_reverse index))\<^sup>*"
    and q: "q \<in> set (ix_test_files index)"
  have "p \<in> set (snd ?cl)" using nt ok rel by (simp add: classify_changed_seeds)
  moreover have "(p, q) \<in> (imported_by (merge_importers (ix_reverse index) (ix_missing index (snd ?cl))))\<^sup>*"
    using path rtrancl_mono [OF imported_by_merge] by blast
  ultimately show "q \<in> set (im_files (impact_plan tr sc index cf (Some pre) (Some changed)))"
    using files q static_reach_iff by blast
qed

text \<open>What every scoped verdict keeps, whichever way it was reached.\<close>

definition scoped_ok :: "rat \<Rightarrow> impact \<Rightarrow> bool" where
  "scoped_ok r im \<longleftrightarrow>
     (im_kind im = Selected \<longrightarrow>
        im_files im \<noteq> [] \<and> length (im_files im) \<le> MAX_SELECTED \<and> sorted (im_files im) \<and> distinct (im_files im)
        \<and> (im_total im = 0 \<or> of_nat (length (im_files im)) < r * of_nat (im_total im)))"

lemma scoped_ok_impact_of: "kind \<noteq> Selected \<Longrightarrow> scoped_ok r (impact_of kind changed dropped)"
  by (simp add: scoped_ok_def)

lemma scoped_ok_bounded: "scoped_ok r (bounded_verdict r changed dropped tests direct via)"
  by (auto simp: scoped_ok_def bounded_verdict_def Let_def)

lemma scoped_ok_update [simp]:
  "scoped_ok r (im\<lparr>im_relevant := xs\<rparr>) = scoped_ok r im" "scoped_ok r (dynamic xs im) = scoped_ok r im"
  by (simp_all add: scoped_ok_def dynamic_def)

lemma scoped_ok_index:
  "scoped_ok (po_full_ratio (cf_policy cf)) (plan_with_index tr cf changed dropped relevant direct seeds index)"
  by (auto simp: plan_with_index_def Let_def scoped_ok_impact_of scoped_ok_bounded split: option.splits)

lemma scoped_ok_legacy: "scoped_ok (po_full_ratio (cf_policy cf)) (legacy_tail tr sc cf changed dropped relevant)"
  by (auto simp: legacy_tail_def Let_def case_prod_unfold scoped_ok_impact_of scoped_ok_bounded split: option.splits)

lemma scoped_ok_plan: "scoped_ok (po_full_ratio (cf_policy cf)) (impact_plan tr sc index cf location repo_changed)"
  by (auto simp: impact_plan_def plan_scoped_def Let_def case_prod_unfold scoped_ok_impact_of scoped_ok_index
        scoped_ok_legacy split: option.splits)

lemma inside_trigger_found:
  assumes "p \<in> set scoped" "is_trigger_basename (basename p) \<or> path_matches p (po_full_triggers pol)"
  shows "inside_trigger pol scoped \<noteq> None"
  using assms by (auto simp: inside_trigger_def find_None_iff)

section \<open>The properties of the planner\<close>

text \<open>The example of the witnesses: a project of one source file, imported by one of two tests.\<close>

definition impact_policy :: policy where
  "impact_policy =
     \<lparr>po_enabled = True, po_closed_inputs = False, po_input_roots = [], po_ignored_inputs = [],
      po_full_triggers = [''schema.sql''], po_always = [], po_no_tests = [], po_non_input_outputs = [],
      po_full_ratio = 4 / 5, po_groups = []\<rparr>"

definition example_config :: project_config where
  "example_config = \<lparr>cf_policy = impact_policy, cf_kind = Pytest, cf_test_roots = [''tests'']\<rparr>"

definition example_tree :: tree where
  "example_tree =
     \<lparr>tr_is_dir = (\<lambda>_. Some True), tr_has_py = (\<lambda>_. True), tr_is_file = (\<lambda>_. True), tr_parses = (\<lambda>_. True)\<rparr>"

definition example_index :: project_index where
  "example_index =
     \<lparr>ix_complete = True, ix_parsed = (\<lambda>_. Some True), ix_test_files = [''tests/test_a.py'', ''tests/test_b.py''],
      ix_reverse = [(''pkg/a.py'', [''pkg/b.py'']), (''pkg/b.py'', [''tests/test_a.py''])],
      ix_missing = (\<lambda>_. [])\<rparr>"

definition example_sources :: sources where
  "example_sources = \<lparr>sc_root = Directory (Some []), sc_has_init = (\<lambda>_. False), sc_imports = (\<lambda>_. None)\<rparr>"

definition example_plan :: "string list \<Rightarrow> impact" where
  "example_plan changed =
     impact_plan example_tree example_sources example_index example_config (Some ''api'') (Some changed)"

text \<open>
  C36. No relevant change is ignored: with a complete index, a verdict other than a full run
  is only reached when every relevant path is a Python file, and then it selects every
  relevant test file that exists and every known test that imports a relevant source file,
  directly or through other files.
\<close>

theorem changes_decided:
  assumes "im_kind (impact_plan tr sc index cf (Some pre) (Some changed)) \<in> {Selected, Nothing}"
    and "ix_complete index" and "p \<in> relevant_paths tr cf (Some pre) changed"
  shows "ends_with ''.py'' p
    \<and> (is_test_file p (cf_test_roots cf) \<and> tr_is_file tr p \<longrightarrow>
        p \<in> set (im_files (impact_plan tr sc index cf (Some pre) (Some changed))))
    \<and> (\<not> is_test_file p (cf_test_roots cf) \<longrightarrow>
        {q \<in> set (ix_test_files index). (p, q) \<in> (imported_by (ix_reverse index))\<^sup>*}
          \<subseteq> set (im_files (impact_plan tr sc index cf (Some pre) (Some changed))))"
  using relevant_decided[OF assms] by auto

lemma changes_decided_witness:
  "''tests/test_a.py'' \<in> set (im_files (example_plan [''api/pkg/a.py'']))"
proof -
  have kind: "im_kind (example_plan [''api/pkg/a.py'']) \<in> {Selected, Nothing}" by code_simp
  have complete: "ix_complete example_index" by code_simp
  have p: "''pkg/a.py'' \<in> relevant_paths example_tree example_config (Some ''api'') [''api/pkg/a.py'']" by code_simp
  have steps: "importers (ix_reverse example_index) ''pkg/a.py'' = [''pkg/b.py'']"
    "importers (ix_reverse example_index) ''pkg/b.py'' = [''tests/test_a.py'']" by code_simp+
  have "(''pkg/a.py'', ''pkg/b.py'') \<in> imported_by (ix_reverse example_index)"
    "(''pkg/b.py'', ''tests/test_a.py'') \<in> imported_by (ix_reverse example_index)"
    by (simp_all add: imported_by_def steps)
  then have path: "(''pkg/a.py'', ''tests/test_a.py'') \<in> (imported_by (ix_reverse example_index))\<^sup>*" by (meson rtrancl.simps)
  have "\<not> is_test_file ''pkg/a.py'' (cf_test_roots example_config)" "''tests/test_a.py'' \<in> set (ix_test_files example_index)"
    by code_simp+
  then show ?thesis
    using changes_decided[OF kind[unfolded example_plan_def] complete p] path unfolding example_plan_def by blast
qed

text \<open>
  Triggers force a full run: when a changed path of the project that is no build output
  is a lock file or configuration file, or matches a declared trigger, the plan is the full
  run, whatever the index says.
\<close>

theorem trigger_forces_full:
  assumes "q \<in> set (below pre changed)" and "\<not> is_output q"
    and "is_trigger_basename (basename q) \<or> path_matches q (po_full_triggers (cf_policy cf))"
  shows "\<exists>path. im_kind (impact_plan tr sc index cf (Some pre) (Some changed)) = Full (Full_trigger path)"
proof -
  let ?scoped = "filter (\<lambda>p. \<not> is_output p) (sort (below pre changed))"
  have "inside_trigger (cf_policy cf) ?scoped \<noteq> None"
    using assms by (intro inside_trigger_found[of q]) auto
  moreover have "below pre changed \<noteq> []" using assms(1) by auto
  ultimately show ?thesis by (auto simp: impact_plan_def Let_def split: option.splits)
qed

text \<open>
  Bounds of a selection: whatever the index, a selected run has at least one and at
  most 200 test files, sorted and without repetition, and when the number of tests is known
  they are fewer than the configured share of them.
\<close>

theorem selection_bounds:
  assumes "im_kind (impact_plan tr sc index cf location changed) = Selected"
    and "im = impact_plan tr sc index cf location changed"
  shows "im_files im \<noteq> [] \<and> length (im_files im) \<le> 200 \<and> sorted (im_files im) \<and> distinct (im_files im)
    \<and> (im_total im = 0 \<or> of_nat (length (im_files im)) < po_full_ratio (cf_policy cf) * of_nat (im_total im))"
  using scoped_ok_plan[of cf tr sc index location changed] assms by (simp add: scoped_ok_def MAX_SELECTED_def)

lemma selection_bounds_witness:
  "im_files (example_plan [''api/pkg/a.py'']) \<noteq> [] \<and> length (im_files (example_plan [''api/pkg/a.py''])) \<le> 200"
proof -
  have "im_kind (example_plan [''api/pkg/a.py'']) = Selected" by code_simp
  then show ?thesis using selection_bounds[OF _ refl] unfolding example_plan_def by blast
qed

text \<open>
  The worklist computes reachability: the files it collects from the seeds are exactly
  those that import a seed through any number of import edges.
\<close>

theorem reach_is_transitive:
  "set (static_reach graph seeds) = (imported_by graph)\<^sup>* `` set seeds"
  using static_reach_iff[of _ graph seeds] by (auto simp: Image_def)

end
