(* ===== verification/Dep_Index.thy ===== *)
theory Dep_Index
  imports Impact_Plan
begin

text \<open>
  The source index of a project and the difference of two versions of a file
  (\<^verbatim>\<open>src/ptest/contracts.py\<close>, \<^verbatim>\<open>src/ptest/selection_planner.py\<close>, sections 4.2 and
  4.3 of its design): which paths are stale for a recorded run, and which functions, names
  and modules of a stale path changed.

  Python dictionaries are association lists in insertion order; sets are lists extended by
  \<open>List.insert\<close>, read only through membership or sorted. The keyed digests and the parsed
  indexes of old versions are inputs.
\<close>

section \<open>The index of a project\<close>

record import_index =
  ii_level :: nat
  ii_module :: string
  ii_name :: "string option"
  ii_local :: "string option"
  ii_aliased :: bool
  ii_statement :: int

record scope_index =
  sx_qualname :: string
  sx_body :: string
  sx_skeleton :: string
  sx_refs :: "string list list"
  sx_decorated :: bool
  sx_local :: bool

record class_index =
  cx_qualname :: string
  cx_skeleton :: string
  cx_body :: string
  cx_refs :: "string list list"
  cx_plain :: bool

record statement_index =
  st_kind :: string
  st_bound :: "string list"
  st_refs :: "string list list"
  st_fingerprint :: string

record file_index =
  fi_parsed :: bool
  fi_imports :: "import_index list"
  fi_scopes :: "scope_index list"
  fi_classes :: "class_index list"
  fi_statements :: "statement_index list"

record project_file =
  pf_path :: string
  pf_digest :: string
  pf_index :: file_index
  pf_modules :: "string list"
  pf_test :: bool
  pf_support :: bool
  pf_imports :: "string list"
  pf_scope_refs :: "(string \<times> string list) list"
  pf_class_refs :: "(string \<times> string list) list"
  pf_statement_refs :: "string list list"
  pf_statement_bound :: "string list list"

record source_tree =
  pt_files :: "(string \<times> project_file) list"
  pt_test_files :: "string list"
  pt_reverse :: reverse_graph
  pt_unparsed :: "string list"
  pt_complete :: bool

section \<open>Keys of names\<close>

definition name_key :: "string \<Rightarrow> string \<Rightarrow> string" where
  "name_key path name = path @ '':'' @ name"

definition key_path :: "string \<Rightarrow> string" where
  "key_path key =
     (if CHR '':'' \<in> set key then rev (tl (dropWhile (\<lambda>c. c \<noteq> CHR '':'') (rev key))) else key)"

definition first_part :: "string \<Rightarrow> string" where
  "first_part qualname = hd (split_on (CHR ''.'') qualname)"

definition last_part :: "string \<Rightarrow> string" where
  "last_part qualname = last (split_on (CHR ''.'') qualname)"

lemma dropWhile_until: "c \<notin> set xs \<Longrightarrow> dropWhile (\<lambda>x. x \<noteq> c) (xs @ c # ys) = c # ys"
  by (induction xs) auto

lemma key_path_name_key [simp]: "CHR '':'' \<notin> set name \<Longrightarrow> key_path (name_key path name) = path"
  using dropWhile_until[of "CHR '':''" "rev name" "rev path"] by (simp add: key_path_def name_key_def)

text \<open>\<^verbatim>\<open>{key(x): x for x in xs}\<close>: a later value replaces the earlier one in place.\<close>

definition dict_of :: "('a \<Rightarrow> 'k) \<Rightarrow> 'a list \<Rightarrow> ('k \<times> 'a) list" where
  "dict_of key xs = fold (\<lambda>x. AList.update (key x) x) xs []"

lemma map_of_fold_update:
  "map_of (fold (\<lambda>x. AList.update (key x) x) xs m) k =
     (case find (\<lambda>x. key x = k) (rev xs) of None \<Rightarrow> map_of m k | Some x \<Rightarrow> Some x)"
proof (induction xs rule: rev_induct)
  case (snoc x xs)
  then show ?case by (auto simp: update_conv' split: option.splits)
qed simp

lemma map_of_dict_of: "map_of (dict_of key xs) k = find (\<lambda>x. key x = k) (rev xs)"
  by (simp add: dict_of_def map_of_fold_update split: option.splits)

section \<open>Stale paths\<close>

definition ABSENT_DIGEST :: string where "ABSENT_DIGEST = []"

definition cur_digest :: "source_tree \<Rightarrow> string \<Rightarrow> string" where
  "cur_digest tree path =
     (case map_of (pt_files tree) path of None \<Rightarrow> ABSENT_DIGEST | Some found \<Rightarrow> pf_digest found)"

record vocabulary =
  vo_paths :: "string list"
  vo_functions :: "(int \<times> string) list"
  vo_fixtures :: "(string \<times> string \<times> string) list"

definition resolve_path :: "vocabulary \<Rightarrow> int \<Rightarrow> string option" where
  "resolve_path voc pid = (if 0 \<le> pid \<and> pid < int (length (vo_paths voc)) then Some (vo_paths voc ! nat pid) else None)"

definition resolve_function :: "vocabulary \<Rightarrow> int \<Rightarrow> (string \<times> string) option" where
  "resolve_function voc fid =
     (if 0 \<le> fid \<and> fid < int (length (vo_functions voc))
      then (case vo_functions voc ! nat fid of
              (pid, qual) \<Rightarrow> map_option (\<lambda>path. (path, qual)) (resolve_path voc pid))
      else None)"

definition baseline_map :: "(int \<times> string) list \<Rightarrow> vocabulary \<Rightarrow> (string \<times> string) list" where
  "baseline_map digests voc =
     fold (\<lambda>(pid, digest) out. case resolve_path voc pid of None \<Rightarrow> out | Some path \<Rightarrow> AList.update path digest out)
       digests []"

definition is_py :: "string \<Rightarrow> bool" where
  "is_py path = ends_with ''.py'' path"

definition stale_py_paths :: "source_tree \<Rightarrow> (string \<times> string) list \<Rightarrow> string list" where
  "stale_py_paths tree basemap =
     remdups (filter (\<lambda>path. is_py path \<and> map_of basemap path \<noteq> Some (cur_digest tree path))
       (map fst basemap @ map fst (pt_files tree)))"

definition lookup_or :: "'v \<Rightarrow> ('k \<times> 'v) list \<Rightarrow> 'k \<Rightarrow> 'v" where
  "lookup_or other m k = (case map_of m k of None \<Rightarrow> other | Some v \<Rightarrow> v)"

definition stale_data_paths :: "(string \<times> string) list \<Rightarrow> (string \<times> string) list \<Rightarrow> string list" where
  "stale_data_paths basemap data_digests =
     map fst (filter (\<lambda>(path, digest).
       \<not> is_py path
       \<and> (digest = ''?'' \<or> lookup_or [] data_digests path = ''?'' \<or> digest \<noteq> lookup_or [] data_digests path)) basemap)"

text \<open>The signature of a run: two runs with equal signatures have the same stale state.\<close>

definition signature_of :: "string list \<Rightarrow> (string \<times> string) list \<Rightarrow> string list \<Rightarrow> (string \<times> string option) set" where
  "signature_of stale_py basemap stale_data =
     set (map (\<lambda>p. (p, map_of basemap p)) stale_py @ map (\<lambda>d. (''data'', Some d)) stale_data)"

section \<open>The changes of one analysis\<close>

record analysis =
  an_cf :: "(string \<times> string) list"
  an_seeds :: "string list"
  an_names :: "string list"
  an_wild :: "string list"
  an_am :: "string list"
  an_sk :: "string list"
  an_wf :: "string list"
  an_pw :: "string list"
  an_af :: "(string \<times> string) list"
  an_soft :: "string list"

definition new_analysis :: analysis where
  "new_analysis =
     \<lparr>an_cf = [], an_seeds = [], an_names = [], an_wild = [], an_am = [], an_sk = [], an_wf = [], an_pw = [],
      an_af = [], an_soft = []\<rparr>"

definition mark_am :: "string \<Rightarrow> analysis \<Rightarrow> analysis" where
  "mark_am path an = an\<lparr>an_am := List.insert path (an_am an)\<rparr>"

definition mark_sk :: "string \<Rightarrow> analysis \<Rightarrow> analysis" where
  "mark_sk path an = an\<lparr>an_sk := List.insert path (an_sk an)\<rparr>"

definition mark_wf :: "string \<Rightarrow> analysis \<Rightarrow> analysis" where
  "mark_wf path an = an\<lparr>an_wf := List.insert path (an_wf an)\<rparr>"

definition mark_pw :: "string \<Rightarrow> analysis \<Rightarrow> analysis" where
  "mark_pw path an = an\<lparr>an_pw := List.insert path (an_pw an)\<rparr>"

definition mark_wild :: "string \<Rightarrow> analysis \<Rightarrow> analysis" where
  "mark_wild path an = an\<lparr>an_wild := List.insert path (an_wild an)\<rparr>"

definition mark_soft :: "string \<Rightarrow> analysis \<Rightarrow> analysis" where
  "mark_soft path an = an\<lparr>an_soft := List.insert path (an_soft an)\<rparr>"

definition mark_cf :: "(string \<times> string) list \<Rightarrow> analysis \<Rightarrow> analysis" where
  "mark_cf ids an = an\<lparr>an_cf := fold List.insert ids (an_cf an)\<rparr>"

definition mark_af :: "(string \<times> string) list \<Rightarrow> analysis \<Rightarrow> analysis" where
  "mark_af ids an = an\<lparr>an_af := fold List.insert ids (an_af an)\<rparr>"

lemma set_fold_insert [simp]: "set (fold List.insert xs ys) = set xs \<union> set ys"
  by (induction xs arbitrary: ys) auto

text \<open>The state of the difference of one path: the analysis and the names seeded for the path.\<close>

type_synonym diff_state = "analysis \<times> string list"

definition seed_key :: "string \<Rightarrow> diff_state \<Rightarrow> diff_state" where
  "seed_key key s =
     ((fst s)\<lparr>an_seeds := List.insert key (an_seeds (fst s)), an_names := List.insert key (an_names (fst s))\<rparr>,
      List.insert key (snd s))"

definition seed_name :: "string \<Rightarrow> string \<Rightarrow> diff_state \<Rightarrow> diff_state" where
  "seed_name path qualname s = seed_key (name_key path (first_part qualname)) s"

definition members_of :: "string \<Rightarrow> string list \<Rightarrow> string list" where
  "members_of qualname quals = filter (starts_with (qualname @ ''.'')) quals"

definition seed_class :: "string list \<Rightarrow> string \<Rightarrow> string \<Rightarrow> diff_state \<Rightarrow> diff_state" where
  "seed_class quals path qualname s =
     (let s = seed_name path qualname s in
      (mark_cf (map (Pair path) (qualname # members_of qualname quals)) (fst s), snd s))"

definition import_time_scope :: "scope_index \<Rightarrow> bool" where
  "import_time_scope scope \<longleftrightarrow> sx_decorated scope \<or> CHR ''.'' \<in> set (sx_qualname scope)"

definition reads_signature :: "string \<Rightarrow> bool" where
  "reads_signature qualname \<longleftrightarrow> starts_with ''__'' (last_part qualname) \<and> ends_with ''__'' (last_part qualname)"

definition plain_class :: "file_index \<Rightarrow> string \<Rightarrow> bool" where
  "plain_class fi qualname =
     (case find (\<lambda>c. cx_qualname c = qualname) (fi_classes fi) of
        None \<Rightarrow> False
      | Some c \<Rightarrow>
          cx_plain c
          \<and> (\<forall>scope\<in>set (fi_scopes fi).
               starts_with (qualname @ ''.'') (sx_qualname scope)
               \<and> CHR ''.'' \<notin> set (drop (length qualname + 1) (sx_qualname scope)) \<longrightarrow> sx_local scope))"

definition local_def :: "file_index \<Rightarrow> string \<Rightarrow> bool" where
  "local_def fi name =
     (case find (\<lambda>s. sx_qualname s = name) (fi_scopes fi) of None \<Rightarrow> False | Some s \<Rightarrow> sx_local s)"

definition DEFINITION_KINDS :: "string list" where
  "DEFINITION_KINDS = [''def'', ''class'', ''import'', ''assign'']"

text \<open>\<^verbatim>\<open>_def_map\<close>: the fingerprints that bind a name; no entry is the empty list.\<close>

definition binding_statements :: "file_index \<Rightarrow> statement_index list" where
  "binding_statements fi =
     filter (\<lambda>s. st_kind s \<in> set DEFINITION_KINDS \<and> st_bound s \<noteq> [''*'']) (fi_statements fi)"

definition def_names :: "file_index \<Rightarrow> string list" where
  "def_names fi = remdups (concat (map st_bound (binding_statements fi)))"

definition def_fingerprints :: "file_index \<Rightarrow> string \<Rightarrow> string list" where
  "def_fingerprints fi name =
     concat (map (\<lambda>s. map (\<lambda>_. st_fingerprint s) (filter (\<lambda>n. n = name) (st_bound s))) (binding_statements fi))"

definition star_seq :: "file_index \<Rightarrow> string list" where
  "star_seq fi = map st_fingerprint (filter (\<lambda>s. st_bound s = [''*'']) (fi_statements fi))"

definition effect_fps :: "file_index \<Rightarrow> string list" where
  "effect_fps fi = map st_fingerprint (filter (\<lambda>s. st_kind s = ''effect'') (fi_statements fi))"

section \<open>The difference of one stale path\<close>

definition whole_path_change :: "bool \<Rightarrow> bool \<Rightarrow> string \<Rightarrow> analysis \<Rightarrow> analysis" where
  "whole_path_change added is_test path an =
     (let an = (if added \<and> \<not> is_test then an else mark_pw path an);
          an = mark_sk path (mark_am path (mark_wild path an))
      in if is_test then mark_wf path an else an)"

definition diff_new_scope ::
  "string \<Rightarrow> bool \<Rightarrow> (string \<times> scope_index) list \<Rightarrow> string \<times> scope_index \<Rightarrow> diff_state \<Rightarrow> diff_state" where
  "diff_new_scope path is_test old_scopes item s =
     (let (qual, scope) = item; (an, per_path) = s in
      case map_of old_scopes qual of
        None \<Rightarrow>
          (let an = (if import_time_scope scope then mark_am path an else an);
               an = (if is_test then mark_wf path an else an)
           in (an, per_path))
      | Some prev \<Rightarrow>
          (let an = (if sx_body scope \<noteq> sx_body prev then mark_cf [(path, qual)] an else an) in
           if sx_skeleton scope = sx_skeleton prev then (an, per_path)
           else (let an = mark_cf [(path, qual)] an in
                 if sx_local scope \<and> sx_local prev
                 then (let an = mark_soft path an in
                       if CHR ''.'' \<notin> set qual \<or> reads_signature qual then seed_name path qual (an, per_path)
                       else (an, per_path))
                 else seed_name path qual (mark_am path an, per_path))))"

definition diff_old_scope ::
  "string \<Rightarrow> (string \<times> scope_index) list \<Rightarrow> string \<times> scope_index \<Rightarrow> diff_state \<Rightarrow> diff_state" where
  "diff_old_scope path new_scopes item s =
     (let (qual, scope) = item; (an, per_path) = s in
      if map_of new_scopes qual \<noteq> None then s
      else (let an = mark_cf [(path, qual)] an
            in (if import_time_scope scope then mark_am path an else an, per_path)))"

definition diff_new_class ::
  "file_index \<Rightarrow> file_index \<Rightarrow> string list \<Rightarrow> string \<Rightarrow> bool \<Rightarrow> (string \<times> class_index) list
     \<Rightarrow> string \<times> class_index \<Rightarrow> diff_state \<Rightarrow> diff_state" where
  "diff_new_class old new quals path is_test old_classes item s =
     (let (qual, c) = item; (an, per_path) = s in
      case map_of old_classes qual of
        None \<Rightarrow> (if is_test then mark_wf path an else an, per_path)
      | Some prev \<Rightarrow>
          (if cx_skeleton c = cx_skeleton prev \<and> cx_body c = cx_body prev then s
           else (let an = (if plain_class old qual \<and> plain_class new qual then mark_soft path an else mark_am path an)
                 in seed_class quals path qual (an, per_path))))"

definition diff_old_class ::
  "string list \<Rightarrow> string \<Rightarrow> (string \<times> class_index) list \<Rightarrow> string \<times> class_index \<Rightarrow> diff_state \<Rightarrow> diff_state" where
  "diff_old_class quals path new_classes item s =
     (if map_of new_classes (fst item) \<noteq> None then s
      else seed_class quals path (fst item) (mark_am path (fst s), snd s))"

definition diff_name :: "file_index \<Rightarrow> file_index \<Rightarrow> string \<Rightarrow> string \<Rightarrow> diff_state \<Rightarrow> diff_state" where
  "diff_name old new path name s =
     (if def_fingerprints old name \<noteq> def_fingerprints new name then seed_key (name_key path name) s else s)"

text \<open>The last tests: star imports, effects, the skeleton mark and the test file itself.\<close>

definition diff_close :: "file_index \<Rightarrow> file_index \<Rightarrow> string \<Rightarrow> bool \<Rightarrow> diff_state \<Rightarrow> analysis" where
  "diff_close old new path is_test s =
     (let (an, per_path) = s;
          an = (if star_seq old \<noteq> star_seq new then mark_wild path an else an);
          an = (if sort (effect_fps old) \<noteq> sort (effect_fps new) then mark_am path an else an);
          an = (if per_path \<noteq> [] \<or> path \<in> set (an_am an) \<or> path \<in> set (an_soft an) then mark_sk path an else an)
      in if is_test \<and> (per_path \<noteq> [] \<or> path \<in> set (an_am an) \<or> path \<in> set (an_soft an) \<or> path \<in> set (an_wild an))
         then mark_wf path an else an)"

definition diff_parsed :: "file_index \<Rightarrow> file_index \<Rightarrow> string \<Rightarrow> bool \<Rightarrow> analysis \<Rightarrow> analysis" where
  "diff_parsed old new path is_test an =
     (let old_scopes = dict_of sx_qualname (fi_scopes old); new_scopes = dict_of sx_qualname (fi_scopes new);
          old_classes = dict_of cx_qualname (fi_classes old); new_classes = dict_of cx_qualname (fi_classes new);
          quals = map fst old_scopes @ map fst new_scopes;
          s = fold (diff_new_scope path is_test old_scopes) new_scopes (an, []);
          s = fold (diff_old_scope path new_scopes) old_scopes s;
          s = fold (diff_new_class old new quals path is_test old_classes) new_classes s;
          s = fold (diff_old_class quals path new_classes) old_classes s;
          s = fold (diff_name old new path) (remdups (def_names old @ def_names new)) s
      in diff_close old new path is_test s)"

definition old_index :: "(string \<times> string) list \<Rightarrow> (string \<times> file_index) list \<Rightarrow> string \<Rightarrow> file_index option" where
  "old_index basemap versions path = Option.bind (map_of basemap path) (map_of versions)"

definition new_index :: "source_tree \<Rightarrow> string \<Rightarrow> file_index option" where
  "new_index tree path = map_option pf_index (map_of (pt_files tree) path)"

definition diff_path ::
  "source_tree \<Rightarrow> (string \<times> string) list \<Rightarrow> (string \<times> file_index) list \<Rightarrow> string \<Rightarrow> analysis \<Rightarrow> analysis" where
  "diff_path tree basemap versions path an =
     (let is_test = path \<in> set (pt_test_files tree); added = map_of basemap path = None in
      case (old_index basemap versions path, new_index tree path) of
        (Some old, Some new) \<Rightarrow>
          (if added \<or> \<not> fi_parsed old \<or> \<not> fi_parsed new then whole_path_change added is_test path an
           else diff_parsed old new path is_test an)
      | _ \<Rightarrow> whole_path_change added is_test path an)"

end
