(* ===== verification/Source_Resolve.thy ===== *)
theory Source_Resolve
  imports Dep_Index
begin

text \<open>
  Name resolution over the indexed files of a project (\<^verbatim>\<open>source_index._Resolver\<close> and
  \<^verbatim>\<open>build_project_index\<close>): which module-level names a file binds, what a dotted chain of
  a function or statement refers to, and the project index with its reverse-import graph.

  The memo of \<^verbatim>\<open>bound_names\<close> only saves work and is left out. Chains are the nonempty
  load chains of a scope; on an empty one the source raises, and \<open>resolve\<close> is \<open>None\<close>.
\<close>

section \<open>Absolute names of imported modules\<close>

definition absolute_module :: "nat \<Rightarrow> string \<Rightarrow> string \<Rightarrow> string option" where
  "absolute_module level module_name package =
     (if level = 0 then (if module_name = [] then None else Some module_name)
      else (let parts = (if package = [] then [] else split_on (CHR ''.'') package) in
            if level - 1 > length parts then None
            else (let base = dotted (take (length parts - level + 1) parts);
                      head = strip_dots (if module_name = [] then base else base @ ''.'' @ module_name)
                  in if head = [] then None else Some head)))"

definition edge_of_import :: "string \<Rightarrow> import_index \<Rightarrow> string list" where
  "edge_of_import package imp =
     (case ii_name imp of
        None \<Rightarrow> dotted_prefixes (ii_module imp)
      | Some name \<Rightarrow>
          (case absolute_module (ii_level imp) (ii_module imp) package of
             None \<Rightarrow> []
           | Some head \<Rightarrow> dotted_prefixes head @ (if name = ''*'' then [] else [head @ ''.'' @ name])))"

definition edge_names :: "import_index list \<Rightarrow> string \<Rightarrow> string list" where
  "edge_names imports package = remdups (concat (map (edge_of_import package) imports))"

section \<open>Module-level bindings\<close>

datatype binding = Local_name | Imported_name import_index

definition imports_at :: "file_index \<Rightarrow> nat \<Rightarrow> import_index list" where
  "imports_at fi pos = filter (\<lambda>imp. ii_statement imp = int pos) (fi_imports fi)"

definition bind_import :: "import_index \<Rightarrow> (string \<times> binding) list \<Rightarrow> (string \<times> binding) list" where
  "bind_import imp bound =
     (if ii_name imp = Some ''*'' then bound
      else (case ii_local imp of None \<Rightarrow> bound | Some name \<Rightarrow> AList.update name (Imported_name imp) bound))"

definition bind_statement ::
  "file_index \<Rightarrow> nat \<times> statement_index \<Rightarrow> (string \<times> binding) list \<Rightarrow> (string \<times> binding) list" where
  "bind_statement fi item bound =
     (let (pos, stmt) = item in
      if st_kind stmt = ''import'' then fold bind_import (imports_at fi pos) bound
      else if st_kind stmt \<in> {''def'', ''class'', ''assign'', ''effect''}
      then fold (\<lambda>name. AList.update name Local_name) (st_bound stmt) bound
      else bound)"

definition bindings_of :: "file_index \<Rightarrow> (string \<times> binding) list" where
  "bindings_of fi = fold (bind_statement fi) (List.enumerate 0 (fi_statements fi)) []"

definition stars_of :: "file_index \<Rightarrow> import_index list" where
  "stars_of fi =
     concat (map (\<lambda>(pos, stmt). if st_kind stmt = ''import''
                                then filter (\<lambda>imp. ii_name imp = Some ''*'') (imports_at fi pos) else [])
       (List.enumerate 0 (fi_statements fi)))"

text \<open>One indexed file with the module names it can be imported under.\<close>

record source_entry =
  se_path :: string
  se_index :: file_index
  se_modules :: "string list"

type_synonym resolver = "source_entry list"

definition entry_of :: "resolver \<Rightarrow> string \<Rightarrow> source_entry option" where
  "entry_of rs rel = find (\<lambda>e. se_path e = rel) rs"

definition module_paths :: "resolver \<Rightarrow> string \<Rightarrow> string list" where
  "module_paths rs name = map se_path (filter (\<lambda>e. name \<in> set (se_modules e)) rs)"

definition file_bindings :: "resolver \<Rightarrow> string \<Rightarrow> (string \<times> binding) list" where
  "file_bindings rs rel = (case entry_of rs rel of None \<Rightarrow> [] | Some e \<Rightarrow> bindings_of (se_index e))"

definition file_stars :: "resolver \<Rightarrow> string \<Rightarrow> import_index list" where
  "file_stars rs rel = (case entry_of rs rel of None \<Rightarrow> [] | Some e \<Rightarrow> stars_of (se_index e))"

definition import_paths :: "resolver \<Rightarrow> string \<Rightarrow> import_index \<Rightarrow> string list" where
  "import_paths rs rel imp =
     (case absolute_module (ii_level imp) (ii_module imp) (package_name rel) of
        None \<Rightarrow> [] | Some target \<Rightarrow> module_paths rs target)"

definition star_targets :: "resolver \<Rightarrow> string \<Rightarrow> string list" where
  "star_targets rs rel = concat (map (import_paths rs rel) (file_stars rs rel))"

lemma star_targets_sources: "set (star_targets rs rel) \<subseteq> se_path ` set rs"
  by (auto simp: star_targets_def import_paths_def module_paths_def split: option.splits)

section \<open>The names a file binds\<close>

text \<open>
  \<^verbatim>\<open>_bound_inner\<close> with its calls as a list of files still to visit: a file seen before
  contributes nothing, another one its own names and then those of its star imports.
\<close>

function bound_walk :: "resolver \<Rightarrow> string list \<Rightarrow> string list \<Rightarrow> string list" where
  "bound_walk rs seen [] = []"
| "bound_walk rs seen (rel # todo) =
     (if rel \<in> set seen then bound_walk rs seen todo
      else map fst (file_bindings rs rel) @ bound_walk rs (rel # seen) (star_targets rs rel @ todo))"
  by pat_completeness auto
termination
proof (relation "measures [\<lambda>(rs, seen, todo). card ((se_path ` set rs \<union> set todo) - set seen),
                           \<lambda>(rs, seen, todo). length todo]")
  fix rs :: resolver and seen todo :: "string list" and rel :: string
  let ?U = "se_path ` set rs \<union> set (rel # todo)"
  show "((rs, seen, todo), (rs, seen, rel # todo))
      \<in> measures [\<lambda>(rs, seen, todo). card ((se_path ` set rs \<union> set todo) - set seen), \<lambda>(rs, seen, todo). length todo]"
    if "rel \<in> set seen"
    using that card_mono[of "?U - set seen" "(se_path ` set rs \<union> set todo) - set seen"]
    by (auto simp: le_less Un_Diff)
  show "((rs, rel # seen, star_targets rs rel @ todo), (rs, seen, rel # todo))
      \<in> measures [\<lambda>(rs, seen, todo). card ((se_path ` set rs \<union> set todo) - set seen), \<lambda>(rs, seen, todo). length todo]"
    if "rel \<notin> set seen"
  proof -
    have "(se_path ` set rs \<union> set (star_targets rs rel @ todo)) - set (rel # seen) \<subset> ?U - set seen"
      using star_targets_sources[of rs rel] that by auto
    then show ?thesis by (simp add: psubset_card_mono)
  qed
qed simp

definition bound_names :: "resolver \<Rightarrow> string \<Rightarrow> string list" where
  "bound_names rs rel = bound_walk rs [] [rel]"

section \<open>Resolving a chain\<close>

definition keys_in :: "string list \<Rightarrow> string \<Rightarrow> string list" where
  "keys_in paths name = map (\<lambda>path. name_key path name) paths"

fun walk_module :: "resolver \<Rightarrow> string \<Rightarrow> string list \<Rightarrow> string list" where
  "walk_module rs m [] = keys_in (module_paths rs m) (last_part m)"
| "walk_module rs m (part # rest) =
     (if module_paths rs (m @ ''.'' @ part) \<noteq> [] then walk_module rs (m @ ''.'' @ part) rest
      else keys_in (module_paths rs m) part)"

text \<open>The keys of a name imported from a module: a submodule is walked, an attribute is the key.\<close>

definition from_rest :: "resolver \<Rightarrow> string \<Rightarrow> import_index \<Rightarrow> string \<Rightarrow> string list \<Rightarrow> string list" where
  "from_rest rs rel imp name rest =
     (case absolute_module (ii_level imp) (ii_module imp) (package_name rel) of
        None \<Rightarrow> []
      | Some head \<Rightarrow>
          (if name = ''*'' then []
           else if module_paths rs (head @ ''.'' @ name) \<noteq> [] then walk_module rs (head @ ''.'' @ name) rest
           else keys_in (module_paths rs head) name))"

definition from_target :: "resolver \<Rightarrow> string \<Rightarrow> import_index \<Rightarrow> string list" where
  "from_target rs rel imp =
     (case ii_name imp of None \<Rightarrow> [] | Some name \<Rightarrow> from_rest rs rel imp name [])"

definition star_keys :: "resolver \<Rightarrow> string \<Rightarrow> string \<Rightarrow> string list" where
  "star_keys rs rel head = keys_in (filter (\<lambda>path. head \<in> set (bound_names rs path)) (star_targets rs rel)) head"

definition resolve_head :: "resolver \<Rightarrow> string \<Rightarrow> string \<Rightarrow> string list \<Rightarrow> string list" where
  "resolve_head rs rel head rest =
     (case map_of (file_bindings rs rel) head of
        None \<Rightarrow> star_keys rs rel head
      | Some Local_name \<Rightarrow> [name_key rel head]
      | Some (Imported_name imp) \<Rightarrow>
          (case ii_name imp of
             None \<Rightarrow> walk_module rs (if ii_aliased imp then ii_module imp else first_part (ii_module imp)) rest
           | Some name \<Rightarrow> from_rest rs rel imp name rest))"

definition resolve :: "resolver \<Rightarrow> string \<Rightarrow> string list \<Rightarrow> string list option" where
  "resolve rs rel chain = (case chain of [] \<Rightarrow> None | head # rest \<Rightarrow> Some (resolve_head rs rel head rest))"

text \<open>\<^verbatim>\<open>frozenset(key for chain in refs for key in resolve(rel, chain))\<close>.\<close>

fun resolve_refs :: "resolver \<Rightarrow> string \<Rightarrow> string list list \<Rightarrow> string list option" where
  "resolve_refs rs rel [] = Some []"
| "resolve_refs rs rel (chain # tail) =
     (case resolve rs rel chain of
        None \<Rightarrow> None
      | Some keys \<Rightarrow> map_option (\<lambda>rest. remdups (keys @ rest)) (resolve_refs rs rel tail))"

section \<open>The bound names are those of the star imports' closure\<close>

text \<open>One file star-imports another.\<close>

definition star_edge :: "resolver \<Rightarrow> string \<Rightarrow> string \<Rightarrow> bool" where
  "star_edge rs a b \<longleftrightarrow> b \<in> set (star_targets rs a)"

text \<open>What the walk still finds: the names of every file reached without passing a file seen before.\<close>

inductive unseen_reach :: "resolver \<Rightarrow> string list \<Rightarrow> string list \<Rightarrow> string \<Rightarrow> bool"
  for rs :: resolver and seen :: "string list" where
  unseen_start: "rel \<in> set todo \<Longrightarrow> rel \<notin> set seen \<Longrightarrow> unseen_reach rs seen todo rel"
| unseen_step: "unseen_reach rs seen todo a \<Longrightarrow> star_edge rs a b \<Longrightarrow> b \<notin> set seen \<Longrightarrow> unseen_reach rs seen todo b"

lemma unseen_skip:
  assumes "rel \<in> set seen"
  shows "unseen_reach rs seen (rel # todo) b \<longleftrightarrow> unseen_reach rs seen todo b"
proof
  show "unseen_reach rs seen todo b" if "unseen_reach rs seen (rel # todo) b"
    using that by (induction "rel # todo" b rule: unseen_reach.induct) (use assms in \<open>auto intro: unseen_reach.intros\<close>)
  show "unseen_reach rs seen (rel # todo) b" if "unseen_reach rs seen todo b"
    using that by (induction todo b rule: unseen_reach.induct) (auto intro: unseen_reach.intros)
qed

lemma unseen_visit:
  assumes "rel \<notin> set seen"
  shows "unseen_reach rs seen (rel # todo) b \<longleftrightarrow>
    b = rel \<or> unseen_reach rs (rel # seen) (star_targets rs rel @ todo) b"
proof
  show "b = rel \<or> unseen_reach rs (rel # seen) (star_targets rs rel @ todo) b" if "unseen_reach rs seen (rel # todo) b"
    using that
  proof (induction "rel # todo" b rule: unseen_reach.induct)
    case (unseen_start b)
    then show ?case by (auto intro: unseen_reach.intros)
  next
    case (unseen_step a b)
    then show ?case
      by (cases "b = rel") (auto simp: star_edge_def intro: unseen_reach.intros)
  qed
  have "unseen_reach rs seen (rel # todo) b" if "unseen_reach rs (rel # seen) (star_targets rs rel @ todo) b"
    using that
  proof (induction "star_targets rs rel @ todo" b rule: unseen_reach.induct)
    case (unseen_start b)
    moreover have "unseen_reach rs seen (rel # todo) rel" by (rule unseen_reach.unseen_start) (use assms in simp_all)
    ultimately show ?case
      by (cases "b \<in> set todo") (auto simp: star_edge_def intro: unseen_reach.intros)
  next
    case (unseen_step a b)
    then show ?case by (auto intro: unseen_reach.intros)
  qed
  moreover have "unseen_reach rs seen (rel # todo) rel" by (rule unseen_reach.unseen_start) (use assms in simp_all)
  ultimately show "unseen_reach rs seen (rel # todo) b"
    if "b = rel \<or> unseen_reach rs (rel # seen) (star_targets rs rel @ todo) b"
    using that by blast
qed

lemma bound_walk_names:
  "set (bound_walk rs seen todo) = (\<Union>rel\<in>{rel. unseen_reach rs seen todo rel}. fst ` set (file_bindings rs rel))"
proof (induction rs seen todo rule: bound_walk.induct)
  case (1 rs seen)
  have "\<not> unseen_reach rs seen [] rel" for rel
  proof
    assume "unseen_reach rs seen [] rel"
    then show False by (induction "[] :: string list" rel rule: unseen_reach.induct) simp_all
  qed
  then show ?case by simp
next
  case (2 rs seen rel todo)
  then show ?case by (cases "rel \<in> set seen") (auto simp: unseen_skip unseen_visit)
qed

lemma bound_names_closure:
  "set (bound_names rs rel) = (\<Union>b\<in>{b. (star_edge rs)\<^sup>*\<^sup>* rel b}. fst ` set (file_bindings rs b))"
proof -
  have "unseen_reach rs [] [rel] b \<longleftrightarrow> (star_edge rs)\<^sup>*\<^sup>* rel b" for b
  proof
    show "(star_edge rs)\<^sup>*\<^sup>* rel b" if "unseen_reach rs [] [rel] b"
      using that by (induction "[rel]" b rule: unseen_reach.induct) (auto intro: rtranclp.rtrancl_into_rtrancl)
    show "unseen_reach rs [] [rel] b" if "(star_edge rs)\<^sup>*\<^sup>* rel b"
      using that by (induction rule: rtranclp_induct) (auto intro: unseen_reach.intros)
  qed
  then have "unseen_reach rs [] [rel] = (star_edge rs)\<^sup>*\<^sup>* rel" by blast
  then show ?thesis unfolding bound_names_def bound_walk_names by simp
qed

end
