(* ===== verification/Source_Cache.thy ===== *)
theory Source_Cache
  imports Dep_Index Last_Green
begin

text \<open>
  The cache bytes of an indexed file (\<^verbatim>\<open>source_index.encode_index\<close>,
  \<^verbatim>\<open>decode_index\<close>): a header with the format version and the interpreter, and a JSON
  object. \<open>loads\<close> and \<open>dumps\<close> are \<^verbatim>\<open>json.loads\<close> on ASCII bytes and
  \<^verbatim>\<open>json.dumps\<close>; \<open>tag\<close> is the interpreter's cache tag.
\<close>

section \<open>The header\<close>

definition SOURCE_INDEX_VERSION :: nat where "SOURCE_INDEX_VERSION = 5"

definition INDEX_MAGIC :: string where "INDEX_MAGIC = ''ptest-srcidx'' @ [CHR 0x0A]"

text \<open>\<^verbatim>\<open>struct.pack(">I", n)\<close> and \<^verbatim>\<open>struct.unpack\<close>.\<close>

definition pack_u32 :: "nat \<Rightarrow> string" where
  "pack_u32 n = map (\<lambda>i. char_of (n div 256 ^ i mod 256)) [3, 2, 1, 0]"

definition unpack_u32 :: "string \<Rightarrow> nat" where
  "unpack_u32 s = foldl (\<lambda>n c. n * 256 + char_code c) 0 s"

definition index_header :: "string \<Rightarrow> string" where
  "index_header tag = INDEX_MAGIC @ pack_u32 SOURCE_INDEX_VERSION @ tag @ [CHR 0x0A]"

section \<open>The payload\<close>

definition json_opt :: "string option \<Rightarrow> json" where
  "json_opt v = (case v of None \<Rightarrow> JNull | Some s \<Rightarrow> JStr s)"

definition json_chains :: "string list list \<Rightarrow> json" where
  "json_chains refs = JArr (map (\<lambda>chain. JArr (map JStr chain)) refs)"

definition class_json :: "class_index \<Rightarrow> json" where
  "class_json c =
     JArr [JStr (cx_qualname c), JStr (cx_skeleton c), JStr (cx_body c), json_chains (cx_refs c), JBool (cx_plain c)]"

definition import_json :: "import_index \<Rightarrow> json" where
  "import_json imp =
     JArr [JInt (int (ii_level imp)), JStr (ii_module imp), json_opt (ii_name imp), json_opt (ii_local imp),
           JBool (ii_aliased imp), JInt (ii_statement imp)]"

definition scope_json :: "scope_index \<Rightarrow> json" where
  "scope_json s =
     JArr [JStr (sx_qualname s), JStr (sx_body s), JStr (sx_skeleton s), json_chains (sx_refs s),
           JBool (sx_decorated s), JBool (sx_local s)]"

definition statement_json :: "statement_index \<Rightarrow> json" where
  "statement_json s = JArr [JStr (st_kind s), JArr (map JStr (st_bound s)), json_chains (st_refs s), JStr (st_fingerprint s)]"

definition index_payload :: "file_index \<Rightarrow> (string \<times> json) list" where
  "index_payload fi =
     [(''classes'', JArr (map class_json (fi_classes fi))), (''imports'', JArr (map import_json (fi_imports fi))),
      (''parsed'', JBool (fi_parsed fi)), (''scopes'', JArr (map scope_json (fi_scopes fi))),
      (''statements'', JArr (map statement_json (fi_statements fi)))]"

definition encode_index :: "string \<Rightarrow> (json \<Rightarrow> string) \<Rightarrow> file_index \<Rightarrow> string" where
  "encode_index tag dumps fi = index_header tag @ dumps (JObj (index_payload fi))"

section \<open>Decoding\<close>

definition STATEMENT_KINDS :: "string list" where
  "STATEMENT_KINDS = [''def'', ''class'', ''import'', ''assign'', ''doc'', ''effect'']"

text \<open>A list decoded element by element; the first malformed element rejects it.\<close>

fun decode_all :: "('a \<Rightarrow> 'b option) \<Rightarrow> 'a list \<Rightarrow> 'b list option" where
  "decode_all f [] = Some []"
| "decode_all f (x # xs) =
     (case f x of None \<Rightarrow> None | Some y \<Rightarrow> map_option ((#) y) (decode_all f xs))"

fun json_list :: "json \<Rightarrow> json list option" where
  "json_list (JArr xs) = Some xs"
| "json_list _ = None"

fun json_text :: "json \<Rightarrow> string option" where
  "json_text (JStr s) = Some s"
| "json_text _ = None"

fun json_text_or_null :: "json \<Rightarrow> string option option" where
  "json_text_or_null JNull = Some None"
| "json_text_or_null (JStr s) = Some (Some s)"
| "json_text_or_null _ = None"

definition json_texts :: "json \<Rightarrow> string list option" where
  "json_texts v = Option.bind (json_list v) (decode_all json_text)"

definition decode_chains :: "json \<Rightarrow> string list list option" where
  "decode_chains v = Option.bind (json_list v) (decode_all json_texts)"

fun json_int :: "json \<Rightarrow> int option" where
  "json_int (JInt i) = Some i"
| "json_int _ = None"

fun json_bool :: "json \<Rightarrow> bool option" where
  "json_bool (JBool b) = Some b"
| "json_bool _ = None"

definition decode_import :: "json \<Rightarrow> import_index option" where
  "decode_import v =
     (case json_list v of
        Some [level, m, name, local, aliased, pos] \<Rightarrow>
          (case (json_int level, json_text m, json_text_or_null name, json_text_or_null local, json_bool aliased, json_int pos) of
             (Some level, Some m, Some name, Some local, Some aliased, Some pos) \<Rightarrow>
               (if level < 0 then None
                else Some \<lparr>ii_level = nat level, ii_module = m, ii_name = name, ii_local = local, ii_aliased = aliased,
                           ii_statement = pos\<rparr>)
           | _ \<Rightarrow> None)
      | _ \<Rightarrow> None)"

definition decode_scope :: "json \<Rightarrow> scope_index option" where
  "decode_scope v =
     (case json_list v of
        Some [qualname, body, skeleton, refs, decorated, local] \<Rightarrow>
          (case (json_text qualname, json_text body, json_text skeleton, decode_chains refs, json_bool decorated,
                 json_bool local) of
             (Some qualname, Some body, Some skeleton, Some cs, Some decorated, Some local) \<Rightarrow>
               Some \<lparr>sx_qualname = qualname, sx_body = body, sx_skeleton = skeleton, sx_refs = cs,
                     sx_decorated = decorated, sx_local = local\<rparr>
           | _ \<Rightarrow> None)
      | _ \<Rightarrow> None)"

definition decode_class :: "json \<Rightarrow> class_index option" where
  "decode_class v =
     (case json_list v of
        Some [qualname, skeleton, body, refs, plain] \<Rightarrow>
          (case (json_text qualname, json_text skeleton, json_text body, decode_chains refs, json_bool plain) of
             (Some qualname, Some skeleton, Some body, Some cs, Some plain) \<Rightarrow>
               Some \<lparr>cx_qualname = qualname, cx_skeleton = skeleton, cx_body = body, cx_refs = cs, cx_plain = plain\<rparr>
           | _ \<Rightarrow> None)
      | _ \<Rightarrow> None)"

definition decode_statement :: "json \<Rightarrow> statement_index option" where
  "decode_statement v =
     (case json_list v of
        Some [kind, bound, refs, fingerprint] \<Rightarrow>
          (case (json_text kind, json_texts bound, decode_chains refs, json_text fingerprint) of
             (Some kind, Some names, Some cs, Some fingerprint) \<Rightarrow>
               (if kind \<notin> set STATEMENT_KINDS then None
                else Some \<lparr>st_kind = kind, st_bound = names, st_refs = cs, st_fingerprint = fingerprint\<rparr>)
           | _ \<Rightarrow> None)
      | _ \<Rightarrow> None)"

definition PAYLOAD_KEYS :: "string list" where
  "PAYLOAD_KEYS = [''parsed'', ''imports'', ''scopes'', ''classes'', ''statements'']"

text \<open>The list under a key of the payload, decoded.\<close>

definition section_of :: "(json \<Rightarrow> 'b option) \<Rightarrow> (string \<times> json) list \<Rightarrow> string \<Rightarrow> 'b list option" where
  "section_of f tbl key = Option.bind (map_of tbl key) (\<lambda>v. Option.bind (json_list v) (decode_all f))"

definition decode_payload :: "(string \<times> json) list \<Rightarrow> file_index option" where
  "decode_payload tbl =
     (if set (map fst tbl) \<noteq> set PAYLOAD_KEYS then None
      else (case (map_of tbl ''parsed'', section_of decode_import tbl ''imports'', section_of decode_scope tbl ''scopes'',
                  section_of decode_class tbl ''classes'', section_of decode_statement tbl ''statements'') of
              (Some (JBool parsed), Some imports, Some scopes, Some classes, Some statements) \<Rightarrow>
                Some \<lparr>fi_parsed = parsed, fi_imports = imports, fi_scopes = scopes, fi_classes = classes,
                      fi_statements = statements\<rparr>
            | _ \<Rightarrow> None))"

definition decode_index :: "string \<Rightarrow> (string \<Rightarrow> json option) \<Rightarrow> string \<Rightarrow> file_index option" where
  "decode_index tag loads blob =
     (let header = index_header tag; magic = length INDEX_MAGIC in
      if length blob < length header then None
      else if take magic blob \<noteq> INDEX_MAGIC then None
      else if unpack_u32 (take 4 (drop magic blob)) \<noteq> SOURCE_INDEX_VERSION then None
      else if take (length header) blob \<noteq> header then None
      else (case loads (drop (length header) blob) of
              Some (JObj tbl) \<Rightarrow> decode_payload tbl
            | _ \<Rightarrow> None))"

section \<open>Decoding inverts encoding, and accepts nothing else\<close>

lemma decode_all_iff: "decode_all f xs = Some ys \<longleftrightarrow> list_all2 (\<lambda>x y. f x = Some y) xs ys"
  by (induction f xs arbitrary: ys rule: decode_all.induct)
     (auto simp: list_all2_Cons1 split: option.splits)

lemma decode_all_inverse:
  assumes "\<And>x y. f x = Some y \<longleftrightarrow> x = g y \<and> ok y"
  shows "decode_all f xs = Some ys \<longleftrightarrow> xs = map g ys \<and> (\<forall>y\<in>set ys. ok y)"
proof -
  have "list_all2 (\<lambda>x y. x = g y \<and> ok y) xs ys \<longleftrightarrow> xs = map g ys \<and> (\<forall>y\<in>set ys. ok y)" for xs ys
    by (induction xs arbitrary: ys) (auto simp: list_all2_Cons1 map_eq_Cons_conv)
  then show ?thesis by (simp add: decode_all_iff assms)
qed

lemma json_list_iff: "json_list v = Some xs \<longleftrightarrow> v = JArr xs"
  by (cases v) auto

lemma json_text_iff: "json_text v = Some s \<longleftrightarrow> v = JStr s"
  by (cases v) auto

lemma json_texts_iff: "json_texts v = Some xs \<longleftrightarrow> v = JArr (map JStr xs)"
  using decode_all_inverse[of json_text JStr "\<lambda>_. True"]
  by (auto simp: json_texts_def Option.bind_eq_Some_conv json_list_iff json_text_iff)

lemma decode_chains_iff: "decode_chains v = Some cs \<longleftrightarrow> v = json_chains cs"
  using decode_all_inverse[of json_texts "\<lambda>c. JArr (map JStr c)" "\<lambda>_. True"]
  by (auto simp: decode_chains_def json_chains_def Option.bind_eq_Some_conv json_list_iff json_texts_iff)

lemma decode_json_chains [simp]: "decode_chains (json_chains cs) = Some cs"
  by (simp add: decode_chains_iff)

lemma json_null_iff: "json_text_or_null v = Some s \<longleftrightarrow> v = json_opt s"
  by (cases v) (auto simp: json_opt_def split: option.splits)

lemma json_int_iff: "json_int v = Some i \<longleftrightarrow> v = JInt i"
  by (cases v) auto

lemma json_bool_iff: "json_bool v = Some b \<longleftrightarrow> v = JBool b"
  by (cases v) auto

lemmas json_iff =
  json_list_iff json_text_iff json_texts_iff decode_chains_iff json_null_iff json_int_iff json_bool_iff

lemma json_read [simp]:
  "json_texts (JArr (map JStr xs)) = Some xs" "json_text_or_null (json_opt s) = Some s"
  by (simp_all add: json_iff)

lemma decode_import_iff: "decode_import v = Some imp \<longleftrightarrow> v = import_json imp \<and> True"
proof
  show "v = import_json imp \<and> True" if "decode_import v = Some imp"
    using that by (auto simp: decode_import_def import_json_def json_iff split: option.splits list.splits if_splits)
qed (simp add: decode_import_def import_json_def)

lemma decode_scope_iff: "decode_scope v = Some s \<longleftrightarrow> v = scope_json s \<and> True"
proof
  show "v = scope_json s \<and> True" if "decode_scope v = Some s"
    using that by (auto simp: decode_scope_def scope_json_def json_iff split: option.splits list.splits)
qed (simp add: decode_scope_def scope_json_def)

lemma decode_class_iff: "decode_class v = Some c \<longleftrightarrow> v = class_json c \<and> True"
proof
  show "v = class_json c \<and> True" if "decode_class v = Some c"
    using that by (auto simp: decode_class_def class_json_def json_iff split: option.splits list.splits)
qed (simp add: decode_class_def class_json_def)

lemma decode_statement_iff: "decode_statement v = Some s \<longleftrightarrow> v = statement_json s \<and> st_kind s \<in> set STATEMENT_KINDS"
proof
  show "v = statement_json s \<and> st_kind s \<in> set STATEMENT_KINDS" if "decode_statement v = Some s"
    using that
    by (auto simp: decode_statement_def statement_json_def json_iff split: option.splits list.splits if_splits)
qed (simp add: decode_statement_def statement_json_def)

lemma section_of_iff:
  assumes "\<And>x y. f x = Some y \<longleftrightarrow> x = g y \<and> ok y"
  shows "section_of f tbl key = Some ys \<longleftrightarrow> map_of tbl key = Some (JArr (map g ys)) \<and> (\<forall>y\<in>set ys. ok y)"
  by (auto simp: section_of_def Option.bind_eq_Some_conv json_list_iff decode_all_inverse[OF assms])

lemmas section_iff =
  section_of_iff[OF decode_import_iff] section_of_iff[OF decode_scope_iff] section_of_iff[OF decode_class_iff]
  section_of_iff[OF decode_statement_iff]

text \<open>The kinds are the only condition the payload puts on an index.\<close>

definition known_kinds :: "file_index \<Rightarrow> bool" where
  "known_kinds fi \<longleftrightarrow> (\<forall>s\<in>set (fi_statements fi). st_kind s \<in> set STATEMENT_KINDS)"

lemma decode_payload_iff:
  "decode_payload tbl = Some fi \<longleftrightarrow> known_kinds fi \<and> map_of tbl = map_of (index_payload fi)"
proof -
  have payload: "map_of (index_payload fi) =
      [''classes'' \<mapsto> JArr (map class_json (fi_classes fi)), ''imports'' \<mapsto> JArr (map import_json (fi_imports fi)),
       ''parsed'' \<mapsto> JBool (fi_parsed fi), ''scopes'' \<mapsto> JArr (map scope_json (fi_scopes fi)),
       ''statements'' \<mapsto> JArr (map statement_json (fi_statements fi))]"
    by (rule ext) (simp add: index_payload_def)
  have dom: "dom (map_of tbl) = set (map fst tbl)" by (simp add: dom_map_of_conv_image_fst)
  show ?thesis
  proof
    assume a: "decode_payload tbl = Some fi"
    then have keys: "set (map fst tbl) = set PAYLOAD_KEYS" by (auto simp: decode_payload_def split: if_splits)
    have vals: "map_of tbl ''parsed'' = Some (JBool (fi_parsed fi))"
      "map_of tbl ''imports'' = Some (JArr (map import_json (fi_imports fi)))"
      "map_of tbl ''scopes'' = Some (JArr (map scope_json (fi_scopes fi)))"
      "map_of tbl ''classes'' = Some (JArr (map class_json (fi_classes fi)))"
      "map_of tbl ''statements'' = Some (JArr (map statement_json (fi_statements fi)))" "known_kinds fi"
      using a by (auto simp: decode_payload_def known_kinds_def section_iff split: if_splits option.splits json.splits)
    have "map_of tbl k = map_of (index_payload fi) k" for k
    proof (cases "k \<in> set PAYLOAD_KEYS")
      case False
      then have "map_of tbl k = None" using dom keys by blast
      then show ?thesis using False by (simp add: payload PAYLOAD_KEYS_def)
    qed (use vals in \<open>auto simp: payload PAYLOAD_KEYS_def\<close>)
    then show "known_kinds fi \<and> map_of tbl = map_of (index_payload fi)" using vals(6) by blast
  next
    assume a: "known_kinds fi \<and> map_of tbl = map_of (index_payload fi)"
    then have "set (map fst tbl) = set PAYLOAD_KEYS"
      unfolding dom[symmetric] by (auto simp: payload PAYLOAD_KEYS_def)
    moreover have "section_of decode_import tbl ''imports'' = Some (fi_imports fi)"
      "section_of decode_scope tbl ''scopes'' = Some (fi_scopes fi)"
      "section_of decode_class tbl ''classes'' = Some (fi_classes fi)"
      "section_of decode_statement tbl ''statements'' = Some (fi_statements fi)"
      using a by (simp_all add: section_iff payload known_kinds_def)
    moreover have "map_of tbl ''parsed'' = Some (JBool (fi_parsed fi))" using a by (simp add: payload)
    ultimately show "decode_payload tbl = Some fi" by (simp add: decode_payload_def)
  qed
qed

lemma header_version: "unpack_u32 (pack_u32 SOURCE_INDEX_VERSION) = SOURCE_INDEX_VERSION"
  by (simp add: unpack_u32_def pack_u32_def char_code_def SOURCE_INDEX_VERSION_def)

lemma decode_index_iff:
  "decode_index tag loads blob = Some fi \<longleftrightarrow>
     (\<exists>body tbl. blob = index_header tag @ body \<and> loads body = Some (JObj tbl)
        \<and> known_kinds fi \<and> map_of tbl = map_of (index_payload fi))"
proof
  assume a: "decode_index tag loads blob = Some fi"
  let ?body = "drop (length (index_header tag)) blob"
  have "take (length (index_header tag)) blob = index_header tag"
    using a by (auto simp: decode_index_def Let_def split: if_splits)
  then have "blob = index_header tag @ ?body" by (metis append_take_drop_id)
  moreover obtain tbl where "loads ?body = Some (JObj tbl)" "decode_payload tbl = Some fi"
    using a by (auto simp: decode_index_def Let_def split: if_splits option.splits json.splits)
  ultimately show "\<exists>body tbl. blob = index_header tag @ body \<and> loads body = Some (JObj tbl)
        \<and> known_kinds fi \<and> map_of tbl = map_of (index_payload fi)"
    unfolding decode_payload_iff by blast
next
  assume "\<exists>body tbl. blob = index_header tag @ body \<and> loads body = Some (JObj tbl)
        \<and> known_kinds fi \<and> map_of tbl = map_of (index_payload fi)"
  then obtain body tbl where t: "blob = index_header tag @ body" "loads body = Some (JObj tbl)" "decode_payload tbl = Some fi"
    unfolding decode_payload_iff[symmetric] by blast
  have "take (length INDEX_MAGIC) blob = INDEX_MAGIC" "take 4 (drop (length INDEX_MAGIC) blob) = pack_u32 SOURCE_INDEX_VERSION"
    by (simp_all add: t(1) index_header_def pack_u32_def)
  then show "decode_index tag loads blob = Some fi" using t header_version by (simp add: decode_index_def)
qed

end
