(* ===== verification/Source_Build.thy ===== *)
theory Source_Build
  imports Source_Resolve Source_Cache
begin

text \<open>
  The project index (\<^verbatim>\<open>source_index.build_project_index\<close>): the files of the walk are
  indexed, through the cache where it holds their version, their references are resolved,
  and the reverse-import graph is built from their import edges.

  Reading the files, the keyed digest, the parser (\<open>bi_parse\<close> is \<^verbatim>\<open>index_source\<close>) and the
  cache store are arguments. \<open>build_tree\<close> is \<open>None\<close> where the source raises on an empty chain.
\<close>

record build_inputs =
  bi_files :: "(string \<times> string option) list"
  bi_test_roots :: "string list"
  bi_has_init :: "string \<Rightarrow> bool"
  bi_digest :: "(string \<Rightarrow> string) option"
  bi_get_many :: "(string list \<Rightarrow> (string \<times> string) list option) option"
  bi_tag :: string
  bi_loads :: "string \<Rightarrow> json option"
  bi_dumps :: "json \<Rightarrow> string"
  bi_parse :: "string \<Rightarrow> file_index"
  bi_pool :: bool
  bi_conftest :: bool

section \<open>Indexing the files\<close>

definition unparsed_index :: file_index where
  "unparsed_index = \<lparr>fi_parsed = False, fi_imports = [], fi_scopes = [], fi_classes = [], fi_statements = []\<rparr>"

definition index_or_unparsed :: "build_inputs \<Rightarrow> string option \<Rightarrow> file_index" where
  "index_or_unparsed inp raw = (case raw of None \<Rightarrow> unparsed_index | Some r \<Rightarrow> bi_parse inp r)"

definition PARALLEL_MIN_FILES :: nat where "PARALLEL_MIN_FILES = 64"

definition decode_blob :: "build_inputs \<Rightarrow> string \<Rightarrow> file_index option" where
  "decode_blob inp blob = decode_index (bi_tag inp) (bi_loads inp) blob"

definition encode_blob :: "build_inputs \<Rightarrow> file_index \<Rightarrow> string" where
  "encode_blob inp fi = encode_index (bi_tag inp) (bi_dumps inp) fi"

text \<open>Many files go through a pool of processes that return encoded indexes.\<close>

definition index_many :: "build_inputs \<Rightarrow> string option list \<Rightarrow> file_index list" where
  "index_many inp raws =
     (let serial = map (index_or_unparsed inp) raws in
      if PARALLEL_MIN_FILES \<le> length raws \<and> bi_pool inp
      then (case decode_all (\<lambda>fi. decode_blob inp (encode_blob inp fi)) serial of Some out \<Rightarrow> out | None \<Rightarrow> serial)
      else serial)"

definition digest_of :: "build_inputs \<Rightarrow> string option \<Rightarrow> string" where
  "digest_of inp raw =
     (case (bi_digest inp, raw) of (Some digest, Some r) \<Rightarrow> digest r | _ \<Rightarrow> [])"

definition wanted_digests :: "build_inputs \<Rightarrow> string list" where
  "wanted_digests inp = sorted_set (filter (\<lambda>d. d \<noteq> []) (map (digest_of inp \<circ> snd) (bi_files inp)))"

definition cached_index :: "build_inputs \<Rightarrow> (string \<times> string) list \<Rightarrow> string \<Rightarrow> file_index option" where
  "cached_index inp found digest = Option.bind (map_of found digest) (decode_blob inp)"

text \<open>The content of the first file with a digest.\<close>

definition content_of :: "build_inputs \<Rightarrow> string \<Rightarrow> string option" where
  "content_of inp digest =
     (case find (\<lambda>f. digest_of inp (snd f) = digest) (bi_files inp) of None \<Rightarrow> None | Some f \<Rightarrow> snd f)"

definition fresh_indexes :: "build_inputs \<Rightarrow> (string \<times> string) list \<Rightarrow> (string \<times> file_index) list" where
  "fresh_indexes inp found =
     (let missing = filter (\<lambda>d. cached_index inp found d = None) (wanted_digests inp)
      in zip missing (index_many inp (map (content_of inp) missing)))"

definition index_of_file ::
  "build_inputs \<Rightarrow> (string \<times> string) list \<Rightarrow> (string \<times> file_index) list \<Rightarrow> string option \<Rightarrow> file_index" where
  "index_of_file inp found fresh raw =
     (let digest = digest_of inp raw in
      if digest = [] then index_or_unparsed inp raw
      else (case map_of fresh digest of
              Some fi \<Rightarrow> fi
            | None \<Rightarrow> the (cached_index inp found digest)))"

text \<open>The index of every file and the blobs \<^verbatim>\<open>put_many\<close> stores.\<close>

definition index_files :: "build_inputs \<Rightarrow> (string \<times> file_index) list \<times> (string \<times> string) list" where
  "index_files inp =
     (let rels = map fst (bi_files inp); raws = map snd (bi_files inp) in
      case (bi_digest inp, bi_get_many inp) of
        (Some digest, Some get_many) \<Rightarrow>
          (let found = (case get_many (wanted_digests inp) of None \<Rightarrow> [] | Some f \<Rightarrow> f);
               fresh = fresh_indexes inp found
           in (zip rels (map (index_of_file inp found fresh) raws),
               map (\<lambda>(d, fi). (d, encode_blob inp fi)) fresh))
      | _ \<Rightarrow> (zip rels (index_many inp raws), []))"

section \<open>References of one file\<close>

definition ref_table :: "resolver \<Rightarrow> string \<Rightarrow> (string \<times> string list list) list \<Rightarrow> (string \<times> string list) list option" where
  "ref_table rs rel items =
     map_option (\<lambda>rows. fold (\<lambda>(qual, keys). AList.update qual keys) rows [])
       (decode_all (\<lambda>(qual, refs). map_option (Pair qual) (resolve_refs rs rel refs)) items)"

text \<open>What one import of a statement refers to, and the keys it binds.\<close>

definition import_effect :: "resolver \<Rightarrow> string \<Rightarrow> import_index \<Rightarrow> string list \<times> string list" where
  "import_effect rs rel imp =
     (if ii_name imp = Some ''*''
      then (let pairs = concat (map (\<lambda>path. map (Pair path) (filter (\<lambda>n. \<not> starts_with ''_'' n) (bound_names rs path)))
                                 (import_paths rs rel imp))
            in (map (\<lambda>(path, n). name_key path n) pairs, map (\<lambda>(path, n). name_key rel n) pairs))
      else (if ii_name imp = None then [] else from_target rs rel imp,
            case ii_local imp of None \<Rightarrow> [] | Some name \<Rightarrow> [name_key rel name]))"

definition statement_row ::
  "resolver \<Rightarrow> string \<Rightarrow> file_index \<Rightarrow> nat \<times> statement_index \<Rightarrow> (string list \<times> string list) option" where
  "statement_row rs rel fi item =
     (let (pos, stmt) = item in
      if st_kind stmt = ''import''
      then (let effects = map (import_effect rs rel) (imports_at fi pos)
            in Some (concat (map fst effects), concat (map snd effects)))
      else if st_kind stmt \<in> {''def'', ''class'', ''assign'', ''effect''}
      then map_option (\<lambda>refs. (refs, map (name_key rel) (st_bound stmt))) (resolve_refs rs rel (st_refs stmt))
      else Some ([], []))"

definition path_imports :: "resolver \<Rightarrow> string \<Rightarrow> file_index \<Rightarrow> string list" where
  "path_imports rs rel fi = remdups (concat (map (module_paths rs) (edge_names (fi_imports fi) (package_name rel))))"

definition build_file ::
  "build_inputs \<Rightarrow> resolver \<Rightarrow> string \<Rightarrow> string \<Rightarrow> source_entry \<Rightarrow> project_file option" where
  "build_file inp rs rel digest e =
     (let fi = se_index e; test = is_test_file rel (bi_test_roots inp) in
      case (ref_table rs rel (map (\<lambda>s. (sx_qualname s, sx_refs s)) (fi_scopes fi)),
            ref_table rs rel (map (\<lambda>c. (cx_qualname c, cx_refs c)) (fi_classes fi)),
            decode_all (statement_row rs rel fi) (List.enumerate 0 (fi_statements fi))) of
        (Some scope_refs, Some class_refs, Some rows) \<Rightarrow>
          Some \<lparr>pf_path = rel, pf_digest = digest, pf_index = fi, pf_modules = se_modules e, pf_test = test,
                pf_support = (\<not> test \<and> is_test_support rel (bi_test_roots inp)),
                pf_imports = path_imports rs rel fi, pf_scope_refs = scope_refs, pf_class_refs = class_refs,
                pf_statement_refs = map fst rows, pf_statement_bound = map snd rows\<rparr>
      | _ \<Rightarrow> None)"

section \<open>The project index\<close>

definition make_resolver :: "build_inputs \<Rightarrow> (string \<times> file_index) list \<Rightarrow> resolver" where
  "make_resolver inp indexes =
     map (\<lambda>(rel, fi). \<lparr>se_path = rel, se_index = fi, se_modules = module_names (bi_has_init inp) rel\<rparr>) indexes"

definition conftest_reach :: "string list \<Rightarrow> string \<Rightarrow> string list" where
  "conftest_reach tests rel =
     (if basename rel \<noteq> ''conftest.py'' then []
      else (let home = join_with ''/'' (butlast (segments rel))
            in filter (\<lambda>c. c \<noteq> rel \<and> (home = [] \<or> starts_with (home @ ''/'') c)) tests))"

definition reverse_of :: "bool \<Rightarrow> resolver \<Rightarrow> string list \<Rightarrow> reverse_graph" where
  "reverse_of conftest rs tests =
     map (\<lambda>e. (se_path e,
               map se_path (filter (\<lambda>e'. se_path e \<in> set (path_imports rs (se_path e') (se_index e'))) rs)
               @ (if conftest then conftest_reach tests (se_path e) else []))) rs"

definition empty_tree :: source_tree where
  "empty_tree = \<lparr>pt_files = [], pt_test_files = [], pt_reverse = [], pt_unparsed = [], pt_complete = False\<rparr>"

definition build_tree :: "build_inputs \<Rightarrow> source_tree option" where
  "build_tree inp =
     (if length (bi_files inp) > MAX_SCAN_FILES then Some empty_tree
      else (let indexes = fst (index_files inp);
                rs = make_resolver inp indexes;
                digests = map (\<lambda>(rel, raw). (rel, digest_of inp raw)) (bi_files inp)
            in map_option (\<lambda>files.
                 (let tests = map fst (filter (\<lambda>f. pf_test (snd f)) files)
                  in \<lparr>pt_files = files, pt_test_files = tests, pt_reverse = reverse_of (bi_conftest inp) rs tests,
                      pt_unparsed = map fst (filter (\<lambda>f. \<not> fi_parsed (snd f)) indexes), pt_complete = True\<rparr>))
               (decode_all (\<lambda>e. map_option (Pair (se_path e))
                  (build_file inp rs (se_path e) (lookup_or [] digests (se_path e)) e)) rs)))"

text \<open>Importers of seeds the index does not hold, by their module names.\<close>

definition missing_seed_importers ::
  "(string \<Rightarrow> bool) \<Rightarrow> source_tree \<Rightarrow> string list \<Rightarrow> reverse_graph" where
  "missing_seed_importers has_init tree seeds =
     filter (\<lambda>row. snd row \<noteq> [])
       (map (\<lambda>seed. (seed,
               filter (\<lambda>rel. \<exists>name\<in>set (module_names has_init seed).
                  name \<in> set (case map_of (pt_files tree) rel of
                                 None \<Rightarrow> []
                               | Some f \<Rightarrow> edge_names (fi_imports (pf_index f)) (package_name rel)))
                 (map fst (pt_files tree))))
         (filter (\<lambda>seed. map_of (pt_files tree) seed = None) seeds))"

text \<open>What \<^verbatim>\<open>impact._plan_with_index\<close> reads of the index.\<close>

definition planner_view :: "(string \<Rightarrow> bool) \<Rightarrow> source_tree \<Rightarrow> project_index" where
  "planner_view has_init tree =
     \<lparr>ix_complete = pt_complete tree,
      ix_parsed = (\<lambda>path. map_option (\<lambda>f. fi_parsed (pf_index f)) (map_of (pt_files tree) path)),
      ix_test_files = pt_test_files tree, ix_reverse = pt_reverse tree,
      ix_missing = missing_seed_importers has_init tree\<rparr>"

end
