(* ===== verification/Source_Ast.thy ===== *)
theory Source_Ast
  imports Source_Build
begin

text \<open>
  Indexing one file content (\<^verbatim>\<open>source_index.index_source\<close>): the structural dump of a
  syntax tree, the load chains of its nodes, and the index of the scopes, classes,
  statements and imports of a module.

  A tree is what \<^verbatim>\<open>ast.parse\<close> returns, without positions: names and attributes are
  constructors, every other node has its class and its fields in the order of
  \<^verbatim>\<open>_fields\<close>, and a list is the value of a field. The parser, the compiler's code objects, the hash, \<^verbatim>\<open>repr\<close> of strings and
  the names of the builtin classes are in \<open>python\<close>.
\<close>

datatype ctx = Load | Store | Del

datatype ast =
    Name string ctx
  | Attribute ast string ctx
  | Node string "(string \<times> ast) list"
  | Items "ast list"
  | Str string
  | Num int
  | Absent
  | Leaf string

text \<open>
  A constant of a code object is a code object or another value. \<open>Code q flags line tbl name consts rest\<close>
  has the qualified name, the flags, the first line, the line table, the file name, the constants
  and everything else.
\<close>

datatype pycode =
    Value string
  | Code string nat int string string "pycode list" string

text \<open>
  \<open>py_parse\<close> is \<^verbatim>\<open>ast.parse\<close> of the decoded bytes (the module body, \<open>None\<close> for
  \<^verbatim>\<open>SyntaxError\<close> and \<^verbatim>\<open>ValueError\<close>), \<open>py_compile\<close> is \<^verbatim>\<open>compile\<close> of
  such a body in the file, \<open>py_marshal\<close> the hexadecimal \<^verbatim>\<open>marshal.dumps\<close>, \<open>py_sha\<close> the SHA-256 of a text,
  \<open>py_repr\<close> the \<^verbatim>\<open>repr\<close> of a string and \<open>py_bases\<close> the builtin classes but \<^verbatim>\<open>type\<close>.
\<close>

record python =
  py_parse :: "string \<Rightarrow> ast list option"
  py_compile :: "string \<Rightarrow> pycode option"
  py_marshal :: "pycode \<Rightarrow> string"
  py_sha :: "string \<Rightarrow> string"
  py_repr :: "string \<Rightarrow> string"
  py_bases :: "string list"

fun field_of :: "string \<Rightarrow> ast \<Rightarrow> ast" where
  "field_of name (Node c fs) = (case map_of fs name of Some v \<Rightarrow> v | None \<Rightarrow> Absent)"
| "field_of name _ = Absent"

declare field_of.simps [simp del]

fun ast_class :: "ast \<Rightarrow> string" where
  "ast_class (Name _ _) = ''Name''"
| "ast_class (Attribute _ _ _) = ''Attribute''"
| "ast_class (Node c _) = c"
| "ast_class _ = []"

fun list_items :: "ast \<Rightarrow> ast list" where
  "list_items (Items xs) = xs"
| "list_items _ = []"

fun str_of :: "ast \<Rightarrow> string" where
  "str_of (Str s) = s"
| "str_of _ = []"

fun is_node :: "ast \<Rightarrow> bool" where
  "is_node (Name _ _) = True"
| "is_node (Attribute _ _ _) = True"
| "is_node (Node _ _) = True"
| "is_node _ = False"

section \<open>The structural dump\<close>

fun ctx_text :: "ctx \<Rightarrow> string" where
  "ctx_text Load = ''Load()''"
| "ctx_text Store = ''Store()''"
| "ctx_text Del = ''Del()''"

text \<open>The text of a tree, by recursion.\<close>

fun dump :: "(string \<Rightarrow> string) \<Rightarrow> ast \<Rightarrow> string" where
  "dump rp (Name n c) = ''Name('' @ rp n @ '','' @ ctx_text c @ '',)''"
| "dump rp (Attribute v a c) = ''Attribute('' @ dump rp v @ '','' @ rp a @ '','' @ ctx_text c @ '',)''"
| "dump rp (Node cls fs) = cls @ ''('' @ concat (map (\<lambda>f. dump rp (snd f) @ '','') fs) @ '')''"
| "dump rp (Items xs) = ''['' @ concat (map (\<lambda>x. dump rp x @ '';'') xs) @ '']''"
| "dump rp (Str s) = rp s"
| "dump rp (Num i) = str_int i"
| "dump rp Absent = ''None''"
| "dump rp (Leaf r) = r"

text \<open>The loop of the source: a stack of texts and of trees still to print.\<close>

datatype dump_item = Text string | Tree ast

fun dump_pushes :: "(string \<Rightarrow> string) \<Rightarrow> ast \<Rightarrow> string \<times> dump_item list" where
  "dump_pushes rp (Name n c) = (''Name('', [Text (rp n), Text '','', Text (ctx_text c), Text '','', Text '')''])"
| "dump_pushes rp (Attribute v a c) =
     (''Attribute('', [Tree v, Text '','', Text (rp a), Text '','', Text (ctx_text c), Text '','', Text '')''])"
| "dump_pushes rp (Node cls fs) = (cls @ ''('', concat (map (\<lambda>f. [Tree (snd f), Text '','']) fs) @ [Text '')''])"
| "dump_pushes rp (Items xs) = (''['', concat (map (\<lambda>x. [Tree x, Text '';'']) xs) @ [Text '']''])"
| "dump_pushes rp v = (dump rp v, [])"

fun tree_weight :: "ast \<Rightarrow> nat" where
  "tree_weight (Name _ _) = 7"
| "tree_weight (Attribute v _ _) = 8 + tree_weight v"
| "tree_weight (Node _ fs) = 2 + sum_list (map (\<lambda>f. tree_weight (snd f) + 1) fs)"
| "tree_weight (Items xs) = 2 + sum_list (map (\<lambda>x. tree_weight x + 1) xs)"
| "tree_weight _ = 1"

fun item_weight :: "dump_item \<Rightarrow> nat" where
  "item_weight (Text _) = 1"
| "item_weight (Tree v) = tree_weight v"

lemma weight_pairs: "sum_list (map item_weight (concat (map (\<lambda>x. [Tree (g x), Text s]) xs))) = sum_list (map (\<lambda>x. tree_weight (g x) + 1) xs)"
  by (induction xs) auto

lemma pushes_lighter: "sum_list (map item_weight (snd (dump_pushes rp v))) < tree_weight v"
  by (cases v) (simp_all add: weight_pairs)

function dump_loop :: "(string \<Rightarrow> string) \<Rightarrow> string \<Rightarrow> dump_item list \<Rightarrow> string" where
  "dump_loop rp out [] = out"
| "dump_loop rp out (Text s # stack) = dump_loop rp (out @ s) stack"
| "dump_loop rp out (Tree v # stack) = dump_loop rp (out @ fst (dump_pushes rp v)) (snd (dump_pushes rp v) @ stack)"
  by pat_completeness auto
termination
  by (relation "measure (\<lambda>(rp, out, stack). sum_list (map item_weight stack))") (auto simp: pushes_lighter)

definition dump_node :: "(string \<Rightarrow> string) \<Rightarrow> ast \<Rightarrow> string" where
  "dump_node rp v = dump_loop rp [] [Tree v]"

fun item_text :: "(string \<Rightarrow> string) \<Rightarrow> dump_item \<Rightarrow> string" where
  "item_text rp (Text s) = s"
| "item_text rp (Tree v) = dump rp v"

lemma pushes_text: "fst (dump_pushes rp v) @ concat (map (item_text rp) (snd (dump_pushes rp v))) = dump rp v"
proof (cases v)
  case (Node cls fs)
  have "concat (map (item_text rp) (concat (map (\<lambda>f. [Tree (snd f), Text s]) fs))) = concat (map (\<lambda>f. dump rp (snd f) @ s) fs)"
    for s :: string by (induction fs) auto
  then show ?thesis using Node by simp
next
  case (Items xs)
  have "concat (map (item_text rp) (concat (map (\<lambda>x. [Tree x, Text s]) xs))) = concat (map (\<lambda>x. dump rp x @ s) xs)"
    for s :: string by (induction xs) auto
  then show ?thesis using Items by simp
qed simp_all

lemma dump_loop_text: "dump_loop rp out stack = out @ concat (map (item_text rp) stack)"
proof (induction rp out stack rule: dump_loop.induct)
  case (3 rp out v stack)
  show ?case by (simp add: 3 pushes_text[symmetric])
qed simp_all

lemma dump_node_dump [simp]: "dump_node rp v = dump rp v"
  by (simp add: dump_node_def dump_loop_text)

section \<open>Load chains\<close>

text \<open>The dotted chain of an attribute spine that ends in a loaded name.\<close>

fun spine :: "ast \<Rightarrow> string list option" where
  "spine (Attribute v a c) = map_option (\<lambda>ch. ch @ [a]) (spine v)"
| "spine (Name n c) = (if c = Load then Some [n] else None)"
| "spine _ = None"

text \<open>What one tree adds to the chains, and what is still to look at.\<close>

fun chain_step :: "ast \<Rightarrow> string list list \<times> ast list" where
  "chain_step (Items xs) = ([], xs)"
| "chain_step (Name n c) = (if c = Load then [[n]] else [], [])"
| "chain_step (Attribute v a c) =
     (case (if c = Load then spine (Attribute v a c) else None) of
        Some ch \<Rightarrow> ([ch], [])
      | None \<Rightarrow> ([], [v]))"
| "chain_step (Node cls fs) =
     ([], concat (map (\<lambda>f. case snd f of Items xs \<Rightarrow> filter is_node xs | v \<Rightarrow> if is_node v then [v] else []) fs))"
| "chain_step _ = ([], [])"

lemma sum_filter_le: "sum_list (map f (filter P xs)) \<le> sum_list (map (\<lambda>x. f x + (1::nat)) xs)"
  by (induction xs) auto

lemma field_parts_lighter:
  "sum_list (map tree_weight (concat (map (\<lambda>f. case snd f of Items xs \<Rightarrow> filter is_node xs | v \<Rightarrow> if is_node v then [v] else []) fs)))
     \<le> sum_list (map (\<lambda>f. tree_weight (snd f) + 1) fs)"
proof (induction fs)
  case (Cons f fs)
  have "sum_list (map tree_weight (case snd f of Items xs \<Rightarrow> filter is_node xs | v \<Rightarrow> if is_node v then [v] else []))
      \<le> tree_weight (snd f) + 1"
    using sum_filter_le[of tree_weight is_node] by (cases "snd f") (auto simp: le_Suc_eq)
  then show ?case using Cons by simp
qed simp

lemma step_lighter: "sum_list (map tree_weight (snd (chain_step v))) < tree_weight v"
proof (cases v)
  case (Items xs)
  have "sum_list (map tree_weight xs) \<le> sum_list (map (\<lambda>x. tree_weight x + 1) xs)" by (rule sum_list_mono) simp
  then show ?thesis using Items by simp
next
  case (Node cls fs)
  then show ?thesis using field_parts_lighter[of fs] by simp
qed (auto split: option.splits)

lemma sum_rev: "sum_list (map f (rev xs)) = (sum_list (map f xs) :: nat)"
  by (simp flip: rev_map)

function chain_loop :: "string list list \<Rightarrow> ast list \<Rightarrow> string list list" where
  "chain_loop acc [] = acc"
| "chain_loop acc (v # stack) = chain_loop (fst (chain_step v) @ acc) (rev (snd (chain_step v)) @ stack)"
  by pat_completeness auto
termination
  by (relation "measure (\<lambda>(acc, stack). sum_list (map tree_weight stack))") (auto simp: sum_rev step_lighter)

definition chains_of :: "ast list \<Rightarrow> string list list" where
  "chains_of nodes = sorted_set (chain_loop [] (rev nodes))"

end
