(* ===== verification/Source_Module.thy ===== *)
theory Source_Module
  imports Source_Ast
begin

text \<open>
  The index of one module (\<^verbatim>\<open>source_index.index_source\<close>) from its syntax tree and its
  compiled functions: the names statements bind, their kinds, the walk that finds functions,
  classes and nested imports, and the fingerprints.
\<close>

lemma items_smaller [termination_simp]: "x \<in> set (list_items v) \<Longrightarrow> size x < size v"
  by (cases v) (auto simp: less_Suc_eq_le intro: size_list_estimation')

lemma field_smaller [termination_simp]: "x \<in> set (list_items (field_of name v)) \<Longrightarrow> size x < size v"
proof (cases v)
  case (Node c fs)
  assume x: "x \<in> set (list_items (field_of name v))"
  then obtain w where w: "map_of fs name = Some w" "x \<in> set (list_items w)" using Node by (auto simp: field_of.simps split: option.splits)
  have "size w \<le> size_list (size_prod (\<lambda>_. 0) size) fs"
    using map_of_SomeD[OF w(1)] by (force intro: size_list_estimation')
  then show ?thesis using items_smaller[OF w(2)] Node by simp
qed (simp_all add: field_of.simps)

lemma size_node: "size (Node c fs) = Suc (size_list (\<lambda>f. Suc (size (snd f))) fs)"
  by (simp add: size_prod_simp)

lemmas node_field_smaller [termination_simp] = field_smaller[of _ _ "Node c fs" for c fs, unfolded size_node]

section \<open>The names a statement binds and its kind\<close>

definition FUNCTION_CLASSES :: "string list" where "FUNCTION_CLASSES = [''FunctionDef'', ''AsyncFunctionDef'']"

definition is_function :: "ast \<Rightarrow> bool" where
  "is_function v \<longleftrightarrow> ast_class v \<in> set FUNCTION_CLASSES"

definition is_class :: "ast \<Rightarrow> bool" where
  "is_class v \<longleftrightarrow> ast_class v = ''ClassDef''"

definition is_import :: "ast \<Rightarrow> bool" where
  "is_import v \<longleftrightarrow> ast_class v = ''Import'' \<or> ast_class v = ''ImportFrom''"

definition def_name :: "ast \<Rightarrow> string" where
  "def_name v = str_of (field_of ''name'' v)"

lemma value_smaller: "size (field_of name (Node c fs)) < size (Node c fs)"
proof (cases "map_of fs name")
  case (Some w)
  then have "size w \<le> size_list (size_prod (\<lambda>_. 0) size) fs"
    using map_of_SomeD[OF Some] by (force intro: size_list_estimation')
  then show ?thesis using Some by (simp add: field_of.simps)
qed (simp add: field_of.simps)

lemmas node_value_smaller [termination_simp] = value_smaller[unfolded size_node]

fun target_names :: "ast \<Rightarrow> string list" where
  "target_names (Name n c) = [n]"
| "target_names (Node cls fs) =
     (if cls = ''Tuple'' \<or> cls = ''List'' then concat (map target_names (list_items (field_of ''elts'' (Node cls fs))))
      else if cls = ''Starred'' then target_names (field_of ''value'' (Node cls fs))
      else [])"
| "target_names v = []"

fun is_simple_target :: "ast \<Rightarrow> bool" where
  "is_simple_target (Name n c) = True"
| "is_simple_target (Node cls fs) =
     (if cls = ''Tuple'' \<or> cls = ''List'' then list_all is_simple_target (list_items (field_of ''elts'' (Node cls fs)))
      else if cls = ''Starred'' then is_simple_target (field_of ''value'' (Node cls fs))
      else False)"
| "is_simple_target v = False"

text \<open>\<^verbatim>\<open>alias.asname or name\<close>; an absent name is the empty text.\<close>

definition alias_local :: "ast \<Rightarrow> string \<Rightarrow> string" where
  "alias_local alias name = (let as = str_of (field_of ''asname'' alias) in if as = [] then name else as)"

definition alias_aliased :: "ast \<Rightarrow> bool" where
  "alias_aliased alias \<longleftrightarrow> field_of ''asname'' alias \<noteq> Absent"

definition stmt_names :: "ast \<Rightarrow> string list" where
  "stmt_names stmt =
     (let cls = ast_class stmt; aliases = list_items (field_of ''names'' stmt) in
      if is_function stmt \<or> is_class stmt then [def_name stmt]
      else if cls = ''Import'' then map (\<lambda>a. alias_local a (first_part (def_name a))) aliases
      else if cls = ''ImportFrom''
      then (if \<exists>a\<in>set aliases. def_name a = ''*'' then [''*''] else map (\<lambda>a. alias_local a (def_name a)) aliases)
      else if cls = ''Assign'' then concat (map target_names (list_items (field_of ''targets'' stmt)))
      else if cls = ''AnnAssign'' \<or> cls = ''AugAssign'' then target_names (field_of ''target'' stmt)
      else [])"

fun is_str :: "ast \<Rightarrow> bool" where
  "is_str (Str _) = True"
| "is_str _ = False"

definition is_docstring :: "ast \<Rightarrow> bool" where
  "is_docstring stmt \<longleftrightarrow>
     ast_class stmt = ''Expr'' \<and> ast_class (field_of ''value'' stmt) = ''Constant''
     \<and> is_str (field_of ''value'' (field_of ''value'' stmt))"

definition classify :: "ast \<Rightarrow> string" where
  "classify stmt =
     (let cls = ast_class stmt in
      if is_function stmt then ''def''
      else if is_class stmt then ''class''
      else if is_import stmt then ''import''
      else if cls = ''Assign''
      then (if list_all is_simple_target (list_items (field_of ''targets'' stmt)) then ''assign'' else ''effect'')
      else if cls = ''AnnAssign'' \<or> cls = ''AugAssign''
      then (if is_simple_target (field_of ''target'' stmt) then ''assign'' else ''effect'')
      else if is_docstring stmt then ''doc''
      else ''effect'')"

section \<open>Skeletons\<close>

text \<open>An optional node: \<^verbatim>\<open>[x] if x is not None else []\<close>.\<close>

definition present_node :: "ast \<Rightarrow> ast list" where
  "present_node v = (if v = Absent then [] else [v])"

definition skeleton_nodes :: "ast \<Rightarrow> ast list" where
  "skeleton_nodes f =
     list_items (field_of ''decorator_list'' f) @ [field_of ''args'' f] @ present_node (field_of ''returns'' f) @ list_items (field_of ''type_params'' f)"

definition skeleton_dumps :: "python \<Rightarrow> ast \<Rightarrow> string list" where
  "skeleton_dumps py f =
     map (dump_node (py_repr py)) (list_items (field_of ''decorator_list'' f)) @ [dump_node (py_repr py) (field_of ''args'' f)]
     @ map (dump_node (py_repr py)) (present_node (field_of ''returns'' f))
     @ map (dump_node (py_repr py)) (list_items (field_of ''type_params'' f))
     @ (if ast_class f = ''AsyncFunctionDef'' then [''async''] else [])"

definition class_skeleton_dumps :: "python \<Rightarrow> ast \<Rightarrow> string list" where
  "class_skeleton_dumps py c =
     map (dump_node (py_repr py)) (list_items (field_of ''decorator_list'' c)) @ map (dump_node (py_repr py)) (list_items (field_of ''bases'' c))
     @ map (dump_node (py_repr py)) (list_items (field_of ''keywords'' c)) @ map (dump_node (py_repr py)) (list_items (field_of ''type_params'' c))"

definition LOCAL_DECORATORS :: "string list" where
  "LOCAL_DECORATORS =
     [''staticmethod'', ''classmethod'', ''property'', ''cached_property'', ''abstractmethod'', ''overload'', ''override'',
      ''cache'', ''lru_cache'']"

definition LOCAL_DECORATOR_MODULES :: "string list" where
  "LOCAL_DECORATOR_MODULES = [''functools'', ''abc'', ''typing'', ''typing_extensions'']"

definition PROPERTY_PARTS :: "string list" where
  "PROPERTY_PARTS = [''setter'', ''getter'', ''deleter'']"

fun decorator_ref :: "ast \<Rightarrow> bool" where
  "decorator_ref (Name n c) = (n \<in> set LOCAL_DECORATORS)"
| "decorator_ref (Attribute v a c) =
     (a \<in> set PROPERTY_PARTS
      \<or> a \<in> set LOCAL_DECORATORS \<and> (case v of Name m _ \<Rightarrow> m \<in> set LOCAL_DECORATOR_MODULES | _ \<Rightarrow> False))"
| "decorator_ref _ = False"

definition local_decorator :: "ast \<Rightarrow> bool" where
  "local_decorator v = decorator_ref (if ast_class v = ''Call'' then field_of ''func'' v else v)"

text \<open>Whether a call occurs in a tree (\<^verbatim>\<open>ast.walk\<close>).\<close>

fun calls_in :: "ast \<Rightarrow> bool" where
  "calls_in (Node cls fs) = (cls = ''Call'' \<or> list_ex (\<lambda>f. calls_in (snd f)) fs)"
| "calls_in (Attribute v a c) = calls_in v"
| "calls_in (Items xs) = list_ex calls_in xs"
| "calls_in _ = False"

definition has_call :: "ast list \<Rightarrow> bool" where
  "has_call nodes = list_ex calls_in nodes"

definition local_skeleton :: "ast \<Rightarrow> bool" where
  "local_skeleton f \<longleftrightarrow>
     list_all local_decorator (list_items (field_of ''decorator_list'' f))
     \<and> \<not> has_call ([field_of ''args'' f] @ present_node (field_of ''returns'' f) @ list_items (field_of ''type_params'' f))"

definition class_members :: "ast \<Rightarrow> ast list" where
  "class_members c = filter (\<lambda>s. \<not> is_function s) (list_items (field_of ''body'' c))"

definition plain_class_node :: "string list \<Rightarrow> ast \<Rightarrow> bool" where
  "plain_class_node bases c \<longleftrightarrow>
     list_items (field_of ''decorator_list'' c) = [] \<and> list_items (field_of ''keywords'' c) = [] \<and> list_items (field_of ''type_params'' c) = []
     \<and> list_all (\<lambda>b. case b of Name n _ \<Rightarrow> n \<in> set bases | _ \<Rightarrow> False) (list_items (field_of ''bases'' c))
     \<and> \<not> has_call (class_members c)"

section \<open>The walk\<close>

definition STMT_CLASSES :: "string list" where
  "STMT_CLASSES =
     [''FunctionDef'', ''AsyncFunctionDef'', ''ClassDef'', ''Return'', ''Delete'', ''Assign'', ''TypeAlias'', ''AugAssign'',
      ''AnnAssign'', ''For'', ''AsyncFor'', ''While'', ''If'', ''With'', ''AsyncWith'', ''Match'', ''Raise'', ''Try'',
      ''TryStar'', ''Assert'', ''Import'', ''ImportFrom'', ''Global'', ''Nonlocal'', ''Expr'', ''Pass'', ''Break'',
      ''Continue'']"

definition is_stmt :: "ast \<Rightarrow> bool" where
  "is_stmt v \<longleftrightarrow> ast_class v \<in> set STMT_CLASSES"

text \<open>The statement lists under a statement, each with the field it comes from.\<close>

definition child_lists :: "ast \<Rightarrow> (string \<times> ast list) list" where
  "child_lists stmt =
     filter (\<lambda>(f, l). l \<noteq> [] \<and> list_all is_stmt l)
       (map (\<lambda>f. (f, list_items (field_of f stmt))) [''body'', ''orelse'', ''finalbody''])
     @ map (\<lambda>h. (''handler'', list_items (field_of ''body'' h)))
         (filter (\<lambda>h. ast_class h = ''ExceptHandler'') (list_items (field_of ''handlers'' stmt)))
     @ map (\<lambda>c. (''case'', list_items (field_of ''body'' c))) (list_items (field_of ''cases'' stmt))"

lemma child_smaller [termination_simp]:
  assumes "l \<in> set (child_lists v)" and "x \<in> set (snd l)"
  shows "size x < size v"
proof -
  consider f where "x \<in> set (list_items (field_of f v))"
    | h f where "h \<in> set (list_items (field_of f v))" "x \<in> set (list_items (field_of ''body'' h))"
    using assms by (auto simp: child_lists_def split: if_splits)
  then show ?thesis
  proof cases
    case (2 h f)
    show ?thesis using field_smaller[OF 2(2)] field_smaller[OF 2(1)] by (rule less_trans)
  qed (rule field_smaller)
qed

datatype found = Scope string ast | Class string ast | Nested ast

text \<open>
  \<^verbatim>\<open>walk\<close>: what a statement adds. \<open>in_fn\<close> is \<^verbatim>\<open>in_function\<close>, \<open>outer\<close> is \<^verbatim>\<open>top\<close>.
\<close>

fun walk_stmt :: "string list \<Rightarrow> bool \<Rightarrow> bool \<Rightarrow> ast \<Rightarrow> found list" where
  "walk_stmt parts in_fn outer v =
     (if \<not> outer \<and> is_import v then [Nested v] else [])
     @ (if is_function v
        then (if in_fn then [] else [Scope (dotted (parts @ [def_name v])) v])
             @ concat (map (walk_stmt (parts @ [def_name v]) True False) (list_items (field_of ''body'' v)))
             @ concat (map (\<lambda>l. if fst l = ''body'' then []
                                else concat (map (walk_stmt (parts @ [def_name v]) True False) (snd l))) (child_lists v))
        else if is_class v
        then (if in_fn then [] else [Class (dotted (parts @ [def_name v])) v])
             @ concat (map (walk_stmt (parts @ [def_name v]) in_fn False) (list_items (field_of ''body'' v)))
        else concat (map (\<lambda>l. concat (map (walk_stmt parts in_fn False) (snd l))) (child_lists v)))"

declare walk_stmt.simps [simp del]

definition walk_body :: "ast list \<Rightarrow> found list" where
  "walk_body body = concat (map (walk_stmt [] False True) body)"

fun scope_of :: "found \<Rightarrow> (string \<times> ast) list" where
  "scope_of (Scope q v) = [(q, v)]"
| "scope_of _ = []"

fun class_of :: "found \<Rightarrow> (string \<times> ast) list" where
  "class_of (Class q v) = [(q, v)]"
| "class_of _ = []"

fun nested_of :: "found \<Rightarrow> ast list" where
  "nested_of (Nested v) = [v]"
| "nested_of _ = []"

text \<open>The accumulated entries, sorted by qualified name: the nodes of one name in source order.\<close>

definition grouped_entries :: "(string \<times> ast) list \<Rightarrow> (string \<times> ast list) list" where
  "grouped_entries evs = map (\<lambda>q. (q, map snd (filter (\<lambda>e. fst e = q) evs))) (sorted_set (map fst evs))"

section \<open>Compiled functions\<close>

definition CO_NEWLOCALS :: nat where "CO_NEWLOCALS = 2"

fun is_code :: "pycode \<Rightarrow> bool" where
  "is_code (Value _) = False"
| "is_code (Code _ _ _ _ _ _ _) = True"

fun strip_positions :: "pycode \<Rightarrow> pycode" where
  "strip_positions (Value r) = Value r"
| "strip_positions (Code q flags line tbl fname consts rest) = Code q flags 1 [] [] (map strip_positions consts) rest"

fun code_qualname :: "pycode \<Rightarrow> string" where
  "code_qualname (Code q _ _ _ _ _ _) = q"
| "code_qualname _ = []"

fun code_flags :: "pycode \<Rightarrow> nat" where
  "code_flags (Code _ flags _ _ _ _ _) = flags"
| "code_flags _ = 0"

fun nested_codes :: "pycode \<Rightarrow> pycode list" where
  "nested_codes (Code _ _ _ _ _ consts _) = filter is_code consts"
| "nested_codes _ = []"

text \<open>\<^verbatim>\<open>needle in s\<close>.\<close>

fun text_contains :: "string \<Rightarrow> string \<Rightarrow> bool" where
  "text_contains needle s = (starts_with needle s \<or> (case s of [] \<Rightarrow> False | _ # rest \<Rightarrow> text_contains needle rest))"

text \<open>
  The stack loop; the head of the list is the top of the stack. \<open>outer\<close> is whether the code is the
  module itself, which only the first one is.
\<close>

definition code_found :: "(pycode \<Rightarrow> string) \<Rightarrow> bool \<Rightarrow> pycode \<Rightarrow> (string \<times> string) list" where
  "code_found marshal outer code =
     (if \<not> outer \<and> (code_flags code div CO_NEWLOCALS) mod 2 = 1 \<and> \<not> text_contains ''<locals>'' (code_qualname code)
      then [(code_qualname code, marshal (strip_positions code))] else [])"

lemma nested_smaller: "sum_list (map (\<lambda>c. Suc (size c)) (nested_codes code)) < Suc (size code)"
proof -
  have "sum_list (map (\<lambda>c. Suc (size c)) (filter P cs)) \<le> size_list size cs" for P and cs :: "pycode list"
    by (induction cs) auto
  then show ?thesis by (cases code) (simp_all add: less_Suc_eq_le le_SucI)
qed

function codes_loop :: "(pycode \<Rightarrow> string) \<Rightarrow> bool \<Rightarrow> pycode list \<Rightarrow> (string \<times> string) list" where
  "codes_loop marshal outer [] = []"
| "codes_loop marshal outer (code # stack) =
     code_found marshal outer code @ codes_loop marshal False (nested_codes code @ stack)"
  by pat_completeness auto
termination
  by (relation "measure (\<lambda>(marshal, outer, stack). sum_list (map (\<lambda>c. Suc (size c)) stack))") (auto simp: nested_smaller less_Suc_eq_le[symmetric])

definition function_codes :: "(pycode \<Rightarrow> string) \<Rightarrow> pycode option \<Rightarrow> (string \<times> string) list option" where
  "function_codes marshal compiled = map_option (\<lambda>code. codes_loop marshal True [code]) compiled"

text \<open>\<^verbatim>\<open>codes.get(qualname)\<close>: the codes of one qualified name in source order.\<close>

definition codes_under :: "(string \<times> string) list \<Rightarrow> string \<Rightarrow> string list" where
  "codes_under found q = map snd (filter (\<lambda>e. fst e = q) found)"

section \<open>The index\<close>

definition fingerprint :: "python \<Rightarrow> string list \<Rightarrow> string" where
  "fingerprint py dumps = py_sha py (join_with [CHR 0x0A] dumps)"

definition scope_body :: "python \<Rightarrow> (string \<times> string) list option \<Rightarrow> string \<Rightarrow> ast list \<Rightarrow> string list" where
  "scope_body py codes q nodes =
     (let compiled = (case codes of None \<Rightarrow> [] | Some f \<Rightarrow> codes_under f q) in
      if compiled \<noteq> [] \<and> length compiled = length nodes then compiled
      else concat (map (\<lambda>n. map (dump_node (py_repr py)) (list_items (field_of ''body'' n))) nodes))"

definition scope_row :: "python \<Rightarrow> (string \<times> string) list option \<Rightarrow> string \<times> ast list \<Rightarrow> scope_index" where
  "scope_row py codes entry =
     (let (q, nodes) = entry in
      \<lparr>sx_qualname = q, sx_body = fingerprint py (scope_body py codes q nodes),
       sx_skeleton = fingerprint py (concat (map (skeleton_dumps py) nodes)),
       sx_refs = sorted_set (concat (map (\<lambda>n. chains_of (list_items (field_of ''body'' n)) @ chains_of (skeleton_nodes n)) nodes)),
       sx_decorated = list_ex (\<lambda>n. list_items (field_of ''decorator_list'' n) \<noteq> []) nodes,
       sx_local = list_all local_skeleton nodes\<rparr>)"

text \<open>The nodes a class refers to: its header, its members, and the skeletons of its methods.\<close>

definition class_header :: "ast \<Rightarrow> ast list" where
  "class_header c =
     list_items (field_of ''decorator_list'' c) @ list_items (field_of ''bases'' c)
     @ map (field_of ''value'') (list_items (field_of ''keywords'' c)) @ list_items (field_of ''type_params'' c)"

definition class_nodes :: "ast \<Rightarrow> ast list" where
  "class_nodes c =
     class_header c @ class_members c @ concat (map skeleton_nodes (filter is_function (list_items (field_of ''body'' c))))"

definition class_row :: "python \<Rightarrow> string \<times> ast list \<Rightarrow> class_index" where
  "class_row py entry =
     (let (q, nodes) = entry in
      \<lparr>cx_qualname = q, cx_skeleton = fingerprint py (concat (map (class_skeleton_dumps py) nodes)),
       cx_body = fingerprint py (concat (map (\<lambda>n. map (dump_node (py_repr py)) (class_members n)) nodes)),
       cx_refs = sorted_set (concat (map (\<lambda>n. chains_of (class_nodes n)) nodes)),
       cx_plain = list_all (plain_class_node (py_bases py)) nodes\<rparr>)"

definition top_statement :: "python \<Rightarrow> ast \<Rightarrow> statement_index" where
  "top_statement py stmt =
     (let kind = classify stmt in
      \<lparr>st_kind = kind, st_bound = sorted_set (stmt_names stmt),
       st_refs =
         (if kind = ''def'' then chains_of (skeleton_nodes stmt)
          else if kind = ''class'' then chains_of (class_header stmt)
          else if kind = ''import'' \<or> kind = ''doc'' then []
          else chains_of [stmt]),
       st_fingerprint =
         fingerprint py
           (if kind = ''def'' then skeleton_dumps py stmt
            else if kind = ''class'' then class_skeleton_dumps py stmt
            else [dump_node (py_repr py) stmt])\<rparr>)"

fun num_of :: "ast \<Rightarrow> int" where
  "num_of (Num i) = i"
| "num_of _ = 0"

text \<open>The imports of one statement; only those at the top bind names.\<close>

definition import_rows :: "bool \<Rightarrow> int \<Rightarrow> ast \<Rightarrow> import_index list" where
  "import_rows outer pos stmt =
     map (\<lambda>a.
       if ast_class stmt = ''Import''
       then \<lparr>ii_level = 0, ii_module = def_name a, ii_name = None,
             ii_local = (if outer then Some (alias_local a (first_part (def_name a))) else None),
             ii_aliased = alias_aliased a, ii_statement = pos\<rparr>
       else \<lparr>ii_level = nat (num_of (field_of ''level'' stmt)), ii_module = str_of (field_of ''module'' stmt),
             ii_name = Some (def_name a),
             ii_local = (if outer \<and> def_name a \<noteq> ''*'' then Some (alias_local a (def_name a)) else None),
             ii_aliased = alias_aliased a, ii_statement = pos\<rparr>)
       (list_items (field_of ''names'' stmt))"

definition module_imports :: "ast list \<Rightarrow> import_index list" where
  "module_imports body =
     concat (map (\<lambda>(pos, stmt). import_rows True (int pos) stmt)
       (filter (\<lambda>(pos, stmt). classify stmt = ''import'') (List.enumerate 0 body)))
     @ concat (map (import_rows False (-1)) (concat (map nested_of (walk_body body))))"

definition module_index :: "python \<Rightarrow> ast list \<Rightarrow> (string \<times> string) list option \<Rightarrow> file_index" where
  "module_index py body codes =
     \<lparr>fi_parsed = True, fi_imports = module_imports body,
      fi_scopes = map (scope_row py codes) (grouped_entries (concat (map scope_of (walk_body body)))),
      fi_classes = map (class_row py) (grouped_entries (concat (map class_of (walk_body body)))),
      fi_statements = map (top_statement py) body\<rparr>"

definition MAX_FILE_BYTES :: nat where "MAX_FILE_BYTES = 2 * 1024 * 1024"

definition index_source :: "python \<Rightarrow> string \<Rightarrow> file_index" where
  "index_source py raw =
     (if MAX_FILE_BYTES < length raw \<or> \<not> utf8_valid raw then unparsed_index
      else (case py_parse py raw of
              None \<Rightarrow> unparsed_index
            | Some body \<Rightarrow> module_index py body (function_codes (py_marshal py) (py_compile py raw))))"

end
