(* ===== verification/Source_Facts.thy ===== *)
theory Source_Facts
  imports Source_Build
begin

text \<open>
  What the project index guarantees: the cache changes nothing, building succeeds on
  nonempty chains, the reverse graph is exactly the relation of the import edges, and the
  planner over the index reaches what the planner over the files reaches.
\<close>

section \<open>The cache is transparent\<close>

text \<open>The JSON library and the pool return an index as it was encoded.\<close>

definition codec_ok :: "build_inputs \<Rightarrow> bool" where
  "codec_ok inp \<longleftrightarrow>
     (\<forall>raw\<in>snd ` set (bi_files inp).
        (let fi = index_or_unparsed inp raw in
         known_kinds fi \<and> bi_loads inp (bi_dumps inp (JObj (index_payload fi))) = Some (JObj (index_payload fi))))"

text \<open>A store whose blob under a digest is, when it decodes, the index of the content with that digest.\<close>

definition truthful :: "build_inputs \<Rightarrow> (string \<Rightarrow> string) \<Rightarrow> (string \<times> string) list \<Rightarrow> bool" where
  "truthful inp digest found \<longleftrightarrow>
     (\<forall>r blob. map_of found (digest r) = Some blob \<longrightarrow> decode_blob inp blob \<in> {None, Some (bi_parse inp r)})"

lemma decode_encode_blob:
  assumes "codec_ok inp" and "raw \<in> snd ` set (bi_files inp)"
  shows "decode_blob inp (encode_blob inp (index_or_unparsed inp raw)) = Some (index_or_unparsed inp raw)"
  using assms unfolding decode_blob_def encode_blob_def decode_index_iff encode_index_def codec_ok_def
  by (auto simp: Let_def)

lemma index_many_serial:
  assumes "codec_ok inp" and "set raws \<subseteq> snd ` set (bi_files inp)"
  shows "index_many inp raws = map (index_or_unparsed inp) raws"
proof -
  have "list_all2 (\<lambda>x y. decode_blob inp (encode_blob inp x) = Some y)
      (map (index_or_unparsed inp) raws) (map (index_or_unparsed inp) raws)"
    using assms decode_encode_blob by (auto simp: list_all2_map1 list_all2_map2 list_all2_same)
  then show ?thesis by (simp add: index_many_def Let_def decode_all_iff[THEN iffD2])
qed

lemma content_of_digest:
  assumes "bi_digest inp = Some digest" and "inj digest" and "(rel, Some r) \<in> set (bi_files inp)" and "digest r \<noteq> []"
  shows "content_of inp (digest r) = Some r"
proof -
  let ?P = "\<lambda>f. digest_of inp (snd f) = digest r"
  have "?P (rel, Some r)" using assms(1) by (simp add: digest_of_def)
  then have "find ?P (bi_files inp) \<noteq> None" using assms(3) unfolding find_None_iff by blast
  then obtain f where f: "find ?P (bi_files inp) = Some f" by auto
  then have "digest_of inp (snd f) = digest r" by (rule find_Some_in[THEN conjunct2])
  then have "snd f = Some r"
    using assms(1,4) injD[OF assms(2)] by (cases "snd f") (auto simp: digest_of_def)
  then show ?thesis using f by (simp add: content_of_def)
qed

lemma wanted_iff: "d \<in> set (wanted_digests inp) \<longleftrightarrow> d \<noteq> [] \<and> (\<exists>f\<in>set (bi_files inp). d = digest_of inp (snd f))"
  by (auto simp: wanted_digests_def)

lemma wanted_content:
  assumes "d \<in> set (wanted_digests inp)" and "bi_digest inp = Some digest"
  obtains rel r where "(rel, Some r) \<in> set (bi_files inp)" "d = digest r"
proof -
  obtain rel raw where "(rel, raw) \<in> set (bi_files inp)" "d = digest_of inp raw" "d \<noteq> []"
    using assms(1) by (auto simp: wanted_iff)
  then show ?thesis using that assms(2) by (cases raw) (simp_all add: digest_of_def)
qed

lemma fresh_indexes_map:
  assumes c: "codec_ok inp" and dg: "bi_digest inp = Some digest" and inj: "inj digest"
  shows "fresh_indexes inp found = map (\<lambda>d. (d, index_or_unparsed inp (content_of inp d)))
      (filter (\<lambda>d. cached_index inp found d = None) (wanted_digests inp))"
proof -
  let ?m = "filter (\<lambda>d. cached_index inp found d = None) (wanted_digests inp)"
  have "content_of inp d \<in> snd ` set (bi_files inp)" if d: "d \<in> set (wanted_digests inp)" for d
  proof -
    obtain rel r where r: "(rel, Some r) \<in> set (bi_files inp)" "d = digest r" using wanted_content[OF d dg] .
    have "digest r \<noteq> []" using d r(2) by (simp add: wanted_iff)
    then show ?thesis using content_of_digest[OF dg inj r(1)] r by force
  qed
  then have "index_many inp (map (content_of inp) ?m) = map (index_or_unparsed inp) (map (content_of inp) ?m)"
    by (intro index_many_serial[OF c]) auto
  then show ?thesis by (simp add: fresh_indexes_def Let_def zip_map2 zip_same_conv_map)
qed

lemma map_of_image: "map_of (map (\<lambda>x. (x, f x)) xs) k = (if k \<in> set xs then Some (f k) else None)"
  by (induction xs) auto

theorem index_files_transparent:
  assumes c: "codec_ok inp" and inj: "\<And>digest. bi_digest inp = Some digest \<Longrightarrow> inj digest"
    and store: "\<And>digest get_many found. bi_digest inp = Some digest \<Longrightarrow> bi_get_many inp = Some get_many \<Longrightarrow>
       get_many (wanted_digests inp) = Some found \<Longrightarrow> truthful inp digest found"
  shows "fst (index_files inp) = map (\<lambda>(rel, raw). (rel, index_or_unparsed inp raw)) (bi_files inp)"
    and "bi_digest inp = Some digest \<Longrightarrow> truthful inp digest (snd (index_files inp))"
proof -
  have plain: "zip (map fst (bi_files inp)) (map (index_or_unparsed inp \<circ> snd) (bi_files inp))
      = map (\<lambda>(rel, raw). (rel, index_or_unparsed inp raw)) (bi_files inp)"
    by (induction "bi_files inp" arbitrary: inp) (simp_all add: zip_map1 zip_map2 zip_same_conv_map split_def)
  have row: "index_of_file inp found (fresh_indexes inp found) raw = index_or_unparsed inp raw"
    if dg: "bi_digest inp = Some digest" and f: "(rel, raw) \<in> set (bi_files inp)" and t: "truthful inp digest found"
    for digest found rel raw
  proof (cases "digest_of inp raw = []")
    case False
    then obtain r where r: "raw = Some r" "digest_of inp raw = digest r"
      using dg by (auto simp: digest_of_def split: option.splits)
    have w: "digest r \<in> set (wanted_digests inp)" using False f r by (force simp: wanted_iff)
    have content: "content_of inp (digest r) = Some r"
      using content_of_digest[OF dg inj[OF dg]] f r False by simp
    show ?thesis
    proof (cases "cached_index inp found (digest r)")
      case None
      then show ?thesis
        using False r w content
        by (simp add: index_of_file_def Let_def fresh_indexes_map[OF c dg inj[OF dg]] map_of_image)
    next
      case (Some fi)
      then have "fi = bi_parse inp r"
        using t unfolding truthful_def cached_index_def by (fastforce simp: Option.bind_eq_Some_conv)
      then show ?thesis
        using False r Some
        by (simp add: index_of_file_def Let_def fresh_indexes_map[OF c dg inj[OF dg]] map_of_image index_or_unparsed_def)
    qed
  qed (simp add: index_of_file_def)
  show "fst (index_files inp) = map (\<lambda>(rel, raw). (rel, index_or_unparsed inp raw)) (bi_files inp)"
  proof (cases "bi_digest inp = None \<or> bi_get_many inp = None")
    case True
    have "index_many inp (map snd (bi_files inp)) = map (index_or_unparsed inp \<circ> snd) (bi_files inp)"
      using index_many_serial[OF c, of "map snd (bi_files inp)"] by simp
    then have "fst (index_files inp) = zip (map fst (bi_files inp)) (map (index_or_unparsed inp \<circ> snd) (bi_files inp))"
      using True by (auto simp: index_files_def Let_def split: option.splits)
    then show ?thesis using plain by simp
  next
    case False
    then obtain digest get_many where g: "bi_digest inp = Some digest" "bi_get_many inp = Some get_many" by auto
    define found where "found = (case get_many (wanted_digests inp) of None \<Rightarrow> [] | Some f \<Rightarrow> f)"
    have "truthful inp digest found"
      using store[OF g] by (cases "get_many (wanted_digests inp)") (simp_all add: found_def truthful_def)
    then have same: "map (index_of_file inp found (fresh_indexes inp found)) (map snd (bi_files inp))
        = map (index_or_unparsed inp \<circ> snd) (bi_files inp)"
      using row[OF g(1)] by auto
    have "fst (index_files inp) =
        zip (map fst (bi_files inp)) (map (index_of_file inp found (fresh_indexes inp found)) (map snd (bi_files inp)))"
      by (simp add: index_files_def Let_def g found_def)
    then show ?thesis unfolding same using plain by simp
  qed
  show "truthful inp digest (snd (index_files inp))" if dg: "bi_digest inp = Some digest"
  proof (cases "bi_get_many inp")
    case None
    then show ?thesis by (simp add: index_files_def Let_def dg truthful_def)
  next
    case (Some get_many)
    define found where "found = (case get_many (wanted_digests inp) of None \<Rightarrow> [] | Some f \<Rightarrow> f)"
    let ?m = "filter (\<lambda>d. cached_index inp found d = None) (wanted_digests inp)"
    have stored: "snd (index_files inp) = map (\<lambda>d. (d, encode_blob inp (index_or_unparsed inp (content_of inp d)))) ?m"
      by (simp add: index_files_def Let_def dg Some found_def fresh_indexes_map[OF c dg inj[OF dg]])
    have "decode_blob inp blob = Some (bi_parse inp r)" if "map_of (snd (index_files inp)) (digest r) = Some blob" for r blob
    proof -
      have m: "digest r \<in> set ?m" and blob: "blob = encode_blob inp (index_or_unparsed inp (content_of inp (digest r)))"
        using that by (auto simp: stored map_of_image split: if_splits)
      then have "digest r \<in> set (wanted_digests inp)" by simp
      then obtain rel r' where r': "(rel, Some r') \<in> set (bi_files inp)" "digest r = digest r'"
        by (rule wanted_content[OF _ dg])
      then have "r' = r" using inj[OF dg] by (simp add: inj_def)
      with r'(1) have r: "(rel, Some r) \<in> set (bi_files inp)" by simp
      have "digest r \<noteq> []" using m by (simp add: wanted_iff)
      then have content: "content_of inp (digest r) = Some r" by (rule content_of_digest[OF dg inj[OF dg] r])
      have "Some r \<in> snd ` set (bi_files inp)" using r by force
      from decode_encode_blob[OF c this] show ?thesis
        unfolding blob content unfolding index_or_unparsed_def option.case .
    qed
    then show ?thesis by (simp add: truthful_def)
  qed
qed

section \<open>Building succeeds\<close>

definition chains_nonempty :: "file_index \<Rightarrow> bool" where
  "chains_nonempty fi \<longleftrightarrow>
     (\<forall>s\<in>set (fi_scopes fi). [] \<notin> set (sx_refs s)) \<and> (\<forall>c\<in>set (fi_classes fi). [] \<notin> set (cx_refs c))
     \<and> (\<forall>st\<in>set (fi_statements fi). [] \<notin> set (st_refs st))"

lemma decode_all_total: "(\<And>x. x \<in> set xs \<Longrightarrow> f x \<noteq> None) \<Longrightarrow> decode_all f xs \<noteq> None"
  by (induction xs) fastforce+

lemma resolve_refs_iff: "resolve_refs rs rel refs \<noteq> None \<longleftrightarrow> [] \<notin> set refs"
  by (induction refs) (auto simp: resolve_def split: option.splits list.splits)

lemma resolve_refs_set:
  "resolve_refs rs rel refs = Some keys \<Longrightarrow>
   set keys = (\<Union>ch\<in>set refs. set (resolve_head rs rel (hd ch) (tl ch)))"
  by (induction refs arbitrary: keys) (auto simp: resolve_def split: option.splits list.splits)

lemma ref_table_total: "(\<And>qual refs. (qual, refs) \<in> set items \<Longrightarrow> [] \<notin> set refs) \<Longrightarrow> ref_table rs rel items \<noteq> None"
proof -
  assume a: "\<And>qual refs. (qual, refs) \<in> set items \<Longrightarrow> [] \<notin> set refs"
  have "decode_all (\<lambda>(qual, refs). map_option (Pair qual) (resolve_refs rs rel refs)) items \<noteq> None"
    by (rule decode_all_total) (use a resolve_refs_iff in \<open>auto split: prod.splits\<close>)
  then show ?thesis by (auto simp: ref_table_def)
qed

lemma build_file_total:
  assumes "chains_nonempty (se_index e)"
  shows "build_file inp rs rel digest e \<noteq> None"
proof -
  let ?fi = "se_index e"
  have "ref_table rs rel (map (\<lambda>s. (sx_qualname s, sx_refs s)) (fi_scopes ?fi)) \<noteq> None"
    by (rule ref_table_total) (use assms in \<open>auto simp: chains_nonempty_def\<close>)
  moreover have "ref_table rs rel (map (\<lambda>c. (cx_qualname c, cx_refs c)) (fi_classes ?fi)) \<noteq> None"
    by (rule ref_table_total) (use assms in \<open>auto simp: chains_nonempty_def\<close>)
  moreover have "decode_all (statement_row rs rel ?fi) (List.enumerate 0 (fi_statements ?fi)) \<noteq> None"
  proof (rule decode_all_total)
    fix x
    assume "x \<in> set (List.enumerate 0 (fi_statements ?fi))"
    then have "snd x = fi_statements ?fi ! fst x" "fst x < length (fi_statements ?fi)"
      by (simp_all add: in_set_enumerate_eq)
    then have "snd x \<in> set (fi_statements ?fi)" by simp
    then have "resolve_refs rs rel (st_refs (snd x)) \<noteq> None"
      using assms unfolding resolve_refs_iff chains_nonempty_def by blast
    then show "statement_row rs rel ?fi x \<noteq> None" by (simp add: statement_row_def split_def)
  qed
  ultimately show ?thesis by (auto simp: build_file_def Let_def)
qed

lemma build_tree_total:
  assumes "\<And>rel fi. (rel, fi) \<in> set (fst (index_files inp)) \<Longrightarrow> chains_nonempty fi"
  shows "build_tree inp \<noteq> None"
proof -
  let ?rs = "make_resolver inp (fst (index_files inp))"
  have "decode_all (\<lambda>e. map_option (Pair (se_path e)) (build_file inp ?rs (se_path e) (digest (se_path e)) e)) ?rs \<noteq> None"
    for digest
  proof (rule decode_all_total)
    fix e
    assume "e \<in> set ?rs"
    then have "chains_nonempty (se_index e)" using assms by (auto simp: make_resolver_def)
    then show "map_option (Pair (se_path e)) (build_file inp ?rs (se_path e) (digest (se_path e)) e) \<noteq> None"
      using build_file_total by simp
  qed
  then show ?thesis by (simp add: build_tree_def Let_def)
qed

section \<open>The parts of a built index\<close>

lemma decode_all_rows:
  assumes "decode_all (\<lambda>e. map_option (Pair (g e)) (f e)) xs = Some ys"
  shows "map fst ys = map g xs" and "distinct (map g xs) \<Longrightarrow> e \<in> set xs \<Longrightarrow> map_of ys (g e) = f e"
proof -
  have l: "list_all2 (\<lambda>e y. map_option (Pair (g e)) (f e) = Some y) xs ys" using assms by (simp add: decode_all_iff)
  then show "map fst ys = map g xs" by (induction rule: list_all2_induct) auto
  show "map_of ys (g e) = f e" if "distinct (map g xs)" "e \<in> set xs"
    using l that by (induction rule: list_all2_induct) (fastforce simp: image_iff)+
qed

text \<open>A complete index of sources with distinct paths, indexed as \<open>se\<close>.\<close>

definition sources_of :: "build_inputs \<Rightarrow> resolver" where
  "sources_of inp = make_resolver inp (fst (index_files inp))"

lemma index_files_paths: "map fst (fst (index_files inp)) = map fst (bi_files inp)"
proof -
  have "length (index_many inp raws) = length raws" for raws
    by (auto simp: index_many_def Let_def decode_all_iff dest: list_all2_lengthD split: option.splits)
  then show ?thesis by (auto simp: index_files_def Let_def split: option.splits)
qed

lemma sources_paths: "map se_path (sources_of inp) = map fst (bi_files inp)"
  using index_files_paths[of inp] by (simp add: sources_of_def make_resolver_def comp_def split_def)

lemma sources_modules: "e \<in> set (sources_of inp) \<Longrightarrow> se_modules e = module_names (bi_has_init inp) (se_path e)"
  by (auto simp: sources_of_def make_resolver_def)

definition file_digest :: "build_inputs \<Rightarrow> string \<Rightarrow> string" where
  "file_digest inp rel = lookup_or [] (map (\<lambda>(rel, raw). (rel, digest_of inp raw)) (bi_files inp)) rel"

lemma build_tree_parts:
  assumes "build_tree inp = Some tree" and "pt_complete tree"
  shows "map fst (pt_files tree) = map fst (bi_files inp)"
    and "pt_reverse tree = reverse_of (bi_conftest inp) (sources_of inp) (pt_test_files tree)"
    and "distinct (map fst (bi_files inp)) \<Longrightarrow> e \<in> set (sources_of inp) \<Longrightarrow>
       map_of (pt_files tree) (se_path e) = build_file inp (sources_of inp) (se_path e) (file_digest inp (se_path e)) e"
    and "pt_test_files tree = map fst (filter (\<lambda>f. pf_test (snd f)) (pt_files tree))"
proof -
  have t: "decode_all (\<lambda>e. map_option (Pair (se_path e)) (build_file inp (sources_of inp) (se_path e) (file_digest inp (se_path e)) e))
       (sources_of inp) = Some (pt_files tree)"
    and "pt_reverse tree = reverse_of (bi_conftest inp) (sources_of inp) (pt_test_files tree)"
    and "pt_test_files tree = map fst (filter (\<lambda>f. pf_test (snd f)) (pt_files tree))"
    using assms by (auto simp: build_tree_def empty_tree_def Let_def sources_of_def file_digest_def split: if_splits)
  then show "pt_reverse tree = reverse_of (bi_conftest inp) (sources_of inp) (pt_test_files tree)"
    "pt_test_files tree = map fst (filter (\<lambda>f. pf_test (snd f)) (pt_files tree))" by simp_all
  show "map fst (pt_files tree) = map fst (bi_files inp)"
    using decode_all_rows(1)[OF t] sources_paths by simp
  show "map_of (pt_files tree) (se_path e) = build_file inp (sources_of inp) (se_path e) (file_digest inp (se_path e)) e"
    if "distinct (map fst (bi_files inp))" "e \<in> set (sources_of inp)"
    using decode_all_rows(2)[OF t _ that(2)] that(1) sources_paths by metis
qed

section \<open>The reverse graph is the relation of the import edges\<close>

lemma module_paths_iff:
  assumes "distinct (map se_path rs)" and "e \<in> set rs"
  shows "se_path e \<in> set (module_paths rs name) \<longleftrightarrow> name \<in> set (se_modules e)"
  using distinct_key_unique[OF assms(1)] assms(2) by (auto simp: module_paths_def)

text \<open>A file imports one of the module names of another.\<close>

definition imports_module :: "source_entry \<Rightarrow> string list \<Rightarrow> bool" where
  "imports_module e names \<longleftrightarrow>
     (\<exists>name\<in>set (edge_names (fi_imports (se_index e)) (package_name (se_path e))). name \<in> set names)"

lemma path_imports_iff:
  assumes "distinct (map se_path rs)" and "e \<in> set rs"
  shows "se_path e \<in> set (path_imports rs (se_path e') (se_index e')) \<longleftrightarrow> imports_module e' (se_modules e)"
  using module_paths_iff[OF assms] by (auto simp: path_imports_def imports_module_def)

lemma map_of_entries:
  "distinct (map se_path rs) \<Longrightarrow> e \<in> set rs \<Longrightarrow> map_of (map (\<lambda>e. (se_path e, f e)) rs) (se_path e) = Some (f e)"
  by (induction rs) (auto simp: image_iff)

lemma map_of_no_entry: "path \<notin> se_path ` set rs \<Longrightarrow> map_of (map (\<lambda>e. (se_path e, f e)) rs) path = None"
  by (induction rs) auto

lemma reverse_importers:
  assumes "distinct (map se_path rs)" and "e \<in> set rs"
  shows "b \<in> set (importers (reverse_of conftest rs tests) (se_path e)) \<longleftrightarrow>
    (\<exists>e'\<in>set rs. se_path e' = b \<and> imports_module e' (se_modules e)) \<or> (conftest \<and> b \<in> set (conftest_reach tests (se_path e)))"
proof -
  have "map_of (reverse_of conftest rs tests) (se_path e) =
      Some (map se_path (filter (\<lambda>e'. se_path e \<in> set (path_imports rs (se_path e') (se_index e'))) rs)
            @ (if conftest then conftest_reach tests (se_path e) else []))"
    unfolding reverse_of_def by (rule map_of_entries[OF assms])
  then show ?thesis by (auto simp: importers_def path_imports_iff[OF assms])
qed

lemma reverse_no_importers: "path \<notin> se_path ` set rs \<Longrightarrow> importers (reverse_of conftest rs tests) path = []"
  by (simp add: importers_def reverse_of_def map_of_no_entry)

section \<open>The edges of an index are those of the import statements\<close>

fun import_keys :: "import_stmt \<Rightarrow> (nat \<times> string \<times> string option) list" where
  "import_keys (Import names) = map (\<lambda>n. (0, n, None)) names"
| "import_keys (Import_from level from_name names) = map (\<lambda>n. (level, nonempty_name from_name, Some n)) names"

fun names_something :: "import_stmt \<Rightarrow> bool" where
  "names_something (Import names) = (names \<noteq> [])"
| "names_something (Import_from level from_name names) = (names \<noteq> [])"

text \<open>The index records the import statements the parser finds in the file, and none when it fails.\<close>

definition records_imports :: "import_stmt list option \<Rightarrow> file_index \<Rightarrow> bool" where
  "records_imports stmts fi \<longleftrightarrow>
     (let keys = set (map (\<lambda>imp. (ii_level imp, ii_module imp, ii_name imp)) (fi_imports fi)) in
      case stmts of
        None \<Rightarrow> keys = {}
      | Some ss \<Rightarrow> (\<forall>s\<in>set ss. names_something s) \<and> keys = set (concat (map import_keys ss)))"

definition key_edges :: "string \<Rightarrow> nat \<times> string \<times> string option \<Rightarrow> string set" where
  "key_edges package key =
     (case key of (level, m, name) \<Rightarrow>
        set (edge_of_import package \<lparr>ii_level = level, ii_module = m, ii_name = name, ii_local = None,
                                      ii_aliased = False, ii_statement = 0\<rparr>))"

lemma edge_names_keys:
  "set (edge_names imports package) =
     (\<Union>key\<in>set (map (\<lambda>imp. (ii_level imp, ii_module imp, ii_name imp)) imports). key_edges package key)"
proof -
  have "set (edge_of_import package imp) = key_edges package (ii_level imp, ii_module imp, ii_name imp)" for imp
    by (simp add: key_edges_def edge_of_import_def split: option.split)
  then show ?thesis by (simp add: edge_names_def)
qed

lemma absolute_module_head:
  "absolute_module level (nonempty_name m) package =
     (if import_head package level m = [] then None else Some (import_head package level m))"
  by (simp add: absolute_module_def import_head_def Let_def)

lemma import_edge_keys:
  "names_something s \<Longrightarrow> set (import_edge package s) = (\<Union>key\<in>set (import_keys s). key_edges package key)"
proof (cases s)
  case (Import_from level from_name names)
  moreover assume "names_something s"
  ultimately have "\<exists>n. n \<in> set names" by (cases names) auto
  then show ?thesis using Import_from
    by (auto simp: key_edges_def edge_of_import_def absolute_module_head Let_def split: if_splits)
qed (auto simp: key_edges_def edge_of_import_def)

lemma recorded_edges:
  assumes "records_imports (sc_imports sc rel) fi"
  shows "set (edge_names (fi_imports fi) (package_name rel)) = set (edges_of sc rel)"
proof (cases "sc_imports sc rel")
  case None
  then show ?thesis using assms by (simp add: records_imports_def edges_of_def edge_names_def)
next
  case (Some ss)
  then have "\<forall>s\<in>set ss. names_something s"
    and "set (map (\<lambda>imp. (ii_level imp, ii_module imp, ii_name imp)) (fi_imports fi)) = set (concat (map import_keys ss))"
    using assms by (simp_all add: records_imports_def Let_def)
  then show ?thesis
    using Some import_edge_keys by (simp add: edge_names_keys edges_of_def import_edges_def)
qed

section \<open>Both planners reach the same files\<close>

text \<open>A file imports one of the module names of another, found by either planner.\<close>

definition name_edge :: "sources \<Rightarrow> string list \<Rightarrow> string \<Rightarrow> string \<Rightarrow> bool" where
  "name_edge sc files a b \<longleftrightarrow> b \<in> set files \<and> (\<exists>name\<in>set (module_names (sc_has_init sc) a). name \<in> set (edges_of sc b))"

lemma name_edge_file: "name_edge sc files a b \<Longrightarrow> b \<in> set files"
  by (simp add: name_edge_def)

lemma name_edges_file: "(name_edge sc files)\<^sup>+\<^sup>+ a b \<Longrightarrow> b \<in> set files"
  by (erule tranclp.cases) (simp_all add: name_edge_def)

lemma new_files_iff: "b \<in> set (new_files sc files reached name) \<longleftrightarrow> b \<in> set files \<and> name \<in> set (edges_of sc b) \<and> b \<notin> set reached"
  by (auto simp: new_files_def importers_of_name_def)

lemma new_names_iff:
  "n \<in> set (new_names sc seen rels) \<longleftrightarrow> n \<notin> set seen \<and> (\<exists>rel\<in>set rels. n \<in> set (module_names (sc_has_init sc) rel))"
  by (auto simp: new_names_def names_of_def)

text \<open>Only files that import a name seen are reached.\<close>

lemma legacy_reach_sound:
  assumes "\<And>n. n \<in> set seen \<union> set queue \<Longrightarrow> \<exists>a. R a \<and> n \<in> set (module_names (sc_has_init sc) a)"
    and "\<And>b. b \<in> set reached \<Longrightarrow> R b \<and> T b"
    and "\<And>a b. R a \<Longrightarrow> name_edge sc files a b \<Longrightarrow> R b \<and> T b"
    and "b \<in> set (legacy_reach sc files seen reached queue)"
  shows "T b"
  using assms
proof (induction sc files seen reached queue rule: legacy_reach.induct)
  case (2 sc files seen reached name queue)
  let ?rels = "new_files sc files reached name"
  obtain a where a: "R a" "name \<in> set (module_names (sc_has_init sc) a)" using 2(2)[of name] by auto
  have rels: "R r \<and> T r" if "r \<in> set ?rels" for r
    using 2(4)[OF a(1)] a(2) that by (auto simp: new_files_iff name_edge_def)
  show ?case
  proof (rule 2(1)[OF refl _ _ 2(4)])
    show "\<exists>a. R a \<and> n \<in> set (module_names (sc_has_init sc) a)"
      if "n \<in> set (new_names sc seen ?rels @ seen) \<union> set (rev (new_names sc seen ?rels) @ queue)" for n
      using that 2(2)[of n] rels by (auto simp: new_names_iff)
    show "R r \<and> T r" if "r \<in> set (?rels @ reached)" for r
      using that rels 2(3) by auto
    show "b \<in> set (legacy_reach sc files (new_names sc seen ?rels @ seen) (?rels @ reached) (rev (new_names sc seen ?rels) @ queue))"
      using 2(5) by (simp add: Let_def)
  qed
qed simp

text \<open>Every importer of a name seen is reached, and every name of a reached file is seen.\<close>

lemma legacy_reach_closed:
  assumes "\<And>n b. n \<in> set seen - set queue \<Longrightarrow> b \<in> set files \<Longrightarrow> n \<in> set (edges_of sc b) \<Longrightarrow> b \<in> set reached"
    and "\<And>b. b \<in> set reached \<Longrightarrow> set (module_names (sc_has_init sc) b) \<subseteq> set seen"
    and "set queue \<subseteq> set seen"
  shows "set reached \<subseteq> set (legacy_reach sc files seen reached queue)
    \<and> (\<forall>n b. n \<in> set seen \<longrightarrow> b \<in> set files \<longrightarrow> n \<in> set (edges_of sc b) \<longrightarrow> b \<in> set (legacy_reach sc files seen reached queue))
    \<and> (\<forall>a b. a \<in> set (legacy_reach sc files seen reached queue) \<longrightarrow> name_edge sc files a b \<longrightarrow>
         b \<in> set (legacy_reach sc files seen reached queue))"
  using assms
proof (induction sc files seen reached queue rule: legacy_reach.induct)
  case (1 sc files seen reached)
  then show ?case by (auto simp: name_edge_def)
next
  case (2 sc files seen reached name queue)
  let ?rels = "new_files sc files reached name" and ?new = "new_names sc seen (new_files sc files reached name)"
  let ?out = "legacy_reach sc files (?new @ seen) (?rels @ reached) (rev ?new @ queue)"
  have "set (?rels @ reached) \<subseteq> set ?out
      \<and> (\<forall>n b. n \<in> set (?new @ seen) \<longrightarrow> b \<in> set files \<longrightarrow> n \<in> set (edges_of sc b) \<longrightarrow> b \<in> set ?out)
      \<and> (\<forall>a b. a \<in> set ?out \<longrightarrow> name_edge sc files a b \<longrightarrow> b \<in> set ?out)"
  proof (rule 2(1)[OF refl])
    show "b \<in> set (?rels @ reached)"
      if "n \<in> set (?new @ seen) - set (rev ?new @ queue)" "b \<in> set files" "n \<in> set (edges_of sc b)" for n b
      using that 2(2)[of n b] by (cases "n = name") (auto simp: new_files_iff)
    show "set (module_names (sc_has_init sc) b) \<subseteq> set (?new @ seen)" if "b \<in> set (?rels @ reached)" for b
      using that 2(3)[of b] by (auto simp: new_names_iff)
    show "set (rev ?new @ queue) \<subseteq> set (?new @ seen)" using 2(4) by auto
  qed
  then show ?case by (simp add: Let_def)
qed

lemma legacy_reach_iff:
  assumes "seeds \<noteq> []"
  shows "b \<in> set (legacy_reach sc files (remdups (names_of sc seeds)) [] (rev (names_of sc seeds))) \<longleftrightarrow>
    (\<exists>s\<in>set seeds. (name_edge sc files)\<^sup>+\<^sup>+ s b)"
proof -
  let ?out = "legacy_reach sc files (remdups (names_of sc seeds)) [] (rev (names_of sc seeds))"
  let ?R = "\<lambda>b. \<exists>s\<in>set seeds. (name_edge sc files)\<^sup>*\<^sup>* s b" and ?T = "\<lambda>b. \<exists>s\<in>set seeds. (name_edge sc files)\<^sup>+\<^sup>+ s b"
  have "?T b" if "b \<in> set ?out"
  proof (rule legacy_reach_sound[where R = ?R and T = ?T, OF _ _ _ that])
    show "\<exists>a. ?R a \<and> n \<in> set (module_names (sc_has_init sc) a)"
      if "n \<in> set (remdups (names_of sc seeds)) \<union> set (rev (names_of sc seeds))" for n
      using that by (auto simp: names_of_def)
    show "?R b \<and> ?T b" if "?R a" "name_edge sc files a b" for a b
      using that by (meson rtranclp.rtrancl_into_rtrancl rtranclp_into_tranclp1)
  qed simp
  moreover have "b \<in> set ?out" if "s \<in> set seeds" "(name_edge sc files)\<^sup>+\<^sup>+ s b" for s b
    using that(2)
  proof (induction rule: tranclp_induct)
    case (base b)
    then show ?case
      using legacy_reach_closed[of "remdups (names_of sc seeds)" "rev (names_of sc seeds)" files sc "[]"] that(1)
      by (auto simp: name_edge_def names_of_def)
  next
    case (step a b)
    then show ?case
      using legacy_reach_closed[of "remdups (names_of sc seeds)" "rev (names_of sc seeds)" files sc "[]"] by simp
  qed
  ultimately show ?thesis by blast
qed

text \<open>The index of a project whose files, names and parser are those of the scan.\<close>

definition same_project :: "build_inputs \<Rightarrow> sources \<Rightarrow> tree \<Rightarrow> bool" where
  "same_project inp sc tr \<longleftrightarrow>
     map fst (bi_files inp) = iter_py_files [] (sc_root sc) \<and> distinct (map fst (bi_files inp))
     \<and> bi_has_init inp = sc_has_init sc \<and> \<not> bi_conftest inp
     \<and> (\<forall>(rel, fi)\<in>set (fst (index_files inp)).
          records_imports (sc_imports sc rel) fi \<and> fi_parsed fi = parse_untracked tr rel)"

lemma indexed_source:
  assumes same: "same_project inp sc tr" and built: "build_tree inp = Some tree" and complete: "pt_complete tree"
    and "rel \<in> set (map fst (bi_files inp))"
  obtains e f where "e \<in> set (sources_of inp)" "se_path e = rel" "map_of (pt_files tree) rel = Some f"
    "pf_index f = se_index e" "pf_test f = is_test_file rel (bi_test_roots inp)"
    "records_imports (sc_imports sc rel) (se_index e)" "fi_parsed (se_index e) = parse_untracked tr rel"
proof -
  obtain e where e: "e \<in> set (sources_of inp)" "se_path e = rel"
    using assms(4) unfolding sources_paths[symmetric] by auto
  obtain digest where d: "map_of (pt_files tree) rel = build_file inp (sources_of inp) rel digest e"
    using build_tree_parts(3)[OF built complete _ e(1)] same e(2) by (auto simp: same_project_def)
  have "rel \<in> set (map fst (pt_files tree))" using assms(4) build_tree_parts(1)[OF built complete] by simp
  then obtain f where f: "map_of (pt_files tree) rel = Some f" by (metis map_of_eq_None_iff not_None_eq set_map)
  then have "pf_index f = se_index e" "pf_test f = is_test_file rel (bi_test_roots inp)"
    using d by (auto simp: build_file_def Let_def split: option.splits)
  moreover have "(rel, se_index e) \<in> set (fst (index_files inp))"
    using e by (auto simp: sources_of_def make_resolver_def)
  ultimately show ?thesis using that[OF e f] same by (auto simp: same_project_def)
qed

lemma indexed_file:
  assumes same: "same_project inp sc tr" and built: "build_tree inp = Some tree" and complete: "pt_complete tree"
    and m: "map_of (pt_files tree) rel = Some f"
  shows "rel \<in> set (map fst (bi_files inp))" and "pf_test f = is_test_file rel (bi_test_roots inp)"
    and "records_imports (sc_imports sc rel) (pf_index f)" and "fi_parsed (pf_index f) = parse_untracked tr rel"
proof -
  have "rel \<in> fst ` set (pt_files tree)" using map_of_SomeD[OF m] by force
  then show rel: "rel \<in> set (map fst (bi_files inp))" using build_tree_parts(1)[OF built complete] by (metis set_map)
  obtain e f' where "e \<in> set (sources_of inp)" "se_path e = rel" "map_of (pt_files tree) rel = Some f'"
    "pf_index f' = se_index e" "pf_test f' = is_test_file rel (bi_test_roots inp)"
    "records_imports (sc_imports sc rel) (se_index e)" "fi_parsed (se_index e) = parse_untracked tr rel"
    using indexed_source[OF same built complete rel] .
  then show "pf_test f = is_test_file rel (bi_test_roots inp)"
    "records_imports (sc_imports sc rel) (pf_index f)" "fi_parsed (pf_index f) = parse_untracked tr rel"
    using m by simp_all
qed

lemma index_names_edge:
  assumes same: "same_project inp sc tr" and e: "e \<in> set (sources_of inp)"
  shows "imports_module e (module_names (sc_has_init sc) a) \<longleftrightarrow>
    name_edge sc (map fst (bi_files inp)) a (se_path e)"
proof -
  have "se_path e \<in> set (map fst (bi_files inp))" using e unfolding sources_paths[symmetric] by simp
  moreover have "(se_path e, se_index e) \<in> set (fst (index_files inp))"
    using e by (auto simp: sources_of_def make_resolver_def)
  then have "set (edge_names (fi_imports (se_index e)) (package_name (se_path e))) = set (edges_of sc (se_path e))"
    using same recorded_edges by (fastforce simp: same_project_def)
  ultimately show ?thesis by (auto simp: imports_module_def name_edge_def)
qed

lemma map_of_rows:
  "map_of (filter (\<lambda>row. snd row \<noteq> []) (map (\<lambda>x. (x, f x)) xs)) a = (if a \<in> set xs \<and> f a \<noteq> [] then Some (f a) else None)"
  by (induction xs) auto

lemma merge_importers_none:
  assumes "a \<notin> fst ` set extra"
  shows "importers (merge_importers graph extra) a = importers graph a"
proof -
  have "map_of (map (\<lambda>(seed, xs). (seed, importers graph seed @ xs)) extra) a = None"
    using assms by (auto simp: map_of_eq_None_iff image_iff)
  then show ?thesis by (simp add: importers_def merge_importers_def map_add_def)
qed

lemma merge_importers_some:
  assumes "map_of extra a = Some row"
  shows "importers (merge_importers graph extra) a = importers graph a @ row"
proof -
  have "map_of (map (\<lambda>(seed, xs). (seed, importers graph seed @ xs)) extra) a = Some (importers graph a @ row)"
    using assms by (induction extra) auto
  then show ?thesis by (simp add: importers_def merge_importers_def map_add_def)
qed

lemma merged_edge:
  assumes same: "same_project inp sc tr" and built: "build_tree inp = Some tree" and complete: "pt_complete tree"
    and a: "a \<in> set seeds \<or> a \<in> set (map fst (bi_files inp))"
  shows "(a, b) \<in> imported_by (merge_importers (pt_reverse tree) (missing_seed_importers (sc_has_init sc) tree seeds))
    \<longleftrightarrow> name_edge sc (map fst (bi_files inp)) a b"
proof -
  let ?missing = "missing_seed_importers (sc_has_init sc) tree seeds"
  note parts = build_tree_parts[OF built complete]
  have dist: "distinct (map se_path (sources_of inp))" using same unfolding same_project_def sources_paths by blast
  have keys: "fst ` set (pt_files tree) = fst ` set (bi_files inp)" using parts(1) by (metis set_map)
  show ?thesis
  proof (cases "a \<in> set (map fst (bi_files inp))")
    case True
    then obtain e where e: "e \<in> set (sources_of inp)" "se_path e = a" unfolding sources_paths[symmetric] by auto
    have "map_of (pt_files tree) a \<noteq> None" using True keys by (auto simp: map_of_eq_None_iff)
    then have "a \<notin> fst ` set ?missing" by (auto simp: missing_seed_importers_def)
    then have "importers (merge_importers (pt_reverse tree) ?missing) a = importers (pt_reverse tree) a"
      by (rule merge_importers_none)
    moreover have "b \<in> set (importers (pt_reverse tree) a) \<longleftrightarrow>
        (\<exists>e'\<in>set (sources_of inp). se_path e' = b \<and> imports_module e' (se_modules e))"
      using reverse_importers[OF dist e(1), of b "bi_conftest inp" "pt_test_files tree"] same e(2)
      by (simp add: parts(2) same_project_def)
    moreover have "se_modules e = module_names (sc_has_init sc) a"
      using sources_modules[OF e(1)] e(2) same by (simp add: same_project_def)
    moreover have "name_edge sc (map fst (bi_files inp)) a b \<longrightarrow> (\<exists>e'\<in>set (sources_of inp). se_path e' = b)"
      unfolding sources_paths[symmetric] by (auto simp: name_edge_def)
    ultimately show ?thesis using index_names_edge[OF same] by (auto simp: imported_by_def)
  next
    case False
    have none: "importers (pt_reverse tree) a = []"
      unfolding parts(2) using False sources_paths[of inp] by (intro reverse_no_importers) (metis set_map)
    have edge: "(\<exists>name\<in>set (module_names (sc_has_init sc) a).
           name \<in> set (case map_of (pt_files tree) rel of None \<Rightarrow> []
                          | Some f \<Rightarrow> edge_names (fi_imports (pf_index f)) (package_name rel)))
        \<longleftrightarrow> name_edge sc (map fst (bi_files inp)) a rel" if rel: "rel \<in> set (map fst (bi_files inp))" for rel
    proof -
      have "rel \<in> fst ` set (pt_files tree)" using rel parts(1) by (metis set_map)
      then obtain f where f: "map_of (pt_files tree) rel = Some f" by (metis map_of_eq_None_iff not_None_eq)
      then show ?thesis
        using recorded_edges[of sc, OF indexed_file(3)[OF same built complete f]] rel by (simp add: name_edge_def)
    qed
    let ?row = "filter (\<lambda>rel. \<exists>name\<in>set (module_names (sc_has_init sc) a).
           name \<in> set (case map_of (pt_files tree) rel of None \<Rightarrow> []
                          | Some f \<Rightarrow> edge_names (fi_imports (pf_index f)) (package_name rel))) (map fst (pt_files tree))"
    have row: "b \<in> set ?row \<longleftrightarrow> name_edge sc (map fst (bi_files inp)) a b"
      using edge[of b] parts(1) by (auto simp: name_edge_def)
    have "map_of (pt_files tree) a = None" using False keys by (auto simp: map_of_eq_None_iff)
    then have "a \<in> set (filter (\<lambda>seed. map_of (pt_files tree) seed = None) seeds)" using a False by simp
    then have "map_of ?missing a = (if ?row = [] then None else Some ?row)"
      by (simp add: missing_seed_importers_def map_of_rows)
    then have "importers (merge_importers (pt_reverse tree) ?missing) a = ?row"
      using merge_importers_some[of ?missing a] merge_importers_none[of a ?missing] none
      by (cases "?row = []") (auto simp: map_of_eq_None_iff)
    then show ?thesis using row by (simp add: imported_by_def)
  qed
qed

lemma merged_reach:
  assumes same: "same_project inp sc tr" and built: "build_tree inp = Some tree" and complete: "pt_complete tree"
    and b: "b \<notin> set seeds"
  shows "b \<in> set (static_reach (merge_importers (pt_reverse tree) (missing_seed_importers (sc_has_init sc) tree seeds)) seeds)
    \<longleftrightarrow> (\<exists>s\<in>set seeds. (name_edge sc (map fst (bi_files inp)))\<^sup>+\<^sup>+ s b)"
proof -
  let ?files = "map fst (bi_files inp)"
  let ?I = "imported_by (merge_importers (pt_reverse tree) (missing_seed_importers (sc_has_init sc) tree seeds))"
  note edge = merged_edge[OF same built complete, of _ seeds]
  have to: "x = s \<or> (name_edge sc ?files)\<^sup>+\<^sup>+ s x \<and> x \<in> set ?files" if "(s, x) \<in> ?I\<^sup>*" "s \<in> set seeds" for s x
    using that(1)
  proof (induction rule: rtrancl_induct)
    case (step y z)
    then have "name_edge sc ?files y z" using edge that(2) by blast
    then show ?case
      using step.IH name_edge_file by (metis tranclp.r_into_trancl tranclp.trancl_into_trancl)
  qed simp
  have of_step: "(s, x) \<in> ?I\<^sup>*" if "(name_edge sc ?files)\<^sup>+\<^sup>+ s x" "s \<in> set seeds" for s x
    using that(1)
  proof (induction rule: tranclp_induct)
    case (base y)
    then show ?case using edge that(2) by blast
  next
    case (step y z)
    have "y \<in> set ?files" using name_edges_file[OF step.hyps(1)] .
    then show ?case using step edge by (meson rtrancl.rtrancl_into_rtrancl)
  qed
  show ?thesis using to of_step b unfolding static_reach_iff by metis
qed

text \<open>The verdict depends on the set of reached files only.\<close>

lemma bounded_verdict_cong:
  assumes "set via = set via'"
  shows "im_kind (bounded_verdict r changed dropped tests direct via) = im_kind (bounded_verdict r changed dropped tests direct via')"
    and "im_files (bounded_verdict r changed dropped tests direct via) = im_files (bounded_verdict r changed dropped tests direct via')"
proof -
  have "sorted_set (direct @ via) = sorted_set (direct @ via')"
    unfolding sorted_set_def by (rule sorted_distinct_set_unique) (use assms in auto)
  then show "im_kind (bounded_verdict r changed dropped tests direct via) = im_kind (bounded_verdict r changed dropped tests direct via')"
    "im_files (bounded_verdict r changed dropped tests direct via) = im_files (bounded_verdict r changed dropped tests direct via')"
    by (simp_all add: bounded_verdict_def Let_def)
qed

lemma first_blocker_cong:
  assumes "\<And>p. p \<in> set paths \<Longrightarrow>
    (case parsed p of Some ok \<Rightarrow> ok | None \<Rightarrow> parse_untracked tr p) = (case parsed' p of Some ok \<Rightarrow> ok | None \<Rightarrow> parse_untracked tr p)"
  shows "first_blocker tr roots parsed paths = first_blocker tr roots parsed' paths"
  using assms by (induction paths) simp_all

lemma planners_agree:
  assumes same: "same_project inp sc tr" and built: "build_tree inp = Some tree" and complete: "pt_complete tree"
    and roots: "bi_test_roots inp = cf_test_roots cf"
    and split: "classify_changed tr (cf_test_roots cf) relevant = (direct, seeds)"
  shows "im_kind (plan_with_index tr cf changed dropped relevant direct seeds (planner_view (sc_has_init sc) tree))
      = im_kind (legacy_tail tr sc cf changed dropped relevant)"
    and "im_files (plan_with_index tr cf changed dropped relevant direct seeds (planner_view (sc_has_init sc) tree))
      = im_files (legacy_tail tr sc cf changed dropped relevant)"
proof -
  let ?ix = "planner_view (sc_has_init sc) tree" and ?files = "map fst (bi_files inp)"
  have parsed: "(case ix_parsed ?ix p of Some ok \<Rightarrow> ok | None \<Rightarrow> parse_untracked tr p) = parse_untracked tr p" for p
  proof (cases "map_of (pt_files tree) p")
    case (Some f)
    then show ?thesis using indexed_file(4)[OF same built complete Some] by (simp add: planner_view_def)
  qed (simp add: planner_view_def)
  have blocker: "first_blocker tr (cf_test_roots cf) (ix_parsed ?ix) (sort relevant)
      = first_blocker tr (cf_test_roots cf) (\<lambda>_. None) (sort relevant)"
    by (rule first_blocker_cong) (simp add: parsed)
  have "pf_test f = is_test_file rel (cf_test_roots cf)" if m: "map_of (pt_files tree) rel = Some f" for rel f
    using indexed_file(2)[OF same built complete m] roots by simp
  moreover have dist: "distinct (map fst (pt_files tree))"
    using same unfolding build_tree_parts(1)[OF built complete] same_project_def by blast
  ultimately have "filter (\<lambda>f. pf_test (snd f)) (pt_files tree) =
      filter (\<lambda>f. is_test_file (fst f) (cf_test_roots cf)) (pt_files tree)"
    by (intro filter_cong) auto
  then have "pt_test_files tree = filter (\<lambda>rel. is_test_file rel (cf_test_roots cf)) (map fst (pt_files tree))"
    by (simp add: build_tree_parts(4)[OF built complete] filter_map comp_def)
  then have tests: "pt_test_files tree = filter (\<lambda>rel. is_test_file rel (cf_test_roots cf)) ?files"
    using build_tree_parts(1)[OF built complete] by simp
  have files: "?files = iter_py_files [] (sc_root sc)" using same by (simp add: same_project_def)
  have few: "length ?files \<le> MAX_SCAN_FILES"
    using built complete by (auto simp: build_tree_def empty_tree_def split: if_splits)
  let ?via = "filter (\<lambda>p. p \<in> set (ix_test_files ?ix) \<and> p \<notin> set direct)
      (static_reach (merge_importers (ix_reverse ?ix) (ix_missing ?ix seeds)) seeds)"
  let ?old = "filter (\<lambda>rel. is_test_file rel (cf_test_roots cf) \<and> rel \<notin> set direct)
      (if seeds = [] then [] else legacy_reach sc ?files (remdups (names_of sc seeds)) [] (rev (names_of sc seeds)))"
  have no_test: "s \<in> set seeds \<Longrightarrow> \<not> is_test_file s (cf_test_roots cf)" for s
    using classify_changed_seeds[of s tr "cf_test_roots cf" relevant] split by simp
  have "p \<in> set ?via \<longleftrightarrow> p \<in> set ?old" for p
  proof (cases "p \<in> set seeds")
    case True
    then show ?thesis using no_test tests by (auto simp: planner_view_def)
  next
    case False
    let ?new = "static_reach (merge_importers (ix_reverse ?ix) (ix_missing ?ix seeds)) seeds"
    have new: "p \<in> set ?new \<longleftrightarrow> (\<exists>s\<in>set seeds. (name_edge sc ?files)\<^sup>+\<^sup>+ s p)"
      using merged_reach[OF same built complete False] by (simp add: planner_view_def)
    have old: "p \<in> set (if seeds = [] then [] else legacy_reach sc ?files (remdups (names_of sc seeds)) [] (rev (names_of sc seeds)))
        \<longleftrightarrow> (\<exists>s\<in>set seeds. (name_edge sc ?files)\<^sup>+\<^sup>+ s p)"
      using legacy_reach_iff[of seeds p sc ?files] by (cases "seeds = []") simp_all
    have "p \<in> set (ix_test_files ?ix) \<longleftrightarrow> is_test_file p (cf_test_roots cf) \<and> p \<in> set ?files"
      unfolding planner_view_def project_index.simps tests set_filter by blast
    moreover have "p \<in> set ?files" if "\<exists>s\<in>set seeds. (name_edge sc ?files)\<^sup>+\<^sup>+ s p"
      using that name_edges_file by metis
    ultimately show ?thesis unfolding set_filter mem_Collect_eq new old by blast
  qed
  then have via: "set ?via = set ?old" by blast
  let ?new = "bounded_verdict (po_full_ratio (cf_policy cf)) changed dropped (length (ix_test_files ?ix)) direct ?via"
    and ?was = "bounded_verdict (po_full_ratio (cf_policy cf)) changed dropped (length (ix_test_files ?ix)) direct ?old"
  have count: "length (filter (\<lambda>rel. is_test_file rel (cf_test_roots cf)) ?files) = length (ix_test_files ?ix)"
    using tests by (simp add: planner_view_def)
  show "im_kind (plan_with_index tr cf changed dropped relevant direct seeds ?ix) = im_kind (legacy_tail tr sc cf changed dropped relevant)"
    "im_files (plan_with_index tr cf changed dropped relevant direct seeds ?ix) = im_files (legacy_tail tr sc cf changed dropped relevant)"
  proof (atomize (full), cases "first_blocker tr (cf_test_roots cf) (\<lambda>_. None) (sort relevant)")
    case None
    then have "legacy_tail tr sc cf changed dropped relevant = ?was"
      using few unfolding legacy_tail_def legacy_blocker_def split files[symmetric] Let_def count by simp
    moreover have "im_kind (plan_with_index tr cf changed dropped relevant direct seeds ?ix) = im_kind ?new"
      "im_files (plan_with_index tr cf changed dropped relevant direct seeds ?ix) = im_files ?new"
      using None by (auto simp: plan_with_index_def blocker Let_def)
    ultimately show "im_kind (plan_with_index tr cf changed dropped relevant direct seeds ?ix)
          = im_kind (legacy_tail tr sc cf changed dropped relevant)
        \<and> im_files (plan_with_index tr cf changed dropped relevant direct seeds ?ix)
          = im_files (legacy_tail tr sc cf changed dropped relevant)"
      using bounded_verdict_cong[OF via] by simp
  next
    case (Some b)
    then have "legacy_tail tr sc cf changed dropped relevant = impact_of (Full (fst b)) changed dropped"
      unfolding legacy_tail_def legacy_blocker_def split Let_def by simp
    moreover have "im_kind (plan_with_index tr cf changed dropped relevant direct seeds ?ix) = Full (fst b)"
      "im_files (plan_with_index tr cf changed dropped relevant direct seeds ?ix) = []"
      using Some by (auto simp: plan_with_index_def blocker Let_def split: prod.splits)
    ultimately show "im_kind (plan_with_index tr cf changed dropped relevant direct seeds ?ix)
          = im_kind (legacy_tail tr sc cf changed dropped relevant)
        \<and> im_files (plan_with_index tr cf changed dropped relevant direct seeds ?ix)
          = im_files (legacy_tail tr sc cf changed dropped relevant)"
      by simp
  qed
qed

end
