(* ===== verification/Source_Scan.thy ===== *)
theory Source_Scan
  imports Source_Module Source_Facts
begin

text \<open>
  What indexing a module guarantees: every loaded name heads a recorded chain, the index can be
  stored and resolved, it does not depend on positions, and the walk over the statement lists
  finds every import statement of the tree.
\<close>

section \<open>Chains\<close>

text \<open>The nodes directly in a field.\<close>

fun field_nodes :: "ast \<Rightarrow> ast list" where
  "field_nodes (Items xs) = filter is_node xs"
| "field_nodes v = (if is_node v then [v] else [])"

lemma chain_step_fields: "snd (chain_step (Node cls fs)) = concat (map (\<lambda>f. field_nodes (snd f)) fs)"
proof -
  have "(case v of Items xs \<Rightarrow> filter is_node xs | v \<Rightarrow> if is_node v then [v] else []) = field_nodes v" for v
    by (cases v) simp_all
  then show ?thesis by simp
qed

lemma field_node_smaller [termination_simp]:
  "f \<in> set fs \<Longrightarrow> x \<in> set (field_nodes (snd f)) \<Longrightarrow> size x < Suc (size_list (\<lambda>f. Suc (size (snd f))) fs)"
proof -
  assume f: "f \<in> set fs" and x: "x \<in> set (field_nodes (snd f))"
  have "size x \<le> size (snd f)"
    using x by (cases "snd f") (auto split: if_splits intro: size_list_estimation' le_SucI)
  then show ?thesis using f by (force simp: less_Suc_eq_le intro: size_list_estimation')
qed

text \<open>The names a tree loads.\<close>

fun loaded :: "ast \<Rightarrow> string list" where
  "loaded (Name n c) = (if c = Load then [n] else [])"
| "loaded (Attribute v a c) = loaded v"
| "loaded (Node cls fs) = concat (map (\<lambda>f. concat (map loaded (field_nodes (snd f)))) fs)"
| "loaded (Items xs) = concat (map loaded xs)"
| "loaded _ = []"

lemma spine_loaded: "spine v = Some ch \<Longrightarrow> ch \<noteq> [] \<and> loaded v = [hd ch]"
  by (induction v arbitrary: ch rule: spine.induct) (auto split: if_splits)

lemma chain_step_loaded:
  "hd ` set (fst (chain_step v)) \<union> (\<Union>x\<in>set (snd (chain_step v)). set (loaded x)) = set (loaded v)"
  "[] \<notin> set (fst (chain_step v))"
proof -
  show "hd ` set (fst (chain_step v)) \<union> (\<Union>x\<in>set (snd (chain_step v)). set (loaded x)) = set (loaded v)"
  proof (cases v)
    case (Attribute w a c)
    then show ?thesis using spine_loaded[of v] by (auto split: option.splits)
  next
    case (Node cls fs)
    have "fst (chain_step v) = []" using Node by simp
    moreover have "(\<Union>x\<in>set (snd (chain_step v)). set (loaded x)) = set (loaded v)"
      using chain_step_fields[of cls fs] Node by auto
    ultimately show ?thesis by simp
  qed auto
  show "[] \<notin> set (fst (chain_step v))"
    using spine_loaded[of v "[]"] by (cases v) (auto split: option.splits)
qed

lemma chain_loop_heads:
  "hd ` set (chain_loop acc stack) = hd ` set acc \<union> (\<Union>v\<in>set stack. set (loaded v))"
  "[] \<notin> set acc \<Longrightarrow> [] \<notin> set (chain_loop acc stack)"
proof (induction acc stack rule: chain_loop.induct)
  case (2 acc v stack)
  { case 1
    show ?case using 2(1) chain_step_loaded(1)[of v] by (auto simp: image_Un) }
  { case 2
    then show ?case using \<open>[] \<notin> set (fst (chain_step v) @ acc) \<Longrightarrow> _\<close> chain_step_loaded(2)[of v] by simp }
qed simp_all

lemma chains_heads: "hd ` set (chains_of nodes) = (\<Union>v\<in>set nodes. set (loaded v))"
  by (simp add: chains_of_def chain_loop_heads)

lemma chains_nonempty_of [simp]: "[] \<notin> set (chains_of nodes)"
  by (simp add: chains_of_def chain_loop_heads)

section \<open>The index can be stored and resolved\<close>

lemma classify_kinds: "classify stmt \<in> set STATEMENT_KINDS"
  by (simp add: classify_def STATEMENT_KINDS_def Let_def)

lemma module_index_kinds: "known_kinds (module_index py body codes)"
  using classify_kinds by (auto simp: known_kinds_def module_index_def top_statement_def Let_def)

lemma module_index_chains: "chains_nonempty (module_index py body codes)"
  by (auto simp: chains_nonempty_def module_index_def top_statement_def scope_row_def class_row_def Let_def split_def)

lemma unparsed_ok [simp]: "known_kinds unparsed_index" "chains_nonempty unparsed_index"
  by (simp_all add: known_kinds_def chains_nonempty_def unparsed_index_def)

lemma index_source_kinds: "known_kinds (index_source py raw)"
  by (simp add: index_source_def module_index_kinds split: option.split)

lemma index_source_chains: "chains_nonempty (index_source py raw)"
  by (simp add: index_source_def module_index_chains split: option.split)

lemma entries_keys: "map fst (grouped_entries evs) = sorted_set (map fst evs)"
  by (simp add: grouped_entries_def comp_def)

lemma index_source_names:
  "distinct (map sx_qualname (fi_scopes (index_source py raw)))"
  "sorted (map sx_qualname (fi_scopes (index_source py raw)))"
  "distinct (map cx_qualname (fi_classes (index_source py raw)))"
proof -
  have s: "map sx_qualname (map (scope_row py codes) es) = map fst es" for codes es
    by (simp add: scope_row_def split_def Let_def comp_def)
  have c: "map cx_qualname (map (class_row py) es) = map fst es" for es
    by (simp add: class_row_def split_def Let_def comp_def)
  show "distinct (map sx_qualname (fi_scopes (index_source py raw)))"
    "sorted (map sx_qualname (fi_scopes (index_source py raw)))"
    "distinct (map cx_qualname (fi_classes (index_source py raw)))"
    by (auto simp: index_source_def unparsed_index_def module_index_def s c entries_keys simp del: map_map
        split: option.split)
qed

text \<open>With the indexer of the source and a JSON library that reads what it writes, the index is built.\<close>

definition json_inverse :: "build_inputs \<Rightarrow> bool" where
  "json_inverse inp \<longleftrightarrow>
     (\<forall>raw\<in>snd ` set (bi_files inp).
        let payload = JObj (index_payload (index_or_unparsed inp raw)) in bi_loads inp (bi_dumps inp payload) = Some payload)"

lemma json_inverse_codec:
  assumes "bi_parse inp = index_source py" and "json_inverse inp"
  shows "codec_ok inp"
  using assms index_source_kinds
  by (auto simp: json_inverse_def codec_ok_def Let_def index_or_unparsed_def split: option.split)

lemma index_source_builds:
  assumes "bi_parse inp = index_source py" and "json_inverse inp"
    and "\<And>digest. bi_digest inp = Some digest \<Longrightarrow> inj digest"
    and "\<And>digest get_many found. bi_digest inp = Some digest \<Longrightarrow> bi_get_many inp = Some get_many \<Longrightarrow>
       get_many (wanted_digests inp) = Some found \<Longrightarrow> truthful inp digest found"
  shows "build_tree inp \<noteq> None"
proof (rule build_tree_total)
  fix rel fi
  assume "(rel, fi) \<in> set (fst (index_files inp))"
  then obtain raw where "fi = index_or_unparsed inp raw"
    using index_files_transparent(1)[OF json_inverse_codec[OF assms(1,2)] assms(3,4)] by auto
  then show "chains_nonempty fi"
    using assms(1) index_source_chains by (auto simp: index_or_unparsed_def split: option.split)
qed

section \<open>Positions do not matter\<close>

lemma strip_idem [simp]: "strip_positions (strip_positions code) = strip_positions code"
  by (induction code) simp_all

lemma strip_is_code [simp]: "is_code (strip_positions code) = is_code code"
  by (cases code) simp_all

lemma nested_strip: "nested_codes (strip_positions code) = map strip_positions (nested_codes code)"
proof -
  have "filter is_code (map strip_positions cs) = map strip_positions (filter is_code cs)" for cs
    by (induction cs) simp_all
  then show ?thesis by (cases code) simp_all
qed

lemma code_found_strip: "code_found marshal outer (strip_positions code) = code_found marshal outer code"
proof -
  have "code_flags (strip_positions code) = code_flags code" "code_qualname (strip_positions code) = code_qualname code"
    by (cases code; simp)+
  then show ?thesis by (simp add: code_found_def)
qed

lemma codes_loop_strip: "codes_loop marshal outer (map strip_positions stack) = codes_loop marshal outer stack"
  by (induction marshal outer stack rule: codes_loop.induct) (simp_all add: code_found_strip nested_strip)

lemma function_codes_strip:
  assumes "map_option strip_positions c1 = map_option strip_positions c2"
  shows "function_codes marshal c1 = function_codes marshal c2"
  using assms codes_loop_strip[of marshal True "[_]"]
  by (cases c1; cases c2) (auto simp: function_codes_def, metis)

lemma index_source_positions:
  assumes "py_parse py raw1 = py_parse py raw2"
    and "map_option strip_positions (py_compile py raw1) = map_option strip_positions (py_compile py raw2)"
    and "length raw1 \<le> MAX_FILE_BYTES" and "length raw2 \<le> MAX_FILE_BYTES" and "utf8_valid raw1" and "utf8_valid raw2"
  shows "index_source py raw1 = index_source py raw2"
  using assms(1,3-6) by (simp add: index_source_def function_codes_strip[OF assms(2), of "py_marshal py"] split: option.split)

section \<open>The walk finds every import\<close>

text \<open>The import statements \<^verbatim>\<open>ast.walk\<close> meets in a tree.\<close>

fun import_nodes :: "ast \<Rightarrow> ast list" where
  "import_nodes (Node cls fs) =
     (if cls = ''Import'' \<or> cls = ''ImportFrom'' then [Node cls fs] else [])
     @ concat (map (\<lambda>f. import_nodes (snd f)) fs)"
| "import_nodes (Attribute v a c) = import_nodes v"
| "import_nodes (Items xs) = concat (map import_nodes xs)"
| "import_nodes _ = []"

text \<open>
  The grammar of Python, as far as imports go: a statement stands in a statement list, in the
  body of an exception handler or in that of a match case.
\<close>

definition allowed_in :: "string \<Rightarrow> string \<Rightarrow> string list" where
  "allowed_in cls f =
     (if cls = ''ClassDef'' \<or> cls = ''ExceptHandler'' \<or> cls = ''match_case''
      then (if f = ''body'' then STMT_CLASSES else [])
      else if f = ''body'' \<or> f = ''orelse'' \<or> f = ''finalbody'' then STMT_CLASSES
      else if f = ''handlers'' then [''ExceptHandler'']
      else if f = ''cases'' then [''match_case'']
      else [])"

fun is_item_list :: "ast \<Rightarrow> bool" where
  "is_item_list (Items _) = True"
| "is_item_list _ = False"

lemma item_smaller [termination_simp]:
  assumes "f \<in> set fs" and "x \<in> set (list_items (snd f))"
  shows "size x < Suc (size_list (\<lambda>f. Suc (size (snd f))) fs)"
proof -
  have "size x < size (snd f)" using assms(2) by (rule items_smaller)
  moreover have "size (snd f) \<le> size_list (\<lambda>f. Suc (size (snd f))) fs"
    using assms(1) by (force intro: size_list_estimation')
  ultimately show ?thesis by simp
qed

fun placed :: "ast \<Rightarrow> bool" where
  "placed (Node cls fs) =
     (distinct (map fst fs)
      \<and> (\<forall>f\<in>set fs. import_nodes (snd f) = []
           \<or> is_item_list (snd f) \<and> (\<forall>x\<in>set (list_items (snd f)). ast_class x \<in> set (allowed_in cls (fst f)) \<and> placed x)))"
| "placed v = (import_nodes v = [])"

definition module_grammar :: "ast list \<Rightarrow> bool" where
  "module_grammar body \<longleftrightarrow>
     (\<forall>v\<in>set body. placed v \<and> (\<forall>n\<in>set (import_nodes v). list_items (field_of ''names'' n) \<noteq> []))"

lemma import_nodes_imports: "n \<in> set (import_nodes v) \<Longrightarrow> is_import n"
  by (induction v rule: import_nodes.induct) (auto simp: is_import_def split: if_splits)

lemma import_self: "is_import v \<Longrightarrow> v \<in> set (import_nodes v)"
  by (cases v) (auto simp: is_import_def)

lemma import_items: "x \<in> set (list_items v) \<Longrightarrow> set (import_nodes x) \<subseteq> set (import_nodes v)"
  by (cases v) auto

lemma import_field: "x \<in> set (list_items (field_of f v)) \<Longrightarrow> set (import_nodes x) \<subseteq> set (import_nodes v)"
proof (cases v)
  case (Node cls fs)
  assume x: "x \<in> set (list_items (field_of f v))"
  then obtain w where w: "map_of fs f = Some w" "x \<in> set (list_items w)"
    using Node by (auto simp: field_of.simps split: option.splits)
  then show ?thesis using import_items[OF w(2)] map_of_SomeD[OF w(1)] Node by fastforce
qed (simp_all add: field_of.simps)

lemma import_child:
  assumes "l \<in> set (child_lists v)" and "x \<in> set (snd l)"
  shows "set (import_nodes x) \<subseteq> set (import_nodes v)"
proof -
  consider f where "x \<in> set (list_items (field_of f v))"
    | h f where "h \<in> set (list_items (field_of f v))" "x \<in> set (list_items (field_of ''body'' h))"
    using assms by (auto simp: child_lists_def split: if_splits)
  then show ?thesis by cases (meson import_field order_trans)+
qed

definition nested_in :: "string list \<Rightarrow> bool \<Rightarrow> bool \<Rightarrow> ast \<Rightarrow> ast set" where
  "nested_in parts in_fn outer v = (\<Union>w\<in>set (walk_stmt parts in_fn outer v). set (nested_of w))"

lemma nested_in_step:
  "nested_in parts in_fn outer v =
     (if \<not> outer \<and> is_import v then {v} else {})
     \<union> (if is_function v
        then (\<Union>x\<in>set (list_items (field_of ''body'' v)). nested_in (parts @ [def_name v]) True False x)
             \<union> (\<Union>l\<in>set (child_lists v). if fst l = ''body'' then {}
                  else \<Union>x\<in>set (snd l). nested_in (parts @ [def_name v]) True False x)
        else if is_class v
        then (\<Union>x\<in>set (list_items (field_of ''body'' v)). nested_in (parts @ [def_name v]) in_fn False x)
        else (\<Union>l\<in>set (child_lists v). \<Union>x\<in>set (snd l). nested_in parts in_fn False x))"
proof -
  have if_in: "(\<Union>w\<in>set [Scope q v]. set (nested_of w)) = {}" "(\<Union>w\<in>set [Class q v]. set (nested_of w)) = {}"
    "(\<Union>w\<in>set (if b then [Nested v] else []). set (nested_of w)) = (if b then {v} else {})" for b q
    by simp_all
  have lists: "(\<Union>w\<in>set (concat (map f xs)). set (nested_of w)) = (\<Union>x\<in>set xs. \<Union>w\<in>set (f x). set (nested_of w))"
    for f and xs :: "'a list" by auto
  have skip: "(\<Union>w\<in>set (if b then [] else ws). set (nested_of w)) = (if b then {} else \<Union>w\<in>set ws. set (nested_of w))"
    for b ws by simp
  show ?thesis
    unfolding nested_in_def
    by (subst walk_stmt.simps, cases "is_function v"; cases "is_class v")
       (simp_all only: set_append UN_Un if_in lists skip Un_empty_left if_cancel if_True if_False simp_thms)
qed

text \<open>The walk finds only imports of the tree.\<close>

lemma walk_sound: "nested_in parts in_fn outer v \<subseteq> set (import_nodes v)"
proof (induction parts in_fn outer v rule: walk_stmt.induct)
  case (1 parts in_fn outer v)
  have own: "(if \<not> outer \<and> is_import v then {v} else {}) \<subseteq> set (import_nodes v)" using import_self by simp
  consider (fn) "is_function v" | (cl) "\<not> is_function v" "is_class v" | (oth) "\<not> is_function v" "\<not> is_class v" by blast
  then show ?case
  proof cases
    case fn
    have "nested_in (parts @ [def_name v]) True False x \<subseteq> set (import_nodes v)" if "x \<in> set (list_items (field_of ''body'' v))" for x
      using 1(1)[OF fn that] import_field[OF that] by (rule order_trans)
    moreover have "(if fst l = ''body'' then {} else \<Union>x\<in>set (snd l). nested_in (parts @ [def_name v]) True False x)
        \<subseteq> set (import_nodes v)" if "l \<in> set (child_lists v)" for l
    proof (cases "fst l = ''body''")
      case False
      have "nested_in (parts @ [def_name v]) True False x \<subseteq> set (import_nodes v)" if "x \<in> set (snd l)" for x
        using 1(2)[OF fn \<open>l \<in> set (child_lists v)\<close> False that] import_child[OF \<open>l \<in> set (child_lists v)\<close> that]
        by (rule order_trans)
      then show ?thesis using False by (simp add: UN_subset_iff)
    qed simp
    ultimately show ?thesis
      unfolding nested_in_step[of parts in_fn outer v] if_P[OF fn] by (intro Un_least UN_least own)
  next
    case cl
    have "nested_in (parts @ [def_name v]) in_fn False x \<subseteq> set (import_nodes v)" if "x \<in> set (list_items (field_of ''body'' v))" for x
      using 1(3)[OF cl that] import_field[OF that] by (rule order_trans)
    then show ?thesis unfolding nested_in_step[of parts in_fn outer v] using own cl by (simp add: UN_subset_iff)
  next
    case oth
    have "nested_in parts in_fn False x \<subseteq> set (import_nodes v)" if "l \<in> set (child_lists v)" "x \<in> set (snd l)" for l x
      using 1(4)[OF oth that] import_child[OF that] by (rule order_trans)
    then show ?thesis unfolding nested_in_step[of parts in_fn outer v] using own oth by (simp add: UN_subset_iff)
  qed
qed

text \<open>The imports of an exception handler or a match case are in its body.\<close>

lemma block_body:
  assumes "placed h" and "n \<in> set (import_nodes h)" and "ast_class h = ''ExceptHandler'' \<or> ast_class h = ''match_case''"
  obtains y where "y \<in> set (list_items (field_of ''body'' h))" "n \<in> set (import_nodes y)" "placed y"
proof -
  obtain cls fs where h: "h = Node cls fs" using assms(3) by (cases h) auto
  then have cls: "cls = ''ExceptHandler'' \<or> cls = ''match_case''" using assms(3) by simp
  obtain f where f: "f \<in> set fs" "n \<in> set (import_nodes (snd f))" using assms(2) h cls by auto
  obtain xs where xs: "snd f = Items xs" "\<forall>x\<in>set xs. ast_class x \<in> set (allowed_in cls (fst f)) \<and> placed x"
  proof (cases "snd f")
    case (Items xs)
    then show ?thesis using that assms(1) f h by force
  qed (use assms(1) f h in force)+
  obtain y where y: "y \<in> set xs" "n \<in> set (import_nodes y)" using f(2) xs(1) by auto
  have "fst f = ''body''" using xs(2) y(1) cls by (auto simp: allowed_in_def split: if_splits)
  moreover have "map_of fs (fst f) = Some (snd f)" using assms(1) h f(1) by (simp add: map_of_is_SomeI)
  ultimately have "list_items (field_of ''body'' h) = xs" using h xs(1) by (simp add: field_of.simps)
  then show ?thesis using that y xs(2) by blast
qed

text \<open>An import that is not the statement itself is in one of its statement lists.\<close>

lemma import_in_child:
  assumes "placed v" and "n \<in> set (import_nodes v)" and "n \<noteq> v"
  obtains l x where "l \<in> set (child_lists v)" "x \<in> set (snd l)" "n \<in> set (import_nodes x)" "placed x"
    "is_class v \<Longrightarrow> fst l = ''body''"
proof -
  obtain cls fs where v: "v = Node cls fs"
    using assms by (cases v) auto
  obtain f where f: "f \<in> set fs" "n \<in> set (import_nodes (snd f))"
    using assms(2,3) v by (auto split: if_splits)
  obtain xs where xs: "snd f = Items xs" "\<forall>x\<in>set xs. ast_class x \<in> set (allowed_in cls (fst f)) \<and> placed x"
  proof (cases "snd f")
    case (Items xs)
    then show ?thesis using that assms(1) f v by force
  qed (use assms(1) f v in force)+
  obtain x where x: "x \<in> set xs" "n \<in> set (import_nodes x)" using f(2) xs(1) by auto
  have "map_of fs (fst f) = Some (snd f)" using assms(1) v f(1) by (simp add: map_of_is_SomeI)
  then have fld: "list_items (field_of (fst f) v) = xs" using v xs(1) by (simp add: field_of.simps)
  have ok: "ast_class x \<in> set (allowed_in cls (fst f))" "placed x" using xs(2) x(1) by auto
  consider (stmts) "fst f \<in> {''body'', ''orelse'', ''finalbody''}" "allowed_in cls (fst f) = STMT_CLASSES"
      "cls = ''ClassDef'' \<Longrightarrow> fst f = ''body''"
    | (handlers) "fst f = ''handlers''" "ast_class x = ''ExceptHandler''" "cls \<noteq> ''ClassDef''"
    | (cases) "fst f = ''cases''" "ast_class x = ''match_case''" "cls \<noteq> ''ClassDef''"
    using ok(1) by (auto simp: allowed_in_def split: if_splits)
  then show ?thesis
  proof cases
    case stmts
    have "list_all is_stmt xs" "xs \<noteq> []" using xs(2) stmts(2) x(1) by (auto simp: list_all_iff is_stmt_def)
    then have "(fst f, xs) \<in> set (child_lists v)" using stmts(1) fld by (auto simp: child_lists_def)
    then show ?thesis using that[of "(fst f, xs)" x] x ok(2) stmts(3) v by (simp add: is_class_def)
  next
    case handlers
    obtain y where y: "y \<in> set (list_items (field_of ''body'' x))" "n \<in> set (import_nodes y)" "placed y"
      using block_body[OF ok(2) x(2)] handlers(2) by blast
    have "(''handler'', list_items (field_of ''body'' x)) \<in> set (child_lists v)"
      using handlers fld x(1) by (auto simp: child_lists_def)
    then show ?thesis using that[of "(''handler'', list_items (field_of ''body'' x))" y] y handlers(3) v by (simp add: is_class_def)
  next
    case cases
    obtain y where y: "y \<in> set (list_items (field_of ''body'' x))" "n \<in> set (import_nodes y)" "placed y"
      using block_body[OF ok(2) x(2)] cases(2) by blast
    have "(''case'', list_items (field_of ''body'' x)) \<in> set (child_lists v)"
      using cases fld x(1) by (auto simp: child_lists_def)
    then show ?thesis using that[of "(''case'', list_items (field_of ''body'' x))" y] y cases(3) v by (simp add: is_class_def)
  qed
qed

text \<open>The walk finds every import below the statement, and the statement when it is nested.\<close>

lemma walk_complete:
  "placed v \<Longrightarrow> n \<in> set (import_nodes v) \<Longrightarrow> n = v \<and> outer \<or> n \<in> nested_in parts in_fn outer v"
proof (induction parts in_fn outer v rule: walk_stmt.induct)
  case (1 parts in_fn outer v)
  show ?case
  proof (cases "n = v")
    case True
    then show ?thesis
      using import_nodes_imports[OF 1(6)] unfolding nested_in_step[of parts in_fn outer v] by simp
  next
    case False
    obtain l x where l: "l \<in> set (child_lists v)" "x \<in> set (snd l)" "n \<in> set (import_nodes x)" "placed x"
      "is_class v \<Longrightarrow> fst l = ''body''"
      by (rule import_in_child[OF 1(5,6) False]) blast
    have body: "x \<in> set (list_items (field_of ''body'' v))" if "fst l = ''body''"
      using l(1,2) that by (auto simp: child_lists_def split: if_splits)
    consider (fn) "is_function v" | (cl) "\<not> is_function v" "is_class v" | (oth) "\<not> is_function v" "\<not> is_class v" by blast
    then show ?thesis
    proof cases
      case fn
      show ?thesis
      proof (cases "fst l = ''body''")
        case True
        have "n \<in> nested_in (parts @ [def_name v]) True False x" using 1(1)[OF fn body[OF True] l(4,3)] by simp
        then show ?thesis unfolding nested_in_step[of parts in_fn outer v] if_P[OF fn] using body[OF True] by blast
      next
        case False
        have "n \<in> nested_in (parts @ [def_name v]) True False x" using 1(2)[OF fn l(1) False l(2,4,3)] by simp
        then show ?thesis unfolding nested_in_step[of parts in_fn outer v] if_P[OF fn] using l(1,2) False by force
      qed
    next
      case cl
      have "n \<in> nested_in (parts @ [def_name v]) in_fn False x" using 1(3)[OF cl body[OF l(5)[OF cl(2)]] l(4,3)] by simp
      then show ?thesis
        unfolding nested_in_step[of parts in_fn outer v] if_not_P[OF cl(1)] if_P[OF cl(2)] using body[OF l(5)[OF cl(2)]] by blast
    next
      case oth
      have "n \<in> nested_in parts in_fn False x" using 1(4)[OF oth l(1,2,4,3)] by simp
      then show ?thesis
        unfolding nested_in_step[of parts in_fn outer v] if_not_P[OF oth(1)] if_not_P[OF oth(2)] using l(1,2) by blast
    qed
  qed
qed

text \<open>The statements whose imports a module index records.\<close>

lemma recorded_nodes:
  assumes "\<forall>v\<in>set body. placed v"
  shows "set (filter is_import body) \<union> set (concat (map nested_of (walk_body body)))
    = set (concat (map import_nodes body))"
proof -
  have nested: "set (concat (map nested_of (walk_body body))) = (\<Union>v\<in>set body. nested_in [] False True v)"
    by (auto simp: walk_body_def nested_in_def)
  show ?thesis unfolding nested
  proof (intro set_eqI iffI)
    fix n
    assume "n \<in> set (filter is_import body) \<union> (\<Union>v\<in>set body. nested_in [] False True v)"
    then show "n \<in> set (concat (map import_nodes body))" using import_self walk_sound by fastforce
  next
    fix n
    assume "n \<in> set (concat (map import_nodes body))"
    then obtain v where v: "v \<in> set body" "n \<in> set (import_nodes v)" by auto
    have "n = v \<and> True \<or> n \<in> nested_in [] False True v" using assms v by (intro walk_complete) auto
    then show "n \<in> set (filter is_import body) \<union> (\<Union>v\<in>set body. nested_in [] False True v)"
      using v import_nodes_imports[OF v(2)] by auto
  qed
qed

section \<open>The imports of the index are those of the tree\<close>

definition import_of :: "ast \<Rightarrow> import_stmt" where
  "import_of n =
     (let names = map def_name (list_items (field_of ''names'' n)) in
      if ast_class n = ''Import'' then Import names
      else Import_from (nat (num_of (field_of ''level'' n)))
             (if field_of ''module'' n = Absent then None else Some (str_of (field_of ''module'' n))) names)"

text \<open>What \<^verbatim>\<open>impact._import_edges\<close> reads of a module.\<close>

definition walk_imports :: "ast list \<Rightarrow> import_stmt list" where
  "walk_imports body = map import_of (concat (map import_nodes body))"

definition import_key :: "import_index \<Rightarrow> nat \<times> string \<times> string option" where
  "import_key imp = (ii_level imp, ii_module imp, ii_name imp)"

lemma import_rows_keys: "import_key ` set (import_rows outer pos n) = set (import_keys (import_of n))"
  by (auto simp: import_rows_def import_of_def import_key_def nonempty_name_def image_iff split: option.splits)

lemma module_imports_keys:
  assumes "\<forall>v\<in>set body. placed v"
  shows "import_key ` set (module_imports body) = set (concat (map import_keys (walk_imports body)))"
proof -
  have kind: "classify v = ''import'' \<longleftrightarrow> is_import v" for v
    by (auto simp: classify_def Let_def is_import_def is_function_def is_class_def FUNCTION_CLASSES_def)
  have outer: "set (map snd (filter (\<lambda>(pos, v). classify v = ''import'') (List.enumerate k vs))) = set (filter is_import vs)"
    for k vs by (induction vs arbitrary: k) (simp_all add: kind)
  let ?keys = "\<lambda>n. set (import_keys (import_of n))"
  let ?top = "filter (\<lambda>(pos, v). classify v = ''import'') (List.enumerate 0 body)"
  have rows: "import_key ` set (concat (map (\<lambda>x. import_rows (b x) (p x) (n x)) xs)) = (\<Union>m\<in>set (map n xs). ?keys m)"
    for b p n and xs :: "'b list" by (induction xs) (auto simp: image_Un import_rows_keys)
  have "import_key ` set (concat (map (\<lambda>x. import_rows True (int (fst x)) (snd x)) ?top)) = (\<Union>m\<in>set (filter is_import body). ?keys m)"
    using rows[of "\<lambda>_. True" "\<lambda>x. int (fst x)" snd ?top] unfolding outer .
  moreover have "import_key ` set (concat (map (import_rows False (-1)) (concat (map nested_of (walk_body body)))))
      = (\<Union>m\<in>set (concat (map nested_of (walk_body body))). ?keys m)"
    using rows[of "\<lambda>_. False" "\<lambda>_. -1" "\<lambda>m. m" "concat (map nested_of (walk_body body))"]
    unfolding list.map_ident .
  ultimately have "import_key ` set (module_imports body)
      = (\<Union>n\<in>set (filter is_import body) \<union> set (concat (map nested_of (walk_body body))). ?keys n)"
    unfolding module_imports_def split_def set_append image_Un Union_Un_distrib by (rule arg_cong2)
  then show ?thesis unfolding recorded_nodes[OF assms] by (simp add: walk_imports_def)
qed

lemma module_records_imports:
  assumes "module_grammar body"
  shows "records_imports (Some (walk_imports body)) (module_index py body codes)"
proof -
  have "names_something (import_of n)" if "v \<in> set body" "n \<in> set (import_nodes v)" for v n
    using assms that by (auto simp: module_grammar_def import_of_def Let_def)
  then have "\<forall>s\<in>set (walk_imports body). names_something s" by (auto simp: walk_imports_def)
  moreover have "(\<lambda>imp. (ii_level imp, ii_module imp, ii_name imp)) = import_key" by (rule ext) (simp add: import_key_def)
  ultimately show ?thesis
    using module_imports_keys[of body] assms
    by (simp add: records_imports_def module_index_def module_grammar_def)
qed

end
