(* ===== verification/Dep_Propagate.thy ===== *)
theory Dep_Propagate
  imports Dep_Index
begin

text \<open>
  The propagation of changed names through the import graph (section 4.4,
  \<^verbatim>\<open>selection_planner._propagate\<close>): sweeps over all files until neither the names nor
  the ambient paths grow. The lemmas show that the loop ends, that it only adds, and that
  its result is closed: a statement, class or scope that refers to a changed name has had
  its consequences recorded.
\<close>

definition matches :: "string list \<Rightarrow> string list \<Rightarrow> string list \<Rightarrow> bool" where
  "matches refs names wild \<longleftrightarrow> (\<exists>key\<in>set refs. key \<in> set names \<or> key_path key \<in> set wild)"

section \<open>One sweep\<close>

text \<open>The state of a sweep: the analysis and whether it has grown.\<close>

type_synonym sweep = "analysis \<times> bool"

definition grow_name :: "string \<Rightarrow> sweep \<Rightarrow> sweep" where
  "grow_name key s =
     (if key \<in> set (an_names (fst s)) then s
      else ((fst s)\<lparr>an_names := List.insert key (an_names (fst s))\<rparr>, True))"

definition grow_am :: "string \<Rightarrow> sweep \<Rightarrow> sweep" where
  "grow_am path s = (if path \<in> set (an_am (fst s)) then s else (mark_am path (fst s), True))"

definition key_qualname :: "string \<Rightarrow> string \<Rightarrow> string" where
  "key_qualname path key =
     (if starts_with (path @ '':'') key then drop (length path + 1) key else key)"

definition kind_at :: "project_file \<Rightarrow> nat \<Rightarrow> string" where
  "kind_at file pos =
     (let statements = fi_statements (pf_index file)
      in if pos < length statements then st_kind (statements ! pos) else [])"

definition bound_at :: "project_file \<Rightarrow> nat \<Rightarrow> string list" where
  "bound_at file pos =
     (if pos < length (pf_statement_bound file) then pf_statement_bound file ! pos else [])"

text \<open>Only the callers of the function, or the users of the class, notice the change.\<close>

definition caller_local :: "project_file \<Rightarrow> nat \<Rightarrow> bool" where
  "caller_local file pos =
     (let statements = fi_statements (pf_index file) in
      if pos < length statements
      then (case st_bound (statements ! pos) of
              [name] \<Rightarrow>
                (if st_kind (statements ! pos) = ''def'' then local_def (pf_index file) name
                 else plain_class (pf_index file) name)
            | _ \<Rightarrow> False)
      else False)"

definition note_import_change :: "bool \<Rightarrow> string \<Rightarrow> sweep \<Rightarrow> sweep" where
  "note_import_change local path s =
     (if path \<in> set (an_am (fst s)) then s
      else if local then (mark_soft path (fst s), snd s)
      else grow_am path s)"

definition prop_statement :: "string \<Rightarrow> project_file \<Rightarrow> nat \<times> string list \<Rightarrow> sweep \<Rightarrow> sweep" where
  "prop_statement path file item s =
     (let (pos, refs) = item; kind = kind_at file pos in
      if \<not> matches refs (an_names (fst s)) (an_wild (fst s)) then s
      else if kind \<in> set DEFINITION_KINDS
      then (let bound = bound_at file pos;
                s = fold grow_name bound s;
                s = (if kind = ''def'' \<or> kind = ''class'' then note_import_change (caller_local file pos) path s else s)
            in if kind = ''def'' then (mark_af (map (\<lambda>key. (path, key_qualname path key)) bound) (fst s), snd s) else s)
      else if kind = ''effect'' then grow_am path s
      else s)"

definition scope_quals :: "file_index \<Rightarrow> string list" where
  "scope_quals fi = map sx_qualname (fi_scopes fi)"

definition class_ids :: "(string \<times> file_index option) list \<Rightarrow> string \<Rightarrow> project_file \<Rightarrow> string \<Rightarrow> (string \<times> string) list" where
  "class_ids olds path file qual =
     (let quals = scope_quals (pf_index file)
              @ (case map_of olds path of Some (Some old) \<Rightarrow> scope_quals old | _ \<Rightarrow> [])
      in map (Pair path) (qual # members_of qual quals))"

definition prop_class ::
  "(string \<times> file_index option) list \<Rightarrow> string \<Rightarrow> project_file \<Rightarrow> class_index \<Rightarrow> sweep \<Rightarrow> sweep" where
  "prop_class olds path file c s =
     (if \<not> matches (lookup_or [] (pf_class_refs file) (cx_qualname c)) (an_names (fst s)) (an_wild (fst s)) then s
      else (let s = grow_name (name_key path (first_part (cx_qualname c))) s;
                s = note_import_change (plain_class (pf_index file) (cx_qualname c)) path s
            in if (path, cx_qualname c) \<in> set (an_cf (fst s)) then s
               else (mark_cf (class_ids olds path file (cx_qualname c)) (fst s), snd s)))"

definition prop_scope :: "string \<Rightarrow> project_file \<Rightarrow> scope_index \<Rightarrow> sweep \<Rightarrow> sweep" where
  "prop_scope path file scope s =
     (if matches (lookup_or [] (pf_scope_refs file) (sx_qualname scope)) (an_names (fst s)) (an_wild (fst s))
      then (mark_af [(path, sx_qualname scope)] (fst s), snd s) else s)"

definition prop_file :: "(string \<times> file_index option) list \<Rightarrow> string \<times> project_file \<Rightarrow> sweep \<Rightarrow> sweep" where
  "prop_file olds item s =
     (let (path, file) = item;
          s = fold (prop_statement path file) (List.enumerate 0 (pf_statement_refs file)) s;
          s = fold (prop_class olds path file) (fi_classes (pf_index file)) s
      in fold (prop_scope path file) (fi_scopes (pf_index file)) s)"

definition prop_sweep :: "source_tree \<Rightarrow> (string \<times> file_index option) list \<Rightarrow> analysis \<Rightarrow> sweep" where
  "prop_sweep tree olds an = fold (prop_file olds) (pt_files tree) (an, False)"

section \<open>The sweeps end\<close>

text \<open>What a sweep can still add: the keys bound anywhere and the paths of the tree.\<close>

definition bound_keys :: "source_tree \<Rightarrow> string set" where
  "bound_keys tree =
     (\<Union>(path, file)\<in>set (pt_files tree).
        \<Union> (set ` set (pf_statement_bound file))
        \<union> (\<lambda>c. name_key path (first_part (cx_qualname c))) ` set (fi_classes (pf_index file)))"

definition slack :: "source_tree \<Rightarrow> analysis \<Rightarrow> nat" where
  "slack tree an =
     card (bound_keys tree - set (an_names an)) + card (fst ` set (pt_files tree) - set (an_am an))"

definition shrinks :: "source_tree \<Rightarrow> sweep \<Rightarrow> sweep \<Rightarrow> bool" where
  "shrinks tree s s' \<longleftrightarrow>
     slack tree (fst s') \<le> slack tree (fst s) \<and> (snd s' \<longrightarrow> snd s \<or> slack tree (fst s') < slack tree (fst s))"

lemma shrinks_refl [simp]: "shrinks tree s s"
  by (simp add: shrinks_def)

lemma shrinks_trans: "shrinks tree a b \<Longrightarrow> shrinks tree b c \<Longrightarrow> shrinks tree a c"
  by (auto simp: shrinks_def)

lemma shrinks_same:
  "slack tree (fst s') = slack tree (fst s) \<Longrightarrow> snd s' = snd s \<Longrightarrow> shrinks tree s s'"
  by (simp add: shrinks_def)

lemma shrinks_fold:
  "(\<And>x s. x \<in> set xs \<Longrightarrow> shrinks tree s (f x s)) \<Longrightarrow> shrinks tree s (fold f xs s)"
proof (induction xs arbitrary: s)
  case (Cons x xs)
  have "shrinks tree (f x s) (fold f xs (f x s))" using Cons by simp
  then show ?case using Cons.prems[of x s] shrinks_trans by simp
qed simp

lemma finite_bound_keys [simp]: "finite (bound_keys tree)"
  by (auto simp: bound_keys_def)

lemma card_insert_less: "finite A \<Longrightarrow> x \<in> A \<Longrightarrow> x \<notin> S \<Longrightarrow> card (A - insert x S) < card (A - S)"
  by (rule psubset_card_mono) auto

lemma slack_names:
  "key \<in> bound_keys tree \<Longrightarrow> key \<notin> set (an_names an) \<Longrightarrow>
   slack tree (an\<lparr>an_names := List.insert key (an_names an)\<rparr>) < slack tree an"
  using card_insert_less[of "bound_keys tree" key "set (an_names an)"] by (simp add: slack_def del: card_Diff_insert)

lemma slack_am:
  "path \<in> fst ` set (pt_files tree) \<Longrightarrow> path \<notin> set (an_am an) \<Longrightarrow>
   slack tree (an\<lparr>an_am := List.insert path (an_am an)\<rparr>) < slack tree an"
  using card_insert_less[of "fst ` set (pt_files tree)" path "set (an_am an)"]
  by (simp add: slack_def del: card_Diff_insert)

lemma slack_other [simp]:
  "slack tree (mark_cf ids an) = slack tree an" "slack tree (mark_af ids an) = slack tree an"
  "slack tree (mark_soft path an) = slack tree an" "slack tree (mark_wf path an) = slack tree an"
  by (simp_all add: slack_def mark_cf_def mark_af_def mark_soft_def mark_wf_def)

lemma grow_name_shrinks: "key \<in> bound_keys tree \<Longrightarrow> shrinks tree s (grow_name key s)"
  using slack_names[of key tree "fst s"] by (auto simp: grow_name_def shrinks_def)

lemma grow_am_shrinks: "path \<in> fst ` set (pt_files tree) \<Longrightarrow> shrinks tree s (grow_am path s)"
  using slack_am[of path tree "fst s"] by (auto simp: grow_am_def mark_am_def shrinks_def)

lemma note_shrinks: "path \<in> fst ` set (pt_files tree) \<Longrightarrow> shrinks tree s (note_import_change local path s)"
  by (auto simp: note_import_change_def intro: shrinks_same grow_am_shrinks)

lemma bound_at_keys: "(path, file) \<in> set (pt_files tree) \<Longrightarrow> set (bound_at file pos) \<subseteq> bound_keys tree"
  by (force simp: bound_at_def bound_keys_def)

lemma class_key_bound:
  "(path, file) \<in> set (pt_files tree) \<Longrightarrow> c \<in> set (fi_classes (pf_index file)) \<Longrightarrow>
   name_key path (first_part (cx_qualname c)) \<in> bound_keys tree"
  by (force simp: bound_keys_def)

lemma prop_statement_shrinks:
  assumes "(path, fl) \<in> set (pt_files tree)"
  shows "shrinks tree s (prop_statement path fl item s)"
proof -
  obtain pos refs where item: "item = (pos, refs)" by fastforce
  let ?b = "fold grow_name (bound_at fl pos) s"
  have path: "path \<in> fst ` set (pt_files tree)" using assms by force
  have bound: "shrinks tree s ?b"
    using bound_at_keys[OF assms] by (intro shrinks_fold grow_name_shrinks) blast
  moreover have "shrinks tree ?b (note_import_change (caller_local fl pos) path ?b)" by (rule note_shrinks[OF path])
  ultimately have noted: "shrinks tree s (note_import_change (caller_local fl pos) path ?b)" by (rule shrinks_trans)
  have af: "shrinks tree u (mark_af ids (fst u), snd u)" for ids u by (simp add: shrinks_same)
  show ?thesis
    using bound noted shrinks_trans[OF noted af] grow_am_shrinks[OF path]
    by (simp add: item prop_statement_def Let_def)
qed

lemma prop_class_shrinks:
  assumes "(path, fl) \<in> set (pt_files tree)" and "c \<in> set (fi_classes (pf_index fl))"
  shows "shrinks tree s (prop_class olds path fl c s)"
proof -
  let ?n = "note_import_change (plain_class (pf_index fl) (cx_qualname c)) path
              (grow_name (name_key path (first_part (cx_qualname c))) s)"
  have path: "path \<in> fst ` set (pt_files tree)" using assms(1) by force
  have noted: "shrinks tree s ?n"
    by (rule shrinks_trans[OF grow_name_shrinks[OF class_key_bound[OF assms]] note_shrinks[OF path]])
  have cf: "shrinks tree u (mark_cf ids (fst u), snd u)" for ids u by (simp add: shrinks_same)
  show ?thesis
    using noted shrinks_trans[OF noted cf] by (simp add: prop_class_def Let_def)
qed

lemma prop_file_shrinks:
  assumes "item \<in> set (pt_files tree)"
  shows "shrinks tree s (prop_file olds item s)"
proof -
  obtain path fl where item: "item = (path, fl)" by fastforce
  have here: "(path, fl) \<in> set (pt_files tree)" using assms item by simp
  define s1 where "s1 = fold (prop_statement path fl) (List.enumerate 0 (pf_statement_refs fl)) s"
  define s2 where "s2 = fold (prop_class olds path fl) (fi_classes (pf_index fl)) s1"
  have "shrinks tree s s1" unfolding s1_def by (intro shrinks_fold prop_statement_shrinks[OF here])
  moreover have "shrinks tree s1 s2" unfolding s2_def by (intro shrinks_fold prop_class_shrinks[OF here])
  moreover have "shrinks tree s2 (fold (prop_scope path fl) (fi_scopes (pf_index fl)) s2)"
    by (intro shrinks_fold) (simp add: prop_scope_def shrinks_same)
  ultimately have "shrinks tree s (fold (prop_scope path fl) (fi_scopes (pf_index fl)) s2)"
    using shrinks_trans by blast
  then show ?thesis by (simp add: item prop_file_def Let_def s1_def s2_def)
qed

lemma sweep_shrinks: "prop_sweep tree olds an = (an', True) \<Longrightarrow> slack tree an' < slack tree an"
  using shrinks_fold[of "pt_files tree" tree "prop_file olds" "(an, False)"] prop_file_shrinks
  by (auto simp: prop_sweep_def shrinks_def)

text \<open>\<^verbatim>\<open>while growing\<close>.\<close>

function prop_loop :: "source_tree \<Rightarrow> (string \<times> file_index option) list \<Rightarrow> analysis \<Rightarrow> analysis" where
  "prop_loop tree olds an =
     (case prop_sweep tree olds an of
        (an', grew) \<Rightarrow> (if grew then prop_loop tree olds an' else an'))"
  by pat_completeness auto
termination
  by (relation "measure (\<lambda>(tree, olds, an). slack tree an)") (auto simp: sweep_shrinks)

declare prop_loop.simps [simp del]

section \<open>The analysis of a signature\<close>

definition close_test_file :: "string \<Rightarrow> analysis \<Rightarrow> analysis" where
  "close_test_file path an =
     (if path \<in> set (an_am an) \<or> path \<in> set (an_soft an) \<or> (\<exists>key\<in>set (an_names an). key_path key = path)
      then mark_wf path an else an)"

definition propagate :: "source_tree \<Rightarrow> (string \<times> file_index option) list \<Rightarrow> analysis \<Rightarrow> analysis" where
  "propagate tree olds an = fold close_test_file (pt_test_files tree) (prop_loop tree olds an)"

definition analyze ::
  "source_tree \<Rightarrow> string list \<Rightarrow> (string \<times> string) list \<Rightarrow> (string \<times> file_index) list \<Rightarrow> analysis" where
  "analyze tree stale_py basemap versions =
     (let paths = sorted_set stale_py;
          an = fold (diff_path tree basemap versions) paths new_analysis
      in propagate tree (map (\<lambda>path. (path, old_index basemap versions path)) paths) an)"

section \<open>The result is closed\<close>

definition grows :: "analysis \<Rightarrow> analysis \<Rightarrow> bool" where
  "grows a b \<longleftrightarrow>
     set (an_cf a) \<subseteq> set (an_cf b) \<and> set (an_seeds a) \<subseteq> set (an_seeds b) \<and> set (an_names a) \<subseteq> set (an_names b)
     \<and> set (an_wild a) \<subseteq> set (an_wild b) \<and> set (an_am a) \<subseteq> set (an_am b) \<and> set (an_sk a) \<subseteq> set (an_sk b)
     \<and> set (an_wf a) \<subseteq> set (an_wf b) \<and> set (an_pw a) \<subseteq> set (an_pw b) \<and> set (an_af a) \<subseteq> set (an_af b)
     \<and> set (an_soft a) \<subseteq> set (an_soft b)"

lemma grows_refl [simp]: "grows a a"
  by (simp add: grows_def)

lemma grows_trans: "grows a b \<Longrightarrow> grows b c \<Longrightarrow> grows a c"
  unfolding grows_def by (intro conjI; elim conjE; rule order.trans; assumption)

lemma grows_fold: "(\<And>x a. x \<in> set xs \<Longrightarrow> grows a (f x a)) \<Longrightarrow> grows a (fold f xs a)"
proof (induction xs arbitrary: a)
  case (Cons x xs)
  have "grows (f x a) (fold f xs (f x a))" using Cons by simp
  then show ?case using Cons.prems[of x a] grows_trans by simp
qed simp

text \<open>A step that does not grow leaves what is matched against alone, and never takes back.\<close>

definition keeps :: "sweep \<Rightarrow> sweep \<Rightarrow> bool" where
  "keeps s s' \<longleftrightarrow>
     grows (fst s) (fst s') \<and> an_wild (fst s') = an_wild (fst s) \<and> (snd s \<longrightarrow> snd s')
     \<and> (\<not> snd s' \<longrightarrow> an_names (fst s') = an_names (fst s) \<and> an_am (fst s') = an_am (fst s))"

lemma keeps_refl [simp]: "keeps s s"
  by (simp add: keeps_def)

lemma keeps_trans: "keeps a b \<Longrightarrow> keeps b c \<Longrightarrow> keeps a c"
  unfolding keeps_def by (metis grows_trans)

lemma keeps_fold: "(\<And>x s. keeps s (f x s)) \<Longrightarrow> keeps s (fold f xs s)"
proof (induction xs arbitrary: s)
  case (Cons x xs)
  then have "keeps (f x s) (fold f xs (f x s))" by simp
  then show ?case using Cons.prems[of s x] keeps_trans by simp
qed simp

lemma grow_name_keeps: "keeps s (grow_name key s)"
  by (auto simp: keeps_def grow_name_def grows_def)

lemma grow_am_keeps: "keeps s (grow_am path s)"
  by (auto simp: keeps_def grow_am_def mark_am_def grows_def)

lemma note_keeps: "keeps s (note_import_change local path s)"
  using grow_am_keeps[of s path] by (auto simp: note_import_change_def keeps_def mark_soft_def grows_def)

lemma af_keeps: "keeps s (mark_af ids (fst s), snd s)"
  by (auto simp: keeps_def mark_af_def grows_def)

lemma cf_keeps: "keeps s (mark_cf ids (fst s), snd s)"
  by (auto simp: keeps_def mark_cf_def grows_def)

lemma prop_statement_keeps: "keeps s (prop_statement path fl item s)"
proof -
  obtain pos refs where item: "item = (pos, refs)" by fastforce
  have bound: "keeps s (fold grow_name (bound_at fl pos) s)" by (intro keeps_fold grow_name_keeps)
  note noted = keeps_trans[OF bound note_keeps]
  show ?thesis
    using bound noted keeps_trans[OF noted af_keeps] grow_am_keeps
    by (simp add: item prop_statement_def Let_def)
qed

lemma prop_class_keeps: "keeps s (prop_class olds path fl c s)"
proof -
  note noted = keeps_trans[OF grow_name_keeps note_keeps]
  show ?thesis using noted keeps_trans[OF noted cf_keeps] by (simp add: prop_class_def Let_def)
qed

lemma prop_scope_keeps: "keeps s (prop_scope path fl c s)"
  using af_keeps by (simp add: prop_scope_def)

lemma prop_file_keeps: "keeps s (prop_file olds item s)"
proof -
  obtain path fl where item: "item = (path, fl)" by fastforce
  show ?thesis
    unfolding item prop_file_def Let_def prod.case
    by (rule keeps_trans[OF keeps_trans[OF keeps_fold[of "prop_statement path fl"] keeps_fold[of "prop_class olds path fl"]]
          keeps_fold[of "prop_scope path fl"]])
       (rule prop_statement_keeps prop_class_keeps prop_scope_keeps)+
qed

text \<open>What an item demands is met by its own step and kept by the steps after it.\<close>

lemma fold_demand:
  assumes keep: "\<And>x s. keeps s (f x s)"
    and own: "\<And>x s. x \<in> set xs \<Longrightarrow> \<not> snd (f x s) \<Longrightarrow> D x (fst (f x s))"
    and stay: "\<And>x s s'. D x (fst s) \<Longrightarrow> keeps s s' \<Longrightarrow> \<not> snd s' \<Longrightarrow> D x (fst s')"
    and final: "\<not> snd (fold f xs s)" and x: "x \<in> set xs"
  shows "D x (fst (fold f xs s))"
proof -
  obtain pre post where xs: "xs = pre @ x # post" using x by (auto simp: in_set_conv_decomp)
  let ?s = "fold f pre s"
  have split: "fold f xs s = fold f post (f x ?s)" by (simp add: xs)
  have k: "keeps (f x ?s) (fold f xs s)" unfolding split by (rule keeps_fold[OF keep])
  then have "\<not> snd (f x ?s)" using final by (auto simp: keeps_def)
  then show ?thesis using stay[OF own[OF x] k final] by blast
qed

definition statement_closed :: "string \<Rightarrow> project_file \<Rightarrow> nat \<times> string list \<Rightarrow> analysis \<Rightarrow> bool" where
  "statement_closed path fl item an \<longleftrightarrow>
     (case item of (pos, refs) \<Rightarrow>
        matches refs (an_names an) (an_wild an) \<longrightarrow>
          (kind_at fl pos \<in> set DEFINITION_KINDS \<longrightarrow> set (bound_at fl pos) \<subseteq> set (an_names an))
          \<and> (kind_at fl pos \<in> {''def'', ''class''} \<longrightarrow>
               path \<in> set (an_am an) \<or> caller_local fl pos \<and> path \<in> set (an_soft an))
          \<and> (kind_at fl pos = ''def'' \<longrightarrow>
               (\<lambda>key. (path, key_qualname path key)) ` set (bound_at fl pos) \<subseteq> set (an_af an))
          \<and> (kind_at fl pos = ''effect'' \<longrightarrow> path \<in> set (an_am an)))"

definition class_closed :: "string \<Rightarrow> project_file \<Rightarrow> class_index \<Rightarrow> analysis \<Rightarrow> bool" where
  "class_closed path fl c an \<longleftrightarrow>
     (matches (lookup_or [] (pf_class_refs fl) (cx_qualname c)) (an_names an) (an_wild an) \<longrightarrow>
        name_key path (first_part (cx_qualname c)) \<in> set (an_names an)
        \<and> (path \<in> set (an_am an) \<or> plain_class (pf_index fl) (cx_qualname c) \<and> path \<in> set (an_soft an))
        \<and> (path, cx_qualname c) \<in> set (an_cf an))"

definition scope_closed :: "string \<Rightarrow> project_file \<Rightarrow> scope_index \<Rightarrow> analysis \<Rightarrow> bool" where
  "scope_closed path fl scope an \<longleftrightarrow>
     (matches (lookup_or [] (pf_scope_refs fl) (sx_qualname scope)) (an_names an) (an_wild an) \<longrightarrow>
        (path, sx_qualname scope) \<in> set (an_af an))"

definition file_closed :: "string \<times> project_file \<Rightarrow> analysis \<Rightarrow> bool" where
  "file_closed item an \<longleftrightarrow>
     (case item of (path, fl) \<Rightarrow>
        (\<forall>x\<in>set (List.enumerate 0 (pf_statement_refs fl)). statement_closed path fl x an)
        \<and> (\<forall>c\<in>set (fi_classes (pf_index fl)). class_closed path fl c an)
        \<and> (\<forall>scope\<in>set (fi_scopes (pf_index fl)). scope_closed path fl scope an))"

lemma keeps_fields:
  assumes "keeps s s'" and "\<not> snd s'"
  shows "an_names (fst s') = an_names (fst s)" "an_am (fst s') = an_am (fst s)" "an_wild (fst s') = an_wild (fst s)"
    "set (an_cf (fst s)) \<subseteq> set (an_cf (fst s'))" "set (an_af (fst s)) \<subseteq> set (an_af (fst s'))"
    "set (an_soft (fst s)) \<subseteq> set (an_soft (fst s'))" "\<not> snd s"
  using assms by (auto simp: keeps_def grows_def)

lemma closed_stays:
  assumes "keeps s s'" and "\<not> snd s'"
  shows "statement_closed path fl item (fst s) \<Longrightarrow> statement_closed path fl item (fst s')"
    and "class_closed path fl c (fst s) \<Longrightarrow> class_closed path fl c (fst s')"
    and "scope_closed path fl scope (fst s) \<Longrightarrow> scope_closed path fl scope (fst s')"
  using keeps_fields[OF assms]
  by (auto simp: statement_closed_def class_closed_def scope_closed_def split: prod.splits)

lemma grow_name_still: "\<not> snd (grow_name key s) \<Longrightarrow> grow_name key s = s \<and> key \<in> set (an_names (fst s))"
  by (auto simp: grow_name_def split: if_splits)

lemma grow_am_still: "\<not> snd (grow_am path s) \<Longrightarrow> grow_am path s = s \<and> path \<in> set (an_am (fst s))"
  by (auto simp: grow_am_def split: if_splits)

lemma grow_names_still:
  "\<not> snd (fold grow_name keys s) \<Longrightarrow> fold grow_name keys s = s \<and> set keys \<subseteq> set (an_names (fst s))"
proof (induction keys arbitrary: s)
  case (Cons key keys)
  have "keeps (grow_name key s) (fold grow_name keys (grow_name key s))" by (intro keeps_fold grow_name_keeps)
  then have "\<not> snd (grow_name key s)" using Cons.prems by (auto simp: keeps_def)
  then show ?case using Cons grow_name_still[of key s] by simp
qed simp

lemma note_still:
  "\<not> snd (note_import_change local path s) \<Longrightarrow>
   path \<in> set (an_am (fst (note_import_change local path s)))
   \<or> local \<and> path \<in> set (an_soft (fst (note_import_change local path s)))"
  using grow_am_still[of path s] by (auto simp: note_import_change_def mark_soft_def split: if_splits)

lemma note_names [simp]:
  "an_names (fst (note_import_change local path s)) = an_names (fst s)"
  "an_wild (fst (note_import_change local path s)) = an_wild (fst s)"
  by (simp_all add: note_import_change_def grow_am_def mark_am_def mark_soft_def)

lemma af_fields [simp]:
  "an_names (mark_af ids an) = an_names an" "an_wild (mark_af ids an) = an_wild an" "an_am (mark_af ids an) = an_am an"
  "an_soft (mark_af ids an) = an_soft an" "set (an_af (mark_af ids an)) = set ids \<union> set (an_af an)"
  by (simp_all add: mark_af_def)

lemma cf_fields [simp]:
  "an_names (mark_cf ids an) = an_names an" "an_wild (mark_cf ids an) = an_wild an" "an_am (mark_cf ids an) = an_am an"
  "an_soft (mark_cf ids an) = an_soft an" "set (an_cf (mark_cf ids an)) = set ids \<union> set (an_cf an)"
  by (simp_all add: mark_cf_def)

lemma statement_own:
  assumes "\<not> snd (prop_statement path fl item s)"
  shows "statement_closed path fl item (fst (prop_statement path fl item s))"
proof -
  obtain pos refs where item: "item = (pos, refs)" by fastforce
  let ?kind = "kind_at fl pos" and ?b = "fold grow_name (bound_at fl pos) s"
  let ?n = "note_import_change (caller_local fl pos) path ?b"
  show ?thesis
  proof (cases "matches refs (an_names (fst s)) (an_wild (fst s))")
    case False
    then show ?thesis by (simp add: item prop_statement_def statement_closed_def)
  next
    case hit: True
    show ?thesis
    proof (cases "?kind \<in> set DEFINITION_KINDS")
      case True
      have step: "prop_statement path fl item s =
          (let u = if ?kind = ''def'' \<or> ?kind = ''class'' then ?n else ?b
           in if ?kind = ''def'' then (mark_af (map (\<lambda>key. (path, key_qualname path key)) (bound_at fl pos)) (fst u), snd u) else u)"
        using hit True by (simp add: item prop_statement_def Let_def)
      have "keeps ?b ?n" by (rule note_keeps)
      then have quiet: "\<not> snd ?b" "?kind = ''def'' \<or> ?kind = ''class'' \<Longrightarrow> \<not> snd ?n"
        using assms unfolding step by (auto simp: keeps_def Let_def split: if_splits)
      have b: "?b = s" "set (bound_at fl pos) \<subseteq> set (an_names (fst s))"
        using grow_names_still[OF quiet(1)] by auto
      have not_effect: "?kind \<noteq> ''effect''" using True by (auto simp: DEFINITION_KINDS_def)
      show ?thesis
        using b note_still[OF quiet(2)] not_effect
        unfolding step by (auto simp: statement_closed_def item Let_def)
    next
      case False
      then have "?kind \<noteq> ''def''" "?kind \<noteq> ''class''" by (auto simp: DEFINITION_KINDS_def)
      then show ?thesis
        using assms hit False grow_am_still[of path s]
        by (auto simp: item prop_statement_def statement_closed_def Let_def split: if_splits)
    qed
  qed
qed

lemma class_own:
  assumes "\<not> snd (prop_class olds path fl c s)"
  shows "class_closed path fl c (fst (prop_class olds path fl c s))"
proof (cases "matches (lookup_or [] (pf_class_refs fl) (cx_qualname c)) (an_names (fst s)) (an_wild (fst s))")
  case False
  then show ?thesis by (simp add: prop_class_def class_closed_def)
next
  case True
  let ?g = "grow_name (name_key path (first_part (cx_qualname c))) s"
  let ?n = "note_import_change (plain_class (pf_index fl) (cx_qualname c)) path ?g"
  have step: "prop_class olds path fl c s =
      (if (path, cx_qualname c) \<in> set (an_cf (fst ?n)) then ?n
       else (mark_cf (class_ids olds path fl (cx_qualname c)) (fst ?n), snd ?n))"
    using True by (simp add: prop_class_def Let_def)
  have quiet: "\<not> snd ?n" using assms unfolding step by (auto split: if_splits)
  moreover have "keeps ?g ?n" by (rule note_keeps)
  ultimately have "\<not> snd ?g" by (auto simp: keeps_def)
  then have g: "?g = s" "name_key path (first_part (cx_qualname c)) \<in> set (an_names (fst s))"
    using grow_name_still[of "name_key path (first_part (cx_qualname c))" s] by auto
  have "(path, cx_qualname c) \<in> set (class_ids olds path fl (cx_qualname c))"
    by (simp add: class_ids_def Let_def)
  then show ?thesis
    using g note_still[OF quiet] unfolding step by (auto simp: class_closed_def)
qed

lemma scope_own: "scope_closed path fl scope (fst (prop_scope path fl scope s))"
  by (auto simp: prop_scope_def scope_closed_def)

lemma file_own:
  assumes "\<not> snd (prop_file olds item s)"
  shows "file_closed item (fst (prop_file olds item s))"
proof -
  obtain path fl where item: "item = (path, fl)" by fastforce
  define s1 where "s1 = fold (prop_statement path fl) (List.enumerate 0 (pf_statement_refs fl)) s"
  define s2 where "s2 = fold (prop_class olds path fl) (fi_classes (pf_index fl)) s1"
  define s3 where "s3 = fold (prop_scope path fl) (fi_scopes (pf_index fl)) s2"
  have s3: "prop_file olds item s = s3" by (simp add: item prop_file_def Let_def s1_def s2_def s3_def)
  have k23: "keeps s2 s3" unfolding s3_def by (intro keeps_fold prop_scope_keeps)
  have k12: "keeps s1 s2" unfolding s2_def by (intro keeps_fold prop_class_keeps)
  have q3: "\<not> snd s3" using assms s3 by simp
  have q2: "\<not> snd s2" using keeps_fields(7)[OF k23 q3] .
  have q1: "\<not> snd s1" using keeps_fields(7)[OF k12 q2] .
  have k13: "keeps s1 s3" using keeps_trans[OF k12 k23] .
  have "statement_closed path fl x (fst s1)" if "x \<in> set (List.enumerate 0 (pf_statement_refs fl))" for x
    unfolding s1_def
    by (rule fold_demand[where f = "prop_statement path fl" and D = "\<lambda>x. statement_closed path fl x", OF prop_statement_keeps statement_own closed_stays(1) q1[unfolded s1_def] that])
  moreover have "class_closed path fl c (fst s2)" if "c \<in> set (fi_classes (pf_index fl))" for c
    unfolding s2_def
    by (rule fold_demand[where f = "prop_class olds path fl" and D = "\<lambda>c. class_closed path fl c", OF prop_class_keeps class_own closed_stays(2) q2[unfolded s2_def] that])
  moreover have "scope_closed path fl c (fst s3)" if "c \<in> set (fi_scopes (pf_index fl))" for c
    unfolding s3_def
    by (rule fold_demand[where f = "prop_scope path fl" and D = "\<lambda>c. scope_closed path fl c", OF prop_scope_keeps scope_own closed_stays(3) q3[unfolded s3_def] that])
  ultimately show ?thesis
    using closed_stays(1)[OF k13 q3] closed_stays(2)[OF k23 q3]
    by (simp add: item file_closed_def s3[unfolded item])
qed

lemma file_stays:
  "file_closed item (fst s) \<Longrightarrow> keeps s s' \<Longrightarrow> \<not> snd s' \<Longrightarrow> file_closed item (fst s')"
  using closed_stays[of s s'] by (auto simp: file_closed_def split: prod.splits)

lemma sweep_closed:
  assumes "prop_sweep tree olds an = (an', False)" and "item \<in> set (pt_files tree)"
  shows "file_closed item an'"
proof -
  have "file_closed item (fst (fold (prop_file olds) (pt_files tree) (an, False)))"
    using assms(1)
    by (intro fold_demand[where D = file_closed, OF prop_file_keeps file_own file_stays _ assms(2)])
       (simp_all add: prop_sweep_def)
  then show ?thesis using assms(1) by (simp add: prop_sweep_def)
qed

lemma prop_loop_closed: "item \<in> set (pt_files tree) \<Longrightarrow> file_closed item (prop_loop tree olds an)"
proof (induction tree olds an rule: prop_loop.induct)
  case (1 tree olds an)
  obtain an' grew where s: "prop_sweep tree olds an = (an', grew)" by fastforce
  show ?case
    using 1(1)[OF s[symmetric]] 1(2) sweep_closed[of tree olds an an' item] s
    by (cases grew) (simp_all add: prop_loop.simps[of tree olds an])
qed

lemma prop_loop_grows: "grows an (prop_loop tree olds an)"
proof (induction tree olds an rule: prop_loop.induct)
  case (1 tree olds an)
  obtain an' grew where s: "prop_sweep tree olds an = (an', grew)" by fastforce
  have "keeps (an, False) (prop_sweep tree olds an)"
    unfolding prop_sweep_def by (intro keeps_fold prop_file_keeps)
  then have "grows an an'" using s by (simp add: keeps_def)
  then show ?case
    using 1(1)[OF s[symmetric]] s grows_trans by (cases grew) (simp_all add: prop_loop.simps[of tree olds an])
qed

end
