(* ===== verification/Dep_Changes.thy ===== *)
theory Dep_Changes
  imports Dep_Propagate
begin

text \<open>
  What an analysis contains: every function whose recorded version differs from the current
  one is in it, and a file whose parsed content is the same contributes nothing.
\<close>

section \<open>The difference of a path only adds\<close>

lemma mark_grows:
  "grows an (mark_am path an)" "grows an (mark_sk path an)" "grows an (mark_wf path an)" "grows an (mark_pw path an)"
  "grows an (mark_wild path an)" "grows an (mark_soft path an)" "grows an (mark_cf ids an)" "grows an (mark_af ids an)"
  by (auto simp: grows_def mark_am_def mark_sk_def mark_wf_def mark_pw_def mark_wild_def mark_soft_def mark_cf_def mark_af_def)

lemmas grows_mark [simp, intro] = mark_grows[THEN grows_trans[rotated]]

lemma grows_seed_key [simp, intro]: "grows an (fst s) \<Longrightarrow> grows an (fst (seed_key key s))"
  by (erule grows_trans) (auto simp: grows_def seed_key_def)

lemma grows_seed_name [simp, intro]: "grows an (fst s) \<Longrightarrow> grows an (fst (seed_name path qual s))"
  by (simp add: seed_name_def)

lemma grows_seed_class [simp, intro]: "grows an (fst s) \<Longrightarrow> grows an (fst (seed_class quals path qual s))"
  by (simp add: seed_class_def Let_def)

lemma whole_path_grows: "grows an (whole_path_change added is_test path an)"
  by (simp add: whole_path_change_def Let_def)

lemma new_scope_grows: "grows (fst s) (fst (diff_new_scope path is_test olds item s))"
  by (cases s; cases item) (simp add: diff_new_scope_def Let_def split: option.splits)

lemma old_scope_grows: "grows (fst s) (fst (diff_old_scope path news item s))"
  by (cases s; cases item) (simp add: diff_old_scope_def Let_def)

lemma new_class_grows: "grows (fst s) (fst (diff_new_class old new quals path is_test olds item s))"
  by (cases s; cases item) (simp add: diff_new_class_def Let_def split: option.splits)

lemma old_class_grows: "grows (fst s) (fst (diff_old_class quals path news item s))"
  by (cases s; cases item) (simp add: diff_old_class_def Let_def)

lemma name_grows: "grows (fst s) (fst (diff_name old new path name s))"
  by (cases s) (simp add: diff_name_def)

lemma close_grows: "grows (fst s) (diff_close old new path is_test s)"
  by (cases s) (simp add: diff_close_def Let_def)

lemma fold_grows: "(\<And>x s. grows (fst s) (fst (f x s))) \<Longrightarrow> grows (fst s) (fst (fold f xs s))"
proof (induction xs arbitrary: s)
  case (Cons x xs)
  have "grows (fst (f x s)) (fst (fold f xs (f x s)))" using Cons by simp
  then show ?case using Cons.prems[of s x] grows_trans by simp
qed simp

text \<open>What one step of a growing fold puts in is still there at the end.\<close>

lemma fold_marks:
  assumes "\<And>x s. grows (fst s) (fst (f x s))" and "x \<in> set xs" and "\<And>s. P (fst (f x s))"
    and "\<And>a b. P a \<Longrightarrow> grows a b \<Longrightarrow> P b"
  shows "P (fst (fold f xs s))"
proof -
  obtain pre post where xs: "xs = pre @ x # post" using assms(2) by (auto simp: in_set_conv_decomp)
  have "grows (fst (f x (fold f pre s))) (fst (fold f xs s))"
    unfolding xs using fold_grows[of f, OF assms(1)] by simp
  then show ?thesis using assms(3,4) by blast
qed

text \<open>The five passes over one path, in order.\<close>

definition scopes_of :: "file_index \<Rightarrow> (string \<times> scope_index) list" where
  "scopes_of fi = dict_of sx_qualname (fi_scopes fi)"

definition diff_scopes :: "file_index \<Rightarrow> file_index \<Rightarrow> string \<Rightarrow> bool \<Rightarrow> diff_state \<Rightarrow> diff_state" where
  "diff_scopes old new path is_test s =
     fold (diff_old_scope path (scopes_of new)) (scopes_of old)
       (fold (diff_new_scope path is_test (scopes_of old)) (scopes_of new) s)"

definition diff_classes :: "file_index \<Rightarrow> file_index \<Rightarrow> string \<Rightarrow> bool \<Rightarrow> diff_state \<Rightarrow> diff_state" where
  "diff_classes old new path is_test s =
     (let olds = dict_of cx_qualname (fi_classes old); news = dict_of cx_qualname (fi_classes new);
          quals = map fst (scopes_of old) @ map fst (scopes_of new)
      in fold (diff_old_class quals path news) olds (fold (diff_new_class old new quals path is_test olds) news s))"

definition diff_names :: "file_index \<Rightarrow> file_index \<Rightarrow> string \<Rightarrow> diff_state \<Rightarrow> diff_state" where
  "diff_names old new path s = fold (diff_name old new path) (remdups (def_names old @ def_names new)) s"

lemma diff_parsed_passes:
  "diff_parsed old new path is_test an =
     diff_close old new path is_test
       (diff_names old new path (diff_classes old new path is_test (diff_scopes old new path is_test (an, []))))"
  by (simp add: diff_parsed_def diff_names_def diff_classes_def diff_scopes_def scopes_of_def Let_def)

lemma diff_scopes_grows: "grows (fst s) (fst (diff_scopes old new path is_test s))"
  unfolding diff_scopes_def
  by (rule grows_trans[OF fold_grows fold_grows]) (rule new_scope_grows old_scope_grows)+

lemma diff_classes_grows: "grows (fst s) (fst (diff_classes old new path is_test s))"
  unfolding diff_classes_def Let_def
  by (rule grows_trans[OF fold_grows fold_grows]) (rule new_class_grows old_class_grows)+

lemma diff_names_grows: "grows (fst s) (fst (diff_names old new path s))"
  unfolding diff_names_def by (rule fold_grows) (rule name_grows)

lemma diff_after_scopes: "grows (fst (diff_scopes old new path is_test (an, []))) (diff_parsed old new path is_test an)"
  unfolding diff_parsed_passes
  by (rule grows_trans[OF grows_trans[OF diff_classes_grows diff_names_grows] close_grows])

lemma diff_parsed_grows: "grows an (diff_parsed old new path is_test an)"
  using grows_trans[OF diff_scopes_grows[of "(an, [])"] diff_after_scopes] by simp

lemma diff_path_grows: "grows an (diff_path tree basemap versions path an)"
  by (simp add: diff_path_def Let_def whole_path_grows diff_parsed_grows split: option.splits)

section \<open>A changed function is recorded\<close>

definition scope_at :: "file_index \<Rightarrow> string \<Rightarrow> scope_index option" where
  "scope_at fi qual = map_of (scopes_of fi) qual"

text \<open>The recorded version of a function of a path known to the baseline is not the current one.\<close>

definition function_changed ::
  "source_tree \<Rightarrow> (string \<times> string) list \<Rightarrow> (string \<times> file_index) list \<Rightarrow> string \<Rightarrow> string \<Rightarrow> bool" where
  "function_changed tree basemap versions path qual \<longleftrightarrow>
     map_of basemap path \<noteq> None
     \<and> (case (old_index basemap versions path, new_index tree path) of
          (Some old, Some new) \<Rightarrow>
            \<not> fi_parsed old \<or> \<not> fi_parsed new
            \<or> (case (scope_at old qual, scope_at new qual) of
                 (Some a, Some b) \<Rightarrow> sx_body a \<noteq> sx_body b \<or> sx_skeleton a \<noteq> sx_skeleton b
               | (Some a, None) \<Rightarrow> True
               | _ \<Rightarrow> False)
        | _ \<Rightarrow> True)"

definition function_hit :: "analysis \<Rightarrow> string \<times> string \<Rightarrow> bool" where
  "function_hit an f \<longleftrightarrow> fst f \<in> set (an_pw an) \<or> f \<in> set (an_cf an) \<or> f \<in> set (an_af an)"

lemma function_hit_grows: "function_hit a f \<Longrightarrow> grows a b \<Longrightarrow> function_hit b f"
  by (auto simp: function_hit_def grows_def)

lemma in_names_grows: "key \<in> set (an_names a) \<Longrightarrow> grows a b \<Longrightarrow> key \<in> set (an_names b)"
  by (auto simp: grows_def)

lemma in_cf_grows: "f \<in> set (an_cf a) \<Longrightarrow> grows a b \<Longrightarrow> f \<in> set (an_cf b)"
  by (auto simp: grows_def)

lemma new_scope_marks:
  assumes "map_of olds qual = Some prev" and "sx_body scope \<noteq> sx_body prev \<or> sx_skeleton scope \<noteq> sx_skeleton prev"
  shows "(path, qual) \<in> set (an_cf (fst (diff_new_scope path is_test olds (qual, scope) s)))"
  using assms
  by (cases s) (auto simp: diff_new_scope_def Let_def seed_name_def seed_key_def mark_am_def mark_soft_def)

lemma old_scope_marks:
  assumes "map_of news qual = None"
  shows "(path, qual) \<in> set (an_cf (fst (diff_old_scope path news (qual, scope) s)))"
  using assms by (cases s) (auto simp: diff_old_scope_def Let_def mark_am_def)

lemma fold_marks_cf:
  assumes "\<And>x s. grows (fst s) (fst (f x s))" and "x \<in> set xs" and "\<And>s. c \<in> set (an_cf (fst (f x s)))"
  shows "c \<in> set (an_cf (fst (fold f xs s)))"
  by (rule fold_marks[of f x xs "\<lambda>an. c \<in> set (an_cf an)", OF assms]) (rule in_cf_grows)

lemma diff_scopes_marks:
  assumes "scope_at old qual = Some a"
    and "case scope_at new qual of Some b \<Rightarrow> sx_body a \<noteq> sx_body b \<or> sx_skeleton a \<noteq> sx_skeleton b | None \<Rightarrow> True"
  shows "(path, qual) \<in> set (an_cf (fst (diff_scopes old new path is_test s)))"
proof (cases "scope_at new qual")
  case None
  have "(qual, a) \<in> set (scopes_of old)" using assms(1) by (auto simp: scope_at_def dest: map_of_SomeD)
  then show ?thesis
    unfolding diff_scopes_def
    by (rule fold_marks_cf[where x = "(qual, a)", OF old_scope_grows])
       (use None in \<open>simp_all add: scope_at_def old_scope_marks\<close>)
next
  case (Some b)
  then have "(qual, b) \<in> set (scopes_of new)" by (auto simp: scope_at_def dest: map_of_SomeD)
  then have "(path, qual) \<in> set (an_cf (fst (fold (diff_new_scope path is_test (scopes_of old)) (scopes_of new) s)))"
    by (rule fold_marks_cf[where x = "(qual, b)", OF new_scope_grows])
       (rule new_scope_marks[of "scopes_of old" qual a], use Some assms in \<open>auto simp: scope_at_def\<close>)
  moreover have "grows (fst u) (fst (fold (diff_old_scope path (scopes_of new)) (scopes_of old) u))" for u
    by (rule fold_grows) (rule old_scope_grows)
  ultimately show ?thesis unfolding diff_scopes_def by (rule in_cf_grows)
qed

lemma whole_path_hit: "function_hit (whole_path_change False is_test path an) (path, qual)"
  by (simp add: function_hit_def whole_path_change_def Let_def mark_pw_def mark_wild_def mark_am_def mark_sk_def mark_wf_def)

lemma diff_path_hit:
  assumes "function_changed tree basemap versions path qual"
  shows "function_hit (diff_path tree basemap versions path an) (path, qual)"
proof -
  have known: "map_of basemap path \<noteq> None" using assms by (simp add: function_changed_def)
  show ?thesis
  proof (cases "\<exists>old new. old_index basemap versions path = Some old \<and> new_index tree path = Some new
      \<and> fi_parsed old \<and> fi_parsed new")
    case False
    then have "diff_path tree basemap versions path an = whole_path_change False (path \<in> set (pt_test_files tree)) path an"
      using known by (cases "old_index basemap versions path"; cases "new_index tree path")
        (auto simp: diff_path_def Let_def)
    then show ?thesis by (simp add: whole_path_hit)
  next
    case True
    then obtain old new where i: "old_index basemap versions path = Some old" "new_index tree path = Some new"
      "fi_parsed old" "fi_parsed new" by blast
    obtain a where a: "scope_at old qual = Some a"
      "case scope_at new qual of Some b \<Rightarrow> sx_body a \<noteq> sx_body b \<or> sx_skeleton a \<noteq> sx_skeleton b | None \<Rightarrow> True"
      using assms i by (auto simp: function_changed_def split: option.splits)
    have "function_hit (diff_parsed old new path (path \<in> set (pt_test_files tree)) an) (path, qual)"
      using in_cf_grows[OF diff_scopes_marks[OF a] diff_after_scopes] by (simp add: function_hit_def)
    then show ?thesis using i known by (auto simp: diff_path_def Let_def)
  qed
qed

text \<open>The whole analysis: the diffs, the propagation and the marks of the test files.\<close>

lemma propagate_grows: "grows an (propagate tree olds an)"
proof -
  have "grows a (close_test_file path a)" for path a by (simp add: close_test_file_def)
  then show ?thesis
    unfolding propagate_def by (rule grows_trans[OF prop_loop_grows grows_fold])
qed

text \<open>The marks of the test files leave everything else alone, so the result stays closed.\<close>

lemma close_files_fields:
  "an_names (fold close_test_file ps a) = an_names a" "an_am (fold close_test_file ps a) = an_am a"
  "an_soft (fold close_test_file ps a) = an_soft a" "an_wild (fold close_test_file ps a) = an_wild a"
  "an_cf (fold close_test_file ps a) = an_cf a" "an_af (fold close_test_file ps a) = an_af a"
proof -
  have one: "an_names (close_test_file path a) = an_names a" "an_am (close_test_file path a) = an_am a"
    "an_soft (close_test_file path a) = an_soft a" "an_wild (close_test_file path a) = an_wild a"
    "an_cf (close_test_file path a) = an_cf a" "an_af (close_test_file path a) = an_af a" for path a
    by (simp_all add: close_test_file_def mark_wf_def)
  show "an_names (fold close_test_file ps a) = an_names a" "an_am (fold close_test_file ps a) = an_am a"
    "an_soft (fold close_test_file ps a) = an_soft a" "an_wild (fold close_test_file ps a) = an_wild a"
    "an_cf (fold close_test_file ps a) = an_cf a" "an_af (fold close_test_file ps a) = an_af a"
    by (induction ps arbitrary: a) (simp_all add: one)
qed

lemma propagate_file_closed: "item \<in> set (pt_files tree) \<Longrightarrow> file_closed item (propagate tree olds an)"
  using prop_loop_closed[of item tree olds an]
  by (simp add: propagate_def file_closed_def statement_closed_def class_closed_def scope_closed_def close_files_fields)

lemma analyze_hit:
  assumes "path \<in> set stale_py" and "function_changed tree basemap versions path qual"
  shows "function_hit (analyze tree stale_py basemap versions) (path, qual)"
proof -
  let ?d = "fold (diff_path tree basemap versions) (sorted_set stale_py) new_analysis"
  obtain pre post where split: "sorted_set stale_py = pre @ path # post"
    using assms(1) by (metis set_sorted_set split_list)
  let ?mid = "diff_path tree basemap versions path (fold (diff_path tree basemap versions) pre new_analysis)"
  have "grows ?mid ?d" unfolding split by (simp add: grows_fold diff_path_grows)
  then have "function_hit ?d (path, qual)" using function_hit_grows[OF diff_path_hit[OF assms(2)]] by blast
  then show ?thesis unfolding analyze_def Let_def by (rule function_hit_grows[OF _ propagate_grows])
qed

text \<open>A definition whose fingerprints differ puts its name among the changed names.\<close>

lemma diff_names_key:
  assumes "def_fingerprints old name \<noteq> def_fingerprints new name"
  shows "name_key path name \<in> set (an_names (fst (diff_names old new path s)))"
proof -
  have "def_fingerprints fi name = []" if "name \<notin> set (def_names fi)" for fi
    using that by (fastforce simp: def_fingerprints_def def_names_def filter_empty_conv)
  then have "name \<in> set (remdups (def_names old @ def_names new))" using assms by fastforce
  then show ?thesis
    unfolding diff_names_def
    by (rule fold_marks[where P = "\<lambda>an. name_key path name \<in> set (an_names an)", OF name_grows])
       (use assms in \<open>simp_all add: diff_name_def seed_key_def in_names_grows\<close>)
qed

lemma analyze_name:
  assumes p: "path \<in> set stale_py" and known: "map_of basemap path \<noteq> None"
    and old: "old_index basemap versions path = Some old" "fi_parsed old"
    and new: "new_index tree path = Some new" "fi_parsed new"
    and "def_fingerprints old name \<noteq> def_fingerprints new name"
  shows "name_key path name \<in> set (an_names (analyze tree stale_py basemap versions))"
proof -
  let ?d = "fold (diff_path tree basemap versions) (sorted_set stale_py) new_analysis"
  obtain pre post where split: "sorted_set stale_py = pre @ path # post"
    using p by (metis set_sorted_set split_list)
  let ?before = "fold (diff_path tree basemap versions) pre new_analysis"
  have "name_key path name \<in> set (an_names (diff_parsed old new path (path \<in> set (pt_test_files tree)) ?before))"
    unfolding diff_parsed_passes by (rule in_names_grows[OF diff_names_key[OF assms(7)] close_grows])
  then have "name_key path name \<in> set (an_names (diff_path tree basemap versions path ?before))"
    using known old new by (auto simp: diff_path_def Let_def)
  moreover have "grows (diff_path tree basemap versions path ?before) ?d"
    unfolding split by (simp add: grows_fold diff_path_grows)
  ultimately have "name_key path name \<in> set (an_names ?d)" by (rule in_names_grows)
  then show ?thesis unfolding analyze_def Let_def by (rule in_names_grows[OF _ propagate_grows])
qed

text \<open>A function with a reference to a changed name is affected.\<close>

lemma analyze_affected:
  assumes "(path, fl) \<in> set (pt_files tree)" and "scope \<in> set (fi_scopes (pf_index fl))"
    and "key \<in> set (lookup_or [] (pf_scope_refs fl) (sx_qualname scope))"
    and "key \<in> set (an_names (analyze tree stale_py basemap versions))"
  shows "function_hit (analyze tree stale_py basemap versions) (path, sx_qualname scope)"
proof -
  have "file_closed (path, fl) (analyze tree stale_py basemap versions)"
    unfolding analyze_def Let_def by (rule propagate_file_closed[OF assms(1)])
  then have "scope_closed path fl scope (analyze tree stale_py basemap versions)"
    using assms(2) by (simp add: file_closed_def)
  then show ?thesis using assms(3,4) by (auto simp: scope_closed_def matches_def function_hit_def)
qed

text \<open>A changed function makes its path stale, unless the digest of the contents is the same.\<close>

lemma changed_stale:
  assumes "map_of basemap path \<noteq> Some (cur_digest tree path)" and "map_of basemap path \<noteq> None" and "is_py path"
  shows "path \<in> set (stale_py_paths tree basemap)"
  using assms by (auto simp: stale_py_paths_def) (metis domI dom_map_of_conv_image_fst imageE)

section \<open>An unchanged file contributes nothing\<close>

lemma fold_same: "(\<And>x. x \<in> set xs \<Longrightarrow> f x s = s) \<Longrightarrow> fold f xs s = s"
  by (induction xs) auto

lemma dict_of_map: "(k, v) \<in> set (dict_of key xs) \<Longrightarrow> map_of (dict_of key xs) k = Some v"
proof -
  assume "(k, v) \<in> set (dict_of key xs)"
  moreover have "distinct (map fst (dict_of key xs))"
    unfolding dict_of_def
    by (rule fold_invariant[where P = "\<lambda>m. distinct (map fst m)" and Q = "\<lambda>_. True"]) (auto simp: distinct_update)
  ultimately show ?thesis by simp
qed

lemma diff_same:
  assumes "path \<notin> set (an_am an)" and "path \<notin> set (an_soft an)" and "path \<notin> set (an_wild an)"
  shows "diff_parsed fi fi path is_test an = an"
proof -
  have scopes: "diff_scopes fi fi path is_test (an, []) = (an, [])"
  proof -
    have "fold (diff_new_scope path is_test (scopes_of fi)) (scopes_of fi) (an, []) = (an, [])"
      by (rule fold_same) (auto simp: diff_new_scope_def scopes_of_def Let_def dest!: dict_of_map)
    moreover have "fold (diff_old_scope path (scopes_of fi)) (scopes_of fi) (an, []) = (an, [])"
      by (rule fold_same) (auto simp: diff_old_scope_def scopes_of_def dest!: dict_of_map)
    ultimately show ?thesis by (simp add: diff_scopes_def)
  qed
  have classes: "diff_classes fi fi path is_test (an, []) = (an, [])"
  proof -
    let ?c = "dict_of cx_qualname (fi_classes fi)" and ?q = "map fst (scopes_of fi) @ map fst (scopes_of fi)"
    have "fold (diff_new_class fi fi ?q path is_test ?c) ?c (an, []) = (an, [])"
      by (rule fold_same) (auto simp: diff_new_class_def dest!: dict_of_map)
    moreover have "fold (diff_old_class ?q path ?c) ?c (an, []) = (an, [])"
      by (rule fold_same) (auto simp: diff_old_class_def dest!: dict_of_map)
    ultimately show ?thesis by (simp add: diff_classes_def Let_def)
  qed
  have "diff_names fi fi path (an, []) = (an, [])"
    unfolding diff_names_def by (rule fold_same) (simp add: diff_name_def)
  then show ?thesis
    using assms scopes classes by (simp add: diff_parsed_passes diff_close_def)
qed

text \<open>Every stale path has a recorded version that is parsed and equal to the current one.\<close>

definition same_content :: "source_tree \<Rightarrow> (string \<times> string) list \<Rightarrow> (string \<times> file_index) list \<Rightarrow> string \<Rightarrow> bool" where
  "same_content tree basemap versions path \<longleftrightarrow>
     (case (old_index basemap versions path, new_index tree path) of
        (Some old, Some new) \<Rightarrow> old = new \<and> fi_parsed new
      | _ \<Rightarrow> False)"

lemma no_match [simp]: "\<not> matches refs [] []"
  by (simp add: matches_def)

lemma prop_file_empty: "prop_file olds item (new_analysis, False) = (new_analysis, False)"
proof -
  obtain path fl where item: "item = (path, fl)" by fastforce
  have "fold (prop_statement path fl) xs (new_analysis, False) = (new_analysis, False)" for xs
    by (rule fold_same) (auto simp: prop_statement_def new_analysis_def split: prod.splits)
  moreover have "fold (prop_class olds path fl) xs (new_analysis, False) = (new_analysis, False)" for xs
    by (rule fold_same) (auto simp: prop_class_def new_analysis_def)
  moreover have "fold (prop_scope path fl) xs (new_analysis, False) = (new_analysis, False)" for xs
    by (rule fold_same) (auto simp: prop_scope_def new_analysis_def)
  ultimately show ?thesis by (simp add: item prop_file_def)
qed

lemma propagate_empty: "propagate tree olds new_analysis = new_analysis"
proof -
  have "prop_sweep tree olds new_analysis = (new_analysis, False)"
    unfolding prop_sweep_def by (rule fold_same) (rule prop_file_empty)
  then have "prop_loop tree olds new_analysis = new_analysis" by (simp add: prop_loop.simps)
  moreover have "close_test_file path new_analysis = new_analysis" for path
    by (simp add: close_test_file_def new_analysis_def)
  ultimately show ?thesis unfolding propagate_def by (simp add: fold_same)
qed

lemma analyze_same:
  assumes "\<forall>path\<in>set stale_py. same_content tree basemap versions path"
  shows "analyze tree stale_py basemap versions = new_analysis"
proof -
  have "diff_path tree basemap versions path new_analysis = new_analysis" if "path \<in> set stale_py" for path
  proof -
    have "same_content tree basemap versions path" using assms that by blast
    then obtain fi where i: "old_index basemap versions path = Some fi" "new_index tree path = Some fi" "fi_parsed fi"
      by (cases "old_index basemap versions path"; cases "new_index tree path") (auto simp: same_content_def)
    then have "map_of basemap path \<noteq> None" by (cases "map_of basemap path") (auto simp: old_index_def)
    moreover have "diff_parsed fi fi path is_test new_analysis = new_analysis" for is_test
      by (rule diff_same) (simp_all add: new_analysis_def)
    ultimately show ?thesis using i by (auto simp: diff_path_def Let_def)
  qed
  then have "fold (diff_path tree basemap versions) (sorted_set stale_py) new_analysis = new_analysis"
    by (intro fold_same) simp
  then show ?thesis by (simp add: analyze_def propagate_empty)
qed

end
