(* ===== verification/Dep_Plan.thy ===== *)
theory Dep_Plan
  imports Dep_Changes
begin

text \<open>
  The test-level planner (\<^verbatim>\<open>selection_planner.plan\<close>): from the dependency records of
  earlier runs, the current source index and the changed paths it decides for every recorded
  test whether it runs now (tier T1), is deferred (tier T2), or is not affected, with the
  code of the deciding clause.

  \<open>decide\<close> returns \<open>None\<close> where the source would raise an index error; a theorem shows
  that it never does.
\<close>

section \<open>The recorded dependencies\<close>

record context_deps =
  cd_functions :: "int list"
  cd_modules :: "int list"
  cd_data :: "int list"
  cd_opaque :: bool

record run_baseline =
  rb_run_id :: string
  rb_recorded_at :: rat
  rb_compatibility :: string
  rb_digests :: "(int \<times> string) list"
  rb_ambient :: context_deps
  rb_fingerprint :: "string option"

record node_record =
  nr_nodeid :: string
  nr_test_file :: string
  nr_outcome :: string
  nr_run_id :: string
  nr_deps :: context_deps
  nr_fixtures :: "int list"

record fixture_record =
  fx_fixture :: int
  fx_run_id :: string
  fx_deps :: context_deps

record gate_marker =
  gm_commit :: string
  gm_dirty :: "(string \<times> string option) list"
  gm_recorded_at :: rat

record dep_snapshot =
  ds_vocabulary :: vocabulary
  ds_runs :: "(string \<times> run_baseline) list"
  ds_nodes :: "(string \<times> node_record) list"
  ds_fixtures :: "(int \<times> fixture_record) list"
  ds_demotions :: "(string \<times> string) list"
  ds_records :: "(string \<times> node_record list) list option"
  ds_observers :: "(string \<times> string list) list"
  ds_gate :: "gate_marker option"
  ds_inventory :: "string list"

record selection_inputs =
  se_tree :: source_tree
  se_deps :: dep_snapshot
  se_versions :: "(string \<times> file_index) list"
  se_data_digests :: "(string \<times> string) list"
  se_compatibility :: string
  se_changed :: "string list"
  se_test_roots :: "string list"
  se_since_gate :: "string list"
  se_observers :: "(string \<times> string list) list"
  se_conditional :: bool
  se_audit :: bool

definition MAX_SIGNATURES :: nat where "MAX_SIGNATURES = 128"
definition PASSING_OUTCOMES :: "string list" where "PASSING_OUTCOMES = [''passed'', ''skipped'', ''xfailed'']"
definition T1_CODES :: "string list" where
  "T1_CODES = [''a'', ''c'', ''d'', ''f'', ''n'', ''o'', ''e'', ''w'']"

definition records_of :: "dep_snapshot \<Rightarrow> (string \<times> node_record list) list" where
  "records_of deps =
     (case ds_records deps of Some rs \<Rightarrow> rs | None \<Rightarrow> map (\<lambda>(nodeid, r). (nodeid, [r])) (ds_nodes deps))"

section \<open>The paths a context resolves to\<close>

fun resolve_all :: "bool \<Rightarrow> ('a \<Rightarrow> 'b option) \<Rightarrow> 'a list \<Rightarrow> 'b list option" where
  "resolve_all lenient f [] = Some []"
| "resolve_all lenient f (x # xs) =
     (case f x of
        None \<Rightarrow> (if lenient then resolve_all lenient f xs else None)
      | Some y \<Rightarrow> map_option ((#) y) (resolve_all lenient f xs))"

type_synonym context_sets = "(string \<times> string) list \<times> string list \<times> string list"

definition own_paths :: "vocabulary \<Rightarrow> bool \<Rightarrow> context_deps \<Rightarrow> context_sets option" where
  "own_paths voc lenient ctx =
     (case (resolve_all lenient (resolve_function voc) (cd_functions ctx),
            resolve_all lenient (resolve_path voc) (cd_modules ctx),
            resolve_all lenient (resolve_path voc) (cd_data ctx)) of
        (Some funcs, Some mods, Some data) \<Rightarrow> Some (funcs, mods, data)
      | _ \<Rightarrow> None)"

definition join_sets :: "context_sets \<Rightarrow> context_sets \<Rightarrow> context_sets" where
  "join_sets a b = (fst a @ fst b, fst (snd a) @ fst (snd b), snd (snd a) @ snd (snd b))"

fun fixture_paths ::
  "vocabulary \<Rightarrow> (int \<times> fixture_record) list \<Rightarrow> bool \<Rightarrow> int list \<Rightarrow> context_sets \<Rightarrow> context_sets option" where
  "fixture_paths voc fixtures lenient [] acc = Some acc"
| "fixture_paths voc fixtures lenient (fid # fids) acc =
     (case map_of fixtures fid of
        None \<Rightarrow> (if lenient then fixture_paths voc fixtures lenient fids acc else None)
      | Some r \<Rightarrow>
          (case own_paths voc lenient (fx_deps r) of
             None \<Rightarrow> None
           | Some nested \<Rightarrow> fixture_paths voc fixtures lenient fids (join_sets acc nested)))"

definition context_paths ::
  "vocabulary \<Rightarrow> (int \<times> fixture_record) list \<Rightarrow> context_deps \<Rightarrow> int list \<Rightarrow> bool \<Rightarrow> context_sets option" where
  "context_paths voc fixtures ctx fids lenient =
     Option.bind (own_paths voc lenient ctx) (fixture_paths voc fixtures lenient fids)"

section \<open>Stale state and analyses of the compatible runs\<close>

definition compat_runs :: "selection_inputs \<Rightarrow> (string \<times> run_baseline) list" where
  "compat_runs inp = filter (\<lambda>(rid, run). rb_compatibility run = se_compatibility inp) (ds_runs (se_deps inp))"

definition run_basemap :: "selection_inputs \<Rightarrow> run_baseline \<Rightarrow> (string \<times> string) list" where
  "run_basemap inp run = baseline_map (rb_digests run) (ds_vocabulary (se_deps inp))"

definition run_stale_py :: "selection_inputs \<Rightarrow> run_baseline \<Rightarrow> string list" where
  "run_stale_py inp run = stale_py_paths (se_tree inp) (run_basemap inp run)"

definition run_stale_data :: "selection_inputs \<Rightarrow> run_baseline \<Rightarrow> string list" where
  "run_stale_data inp run = stale_data_paths (run_basemap inp run) (se_data_digests inp)"

definition run_signature :: "selection_inputs \<Rightarrow> run_baseline \<Rightarrow> (string \<times> string option) set" where
  "run_signature inp run = signature_of (run_stale_py inp run) (run_basemap inp run) (run_stale_data inp run)"

definition by_newest :: "selection_inputs \<Rightarrow> (string \<times> run_baseline) list" where
  "by_newest inp = sort_key (\<lambda>(rid, run). (- rb_recorded_at run, rid)) (compat_runs inp)"

definition run_analysis :: "selection_inputs \<Rightarrow> run_baseline \<Rightarrow> analysis" where
  "run_analysis inp run = analyze (se_tree inp) (run_stale_py inp run) (run_basemap inp run) (se_versions inp)"

text \<open>The analyses made so far by signature, those of the runs, and the runs past the cap.\<close>

record analyses =
  as_memo :: "((string \<times> string option) set \<times> analysis) list"
  as_per_run :: "(string \<times> analysis) list"
  as_overcap :: "string list"

definition memo_step :: "selection_inputs \<Rightarrow> string \<times> run_baseline \<Rightarrow> analyses \<Rightarrow> analyses" where
  "memo_step inp item st =
     (let (rid, run) = item; sig = run_signature inp run in
      case map_of (as_memo st) sig of
        Some an \<Rightarrow> st\<lparr>as_per_run := as_per_run st @ [(rid, an)]\<rparr>
      | None \<Rightarrow>
          (if length (as_memo st) < MAX_SIGNATURES
           then (let an = run_analysis inp run
                 in st\<lparr>as_memo := as_memo st @ [(sig, an)], as_per_run := as_per_run st @ [(rid, an)]\<rparr>)
           else st\<lparr>as_overcap := as_overcap st @ [rid]\<rparr>))"

definition make_analyses :: "selection_inputs \<Rightarrow> analyses" where
  "make_analyses inp = fold (memo_step inp) (by_newest inp) \<lparr>as_memo = [], as_per_run = [], as_overcap = []\<rparr>"

section \<open>Static reach\<close>

definition root_covers :: "string \<Rightarrow> string \<Rightarrow> bool" where
  "root_covers base path \<longleftrightarrow>
     base = [] \<or> base = ''.'' \<or> path = base
     \<or> starts_with (rev (dropWhile (\<lambda>c. c = CHR ''/'') (rev base)) @ ''/'') path"

definition support_reach :: "source_tree \<Rightarrow> string list \<Rightarrow> string \<Rightarrow> string list" where
  "support_reach tree roots seed =
     (case map_of (pt_files tree) seed of
        None \<Rightarrow> []
      | Some current \<Rightarrow>
          (if \<not> pf_support current \<or> basename seed = ''conftest.py'' then []
           else filter (\<lambda>test. \<exists>base\<in>set roots. root_covers base seed \<and> root_covers base test) (pt_test_files tree)))"

definition reach_tests :: "source_tree \<Rightarrow> string list \<Rightarrow> string list \<Rightarrow> string list" where
  "reach_tests tree roots seeds =
     filter (\<lambda>test. test \<in> set (static_reach (pt_reverse tree) seeds)) (pt_test_files tree)
     @ concat (map (support_reach tree roots) seeds)"

definition changed_all :: "selection_inputs \<Rightarrow> string list" where
  "changed_all inp = se_changed inp @ se_since_gate inp"

definition changed_py :: "selection_inputs \<Rightarrow> string list" where
  "changed_py inp = filter is_py (changed_all inp)"

definition nonpy_paths :: "selection_inputs \<Rightarrow> string list" where
  "nonpy_paths inp = sorted_set (filter (\<lambda>c. \<not> is_py c) (changed_all inp))"

definition path_reach :: "selection_inputs \<Rightarrow> string \<Rightarrow> string list" where
  "path_reach inp path = reach_tests (se_tree inp) (se_test_roots inp) [path]"

section \<open>Ambient facts of a run\<close>

definition least :: "string list \<Rightarrow> string option" where
  "least xs = (case sort xs of [] \<Rightarrow> None | x # _ \<Rightarrow> Some x)"

definition the_paths :: "selection_inputs \<Rightarrow> int list \<Rightarrow> string list" where
  "the_paths inp ids = List.map_filter (resolve_path (ds_vocabulary (se_deps inp))) ids"

definition the_functions :: "selection_inputs \<Rightarrow> int list \<Rightarrow> (string \<times> string) list" where
  "the_functions inp ids = List.map_filter (resolve_function (ds_vocabulary (se_deps inp))) ids"

definition ambient_bad :: "selection_inputs \<Rightarrow> run_baseline \<Rightarrow> bool" where
  "ambient_bad inp run \<longleftrightarrow>
     (let voc = ds_vocabulary (se_deps inp); ctx = rb_ambient run in
      (\<exists>pid\<in>set (cd_data ctx @ cd_modules ctx). resolve_path voc pid = None)
      \<or> (\<exists>fid\<in>set (cd_functions ctx). resolve_function voc fid = None))"

definition ambient_paths :: "selection_inputs \<Rightarrow> run_baseline \<Rightarrow> string list" where
  "ambient_paths inp run =
     (let ctx = rb_ambient run
      in the_paths inp (cd_data ctx) @ map fst (the_functions inp (cd_functions ctx)) @ the_paths inp (cd_modules ctx))"

definition ambient_data_via :: "selection_inputs \<Rightarrow> run_baseline \<Rightarrow> string option" where
  "ambient_data_via inp run =
     least (filter (\<lambda>path. path \<in> set (run_stale_data inp run)) (the_paths inp (cd_data (rb_ambient run))))"

definition shared_via :: "selection_inputs \<Rightarrow> run_baseline \<Rightarrow> analysis \<Rightarrow> string option" where
  "shared_via inp run an =
     least (map fst (filter (function_hit an) (the_functions inp (cd_functions (rb_ambient run))))
            @ filter (\<lambda>path. path \<in> set (an_am an) \<or> path \<in> set (an_pw an)) (the_paths inp (cd_modules (rb_ambient run))))"

definition am_via :: "selection_inputs \<Rightarrow> analysis \<Rightarrow> string \<Rightarrow> string option" where
  "am_via inp an test = find (\<lambda>path. test \<in> set (path_reach inp path)) (sorted_set (an_am an))"

definition b_static_via :: "selection_inputs \<Rightarrow> run_baseline \<Rightarrow> string \<Rightarrow> string" where
  "b_static_via inp run test_file =
     (case find (\<lambda>path. test_file \<in> set (path_reach inp path)) (sorted_set (run_stale_py inp run @ changed_py inp)) of
        Some path \<Rightarrow> path
      | None \<Rightarrow> (case nonpy_paths inp of path # _ \<Rightarrow> path | [] \<Rightarrow> test_file))"

section \<open>The chosen record of a node\<close>

text \<open>\<^verbatim>\<open>min(xs, key=f)\<close>: the first of the smallest.\<close>

fun min_by :: "('a \<Rightarrow> 'k::linorder) \<Rightarrow> 'a \<Rightarrow> 'a list \<Rightarrow> 'a" where
  "min_by f best [] = best"
| "min_by f best (x # xs) = min_by f (if f x < f best then x else best) xs"

definition lenient_paths :: "selection_inputs \<Rightarrow> node_record \<Rightarrow> context_sets" where
  "lenient_paths inp nr =
     the (context_paths (ds_vocabulary (se_deps inp)) (ds_fixtures (se_deps inp)) (nr_deps nr) (nr_fixtures nr) True)"

definition record_distance :: "selection_inputs \<Rightarrow> string \<Rightarrow> node_record \<Rightarrow> int \<times> rat \<times> string" where
  "record_distance inp test_file nr =
     (let run = the (map_of (compat_runs inp) (nr_run_id nr));
          (funcs, mods, data) = lenient_paths inp nr;
          paths = map fst funcs @ mods @ data @ ambient_paths inp run @ [test_file];
          stale = remdups (run_stale_py inp run @ run_stale_data inp run)
      in (int (length (filter (\<lambda>p. p \<in> set paths) stale)), - rb_recorded_at run, nr_run_id nr))"

datatype node_choice = Nothing_to_do | Fallback_only string | Use_record string node_record

definition choose_record :: "selection_inputs \<Rightarrow> string list \<Rightarrow> node_record list \<Rightarrow> node_choice" where
  "choose_record inp overcap recs =
     (case recs of
        [] \<Rightarrow> Nothing_to_do
      | first # _ \<Rightarrow>
          (let test_file = nr_test_file first;
               compat = filter (\<lambda>r. map_of (compat_runs inp) (nr_run_id r) \<noteq> None) recs
           in if compat = [] then Fallback_only ''record from another configuration''
              else if test_file \<notin> set (pt_test_files (se_tree inp)) then Nothing_to_do
              else (case filter (\<lambda>r. nr_run_id r \<notin> set overcap) compat of
                      [] \<Rightarrow> Fallback_only ''too many recorded code versions''
                    | best # rest \<Rightarrow> Use_record test_file (min_by (record_distance inp test_file) best rest))))"

section \<open>The clauses of one node\<close>

record judged =
  jd_run :: string
  jd_file :: string
  jd_tier :: "(string \<times> string) option"
  jd_via :: "string option"
  jd_learnable :: "string list option"
  jd_conditional :: bool
  jd_fallback :: "string option"
  jd_counts :: "(string \<times> string) list"
  jd_touched :: bool
  jd_paths :: "string list"

definition strict_paths :: "selection_inputs \<Rightarrow> node_record \<Rightarrow> context_sets option" where
  "strict_paths inp nr =
     context_paths (ds_vocabulary (se_deps inp)) (ds_fixtures (se_deps inp)) (nr_deps nr) (nr_fixtures nr) False"

definition missing_fixture :: "selection_inputs \<Rightarrow> node_record \<Rightarrow> bool" where
  "missing_fixture inp nr \<longleftrightarrow> (\<exists>fid\<in>set (nr_fixtures nr). map_of (ds_fixtures (se_deps inp)) fid = None)"

definition opaque_why :: "selection_inputs \<Rightarrow> run_baseline \<Rightarrow> node_record \<Rightarrow> string option" where
  "opaque_why inp run nr =
     (if missing_fixture inp nr then Some ''fixture record missing''
      else if strict_paths inp nr = None \<or> cd_opaque (nr_deps nr)
              \<or> (\<exists>fid\<in>set (nr_fixtures nr). case map_of (ds_fixtures (se_deps inp)) fid of
                    None \<Rightarrow> False | Some r \<Rightarrow> cd_opaque (fx_deps r))
              \<or> cd_opaque (rb_ambient run) \<or> ambient_bad inp run
      then Some ''opaque: spawned a process or overflowed''
      else None)"

definition demoted :: "selection_inputs \<Rightarrow> string \<Rightarrow> string \<Rightarrow> bool" where
  "demoted inp nodeid test_file \<longleftrightarrow>
     map_of (ds_demotions (se_deps inp)) nodeid = Some (cur_digest (se_tree inp) test_file)"

definition corrupt_record :: "selection_inputs \<Rightarrow> run_baseline \<Rightarrow> node_record \<Rightarrow> bool" where
  "corrupt_record inp run nr \<longleftrightarrow> strict_paths inp nr = None \<or> ambient_bad inp run"

text \<open>\<^verbatim>\<open>f"{path}::{qual}"\<close>.\<close>

definition function_label :: "string \<times> string \<Rightarrow> string" where
  "function_label f = fst f @ ''::'' @ snd f"

definition observer_hit :: "selection_inputs \<Rightarrow> run_baseline \<Rightarrow> analysis \<Rightarrow> string \<Rightarrow> bool" where
  "observer_hit inp run an nodeid \<longleftrightarrow>
     (\<exists>row\<in>set (lookup_or [] (se_observers inp) nodeid).
        if row = ''*'' then an_am an \<noteq> [] \<or> an_pw an \<noteq> []
        else row \<in> set (an_am an) \<or> row \<in> set (an_pw an)
             \<or> (map_of (pt_files (se_tree inp)) row = None
                \<and> (row \<in> set (run_stale_py inp run) \<or> row \<in> set (run_stale_data inp run))))"

text \<open>The codes of the T1 clauses, each with what it counts when it counts first.\<close>

definition code_c :: "analysis \<Rightarrow> string \<Rightarrow> bool" where
  "code_c an test_file \<longleftrightarrow> test_file \<in> set (an_wf an)"

definition code_d :: "analysis \<Rightarrow> (string \<times> string) list \<Rightarrow> bool" where
  "code_d an funcs \<longleftrightarrow> (\<exists>f\<in>set funcs. function_hit an f)"

definition code_e :: "analysis \<Rightarrow> bool \<Rightarrow> string list \<Rightarrow> bool" where
  "code_e an precise_only mods \<longleftrightarrow> \<not> precise_only \<and> (\<exists>path\<in>set mods. path \<in> set (an_sk an))"

definition code_f :: "string list \<Rightarrow> string list \<Rightarrow> bool" where
  "code_f stale_data data \<longleftrightarrow> (\<exists>path\<in>set data. path \<in> set stale_data)"

definition count_functions :: "analysis \<Rightarrow> (string \<times> string) list \<Rightarrow> (string \<times> string) list" where
  "count_functions an funcs =
     concat (map (\<lambda>f. if fst f \<in> set (an_pw an) then [(''module'', fst f)]
                      else if f \<in> set (an_cf an) then [(''function'', function_label f)] else []) funcs)"

definition count_modules :: "analysis \<Rightarrow> string list \<Rightarrow> (string \<times> string) list" where
  "count_modules an mods =
     concat (map (\<lambda>path. if path \<notin> set (an_sk an) then []
                         else if path \<in> set (an_am an) then [(''module'', path)]
                         else map (Pair ''name'') (filter (\<lambda>key. key_path key = path) (an_seeds an))) mods)"

definition count_data :: "string list \<Rightarrow> string list \<Rightarrow> (string \<times> string) list" where
  "count_data stale_data data = map (Pair ''data'') (filter (\<lambda>path. path \<in> set stale_data) data)"

definition judge_counts ::
  "analysis \<Rightarrow> string \<Rightarrow> bool \<Rightarrow> string list \<Rightarrow> context_sets \<Rightarrow> (string \<times> string) list" where
  "judge_counts an test_file precise_only stale_data paths =
     (let (funcs, mods, data) = paths in
      if code_c an test_file then [(''file'', test_file)]
      else count_functions an funcs
           @ (if code_d an funcs then []
              else (if precise_only then [] else count_modules an mods)
                   @ (if code_e an precise_only mods then [] else count_data stale_data data)))"

definition judge_codes ::
  "selection_inputs \<Rightarrow> run_baseline \<Rightarrow> analysis \<Rightarrow> string \<Rightarrow> string \<Rightarrow> bool \<Rightarrow> context_sets \<Rightarrow> string list" where
  "judge_codes inp run an nodeid test_file precise_only paths =
     (let (funcs, mods, data) = paths in
      (if code_c an test_file then [''c''] else [])
      @ (if code_d an funcs then [''d''] else [])
      @ (if code_e an precise_only mods then [''e''] else [])
      @ (if code_f (run_stale_data inp run) data then [''f''] else [])
      @ (if observer_hit inp run an nodeid \<and> \<not> se_conditional inp then [''o''] else []))"

definition first_code :: "string list \<Rightarrow> string option" where
  "first_code codes = find (\<lambda>c. c \<in> set codes) T1_CODES"

definition deferral ::
  "selection_inputs \<Rightarrow> run_baseline \<Rightarrow> analysis \<Rightarrow> string \<Rightarrow> bool \<Rightarrow> bool \<Rightarrow> string list \<Rightarrow> (string \<times> string) option" where
  "deferral inp run an test_file corrupt precise_only mods =
     (case shared_via inp run an of
        Some path \<Rightarrow> Some (''g-shared'', path)
      | None \<Rightarrow>
          (case am_via inp an test_file of
             Some path \<Rightarrow> Some (''g-reach'', path)
           | None \<Rightarrow>
               (case ambient_data_via inp run of
                  Some path \<Rightarrow> Some (''g-data'', path)
                | None \<Rightarrow>
                    (let code = run_stale_py inp run @ changed_py inp in
                     if corrupt
                        \<or> (precise_only
                           \<and> (test_file \<in> set (reach_tests (se_tree inp) (se_test_roots inp) code)
                              \<or> run_stale_data inp run \<noteq> [] \<or> nonpy_paths inp \<noteq> []
                              \<or> (\<exists>path\<in>set (static_reach (pt_reverse (se_tree inp)) code). path \<in> set mods)))
                     then Some (''b-static'', b_static_via inp run test_file) else None))))"

definition touched_paths :: "selection_inputs \<Rightarrow> run_baseline \<Rightarrow> string list" where
  "touched_paths inp run = run_stale_py inp run @ run_stale_data inp run @ changed_all inp"

definition judge :: "selection_inputs \<Rightarrow> run_baseline \<Rightarrow> analysis \<Rightarrow> string \<Rightarrow> string \<Rightarrow> node_record \<Rightarrow> judged" where
  "judge inp run an nodeid test_file nr =
     (let strict = strict_paths inp nr;
          paths = (case strict of Some ps \<Rightarrow> ps | None \<Rightarrow> lenient_paths inp nr);
          (funcs, mods, data) = paths;
          why = opaque_why inp run nr;
          down = demoted inp nodeid test_file;
          precise_only = (why \<noteq> None \<or> down);
          base = \<lparr>jd_run = nr_run_id nr, jd_file = test_file, jd_tier = None, jd_via = None, jd_learnable = None,
                  jd_conditional = False,
                  jd_fallback = (if down then Some ''demoted by the selection audit'' else why),
                  jd_counts = [], jd_touched = False, jd_paths = map fst funcs @ mods\<rparr>
      in if nr_outcome nr \<notin> set PASSING_OUTCOMES then base\<lparr>jd_tier := Some (''T1'', ''a'')\<rparr>
         else (let codes = judge_codes inp run an nodeid test_file precise_only paths;
                   observer = observer_hit inp run an nodeid;
                   t2 = deferral inp run an test_file (corrupt_record inp run nr) precise_only mods;
                   counted = base\<lparr>jd_counts := judge_counts an test_file precise_only (run_stale_data inp run) paths\<rparr>;
                   ambient = an_am an @ an_pw an
               in case first_code codes of
                    Some code \<Rightarrow> counted\<lparr>jd_tier := Some (''T1'', code)\<rparr>
                  | None \<Rightarrow>
                      (case t2 of
                         None \<Rightarrow>
                           (if observer then counted\<lparr>jd_tier := Some (''T1'', ''o'')\<rparr>
                            else counted\<lparr>jd_touched :=
                                   (\<exists>p\<in>set (map fst funcs @ mods @ data). p \<in> set (touched_paths inp run))\<rparr>)
                       | Some (code, path) \<Rightarrow>
                           counted\<lparr>jd_tier := Some (''T2'', code), jd_via := Some path,
                             jd_learnable := (if ambient = [] then None else Some (sorted_set ambient)),
                             jd_conditional := observer\<rparr>)))"

section \<open>All recorded nodes\<close>

datatype node_result = Passed_over | Fell_back string | Judged judged

definition judge_node :: "selection_inputs \<Rightarrow> analyses \<Rightarrow> string \<times> node_record list \<Rightarrow> node_result" where
  "judge_node inp st item =
     (case choose_record inp (as_overcap st) (snd item) of
        Nothing_to_do \<Rightarrow> Passed_over
      | Fallback_only why \<Rightarrow> Fell_back why
      | Use_record test_file nr \<Rightarrow>
          Judged (judge inp (the (map_of (compat_runs inp) (nr_run_id nr)))
                    (the (map_of (as_per_run st) (nr_run_id nr))) (fst item) test_file nr))"

definition judge_nodes :: "selection_inputs \<Rightarrow> analyses \<Rightarrow> (string \<times> node_result) list" where
  "judge_nodes inp st = map (\<lambda>item. (fst item, judge_node inp st item)) (records_of (se_deps inp))"

definition judged_of :: "(string \<times> node_result) list \<Rightarrow> (string \<times> judged) list" where
  "judged_of results =
     List.map_filter (\<lambda>(nodeid, r). case r of Judged j \<Rightarrow> Some (nodeid, j) | _ \<Rightarrow> None) results"

text \<open>The tiers and what is reported of them, as the later phases change them.\<close>

record plan_state =
  ps_tiers :: "(string \<times> string \<times> string) list"
  ps_via :: "(string \<times> string) list"
  ps_learnable :: "(string \<times> string list) list"
  ps_conditional :: "(string \<times> string) list"
  ps_counts :: "((string \<times> string) \<times> string) list"
  ps_modules :: "string list"

definition keyed :: "(judged \<Rightarrow> 'b option) \<Rightarrow> (string \<times> judged) list \<Rightarrow> (string \<times> 'b) list" where
  "keyed f nodes = List.map_filter (\<lambda>(nodeid, j). map_option (Pair nodeid) (f j)) nodes"

definition start_state :: "(string \<times> judged) list \<Rightarrow> plan_state" where
  "start_state nodes =
     \<lparr>ps_tiers = keyed jd_tier nodes, ps_via = keyed jd_via nodes, ps_learnable = keyed jd_learnable nodes,
      ps_conditional = keyed (\<lambda>j. if jd_conditional j then Some (jd_run j) else None) nodes,
      ps_counts = concat (map (\<lambda>(nodeid, j). map (\<lambda>unit. (unit, nodeid)) (jd_counts j)) nodes), ps_modules = []\<rparr>"

definition set_t1 :: "string \<Rightarrow> string \<Rightarrow> plan_state \<Rightarrow> plan_state" where
  "set_t1 nodeid code st =
     st\<lparr>ps_tiers := AList.update nodeid (''T1'', code) (ps_tiers st), ps_via := AList.delete nodeid (ps_via st),
        ps_learnable := AList.delete nodeid (ps_learnable st), ps_conditional := AList.delete nodeid (ps_conditional st)\<rparr>"

definition count_unit :: "string \<times> string \<Rightarrow> string \<Rightarrow> plan_state \<Rightarrow> plan_state" where
  "count_unit unit nodeid st = st\<lparr>ps_counts := ps_counts st @ [(unit, nodeid)]\<rparr>"

definition is_t1 :: "plan_state \<Rightarrow> string \<Rightarrow> bool" where
  "is_t1 st nodeid \<longleftrightarrow> map_option fst (map_of (ps_tiers st) nodeid) = Some ''T1''"

section \<open>Caller-local changes need one importing test\<close>

definition members_of_run :: "(string \<times> judged) list \<Rightarrow> string \<Rightarrow> (string \<times> judged) list" where
  "members_of_run nodes rid = sort_key fst (filter (\<lambda>(nodeid, j). jd_run j = rid) nodes)"

definition member_imports :: "selection_inputs \<Rightarrow> string \<Rightarrow> judged \<Rightarrow> bool" where
  "member_imports inp path j \<longleftrightarrow> path \<in> set (jd_paths j) \<or> jd_file j \<in> set (path_reach inp path)"

definition soft_missing :: "selection_inputs \<Rightarrow> plan_state \<Rightarrow> (string \<times> judged) list \<Rightarrow> analysis \<Rightarrow> string list" where
  "soft_missing inp st members an =
     filter (\<lambda>path. \<not> (\<exists>m\<in>set members. is_t1 st (fst m) \<and> member_imports inp path (snd m)))
       (sorted_set (filter (\<lambda>path. path \<notin> set (an_am an) \<and> path \<notin> set (an_pw an)) (an_soft an)))"

definition audit_member ::
  "selection_inputs \<Rightarrow> plan_state \<Rightarrow> bool \<Rightarrow> string list \<Rightarrow> string \<times> judged \<Rightarrow> plan_state \<Rightarrow> plan_state" where
  "audit_member inp before whole missing m st =
     (if is_t1 before (fst m) then st
      else (let ran = filter (\<lambda>path. path \<in> set (jd_paths (snd m))) missing in
            if whole \<or> ran \<noteq> [] \<or> jd_file (snd m) \<in> set (reach_tests (se_tree inp) (se_test_roots inp) missing)
            then fold (\<lambda>path. count_unit (''module'', path) (fst m)) (if ran \<noteq> [] then ran else missing)
                   (set_t1 (fst m) ''w'' st)
            else st))"

definition witness_for ::
  "selection_inputs \<Rightarrow> string list \<Rightarrow> (string \<times> judged) list \<Rightarrow> string \<Rightarrow> string option" where
  "witness_for inp ambient_mods members path =
     (let candidates = filter (\<lambda>m. member_imports inp path (snd m)) members;
          candidates = (if candidates = [] \<and> path \<in> set ambient_mods then members else candidates)
      in case candidates of
           [] \<Rightarrow> None
         | m # ms \<Rightarrow> Some (fst (min_by (\<lambda>m. (jd_file (snd m), fst m)) m ms)))"

definition witness_path ::
  "selection_inputs \<Rightarrow> string list \<Rightarrow> (string \<times> judged) list \<Rightarrow> string \<Rightarrow> plan_state \<Rightarrow> plan_state" where
  "witness_path inp ambient_mods members path st =
     (case witness_for inp ambient_mods members path of
        None \<Rightarrow> st
      | Some nodeid \<Rightarrow>
          count_unit (''module'', path) nodeid (if is_t1 st nodeid then st else set_t1 nodeid ''w'' st))"

definition soft_run ::
  "selection_inputs \<Rightarrow> (string \<times> judged) list \<Rightarrow> string \<times> analysis \<Rightarrow> plan_state \<Rightarrow> plan_state" where
  "soft_run inp nodes item st =
     (let (rid, an) = item;
          members = members_of_run nodes rid;
          missing = soft_missing inp st members an
      in if missing = [] then st
         else (let ambient_mods = the_paths inp (cd_modules (rb_ambient (the (map_of (compat_runs inp) rid))));
                   st = st\<lparr>ps_modules := ps_modules st @ missing\<rparr>
               in if se_audit inp
                  then fold (audit_member inp st (\<exists>path\<in>set missing. path \<in> set ambient_mods) missing) members st
                  else fold (witness_path inp ambient_mods members) missing st))"

section \<open>Test files without a usable record\<close>

definition all_wf :: "selection_inputs \<Rightarrow> analyses \<Rightarrow> string list" where
  "all_wf inp st =
     remdups (filter (\<lambda>path. path \<in> set (pt_test_files (se_tree inp))) (concat (map (an_wf \<circ> snd) (as_memo st))))"

definition files_without_record :: "selection_inputs \<Rightarrow> (string \<times> judged) list \<Rightarrow> string list" where
  "files_without_record inp nodes =
     filter (\<lambda>path. path \<notin> jd_file ` snd ` set nodes) (sorted_set (pt_test_files (se_tree inp)))"

definition reached_static :: "selection_inputs \<Rightarrow> string \<Rightarrow> bool" where
  "reached_static inp path \<longleftrightarrow>
     path \<in> set (reach_tests (se_tree inp) (se_test_roots inp) (changed_py inp)) \<or> nonpy_paths inp \<noteq> []"

text \<open>\<^verbatim>\<open>nonpy_paths[0]\<close> raises on the empty list.\<close>

definition unrecorded_via :: "selection_inputs \<Rightarrow> string \<Rightarrow> string option" where
  "unrecorded_via inp path =
     (case find (\<lambda>source. path \<in> set (path_reach inp source)) (sorted_set (changed_py inp)) of
        Some source \<Rightarrow> Some source
      | None \<Rightarrow> (case nonpy_paths inp of source # _ \<Rightarrow> Some source | [] \<Rightarrow> None))"

definition unrecorded_step :: "selection_inputs \<Rightarrow> string list \<Rightarrow> string \<Rightarrow> plan_state option \<Rightarrow> plan_state option" where
  "unrecorded_step inp wfs path st =
     Option.bind st (\<lambda>st.
       if path \<in> set wfs then Some (st\<lparr>ps_tiers := AList.update path (''T1'', ''n'') (ps_tiers st)\<rparr>)
       else if reached_static inp path
       then map_option (\<lambda>source. st\<lparr>ps_tiers := AList.update path (''T2'', ''u-static'') (ps_tiers st),
                                    ps_via := AList.update path source (ps_via st)\<rparr>)
              (unrecorded_via inp path)
       else Some st)"

section \<open>The decision\<close>

record changed_unit =
  cu_kind :: string
  cu_label :: string
  cu_tests :: nat

record decision =
  sd_files :: "string list"
  sd_deselect :: "string list"
  sd_whole_files :: "string list"
  sd_selected :: nat
  sd_reached :: nat
  sd_recorded :: nat
  sd_total_files :: nat
  sd_units :: "changed_unit list"
  sd_fallbacks :: "(string \<times> string) list"
  sd_coverage :: rat
  sd_tiers :: "(string \<times> string \<times> string) list"
  sd_via :: "(string \<times> string) list"
  sd_weights :: "(string \<times> nat) list"
  sd_chosen :: "(string \<times> string) list"
  sd_learnable :: "(string \<times> string list) list"
  sd_conditional :: "(string \<times> string) list"
  sd_observers_promoted :: nat
  sd_observers_deferred :: nat

definition unit_of :: "plan_state \<Rightarrow> string \<Rightarrow> string \<Rightarrow> changed_unit" where
  "unit_of st kind label =
     \<lparr>cu_kind = kind, cu_label = label,
      cu_tests = length (remdups (map snd (filter (\<lambda>c. fst c = (kind, label)) (ps_counts st))))\<rparr>"

definition units_of ::
  "selection_inputs \<Rightarrow> analyses \<Rightarrow> plan_state \<Rightarrow> string list \<Rightarrow> string list \<Rightarrow> changed_unit list" where
  "units_of inp as st wfs unrecorded =
     (let ans = map snd (as_memo as); every = (\<lambda>f. sorted_set (concat (map f ans))) in
      sort_key (\<lambda>u. (- int (cu_tests u), cu_label u))
        (map (unit_of st ''function'') (map function_label (remdups (concat (map an_cf ans))))
         @ map (unit_of st ''name'') (every an_seeds)
         @ map (unit_of st ''module'') (sorted_set (concat (map an_am ans) @ ps_modules st))
         @ map (unit_of st ''data'') (sorted_set (concat (map (run_stale_data inp \<circ> snd) (compat_runs inp))))
         @ map (unit_of st ''file'') (sorted_set wfs)
         @ map (unit_of st ''unrecorded'') unrecorded))"

fun test_file_of :: "string \<Rightarrow> string" where
  "test_file_of (a # b # rest) =
     (if a = CHR '':'' \<and> b = CHR '':'' then [] else a # test_file_of (b # rest))"
| "test_file_of s = s"

definition run_now_files :: "selection_inputs \<Rightarrow> (string \<times> judged) list \<Rightarrow> string list \<Rightarrow> plan_state \<Rightarrow> string list" where
  "run_now_files inp nodes fresh st =
     sorted_set (filter (\<lambda>path. path \<in> set (pt_test_files (se_tree inp)))
       (map (jd_file \<circ> snd) (filter (\<lambda>n. is_t1 st (fst n)) nodes) @ fresh
        @ map (jd_file \<circ> snd) (filter (\<lambda>n. map_of (ps_conditional st) (fst n) \<noteq> None) nodes)))"

definition whole_files :: "selection_inputs \<Rightarrow> (string \<times> judged) list \<Rightarrow> string list \<Rightarrow> string list \<Rightarrow> plan_state \<Rightarrow> string list" where
  "whole_files inp nodes wfs fresh st =
     sorted_set (filter (\<lambda>path. path \<in> set (pt_test_files (se_tree inp)))
       (fresh @ filter (\<lambda>path. path \<in> jd_file ` snd ` set nodes
                                  \<and> (\<forall>n\<in>set nodes. jd_file (snd n) = path \<longrightarrow> is_t1 st (fst n))) wfs))"

definition deselected :: "(string \<times> judged) list \<Rightarrow> string list \<Rightarrow> string list \<Rightarrow> plan_state \<Rightarrow> string list" where
  "deselected nodes files whole st =
     sort (map fst (filter (\<lambda>n. \<not> is_t1 st (fst n) \<and> jd_file (snd n) \<in> set files \<and> jd_file (snd n) \<notin> set whole) nodes))"

definition weight_of :: "selection_inputs \<Rightarrow> string \<Rightarrow> nat" where
  "weight_of inp path =
     max 1 (length (filter (\<lambda>nodeid. test_file_of nodeid = path) (ds_inventory (se_deps inp))))"

definition fallbacks_of :: "selection_inputs \<Rightarrow> (string \<times> node_result) list \<Rightarrow> string list \<Rightarrow> (string \<times> string) list" where
  "fallbacks_of inp results unrecorded =
     sort (fold (\<lambda>path. AList.update path ''no dependency record'') unrecorded
       (List.map_filter (\<lambda>(nodeid, r).
          case r of
            Passed_over \<Rightarrow> None
          | Fell_back why \<Rightarrow> Some (nodeid, why)
          | Judged j \<Rightarrow> map_option (Pair nodeid) (jd_fallback j)) results))"

definition assemble ::
  "selection_inputs \<Rightarrow> analyses \<Rightarrow> (string \<times> node_result) list \<Rightarrow> plan_state \<Rightarrow> decision" where
  "assemble inp as results st =
     (let nodes = judged_of results;
          tests = pt_test_files (se_tree inp);
          wfs = all_wf inp as;
          bare = files_without_record inp nodes;
          unrecorded = filter (reached_static inp) bare;
          fresh = filter (\<lambda>path. path \<in> set wfs) bare;
          files = run_now_files inp nodes fresh st;
          whole = whole_files inp nodes wfs fresh st;
          usable = map fst nodes
      in \<lparr>sd_files = files, sd_deselect = deselected nodes files whole st, sd_whole_files = whole,
          sd_selected = length (filter (is_t1 st) usable),
          sd_reached = length (filter (\<lambda>n. jd_touched (snd n) \<and> map_of (ps_tiers st) (fst n) = None) nodes),
          sd_recorded = length nodes, sd_total_files = length tests,
          sd_units = units_of inp as st wfs unrecorded,
          sd_fallbacks = fallbacks_of inp results unrecorded,
          sd_coverage = (if tests = [] then 0
             else of_nat (length (remdups (filter (\<lambda>p. p \<in> set tests) (map (jd_file \<circ> snd) nodes)))) / of_nat (length tests)),
          sd_tiers = sort (ps_tiers st), sd_via = sort (ps_via st),
          sd_weights = sort (map (\<lambda>k. (k, weight_of inp k)) (filter (\<lambda>k. k \<notin> set usable) (map fst (ps_tiers st)))),
          sd_chosen = sort (map (\<lambda>n. (fst n, jd_run (snd n))) nodes),
          sd_learnable = sort_key fst (ps_learnable st), sd_conditional = sort (ps_conditional st),
          sd_observers_promoted = length (filter (\<lambda>n. map_of (ps_tiers st) n = Some (''T1'', ''o'')) usable),
          sd_observers_deferred = length (filter (\<lambda>n. map_of (se_observers inp) n \<noteq> None
             \<and> map_option fst (map_of (ps_tiers st) n) = Some ''T2'') usable)\<rparr>)"

definition tiers_of :: "selection_inputs \<Rightarrow> analyses \<Rightarrow> (string \<times> judged) list \<Rightarrow> plan_state option" where
  "tiers_of inp as nodes =
     fold (unrecorded_step inp (all_wf inp as)) (files_without_record inp nodes)
       (Some (fold (soft_run inp nodes) (as_per_run as) (start_state nodes)))"

definition decide :: "selection_inputs \<Rightarrow> decision option" where
  "decide inp =
     (let as = make_analyses inp; results = judge_nodes inp as
      in map_option (assemble inp as results) (tiers_of inp as (judged_of results)))"

definition is_selected :: "decision \<Rightarrow> string \<Rightarrow> bool" where
  "is_selected d nodeid \<longleftrightarrow> test_file_of nodeid \<in> set (sd_files d) \<and> nodeid \<notin> set (sd_deselect d)"

end
