(* ===== verification/Dep_Sound.thy ===== *)
theory Dep_Sound
  imports Dep_Plan
begin

text \<open>
  The planner keeps its promises: the analyses shared by signature are those of each run, a
  changed function runs every passing test that executed it, the deselection is exactly the
  complement of tier T1, every deferred test is attributed to a path, and a change that
  leaves every parsed file equal runs nothing but the tests that did not pass.
\<close>

section \<open>Analyses shared by signature\<close>

text \<open>The dictionaries of the inputs have one entry per key.\<close>

definition dict_inputs :: "selection_inputs \<Rightarrow> bool" where
  "dict_inputs inp \<longleftrightarrow> distinct (map fst (ds_runs (se_deps inp))) \<and> distinct (map fst (records_of (se_deps inp)))"

lemma sorted_set_cong: "set xs = set ys \<Longrightarrow> sorted_set xs = sorted_set ys"
  by (intro sorted_distinct_set_unique) simp_all

lemma stale_is_py: "path \<in> set (stale_py_paths tree basemap) \<Longrightarrow> is_py path"
  by (auto simp: stale_py_paths_def)

lemma signature_stale:
  assumes eq: "signature_of s1 b1 d1 = signature_of s2 b2 d2" and s2: "\<forall>p\<in>set s2. is_py p"
    and p: "p \<in> set s1" "is_py p"
  shows "p \<in> set s2 \<and> map_of b1 p = map_of b2 p"
proof -
  have "(p, map_of b1 p) \<in> signature_of s2 b2 d2"
    unfolding eq[symmetric] using p(1) by (auto simp: signature_of_def)
  moreover have "p \<noteq> ''data''"
  proof
    assume "p = ''data''"
    moreover have "\<not> is_py ''data''" by code_simp
    ultimately show False using p(2) by simp
  qed
  ultimately show ?thesis by (auto simp: signature_of_def)
qed

lemma diff_path_cong: "map_of b1 p = map_of b2 p \<Longrightarrow> diff_path tree b1 versions p = diff_path tree b2 versions p"
  by (rule ext) (simp add: diff_path_def old_index_def)

lemma analyze_cong:
  assumes "set s1 = set s2" and "\<forall>p\<in>set s1. map_of b1 p = map_of b2 p"
  shows "analyze tree s1 b1 versions = analyze tree s2 b2 versions"
proof -
  have paths: "sorted_set s1 = sorted_set s2" by (rule sorted_set_cong[OF assms(1)])
  have "fold (diff_path tree b1 versions) (sorted_set s1) new_analysis
      = fold (diff_path tree b2 versions) (sorted_set s1) new_analysis"
    using assms(2) by (intro fold_cong refl diff_path_cong) simp
  moreover have "map (\<lambda>p. (p, old_index b1 versions p)) (sorted_set s1) = map (\<lambda>p. (p, old_index b2 versions p)) (sorted_set s1)"
    using assms(2) by (simp add: old_index_def)
  ultimately have "propagate tree (map (\<lambda>p. (p, old_index b1 versions p)) (sorted_set s1))
        (fold (diff_path tree b1 versions) (sorted_set s1) new_analysis)
      = propagate tree (map (\<lambda>p. (p, old_index b2 versions p)) (sorted_set s1))
        (fold (diff_path tree b2 versions) (sorted_set s1) new_analysis)" by (simp only:)
  then show ?thesis by (simp only: analyze_def Let_def paths)
qed

lemma signature_analysis:
  assumes "run_signature inp r1 = run_signature inp r2"
  shows "run_analysis inp r1 = run_analysis inp r2"
proof -
  have py: "\<forall>p\<in>set (run_stale_py inp r). is_py p" for r by (auto simp: run_stale_py_def stale_is_py)
  note half = signature_stale[OF assms[unfolded run_signature_def] py[of r2]]
  note other = signature_stale[OF assms[unfolded run_signature_def, symmetric] py[of r1]]
  show ?thesis
    unfolding run_analysis_def using half other py by (intro analyze_cong) blast+
qed

text \<open>After any number of runs: every entry is the analysis of a run with that signature.\<close>

definition memo_ok :: "selection_inputs \<Rightarrow> (string \<times> run_baseline) list \<Rightarrow> analyses \<Rightarrow> bool" where
  "memo_ok inp seen st \<longleftrightarrow>
     (\<forall>x\<in>set (as_memo st). \<exists>run\<in>snd ` set seen. fst x = run_signature inp run \<and> snd x = run_analysis inp run)
     \<and> (\<forall>x\<in>set (as_per_run st). (\<exists>run. (fst x, run) \<in> set seen \<and> snd x = run_analysis inp run)
          \<and> snd x \<in> snd ` set (as_memo st))
     \<and> fst ` set seen \<subseteq> fst ` set (as_per_run st) \<union> set (as_overcap st)
     \<and> length (as_memo st) \<le> MAX_SIGNATURES"

lemma memo_step_ok:
  assumes "memo_ok inp seen st"
  shows "memo_ok inp (seen @ [(rid, run)]) (memo_step inp (rid, run) st)"
proof (cases "map_of (as_memo st) (run_signature inp run)")
  case None
  show ?thesis
  proof (cases "length (as_memo st) < MAX_SIGNATURES")
    case True
    then show ?thesis using assms None by (auto simp: memo_ok_def memo_step_def Let_def)
  next
    case False
    then show ?thesis using assms None by (auto simp: memo_ok_def memo_step_def Let_def)
  qed
next
  case (Some an)
  then have known: "(run_signature inp run, an) \<in> set (as_memo st)" by (rule map_of_SomeD)
  have "\<forall>x\<in>set (as_memo st). \<exists>r\<in>snd ` set seen. fst x = run_signature inp r \<and> snd x = run_analysis inp r"
    using assms unfolding memo_ok_def by (elim conjE)
  from bspec[OF this known] have "\<exists>r\<in>snd ` set seen. run_signature inp run = run_signature inp r \<and> an = run_analysis inp r"
    by (simp only: fst_conv snd_conv)
  then have an: "an = run_analysis inp run" using signature_analysis by metis
  have "an \<in> snd ` set (as_memo st)" using known by force
  then show ?thesis using assms Some an by (auto simp: memo_ok_def memo_step_def Let_def)
qed

lemma memo_fold_ok: "memo_ok inp seen st \<Longrightarrow> memo_ok inp (seen @ xs) (fold (memo_step inp) xs st)"
proof (induction xs arbitrary: seen st)
  case (Cons x xs)
  obtain rid run where x: "x = (rid, run)" by fastforce
  show ?case using Cons.IH[OF memo_step_ok[OF Cons.prems, of rid run]] by (simp add: x)
qed simp

lemma make_analyses_ok: "memo_ok inp (by_newest inp) (make_analyses inp)"
proof -
  have "memo_ok inp [] \<lparr>as_memo = [], as_per_run = [], as_overcap = []\<rparr>" by (simp add: memo_ok_def)
  from memo_fold_ok[OF this, of "by_newest inp"] show ?thesis by (simp add: make_analyses_def)
qed

lemma run_analysis_shared:
  assumes d: "dict_inputs inp" and run: "map_of (compat_runs inp) rid = Some run"
    and cap: "rid \<notin> set (as_overcap (make_analyses inp))"
  shows "map_of (as_per_run (make_analyses inp)) rid = Some (run_analysis inp run)"
proof -
  have seen: "set (by_newest inp) = set (compat_runs inp)" by (simp add: by_newest_def)
  have dist: "distinct (map fst (compat_runs inp))"
    using d by (auto simp: dict_inputs_def compat_runs_def distinct_map_filter)
  have ok: "memo_ok inp (by_newest inp) (make_analyses inp)" by (rule make_analyses_ok)
  have "(rid, run) \<in> set (by_newest inp)" unfolding seen using run by (rule map_of_SomeD)
  then have "rid \<in> fst ` set (by_newest inp)" by force
  then have "rid \<in> fst ` set (as_per_run (make_analyses inp))" using ok cap unfolding memo_ok_def by blast
  then obtain an where an: "map_of (as_per_run (make_analyses inp)) rid = Some an"
    by (metis domD dom_map_of_conv_image_fst)
  then have "(rid, an) \<in> set (as_per_run (make_analyses inp))" by (rule map_of_SomeD)
  moreover have "\<forall>x\<in>set (as_per_run (make_analyses inp)). \<exists>r. (fst x, r) \<in> set (by_newest inp) \<and> snd x = run_analysis inp r"
    using ok unfolding memo_ok_def by blast
  ultimately obtain r where r: "(rid, r) \<in> set (by_newest inp)" "an = run_analysis inp r" by fastforce
  then have "map_of (compat_runs inp) rid = Some r" using dist unfolding seen by simp
  then show ?thesis using an r run by simp
qed

section \<open>The phases after the nodes\<close>

lemma fold_inv: "(\<And>x st. P st \<Longrightarrow> P (f x st)) \<Longrightarrow> P st \<Longrightarrow> P (fold f xs st)"
  by (induction xs arbitrary: st) auto

lemma soft_run_inv:
  assumes t1: "\<And>n c st. P st \<Longrightarrow> P (set_t1 n c st)" and count: "\<And>u n st. P st \<Longrightarrow> P (count_unit u n st)"
    and modules: "\<And>m st. P st \<Longrightarrow> P (st\<lparr>ps_modules := m\<rparr>)" and start: "P st"
  shows "P (soft_run inp nodes item st)"
proof -
  obtain rid an where item: "item = (rid, an)" by fastforce
  have counts: "P (fold (\<lambda>path. count_unit (''module'', path) n) xs st)" if "P st" for n xs st
    by (rule fold_inv[of P]) (rule count, assumption, rule that)
  have audit: "P (audit_member inp before whole missing m st)" if "P st" for before whole missing m st
    using that counts[OF t1[OF that]] by (simp add: audit_member_def Let_def)
  have witness: "P (witness_path inp mods ms path st)" if "P st" for mods ms path st
  proof (cases "witness_for inp mods ms path")
    case None
    then show ?thesis using that by (simp add: witness_path_def)
  next
    case (Some n)
    then show ?thesis using count[OF that] count[OF t1[OF that]] by (simp add: witness_path_def)
  qed
  have "P (fold (audit_member inp before whole missing) ms u)" if "P u" for before whole missing ms u
    by (rule fold_inv[of P]) (rule audit, assumption, rule that)
  moreover have "P (fold (witness_path inp mods ms) xs u)" if "P u" for mods ms xs u
    by (rule fold_inv[of P]) (rule witness, assumption, rule that)
  ultimately show ?thesis using start modules[OF start] by (simp add: item soft_run_def Let_def)
qed

lemma soft_runs_inv:
  assumes "\<And>n c st. P st \<Longrightarrow> P (set_t1 n c st)" and "\<And>u n st. P st \<Longrightarrow> P (count_unit u n st)"
    and "\<And>m st. P st \<Longrightarrow> P (st\<lparr>ps_modules := m\<rparr>)"
  shows "P st \<Longrightarrow> P (fold (soft_run inp nodes) items st)"
proof (induction items arbitrary: st)
  case (Cons item items)
  have "P (soft_run inp nodes item st)" by (rule soft_run_inv[OF assms Cons.prems])
  then show ?case using Cons.IH by simp
qed simp

lemma unrecorded_none: "fold (unrecorded_step inp wfs) paths None = None"
  by (induction paths) (simp_all add: unrecorded_step_def)

lemma unrecorded_inv:
  assumes "\<And>path st st'. path \<in> set paths \<Longrightarrow> P st \<Longrightarrow> unrecorded_step inp wfs path (Some st) = Some st' \<Longrightarrow> P st'"
    and "P st" and "fold (unrecorded_step inp wfs) paths (Some st) = Some st'"
  shows "P st'"
  using assms
proof (induction paths arbitrary: st)
  case (Cons path paths)
  obtain u where u: "unrecorded_step inp wfs path (Some st) = Some u"
    using Cons.prems(3) unrecorded_none[of inp wfs paths] by (cases "unrecorded_step inp wfs path (Some st)") auto
  have "P u" by (rule Cons.prems(1)[OF _ Cons.prems(2) u]) simp
  moreover have "fold (unrecorded_step inp wfs) paths (Some u) = Some st'" using Cons.prems(3) u by simp
  moreover have "P st''" if "path' \<in> set paths" "P v" "unrecorded_step inp wfs path' (Some v) = Some st''" for path' v st''
    by (rule Cons.prems(1)[OF _ that(2,3)]) (simp add: that(1))
  ultimately show ?case using Cons.IH[of u] by blast
qed simp

text \<open>A deferred key has a path.\<close>

definition attributed :: "plan_state \<Rightarrow> bool" where
  "attributed st \<longleftrightarrow> (\<forall>k. map_option fst (map_of (ps_tiers st) k) = Some ''T2'' \<longrightarrow> map_of (ps_via st) k \<noteq> None)"

definition tier_dict :: "plan_state \<Rightarrow> bool" where
  "tier_dict st \<longleftrightarrow> distinct (map fst (ps_tiers st)) \<and> distinct (map fst (ps_via st))"

lemma is_t1_set_t1 [simp]: "is_t1 (set_t1 n c st) m \<longleftrightarrow> m = n \<or> is_t1 st m"
  by (simp add: is_t1_def set_t1_def update_conv')

lemma is_t1_other [simp]: "is_t1 (count_unit u n st) = is_t1 st" "is_t1 (st\<lparr>ps_modules := m\<rparr>) = is_t1 st"
  by (simp_all add: is_t1_def count_unit_def fun_eq_iff)

lemma attributed_set_t1: "attributed st \<Longrightarrow> attributed (set_t1 n c st)"
  by (auto simp: attributed_def set_t1_def update_conv' delete_conv')

lemma attributed_other: "attributed st \<Longrightarrow> attributed (count_unit u n st)" "attributed st \<Longrightarrow> attributed (st\<lparr>ps_modules := m\<rparr>)"
  by (simp_all add: attributed_def count_unit_def)

lemma tier_dict_set_t1: "tier_dict st \<Longrightarrow> tier_dict (set_t1 n c st)"
  by (simp add: tier_dict_def set_t1_def distinct_update distinct_delete)

lemma tier_dict_other: "tier_dict st \<Longrightarrow> tier_dict (count_unit u n st)" "tier_dict st \<Longrightarrow> tier_dict (st\<lparr>ps_modules := m\<rparr>)"
  by (simp_all add: tier_dict_def count_unit_def)

lemma unrecorded_step_cases:
  assumes "unrecorded_step inp wfs path (Some st) = Some st'"
  obtains "path \<in> set wfs" "st' = st\<lparr>ps_tiers := AList.update path (''T1'', ''n'') (ps_tiers st)\<rparr>"
    | source where "path \<notin> set wfs" "reached_static inp path"
        "st' = st\<lparr>ps_tiers := AList.update path (''T2'', ''u-static'') (ps_tiers st), ps_via := AList.update path source (ps_via st)\<rparr>"
    | "path \<notin> set wfs" "\<not> reached_static inp path" "st' = st"
  using assms by (auto simp: unrecorded_step_def split: if_splits)

lemma attributed_unrecorded:
  "unrecorded_step inp wfs path (Some st) = Some st' \<Longrightarrow> attributed st \<Longrightarrow> attributed st'"
  by (erule unrecorded_step_cases) (auto simp: attributed_def update_conv')

lemma tier_dict_unrecorded:
  "unrecorded_step inp wfs path (Some st) = Some st' \<Longrightarrow> tier_dict st \<Longrightarrow> tier_dict st'"
  by (erule unrecorded_step_cases) (auto simp: tier_dict_def distinct_update)

lemma unrecorded_keeps_t1:
  "unrecorded_step inp wfs path (Some st) = Some st' \<Longrightarrow> n \<noteq> path \<Longrightarrow> is_t1 st' n = is_t1 st n"
  by (erule unrecorded_step_cases) (auto simp: is_t1_def update_conv')

lemma judge_tier_via:
  "map_option fst (jd_tier (judge inp run an nodeid tf nr)) = Some ''T2'' \<Longrightarrow> jd_via (judge inp run an nodeid tf nr) \<noteq> None"
  by (simp add: judge_def Let_def split: prod.splits if_splits option.splits)

section \<open>The nodes as a dictionary\<close>

lemma keyed_simps [simp]:
  "keyed f [] = []"
  "keyed f ((n, j) # nodes) = (case f j of None \<Rightarrow> keyed f nodes | Some y \<Rightarrow> (n, y) # keyed f nodes)"
  by (simp_all add: keyed_def map_filter_simps split: option.splits)

lemma judged_of_simps [simp]:
  "judged_of [] = []"
  "judged_of ((n, r) # rs) = (case r of Judged j \<Rightarrow> (n, j) # judged_of rs | _ \<Rightarrow> judged_of rs)"
  by (simp_all add: judged_of_def map_filter_simps split: node_result.splits)

lemma keyed_keys: "fst ` set (keyed f nodes) \<subseteq> fst ` set nodes"
proof (induction nodes)
  case (Cons x nodes)
  then show ?case by (cases x; cases "f (snd x)") auto
qed simp

lemma judged_keys: "fst ` set (judged_of results) \<subseteq> fst ` set results"
proof (induction results)
  case (Cons x results)
  then show ?case by (cases x; cases "snd x") auto
qed simp

lemma distinct_keyed: "distinct (map fst nodes) \<Longrightarrow> distinct (map fst (keyed f nodes))"
proof (induction nodes)
  case (Cons x nodes)
  then show ?case using keyed_keys[of f nodes] by (cases x; cases "f (snd x)") auto
qed simp

lemma distinct_judged: "distinct (map fst results) \<Longrightarrow> distinct (map fst (judged_of results))"
proof (induction results)
  case (Cons x results)
  then show ?case using judged_keys[of results] by (cases x; cases "snd x") auto
qed simp

lemma map_of_keyed: "distinct (map fst nodes) \<Longrightarrow> map_of (keyed f nodes) n = Option.bind (map_of nodes n) f"
proof (induction nodes)
  case (Cons x nodes)
  have "map_of (keyed f nodes) (fst x) = None"
    using Cons.prems keyed_keys[of f nodes] by (simp add: map_of_eq_None_iff) blast
  then show ?case using Cons by (cases x; cases "f (snd x)") auto
qed simp

lemma judged_of_iff: "(n, j) \<in> set (judged_of results) \<longleftrightarrow> (n, Judged j) \<in> set results"
proof (induction results)
  case (Cons x results)
  then show ?case by (cases x; cases "snd x") auto
qed simp

section \<open>The decision and its parts\<close>

lemma map_of_sort: "distinct (map fst xs) \<Longrightarrow> map_of (sort xs) = map_of xs"
proof -
  assume d: "distinct (map fst xs)"
  then have "inj_on fst (set xs)" "distinct xs" by (simp_all add: distinct_map)
  then have "distinct (map fst (sort xs))" by (simp add: distinct_map)
  then show ?thesis using d by (simp add: map_of_inject_set)
qed

lemma distinct_judge_nodes: "dict_inputs inp \<Longrightarrow> distinct (map fst (judged_of (judge_nodes inp as)))"
  by (intro distinct_judged) (simp add: judge_nodes_def dict_inputs_def comp_def)

lemma start_ok:
  assumes "distinct (map fst nodes)"
    and "\<And>n j. (n, j) \<in> set nodes \<Longrightarrow> map_option fst (jd_tier j) = Some ''T2'' \<Longrightarrow> jd_via j \<noteq> None"
  shows "tier_dict (start_state nodes)" and "attributed (start_state nodes)"
    and "is_t1 (start_state nodes) n \<longleftrightarrow> (\<exists>j. map_of nodes n = Some j \<and> map_option fst (jd_tier j) = Some ''T1'')"
proof -
  show "tier_dict (start_state nodes)" by (simp add: tier_dict_def start_state_def distinct_keyed[OF assms(1)])
  show "is_t1 (start_state nodes) n \<longleftrightarrow> (\<exists>j. map_of nodes n = Some j \<and> map_option fst (jd_tier j) = Some ''T1'')"
    by (cases "map_of nodes n") (simp_all add: is_t1_def start_state_def map_of_keyed[OF assms(1)])
  show "attributed (start_state nodes)"
    unfolding attributed_def
  proof (intro allI impI)
    fix k assume t2: "map_option fst (map_of (ps_tiers (start_state nodes)) k) = Some ''T2''"
    then obtain j where j: "map_of nodes k = Some j" "map_option fst (jd_tier j) = Some ''T2''"
      by (cases "map_of nodes k") (simp_all add: start_state_def map_of_keyed[OF assms(1)])
    then have "jd_via j \<noteq> None" using assms(2) map_of_SomeD by fast
    then show "map_of (ps_via (start_state nodes)) k \<noteq> None"
      using j by (simp add: start_state_def map_of_keyed[OF assms(1)])
  qed
qed

definition nodes_of :: "selection_inputs \<Rightarrow> (string \<times> judged) list" where
  "nodes_of inp = judged_of (judge_nodes inp (make_analyses inp))"

text \<open>A judged node: its chosen record and the run of that record.\<close>

lemma min_by_in: "min_by f b xs \<in> set (b # xs)"
  by (induction xs arbitrary: b) (simp_all, metis)

lemma choose_record_found:
  assumes "choose_record inp overcap recs = Use_record tf nr"
  shows "tf \<in> set (pt_test_files (se_tree inp))" and "nr_run_id nr \<notin> set overcap"
    and "map_of (compat_runs inp) (nr_run_id nr) \<noteq> None" and "nr \<in> set recs"
proof -
  let ?compat = "filter (\<lambda>r. map_of (compat_runs inp) (nr_run_id r) \<noteq> None) recs"
  let ?usable = "filter (\<lambda>r. nr_run_id r \<notin> set overcap) ?compat"
  obtain first others where recs: "recs = first # others" using assms by (cases recs) (simp_all add: choose_record_def)
  have c: "?compat \<noteq> []" and tf: "nr_test_file first \<in> set (pt_test_files (se_tree inp))"
    using assms by (auto simp: choose_record_def Let_def recs split: if_splits)
  obtain b xs where u: "?usable = b # xs"
    using assms c tf unfolding choose_record_def recs by (cases ?usable) (simp_all add: recs Let_def)
  have "Use_record tf nr = Use_record (nr_test_file first) (min_by (record_distance inp (nr_test_file first)) b xs)"
    using assms c tf u unfolding choose_record_def recs Let_def by (simp only: list.case if_False if_True not_True_eq_False)
  then have nr: "tf = nr_test_file first" "nr \<in> set ?usable"
    using min_by_in[of "record_distance inp (nr_test_file first)" b xs] unfolding u by simp_all
  then show "nr_run_id nr \<notin> set overcap" "map_of (compat_runs inp) (nr_run_id nr) \<noteq> None" "nr \<in> set recs"
    "tf \<in> set (pt_test_files (se_tree inp))" using tf by auto
qed

lemma node_judged:
  assumes d: "dict_inputs inp" and n: "(nodeid, j) \<in> set (nodes_of inp)"
  obtains recs tf nr run where "(nodeid, recs) \<in> set (records_of (se_deps inp))"
    "choose_record inp (as_overcap (make_analyses inp)) recs = Use_record tf nr"
    "map_of (compat_runs inp) (nr_run_id nr) = Some run" "tf \<in> set (pt_test_files (se_tree inp))"
    "j = judge inp run (run_analysis inp run) nodeid tf nr"
proof -
  let ?as = "make_analyses inp"
  have "(nodeid, Judged j) \<in> set (judge_nodes inp ?as)" using n by (simp add: nodes_of_def judged_of_iff)
  then obtain recs where recs: "(nodeid, recs) \<in> set (records_of (se_deps inp))"
    and jn: "judge_node inp ?as (nodeid, recs) = Judged j" by (auto simp: judge_nodes_def)
  obtain tf nr where c: "choose_record inp (as_overcap ?as) recs = Use_record tf nr"
    using jn by (auto simp: judge_node_def split: node_choice.splits)
  note found = choose_record_found[OF c]
  obtain run where run: "map_of (compat_runs inp) (nr_run_id nr) = Some run" using found(3) by auto
  have "map_of (as_per_run ?as) (nr_run_id nr) = Some (run_analysis inp run)"
    by (rule run_analysis_shared[OF d run found(2)])
  then have "j = judge inp run (run_analysis inp run) nodeid tf nr"
    using jn c run by (simp add: judge_node_def)
  then show ?thesis using that recs c run found(1) by blast
qed

lemma judged_node:
  assumes d: "dict_inputs inp" and recs: "(nodeid, recs) \<in> set (records_of (se_deps inp))"
    and c: "choose_record inp (as_overcap (make_analyses inp)) recs = Use_record tf nr"
    and run: "map_of (compat_runs inp) (nr_run_id nr) = Some run"
  shows "(nodeid, judge inp run (run_analysis inp run) nodeid tf nr) \<in> set (nodes_of inp)"
proof -
  have "map_of (as_per_run (make_analyses inp)) (nr_run_id nr) = Some (run_analysis inp run)"
    by (rule run_analysis_shared[OF d run choose_record_found(2)[OF c]])
  then have "judge_node inp (make_analyses inp) (nodeid, recs) = Judged (judge inp run (run_analysis inp run) nodeid tf nr)"
    using c run by (simp add: judge_node_def)
  then have "(nodeid, Judged (judge inp run (run_analysis inp run) nodeid tf nr)) \<in> set (judge_nodes inp (make_analyses inp))"
    using recs by (force simp: judge_nodes_def)
  then show ?thesis by (simp add: nodes_of_def judged_of_iff)
qed

definition final_state :: "selection_inputs \<Rightarrow> plan_state \<Rightarrow> bool" where
  "final_state inp st \<longleftrightarrow> tiers_of inp (make_analyses inp) (nodes_of inp) = Some st"

lemma decide_parts:
  "decide inp = Some d \<longleftrightarrow>
     (\<exists>st. final_state inp st \<and> d = assemble inp (make_analyses inp) (judge_nodes inp (make_analyses inp)) st)"
  by (auto simp: decide_def Let_def final_state_def nodes_of_def)

lemma distinct_nodes_of: "dict_inputs inp \<Longrightarrow> distinct (map fst (nodes_of inp))"
  unfolding nodes_of_def by (rule distinct_judge_nodes)

lemma start_nodes:
  assumes "dict_inputs inp"
  shows "tier_dict (start_state (nodes_of inp))" and "attributed (start_state (nodes_of inp))"
proof -
  have via: "(n, j) \<in> set (nodes_of inp) \<Longrightarrow> map_option fst (jd_tier j) = Some ''T2'' \<Longrightarrow> jd_via j \<noteq> None" for n j
    using judge_tier_via by (blast elim: node_judged[OF assms])
  show "tier_dict (start_state (nodes_of inp))"
    by (rule start_ok(1)[OF distinct_nodes_of[OF assms]]) (rule via)
  show "attributed (start_state (nodes_of inp))"
    by (rule start_ok(2)[OF distinct_nodes_of[OF assms]]) (rule via)
qed

lemma final_dict:
  assumes "dict_inputs inp" and "final_state inp st"
  shows "tier_dict st" and "attributed st"
proof -
  let ?soft = "fold (soft_run inp (nodes_of inp)) (as_per_run (make_analyses inp)) (start_state (nodes_of inp))"
  have f: "fold (unrecorded_step inp (all_wf inp (make_analyses inp))) (files_without_record inp (nodes_of inp)) (Some ?soft) = Some st"
    using assms(2) by (simp add: final_state_def tiers_of_def)
  have dict: "tier_dict ?soft"
    by (rule soft_runs_inv[of tier_dict, OF tier_dict_set_t1 tier_dict_other start_nodes(1)[OF assms(1)]])
  show "tier_dict st"
    by (rule unrecorded_inv[of _ tier_dict, OF _ dict f]) (rule tier_dict_unrecorded)
  have attr: "attributed ?soft"
    by (rule soft_runs_inv[of attributed, OF attributed_set_t1 attributed_other start_nodes(2)[OF assms(1)]])
  show "attributed st"
    by (rule unrecorded_inv[of _ attributed, OF _ attr f]) (rule attributed_unrecorded)
qed

text \<open>A node that is T1 by its own clauses is T1 at the end.\<close>

lemma final_t1:
  assumes "dict_inputs inp" and "final_state inp st"
    and "(nodeid, j) \<in> set (nodes_of inp)" and "map_option fst (jd_tier j) = Some ''T1''"
    and "nodeid \<notin> set (pt_test_files (se_tree inp))"
  shows "is_t1 st nodeid"
proof -
  let ?soft = "fold (soft_run inp (nodes_of inp)) (as_per_run (make_analyses inp)) (start_state (nodes_of inp))"
  have f: "fold (unrecorded_step inp (all_wf inp (make_analyses inp))) (files_without_record inp (nodes_of inp)) (Some ?soft) = Some st"
    using assms(2) by (simp add: final_state_def tiers_of_def)
  have "map_of (nodes_of inp) nodeid = Some j" using assms(3) distinct_nodes_of[OF assms(1)] by simp
  then have "is_t1 (start_state (nodes_of inp)) nodeid"
    using assms(4) by (simp add: is_t1_def start_state_def map_of_keyed[OF distinct_nodes_of[OF assms(1)]])
  then have "is_t1 ?soft nodeid"
    by (rule soft_runs_inv[of "\<lambda>st. is_t1 st nodeid", rotated -1]) simp_all
  moreover have "is_t1 u' nodeid" if "path \<in> set (files_without_record inp (nodes_of inp))" "is_t1 u nodeid"
    "unrecorded_step inp (all_wf inp (make_analyses inp)) path (Some u) = Some u'" for path u u'
  proof -
    have "nodeid \<noteq> path" using that(1) assms(5) by (auto simp: files_without_record_def)
    then show ?thesis using unrecorded_keeps_t1[OF that(3)] that(2) by simp
  qed
  ultimately show ?thesis using unrecorded_inv[of _ "\<lambda>st. is_t1 st nodeid", OF _ _ f] by blast
qed

section \<open>The clauses of a node\<close>

lemma resolve_all_lenient: "resolve_all False f xs = Some ys \<Longrightarrow> resolve_all True f xs = Some ys"
  by (induction xs arbitrary: ys) (auto split: option.splits)

lemma own_paths_lenient: "own_paths voc False ctx = Some ps \<Longrightarrow> own_paths voc True ctx = Some ps"
  by (auto simp: own_paths_def resolve_all_lenient split: option.splits)

lemma fixture_paths_lenient: "fixture_paths voc fx False fids acc = Some ps \<Longrightarrow> fixture_paths voc fx True fids acc = Some ps"
proof (induction fids arbitrary: acc)
  case (Cons fid fids)
  then obtain r nested where "map_of fx fid = Some r" "own_paths voc False (fx_deps r) = Some nested"
    "fixture_paths voc fx False fids (join_sets acc nested) = Some ps" by (simp split: option.splits)
  then show ?case using Cons.IH own_paths_lenient by simp
qed simp

lemma strict_lenient: "strict_paths inp nr = Some ps \<Longrightarrow> lenient_paths inp nr = ps"
  by (auto simp: strict_paths_def lenient_paths_def context_paths_def own_paths_lenient fixture_paths_lenient
      split: Option.bind_splits)

lemma first_code_some: "c \<in> set codes \<Longrightarrow> c \<in> set T1_CODES \<Longrightarrow> \<exists>code. first_code codes = Some code"
  by (cases "first_code codes") (auto simp: first_code_def find_None_iff)

lemma first_code_in: "first_code codes = Some c \<Longrightarrow> c \<in> set codes"
  by (auto simp: first_code_def dest: find_Some_in)

lemma judge_paths: "(case strict_paths inp nr of Some ps \<Rightarrow> ps | None \<Rightarrow> lenient_paths inp nr) = lenient_paths inp nr"
  using strict_lenient by (cases "strict_paths inp nr") auto

text \<open>The verdict of a node, clause by clause.\<close>

definition precise_only :: "selection_inputs \<Rightarrow> run_baseline \<Rightarrow> string \<Rightarrow> string \<Rightarrow> node_record \<Rightarrow> bool" where
  "precise_only inp run nodeid tf nr \<longleftrightarrow> opaque_why inp run nr \<noteq> None \<or> demoted inp nodeid tf"

lemma judge_tier:
  "jd_tier (judge inp run an nodeid tf nr) =
     (if nr_outcome nr \<notin> set PASSING_OUTCOMES then Some (''T1'', ''a'')
      else (case first_code (judge_codes inp run an nodeid tf (precise_only inp run nodeid tf nr) (lenient_paths inp nr)) of
              Some code \<Rightarrow> Some (''T1'', code)
            | None \<Rightarrow>
                (case deferral inp run an tf (corrupt_record inp run nr) (precise_only inp run nodeid tf nr)
                        (fst (snd (lenient_paths inp nr))) of
                   None \<Rightarrow> (if observer_hit inp run an nodeid then Some (''T1'', ''o'') else None)
                 | Some t \<Rightarrow> Some (''T2'', fst t))))"
  by (simp add: judge_def Let_def judge_paths precise_only_def case_prod_unfold split: option.splits)

lemma judge_run_file [simp]:
  "jd_run (judge inp run an nodeid tf nr) = nr_run_id nr" "jd_file (judge inp run an nodeid tf nr) = tf"
  by (simp_all add: judge_def Let_def case_prod_unfold split: option.splits)

lemma judge_hit:
  assumes "f \<in> set (fst (lenient_paths inp nr))" and "function_hit an f"
  shows "map_option fst (jd_tier (judge inp run an nodeid tf nr)) = Some ''T1''"
proof -
  let ?codes = "judge_codes inp run an nodeid tf (precise_only inp run nodeid tf nr) (lenient_paths inp nr)"
  have "''d'' \<in> set ?codes"
    using assms by (auto simp: judge_codes_def code_d_def case_prod_unfold Let_def)
  moreover have "''d'' \<in> set T1_CODES" by code_simp
  ultimately obtain code where "first_code ?codes = Some code" using first_code_some by blast
  then show ?thesis by (simp add: judge_tier)
qed

section \<open>The decision always exists\<close>

lemma reach_tests_one:
  assumes "test \<in> set (reach_tests tree roots seeds)"
  shows "\<exists>seed\<in>set seeds. test \<in> set (reach_tests tree roots [seed])"
  using assms by (fastforce simp: reach_tests_def static_reach_iff)

lemma unrecorded_via_some: "reached_static inp path \<Longrightarrow> unrecorded_via inp path \<noteq> None"
proof -
  assume r: "reached_static inp path"
  show ?thesis
  proof (cases "nonpy_paths inp = []")
    case True
    then obtain source where "source \<in> set (changed_py inp)" "path \<in> set (path_reach inp source)"
      using r reach_tests_one by (fastforce simp: reached_static_def path_reach_def)
    then have "find (\<lambda>source. path \<in> set (path_reach inp source)) (sorted_set (changed_py inp)) \<noteq> None"
      by (auto simp: find_None_iff)
    then show ?thesis by (auto simp: unrecorded_via_def)
  next
    case False
    then show ?thesis by (auto simp: unrecorded_via_def split: option.splits list.splits)
  qed
qed

lemma unrecorded_total: "\<exists>st'. fold (unrecorded_step inp wfs) paths (Some st) = Some st'"
proof (induction paths arbitrary: st)
  case (Cons path paths)
  have "\<exists>u. unrecorded_step inp wfs path (Some st) = Some u"
    using unrecorded_via_some[of inp path] by (auto simp: unrecorded_step_def)
  then show ?case using Cons by auto
qed simp

section \<open>Quiet trees\<close>

text \<open>Every compatible run sees only files with the content it recorded.\<close>

definition quiet_run :: "selection_inputs \<Rightarrow> run_baseline \<Rightarrow> bool" where
  "quiet_run inp run \<longleftrightarrow>
     run_stale_data inp run = []
     \<and> (\<forall>path\<in>set (run_stale_py inp run). same_content (se_tree inp) (run_basemap inp run) (se_versions inp) path)"

lemma quiet_analysis: "quiet_run inp run \<Longrightarrow> run_analysis inp run = new_analysis"
  by (simp add: quiet_run_def run_analysis_def analyze_same)

lemma quiet_observer: "quiet_run inp run \<Longrightarrow> \<not> observer_hit inp run new_analysis nodeid"
proof -
  assume q: "quiet_run inp run"
  have "map_of (pt_files (se_tree inp)) row \<noteq> None" if "row \<in> set (run_stale_py inp run)" for row
  proof
    assume "map_of (pt_files (se_tree inp)) row = None"
    then have "new_index (se_tree inp) row = None" by (simp add: new_index_def)
    moreover have "same_content (se_tree inp) (run_basemap inp run) (se_versions inp) row"
      using q that by (simp add: quiet_run_def)
    ultimately show False by (auto simp: same_content_def split: option.splits)
  qed
  moreover have "run_stale_data inp run = []" using q by (simp add: quiet_run_def)
  ultimately show ?thesis by (auto simp: observer_hit_def new_analysis_def)
qed

lemma quiet_judge:
  assumes "quiet_run inp run" and "jd_tier (judge inp run new_analysis nodeid tf nr) = Some (''T1'', code)"
  shows "nr_outcome nr \<notin> set PASSING_OUTCOMES \<and> code = ''a''"
proof -
  have empty: "an_wf new_analysis = []" "an_pw new_analysis = []" "an_cf new_analysis = []" "an_af new_analysis = []"
    "an_sk new_analysis = []" by (simp_all add: new_analysis_def)
  have "run_stale_data inp run = []" using assms(1) by (simp add: quiet_run_def)
  then have "judge_codes inp run new_analysis nodeid tf p ps = []" for p ps
    using quiet_observer[OF assms(1), of nodeid] empty
    by (simp add: judge_codes_def code_c_def code_d_def code_e_def code_f_def function_hit_def case_prod_unfold Let_def)
  then show ?thesis
    using assms(2) quiet_observer[OF assms(1), of nodeid]
    by (simp add: judge_tier first_code_def T1_CODES_def split: if_splits option.splits)
qed

definition quiet_inputs :: "selection_inputs \<Rightarrow> bool" where
  "quiet_inputs inp \<longleftrightarrow> (\<forall>run\<in>snd ` set (compat_runs inp). quiet_run inp run)"

lemma quiet_memo:
  assumes "quiet_inputs inp"
  shows "\<forall>x\<in>set (as_memo (make_analyses inp)). snd x = new_analysis"
    and "\<forall>x\<in>set (as_per_run (make_analyses inp)). snd x = new_analysis"
proof -
  have ok: "memo_ok inp (by_newest inp) (make_analyses inp)" by (rule make_analyses_ok)
  have q: "run_analysis inp run = new_analysis" if "run \<in> snd ` set (by_newest inp)" for run
    using assms that by (intro quiet_analysis) (auto simp: quiet_inputs_def by_newest_def)
  show memo: "\<forall>x\<in>set (as_memo (make_analyses inp)). snd x = new_analysis"
    using ok q unfolding memo_ok_def by metis
  show "\<forall>x\<in>set (as_per_run (make_analyses inp)). snd x = new_analysis"
    using ok memo unfolding memo_ok_def by (metis (no_types, lifting) image_iff)
qed

lemma quiet_soft: "soft_run inp nodes (rid, new_analysis) st = st"
  by (simp add: soft_run_def soft_missing_def new_analysis_def sorted_set_def)

lemma quiet_softs:
  assumes "\<forall>x\<in>set items. snd x = new_analysis"
  shows "fold (soft_run inp nodes) items st = st"
  using assms
proof (induction items arbitrary: st)
  case (Cons x items)
  then show ?case by (cases x) (simp add: quiet_soft)
qed simp

lemma quiet_final:
  assumes "quiet_inputs inp" and "final_state inp st" and "is_t1 st k"
  shows "map_of (ps_tiers st) k = map_of (ps_tiers (start_state (nodes_of inp))) k \<and> is_t1 (start_state (nodes_of inp)) k"
proof -
  let ?s = "start_state (nodes_of inp)"
  have wfs: "all_wf inp (make_analyses inp) = []"
    using quiet_memo(1)[OF assms(1)] by (auto simp: all_wf_def new_analysis_def filter_empty_conv)
  have f: "fold (unrecorded_step inp []) (files_without_record inp (nodes_of inp)) (Some ?s) = Some st"
    using assms(2) quiet_softs[OF quiet_memo(2)[OF assms(1)]] by (simp add: final_state_def tiers_of_def wfs)
  have step: "is_t1 u' k \<longrightarrow> map_of (ps_tiers u') k = map_of (ps_tiers ?s) k \<and> is_t1 ?s k"
    if "is_t1 u k \<longrightarrow> map_of (ps_tiers u) k = map_of (ps_tiers ?s) k \<and> is_t1 ?s k"
      "unrecorded_step inp [] path (Some u) = Some u'" for path u u'
    using that(2,1) by (cases rule: unrecorded_step_cases) (auto simp: is_t1_def update_conv')
  have "is_t1 st k \<longrightarrow> map_of (ps_tiers st) k = map_of (ps_tiers ?s) k \<and> is_t1 ?s k"
    by (rule unrecorded_inv[of _ "\<lambda>u. is_t1 u k \<longrightarrow> map_of (ps_tiers u) k = map_of (ps_tiers ?s) k \<and> is_t1 ?s k", OF _ _ f])
       (rule step, assumption+, simp)
  then show ?thesis using assms(3) by blast
qed

lemma tiers_lookup:
  assumes "dict_inputs inp" and "final_state inp st"
    and "d = assemble inp (make_analyses inp) (judge_nodes inp (make_analyses inp)) st"
  shows "map_of (sd_tiers d) = map_of (ps_tiers st)" and "map_of (sd_via d) = map_of (ps_via st)"
    and "map_option fst (map_of (sd_tiers d) k) = Some ''T1'' \<longleftrightarrow> is_t1 st k"
  using final_dict(1)[OF assms(1,2)]
  by (simp_all add: assms(3) assemble_def Let_def map_of_sort tier_dict_def is_t1_def)

lemma deselected_iff:
  assumes d: "d = assemble inp (make_analyses inp) (judge_nodes inp (make_analyses inp)) st"
    and n: "(nodeid, j) \<in> set (nodes_of inp)" and dist: "distinct (map fst (nodes_of inp))"
    and tf: "jd_file j \<in> set (pt_test_files (se_tree inp))"
  shows "jd_file j \<in> set (sd_files d) \<and> nodeid \<notin> set (sd_deselect d) \<longleftrightarrow> is_t1 st nodeid"
proof -
  let ?nodes = "nodes_of inp"
  define fresh where "fresh = filter (\<lambda>path. path \<in> set (all_wf inp (make_analyses inp))) (files_without_record inp ?nodes)"
  define whole where "whole = whole_files inp ?nodes (all_wf inp (make_analyses inp)) fresh st"
  have files: "sd_files d = run_now_files inp ?nodes fresh st"
    and des: "sd_deselect d = deselected ?nodes (sd_files d) whole st"
    by (simp_all add: d assemble_def Let_def nodes_of_def fresh_def whole_def)
  have here: "jd_file j \<in> jd_file ` snd ` set ?nodes" using n by force
  then have not_fresh: "jd_file j \<notin> set fresh" by (simp add: fresh_def files_without_record_def)
  have whole_t1: "is_t1 st nodeid" if "jd_file j \<in> set whole"
    using that not_fresh n by (fastforce simp: whole_def whole_files_def)
  have in_des: "nodeid \<in> set (sd_deselect d) \<longleftrightarrow> \<not> is_t1 st nodeid \<and> jd_file j \<in> set (sd_files d) \<and> jd_file j \<notin> set whole"
  proof
    assume "nodeid \<in> set (sd_deselect d)"
    then obtain j' where j': "(nodeid, j') \<in> set ?nodes" "\<not> is_t1 st nodeid" "jd_file j' \<in> set (sd_files d)" "jd_file j' \<notin> set whole"
      unfolding des deselected_def by auto
    then have "j' = j" using n dist by (meson eq_key_imp_eq_value)
    then show "\<not> is_t1 st nodeid \<and> jd_file j \<in> set (sd_files d) \<and> jd_file j \<notin> set whole" using j' by simp
  next
    assume "\<not> is_t1 st nodeid \<and> jd_file j \<in> set (sd_files d) \<and> jd_file j \<notin> set whole"
    then show "nodeid \<in> set (sd_deselect d)" using n unfolding des deselected_def by force
  qed
  have "jd_file j \<in> set (sd_files d)" if "is_t1 st nodeid"
    using that n tf unfolding files run_now_files_def by force
  then show ?thesis using in_des whole_t1 by blast
qed

text \<open>Every tier is T1 or T2.\<close>

definition two_tiers :: "plan_state \<Rightarrow> bool" where
  "two_tiers st \<longleftrightarrow> (\<forall>k t. map_option fst (map_of (ps_tiers st) k) = Some t \<longrightarrow> t = ''T1'' \<or> t = ''T2'')"

lemma two_tiers_set_t1: "two_tiers st \<Longrightarrow> two_tiers (set_t1 n c st)"
  by (auto simp: two_tiers_def set_t1_def update_conv')

lemma two_tiers_other: "two_tiers st \<Longrightarrow> two_tiers (count_unit u n st)" "two_tiers st \<Longrightarrow> two_tiers (st\<lparr>ps_modules := m\<rparr>)"
  by (simp_all add: two_tiers_def count_unit_def)

lemma two_tiers_unrecorded:
  "unrecorded_step inp wfs path (Some st) = Some st' \<Longrightarrow> two_tiers st \<Longrightarrow> two_tiers st'"
  by (erule unrecorded_step_cases) (auto simp: two_tiers_def update_conv')

lemma two_tiers_start:
  assumes "dict_inputs inp"
  shows "two_tiers (start_state (nodes_of inp))"
  unfolding two_tiers_def
proof (intro allI impI)
  fix k t assume t: "map_option fst (map_of (ps_tiers (start_state (nodes_of inp))) k) = Some t"
  then obtain j where j: "map_of (nodes_of inp) k = Some j" "map_option fst (jd_tier j) = Some t"
    by (cases "map_of (nodes_of inp) k")
       (simp_all add: start_state_def map_of_keyed[OF distinct_nodes_of[OF assms]])
  obtain tf nr run where "j = judge inp run (run_analysis inp run) k tf nr"
    using node_judged[OF assms map_of_SomeD[OF j(1)]] by metis
  then show "t = ''T1'' \<or> t = ''T2''"
    using j(2) by (auto simp: judge_tier split: if_splits option.splits)
qed

lemma only_two_tiers:
  assumes d: "dict_inputs inp" and st: "final_state inp st"
    "d = assemble inp (make_analyses inp) (judge_nodes inp (make_analyses inp)) st"
  shows "map_option fst (map_of (sd_tiers d) k) = Some t \<Longrightarrow> t = ''T1'' \<or> t = ''T2''"
proof -
  let ?soft = "fold (soft_run inp (nodes_of inp)) (as_per_run (make_analyses inp)) (start_state (nodes_of inp))"
  have f: "fold (unrecorded_step inp (all_wf inp (make_analyses inp))) (files_without_record inp (nodes_of inp)) (Some ?soft) = Some st"
    using st(1) by (simp add: final_state_def tiers_of_def)
  have soft: "two_tiers ?soft"
    by (rule soft_runs_inv[of two_tiers, OF two_tiers_set_t1 two_tiers_other two_tiers_start[OF d]])
  have "two_tiers st"
    by (rule unrecorded_inv[of _ two_tiers, OF _ soft f]) (rule two_tiers_unrecorded)
  then show "map_option fst (map_of (sd_tiers d) k) = Some t \<Longrightarrow> t = ''T1'' \<or> t = ''T2''"
    using tiers_lookup(1)[OF d st] by (simp add: two_tiers_def)
qed

text \<open>A test that executed a function in the analysis of its run is executed.\<close>

lemma hit_function_runs:
  assumes d: "dict_inputs inp" and dec: "decide inp = Some d"
    and recs: "(nodeid, recs) \<in> set (records_of (se_deps inp))"
    and c: "choose_record inp (as_overcap (make_analyses inp)) recs = Use_record tf nr"
    and run: "map_of (compat_runs inp) (nr_run_id nr) = Some run"
    and f: "f \<in> set (fst (lenient_paths inp nr))" and hit: "function_hit (run_analysis inp run) f"
    and name: "nodeid \<notin> set (pt_test_files (se_tree inp))"
  shows "map_option fst (map_of (sd_tiers d) nodeid) = Some ''T1'' \<and> tf \<in> set (sd_files d) \<and> nodeid \<notin> set (sd_deselect d)"
proof -
  obtain st where st: "final_state inp st"
    "d = assemble inp (make_analyses inp) (judge_nodes inp (make_analyses inp)) st"
    using dec by (auto simp: decide_parts)
  have n: "(nodeid, judge inp run (run_analysis inp run) nodeid tf nr) \<in> set (nodes_of inp)"
    by (rule judged_node[OF d recs c run])
  have "is_t1 st nodeid" by (rule final_t1[OF d st(1) n judge_hit[OF f hit] name])
  then show ?thesis
    using tiers_lookup(3)[OF d st] deselected_iff[OF st(2) n distinct_nodes_of[OF d]] choose_record_found(1)[OF c] by simp
qed

end
