(* ===== verification/Source_Sound.thy ===== *)
theory Source_Sound
  imports Source_Scan Dep_Sound
begin

text \<open>
  The index and the planner together: the two planners agree on an index made by
  \<^verbatim>\<open>index_source\<close>, and a test runs when a definition changed that a function it
  executed loads through an import.
\<close>

section \<open>References in a built index\<close>

lemma fold_update_map: "map_of (fold (\<lambda>(k, v). AList.update k v) rows m) k =
    (case map_of (rev rows) k of None \<Rightarrow> map_of m k | Some v \<Rightarrow> Some v)"
  by (induction rows arbitrary: m) (auto simp: update_conv' map_add_def split: option.splits)

lemma decode_all_each: "decode_all f xs = Some ys \<Longrightarrow> x \<in> set xs \<Longrightarrow> f x \<noteq> None"
  by (induction xs arbitrary: ys) (auto split: option.splits)

lemma ref_table_row:
  assumes t: "ref_table rs rel its = Some tbl" and d: "distinct (map fst its)" and i: "(qual, refs) \<in> set its"
  shows "map_of tbl qual = resolve_refs rs rel refs"
proof -
  obtain rows where rows: "decode_all (\<lambda>(qual, refs). map_option (Pair qual) (resolve_refs rs rel refs)) its = Some rows"
    and tbl: "tbl = fold (\<lambda>(qual, keys). AList.update qual keys) rows []"
    using t by (auto simp: ref_table_def)
  have rows': "decode_all (\<lambda>x. map_option (Pair (fst x)) (resolve_refs rs rel (snd x))) its = Some rows"
    using rows by (simp add: split_def)
  have keys: "map fst rows = map fst its" by (rule decode_all_rows(1)[OF rows'])
  have "map_of (rev rows) qual = map_of rows qual"
    using d keys by (subst map_of_inject_set[THEN iffD2]) (simp_all add: rev_map[symmetric])
  moreover have "map_of rows qual = resolve_refs rs rel refs"
    using decode_all_rows(2)[OF rows' d i] by simp
  ultimately show ?thesis using tbl fold_update_map[of rows "[]" qual] by (simp split: option.split)
qed

text \<open>The entry of a file in a built index.\<close>

lemma built_file:
  assumes built: "build_tree inp = Some tree" "pt_complete tree" and paths: "distinct (map fst (bi_files inp))"
    and e: "(path, fi) \<in> set (fst (index_files inp))"
  obtains fl where "map_of (pt_files tree) path = Some fl" "pf_index fl = fi" "pf_digest fl = file_digest inp path"
    "pf_test fl = is_test_file path (bi_test_roots inp)"
    "ref_table (sources_of inp) path (map (\<lambda>s. (sx_qualname s, sx_refs s)) (fi_scopes fi)) = Some (pf_scope_refs fl)"
proof -
  let ?e = "\<lparr>se_path = path, se_index = fi, se_modules = module_names (bi_has_init inp) path\<rparr>"
  have e': "?e \<in> set (sources_of inp)" using e by (force simp: sources_of_def make_resolver_def)
  have d: "map_of (pt_files tree) path = build_file inp (sources_of inp) path (file_digest inp path) ?e"
    using build_tree_parts(3)[OF built paths e'] by simp
  have "path \<in> set (map fst (pt_files tree))"
    unfolding build_tree_parts(1)[OF built] index_files_paths[symmetric] using e by force
  then obtain fl where fl: "map_of (pt_files tree) path = Some fl" by (metis map_of_eq_None_iff not_None_eq set_map)
  then have "build_file inp (sources_of inp) path (file_digest inp path) ?e = Some fl" using d by simp
  then have "pf_index fl = fi" "pf_digest fl = file_digest inp path" "pf_test fl = is_test_file path (bi_test_roots inp)"
    "ref_table (sources_of inp) path (map (\<lambda>s. (sx_qualname s, sx_refs s)) (fi_scopes fi)) = Some (pf_scope_refs fl)"
    by (auto simp: build_file_def Let_def split: option.splits)
  then show ?thesis using that[OF fl] by blast
qed

lemma built_scope_refs:
  assumes built: "build_tree inp = Some tree" "pt_complete tree" and paths: "distinct (map fst (bi_files inp))"
    and e: "(path, fi) \<in> set (fst (index_files inp))" and scope: "scope \<in> set (fi_scopes fi)"
    and names: "distinct (map sx_qualname (fi_scopes fi))"
    and ch: "(head # rest) \<in> set (sx_refs scope)" and key: "key \<in> set (resolve_head (sources_of inp) path head rest)"
  obtains fl where "(path, fl) \<in> set (pt_files tree)" "pf_index fl = fi"
    "key \<in> set (lookup_or [] (pf_scope_refs fl) (sx_qualname scope))"
proof -
  obtain fl where fl: "map_of (pt_files tree) path = Some fl" and idx: "pf_index fl = fi"
    and tbl: "ref_table (sources_of inp) path (map (\<lambda>s. (sx_qualname s, sx_refs s)) (fi_scopes fi)) = Some (pf_scope_refs fl)"
    by (rule built_file[OF built paths e]) blast
  have "map_of (pf_scope_refs fl) (sx_qualname scope) = resolve_refs (sources_of inp) path (sx_refs scope)"
    using names scope by (intro ref_table_row[OF tbl]) (auto simp: comp_def)
  moreover obtain keys where keys: "resolve_refs (sources_of inp) path (sx_refs scope) = Some keys"
  proof -
    have "(sx_qualname scope, sx_refs scope) \<in> set (map (\<lambda>s. (sx_qualname s, sx_refs s)) (fi_scopes fi))" using scope by force
    moreover obtain rows where "decode_all (\<lambda>(qual, refs). map_option (Pair qual) (resolve_refs (sources_of inp) path refs))
        (map (\<lambda>s. (sx_qualname s, sx_refs s)) (fi_scopes fi)) = Some rows"
      using tbl by (auto simp: ref_table_def)
    ultimately have "resolve_refs (sources_of inp) path (sx_refs scope) \<noteq> None"
      using decode_all_each by fastforce
    then show ?thesis using that by blast
  qed
  moreover have "key \<in> set keys" using resolve_refs_set[OF keys] ch key by force
  ultimately show ?thesis using that[OF map_of_SomeD[OF fl] idx] by (simp add: lookup_or_def)
qed

section \<open>A definition that changed\<close>

text \<open>The version of a file a run recorded and the current one define a name differently.\<close>

definition definition_changed ::
  "source_tree \<Rightarrow> (string \<times> string) list \<Rightarrow> (string \<times> file_index) list \<Rightarrow> string \<Rightarrow> string \<Rightarrow> bool" where
  "definition_changed tree basemap versions path name \<longleftrightarrow>
     (case (old_index basemap versions path, new_index tree path) of
        (Some old, Some new) \<Rightarrow> fi_parsed old \<and> fi_parsed new \<and> def_fingerprints old name \<noteq> def_fingerprints new name
      | _ \<Rightarrow> False)"

lemma changed_definition_hit:
  assumes built: "build_tree inp = Some tree" "pt_complete tree" "distinct (map fst (bi_files inp))"
    and e: "(path, fi) \<in> set (fst (index_files inp))" and scope: "scope \<in> set (fi_scopes fi)"
    and names: "distinct (map sx_qualname (fi_scopes fi))"
    and ch: "(head # rest) \<in> set (sx_refs scope)"
    and key: "name_key p name \<in> set (resolve_head (sources_of inp) path head rest)"
    and stale: "p \<in> set stale_py" and changed: "definition_changed tree basemap versions p name"
  shows "function_hit (analyze tree stale_py basemap versions) (path, sx_qualname scope)"
proof -
  obtain old new where i: "old_index basemap versions p = Some old" "new_index tree p = Some new"
    "fi_parsed old" "fi_parsed new" "def_fingerprints old name \<noteq> def_fingerprints new name"
    using changed by (auto simp: definition_changed_def split: option.splits)
  have known: "map_of basemap p \<noteq> None" using i(1) by (cases "map_of basemap p") (simp_all add: old_index_def)
  obtain fl where fl: "(path, fl) \<in> set (pt_files tree)" "pf_index fl = fi"
    "name_key p name \<in> set (lookup_or [] (pf_scope_refs fl) (sx_qualname scope))"
    by (rule built_scope_refs[OF built e scope names ch key])
  show ?thesis
    using analyze_affected[OF fl(1) _ fl(3) analyze_name[OF stale known i(1,3,2,4,5)]] scope fl(2) by simp
qed

text \<open>A function the walk finds has a scope, and each name its body or header loads heads a chain of it.\<close>

lemma module_scope:
  assumes "(qual, nodes) \<in> set (grouped_entries (concat (map scope_of (walk_body body))))" and "v \<in> set nodes"
    and "x \<in> set (list_items (field_of ''body'' v) @ skeleton_nodes v)" and "n \<in> set (loaded x)"
  obtains scope rest where "scope \<in> set (fi_scopes (module_index py body codes))" "sx_qualname scope = qual"
    "(n # rest) \<in> set (sx_refs scope)"
proof -
  let ?scope = "scope_row py codes (qual, nodes)"
  have scope: "?scope \<in> set (fi_scopes (module_index py body codes))" using assms(1) by (simp add: module_index_def)
  have refs: "set (chains_of (list_items (field_of ''body'' v))) \<union> set (chains_of (skeleton_nodes v)) \<subseteq> set (sx_refs ?scope)"
    using assms(2) by (auto simp: scope_row_def Let_def)
  have "n \<in> hd ` (set (chains_of (list_items (field_of ''body'' v))) \<union> set (chains_of (skeleton_nodes v)))"
    using assms(3,4) by (auto simp: image_Un chains_heads)
  then obtain ch where ch: "ch \<in> set (chains_of (list_items (field_of ''body'' v))) \<union> set (chains_of (skeleton_nodes v))" "hd ch = n"
    by blast
  have "[] \<notin> set (chains_of (list_items (field_of ''body'' v))) \<union> set (chains_of (skeleton_nodes v))" by simp
  then have "ch \<noteq> []" using ch(1) by metis
  then have "n # tl ch \<in> set (sx_refs ?scope)" using ch refs by (cases ch) auto
  then show ?thesis using that[OF scope] by (simp add: scope_row_def Let_def)
qed

lemma module_scope_names: "distinct (map sx_qualname (fi_scopes (module_index py body codes)))"
proof -
  have "map sx_qualname (map (scope_row py codes) es) = map fst es" for es
    by (simp add: scope_row_def split_def Let_def comp_def)
  then show ?thesis by (simp add: module_index_def entries_keys del: map_map)
qed

text \<open>A name imported from a module is the key of that name in the files of the module.\<close>

lemma resolve_imported:
  assumes "map_of (file_bindings rs path) n = Some (Imported_name imp)" and "ii_name imp = Some name" "name \<noteq> ''*''"
    and "absolute_module (ii_level imp) (ii_module imp) (package_name path) = Some m"
    and "module_paths rs (m @ ''.'' @ name) = []" and "p \<in> set (module_paths rs m)"
  shows "name_key p name \<in> set (resolve_head rs path n rest)"
  using assms by (auto simp: resolve_head_def from_rest_def keys_in_def)

lemma file_bindings_source:
  assumes "distinct (map fst (bi_files inp))" and "(path, fi) \<in> set (fst (index_files inp))"
  shows "file_bindings (sources_of inp) path = bindings_of fi"
proof -
  let ?e = "\<lparr>se_path = path, se_index = fi, se_modules = module_names (bi_has_init inp) path\<rparr>"
  have dist: "distinct (map se_path (sources_of inp))" using assms(1) unfolding sources_paths .
  have e: "?e \<in> set (sources_of inp)" using assms(2) by (force simp: sources_of_def make_resolver_def)
  have "find (\<lambda>x. se_path x = se_path ?e) rs = Some ?e" if "distinct (map se_path rs)" "?e \<in> set rs" for rs
    using that by (induction rs) (auto simp: image_iff)
  from this[OF dist e] show ?thesis by (simp add: file_bindings_def entry_of_def)
qed

section \<open>The planners on the sources\<close>

text \<open>What \<^verbatim>\<open>impact\<close> reads of a file: its import statements, unless it is too large or does not parse.\<close>

definition scan_of :: "python \<Rightarrow> build_inputs \<Rightarrow> string \<Rightarrow> import_stmt list option" where
  "scan_of py inp rel =
     (case map_of (bi_files inp) rel of
        Some (Some raw) \<Rightarrow>
          (if MAX_FILE_BYTES < length raw \<or> \<not> utf8_valid raw then None else map_option walk_imports (py_parse py raw))
      | _ \<Rightarrow> None)"

text \<open>Both planners look at the same files with the same parser, whose trees obey the grammar.\<close>

definition same_sources :: "python \<Rightarrow> build_inputs \<Rightarrow> sources \<Rightarrow> tree \<Rightarrow> bool" where
  "same_sources py inp sc tr \<longleftrightarrow>
     bi_parse inp = index_source py \<and> map fst (bi_files inp) = iter_py_files [] (sc_root sc)
     \<and> distinct (map fst (bi_files inp)) \<and> bi_has_init inp = sc_has_init sc \<and> \<not> bi_conftest inp
     \<and> (\<forall>rel\<in>set (map fst (bi_files inp)).
          sc_imports sc rel = scan_of py inp rel \<and> parse_untracked tr rel = (scan_of py inp rel \<noteq> None))
     \<and> (\<forall>raw body. py_parse py raw = Some body \<longrightarrow> module_grammar body)"

lemma unparsed_records: "records_imports None unparsed_index"
  by (simp add: records_imports_def unparsed_index_def)

lemma same_sources_project:
  assumes s: "same_sources py inp sc tr"
    and files: "fst (index_files inp) = map (\<lambda>(rel, raw). (rel, index_or_unparsed inp raw)) (bi_files inp)"
  shows "same_project inp sc tr"
proof -
  have "records_imports (sc_imports sc rel) fi \<and> fi_parsed fi = parse_untracked tr rel"
    if indexed: "(rel, fi) \<in> set (fst (index_files inp))" for rel fi
  proof -
    obtain raw where raw: "(rel, raw) \<in> set (bi_files inp)" "fi = index_or_unparsed inp raw" using indexed unfolding files by auto
    have look: "map_of (bi_files inp) rel = Some raw"
      using s raw(1) by (auto simp: same_sources_def intro: map_of_is_SomeI)
    have scan: "sc_imports sc rel = scan_of py inp rel" "parse_untracked tr rel = (scan_of py inp rel \<noteq> None)"
      using s raw(1) by (force simp: same_sources_def)+
    have parse: "bi_parse inp = index_source py" "\<And>raw body. py_parse py raw = Some body \<Longrightarrow> module_grammar body"
      using s by (auto simp: same_sources_def)
    show ?thesis
    proof (cases "scan_of py inp rel")
      case None
      then have "fi = unparsed_index"
        using raw(2) look parse(1)
        by (auto simp: scan_of_def index_or_unparsed_def index_source_def split: option.splits if_splits)
      then show ?thesis unfolding scan None by (simp add: unparsed_records, simp add: unparsed_index_def)
    next
      case (Some stmts)
      then obtain r body where r: "raw = Some r" "length r \<le> MAX_FILE_BYTES" "utf8_valid r" "py_parse py r = Some body"
        "stmts = walk_imports body"
        using look by (auto simp: scan_of_def split: option.splits if_splits)
      then have "fi = module_index py body (function_codes (py_marshal py) (py_compile py r))"
        using raw(2) parse(1) by (simp add: index_or_unparsed_def index_source_def)
      then show ?thesis
        unfolding scan Some using module_records_imports[OF parse(2)[OF r(4)]] r(5) by (simp add: module_index_def)
    qed
  qed
  then show ?thesis using s by (auto simp: same_project_def same_sources_def)
qed

end
