(* ===== verification/Dep_Audit.thy ===== *)
theory Dep_Audit
  imports Dep_Sound
begin

text \<open>
  The audit of a plan after a full gate (\<^verbatim>\<open>selection_planner.audit_classify\<close>): which
  failing tests the plan had deferred and which it missed, and the recorded versions a plan
  needs (\<^verbatim>\<open>needed_versions\<close>, \<^verbatim>\<open>needed_data_paths\<close>). The properties of the planner are
  stated here, over one example.
\<close>

section \<open>The recorded versions a plan needs\<close>

definition needed_versions :: "source_tree \<Rightarrow> dep_snapshot \<Rightarrow> string \<Rightarrow> string list" where
  "needed_versions tree deps compatibility =
     concat (map (\<lambda>(rid, run).
       if rb_compatibility run \<noteq> compatibility then []
       else (let basemap = baseline_map (rb_digests run) (ds_vocabulary deps)
             in List.map_filter (map_of basemap) (stale_py_paths tree basemap)))
       (ds_runs deps))"

definition needed_data_paths :: "dep_snapshot \<Rightarrow> string \<Rightarrow> string list" where
  "needed_data_paths deps compatibility =
     concat (map (\<lambda>(rid, run).
       if rb_compatibility run \<noteq> compatibility then []
       else filter (\<lambda>path. \<not> is_py path) (map fst (baseline_map (rb_digests run) (ds_vocabulary deps))))
       (ds_runs deps))"

lemma needed_versions_cover:
  assumes "run \<in> snd ` set (compat_runs inp)" and "path \<in> set (run_stale_py inp run)"
    and "map_of (run_basemap inp run) path = Some digest"
  shows "digest \<in> set (needed_versions (se_tree inp) (se_deps inp) (se_compatibility inp))"
proof -
  obtain rid where r: "(rid, run) \<in> set (ds_runs (se_deps inp))" "rb_compatibility run = se_compatibility inp"
    using assms(1) by (auto simp: compat_runs_def)
  have "digest \<in> set (List.map_filter (map_of (run_basemap inp run)) (run_stale_py inp run))"
    using assms(2,3) by (force simp: map_filter_def)
  then show ?thesis
    using r unfolding needed_versions_def run_basemap_def run_stale_py_def
    by (force simp: Let_def)
qed

section \<open>The audit\<close>

record gate_audit =
  ga_previously_deferred :: nat
  ga_failed :: nat
  ga_learned :: "(string \<times> string list) list"
  ga_unlearned :: "string list"
  ga_misses :: "string list"

definition chosen_record :: "decision \<Rightarrow> dep_snapshot \<Rightarrow> string \<Rightarrow> node_record option" where
  "chosen_record d deps nodeid =
     (let records = lookup_or [] (records_of deps) nodeid;
          wanted = Option.bind (map_of (sd_chosen d) nodeid) (\<lambda>rid. find (\<lambda>r. nr_run_id r = rid) records)
      in case wanted of
           Some r \<Rightarrow> Some r
         | None \<Rightarrow> (case records of r # _ \<Rightarrow> Some r | [] \<Rightarrow> map_of (ds_nodes deps) nodeid))"

definition t2_files :: "decision \<Rightarrow> string list" where
  "t2_files d = map fst (filter (\<lambda>(k, t, c). t = ''T2'' \<and> map_of (sd_chosen d) k = None) (sd_tiers d))"

definition under_t2_file :: "decision \<Rightarrow> string \<Rightarrow> bool" where
  "under_t2_file d nodeid \<longleftrightarrow> map_of (sd_chosen d) nodeid = None \<and> test_file_of nodeid \<in> set (t2_files d)"

definition was_deferred :: "decision \<Rightarrow> string \<Rightarrow> bool" where
  "was_deferred d nodeid \<longleftrightarrow>
     (map_option fst (map_of (sd_tiers d) nodeid) = Some ''T2'' \<and> map_of (sd_chosen d) nodeid \<noteq> None)
     \<or> under_t2_file d nodeid"

datatype audit_class = Learned "string list" | Unlearned | Miss | Not_counted

definition classify_failure :: "decision \<Rightarrow> dep_snapshot \<Rightarrow> string \<Rightarrow> audit_class" where
  "classify_failure d deps nodeid =
     (if under_t2_file d nodeid then Unlearned
      else (case chosen_record d deps nodeid of
              None \<Rightarrow> Not_counted
            | Some r \<Rightarrow>
                (if nr_outcome r \<notin> set PASSING_OUTCOMES then Not_counted
                 else (case map_of (sd_tiers d) nodeid of
                         None \<Rightarrow> (if is_selected d nodeid then Not_counted else Miss)
                       | Some (t, c) \<Rightarrow>
                           (if t = ''T2''
                            then (case map_of (sd_learnable d) nodeid of
                                    Some (p # ps) \<Rightarrow> Learned (p # ps)
                                  | _ \<Rightarrow> Unlearned)
                            else Not_counted)))))"

definition audit_classify :: "decision \<Rightarrow> dep_snapshot \<Rightarrow> string list \<Rightarrow> string list \<Rightarrow> gate_audit" where
  "audit_classify d deps failed executed =
     (let failures = sorted_set failed; deferred = filter (was_deferred d) (sorted_set executed) in
      \<lparr>ga_previously_deferred = length deferred,
       ga_failed = length (filter (\<lambda>n. n \<in> set failed) deferred),
       ga_learned = List.map_filter (\<lambda>n. case classify_failure d deps n of Learned ps \<Rightarrow> Some (n, ps) | _ \<Rightarrow> None) failures,
       ga_unlearned = filter (\<lambda>n. classify_failure d deps n = Unlearned) failures,
       ga_misses = filter (\<lambda>n. classify_failure d deps n = Miss) failures\<rparr>)"

definition audit_misses :: "decision \<Rightarrow> dep_snapshot \<Rightarrow> string list \<Rightarrow> string list" where
  "audit_misses d deps failed = ga_misses (audit_classify d deps failed [])"

lemma learned_iff: "nodeid \<in> fst ` set (ga_learned (audit_classify d deps failed executed)) \<longleftrightarrow>
    nodeid \<in> set failed \<and> (\<exists>ps. classify_failure d deps nodeid = Learned ps)"
  by (force simp: audit_classify_def Let_def map_filter_def split: audit_class.splits)

lemma find_run_id: "distinct (map nr_run_id recs) \<Longrightarrow> nr \<in> set recs \<Longrightarrow> find (\<lambda>r. nr_run_id r = nr_run_id nr) recs = Some nr"
  by (rule find_key)

text \<open>The record the audit looks at is the one the plan judged.\<close>

lemma chosen_record_judged:
  assumes d: "dict_inputs inp" and dec: "decide inp = Some d"
    and recs: "(nodeid, recs) \<in> set (records_of (se_deps inp))" and dist: "distinct (map nr_run_id recs)"
    and c: "choose_record inp (as_overcap (make_analyses inp)) recs = Use_record tf nr"
  shows "map_of (sd_chosen d) nodeid = Some (nr_run_id nr)" and "chosen_record d (se_deps inp) nodeid = Some nr"
proof -
  obtain run where run: "map_of (compat_runs inp) (nr_run_id nr) = Some run" using choose_record_found(3)[OF c] by auto
  let ?j = "judge inp run (run_analysis inp run) nodeid tf nr"
  have n: "(nodeid, ?j) \<in> set (nodes_of inp)" by (rule judged_node[OF d recs c run])
  obtain st where st: "d = assemble inp (make_analyses inp) (judge_nodes inp (make_analyses inp)) st"
    using dec by (auto simp: decide_parts)
  have "distinct (map fst (map (\<lambda>n. (fst n, jd_run (snd n))) (nodes_of inp)))"
    using distinct_nodes_of[OF d] by (simp add: comp_def)
  then have "map_of (sd_chosen d) = map_of (map (\<lambda>n. (fst n, jd_run (snd n))) (nodes_of inp))"
    unfolding st assemble_def Let_def by (simp add: map_of_sort nodes_of_def)
  moreover have "map_of (map (\<lambda>n. (fst n, jd_run (snd n))) (nodes_of inp)) nodeid = Some (jd_run ?j)"
    using n distinct_nodes_of[OF d] by (intro map_of_is_SomeI) (auto simp: comp_def image_iff intro!: bexI[of _ "(nodeid, ?j)"])
  ultimately show chosen: "map_of (sd_chosen d) nodeid = Some (nr_run_id nr)" by simp
  have "map_of (records_of (se_deps inp)) nodeid = Some recs" using recs d by (simp add: dict_inputs_def)
  then show "chosen_record d (se_deps inp) nodeid = Some nr"
    using chosen find_run_id[OF dist choose_record_found(4)[OF c]]
    by (simp add: chosen_record_def lookup_or_def Let_def)
qed

end
