(* ===== verification/Dep_Properties.thy ===== *)
theory Dep_Properties
  imports Dep_Audit
begin

text \<open>
  The properties of the test-level planner, each with an instance: a project of two source
  functions and two recorded tests, of which one function has changed since the run.
\<close>

section \<open>The example\<close>

definition example_scope :: "string \<Rightarrow> string \<Rightarrow> scope_index" where
  "example_scope qual body =
     \<lparr>sx_qualname = qual, sx_body = body, sx_skeleton = ''s'', sx_refs = [], sx_decorated = False, sx_local = True\<rparr>"

definition example_def :: "string \<Rightarrow> statement_index" where
  "example_def name = \<lparr>st_kind = ''def'', st_bound = [name], st_refs = [], st_fingerprint = ''s''\<rparr>"

definition example_index_of :: "(string \<times> string) list \<Rightarrow> file_index" where
  "example_index_of scopes =
     \<lparr>fi_parsed = True, fi_imports = [], fi_scopes = map (\<lambda>(q, b). example_scope q b) scopes, fi_classes = [],
      fi_statements = map (\<lambda>(q, b). example_def q) scopes\<rparr>"

definition example_file :: "string \<Rightarrow> string \<Rightarrow> (string \<times> string) list \<Rightarrow> bool \<Rightarrow> project_file" where
  "example_file path digest scopes test =
     \<lparr>pf_path = path, pf_digest = digest, pf_index = example_index_of scopes, pf_modules = [], pf_test = test,
      pf_support = False, pf_imports = [], pf_scope_refs = [], pf_class_refs = [],
      pf_statement_refs = map (\<lambda>_. []) scopes, pf_statement_bound = map (\<lambda>(q, b). [name_key path q]) scopes\<rparr>"

definition example_source_tree :: "string \<Rightarrow> string \<Rightarrow> source_tree" where
  "example_source_tree digest body =
     \<lparr>pt_files = [(''a.py'', example_file ''a.py'' digest [(''f'', body), (''g'', ''g0'')] False),
                  (''t.py'', example_file ''t.py'' ''dt'' [(''test_f'', ''tf''), (''test_g'', ''tg'')] True)],
      pt_test_files = [''t.py''], pt_reverse = [(''a.py'', [''t.py''])], pt_unparsed = [], pt_complete = True\<rparr>"

definition ran_functions :: "int list \<Rightarrow> context_deps" where
  "ran_functions ids = \<lparr>cd_functions = ids, cd_modules = [], cd_data = [], cd_opaque = False\<rparr>"

definition example_node :: "string \<Rightarrow> int \<Rightarrow> node_record" where
  "example_node nodeid fid =
     \<lparr>nr_nodeid = nodeid, nr_test_file = ''t.py'', nr_outcome = ''passed'', nr_run_id = ''r'',
      nr_deps = ran_functions [fid], nr_fixtures = []\<rparr>"

definition example_deps :: dep_snapshot where
  "example_deps =
     \<lparr>ds_vocabulary = \<lparr>vo_paths = [''a.py'', ''t.py''], vo_functions = [(0, ''f''), (0, ''g'')], vo_fixtures = []\<rparr>,
      ds_runs = [(''r'', \<lparr>rb_run_id = ''r'', rb_recorded_at = 1, rb_compatibility = ''c'',
                          rb_digests = [(0, ''d0''), (1, ''dt'')], rb_ambient = ran_functions [], rb_fingerprint = None\<rparr>)],
      ds_nodes = [(''t.py::test_f'', example_node ''t.py::test_f'' 0), (''t.py::test_g'', example_node ''t.py::test_g'' 1)],
      ds_fixtures = [], ds_demotions = [], ds_records = None, ds_observers = [], ds_gate = None, ds_inventory = []\<rparr>"

text \<open>The contents of \<^verbatim>\<open>a.py\<close>: its digest, the body of its first function and what Git calls changed.\<close>

definition example_inputs :: "string \<Rightarrow> string \<Rightarrow> string list \<Rightarrow> selection_inputs" where
  "example_inputs digest body changed =
     \<lparr>se_tree = example_source_tree digest body, se_deps = example_deps,
      se_versions = [(''d0'', example_index_of [(''f'', ''f0''), (''g'', ''g0'')]),
                     (''dt'', example_index_of [(''test_f'', ''tf''), (''test_g'', ''tg'')])],
      se_data_digests = [], se_compatibility = ''c'', se_changed = changed, se_test_roots = [''''], se_since_gate = [],
      se_observers = [], se_conditional = False, se_audit = False\<rparr>"

section \<open>The properties of the planner\<close>

text \<open>
  C23. A changed function runs its tests: when a recorded test, judged by its chosen record,
  executed a function whose body or skeleton is no longer the recorded one (or whose file
  was removed or cannot be parsed), the test is in tier T1 and is executed: its file is
  passed to the runner and it is not deselected.
\<close>

theorem changed_function_runs:
  assumes d: "dict_inputs inp" and dec: "decide inp = Some d"
    and recs: "(nodeid, recs) \<in> set (records_of (se_deps inp))"
    and c: "choose_record inp (as_overcap (make_analyses inp)) recs = Use_record tf nr"
    and run: "map_of (compat_runs inp) (nr_run_id nr) = Some run"
    and f: "(path, qual) \<in> set (fst (lenient_paths inp nr))"
    and changed: "function_changed (se_tree inp) (run_basemap inp run) (se_versions inp) path qual"
    and stale: "path \<in> set (run_stale_py inp run)"
    and name: "nodeid \<notin> set (pt_test_files (se_tree inp))"
  shows "map_option fst (map_of (sd_tiers d) nodeid) = Some ''T1'' \<and> tf \<in> set (sd_files d) \<and> nodeid \<notin> set (sd_deselect d)"
proof -
  have "function_hit (run_analysis inp run) (path, qual)"
    unfolding run_analysis_def by (rule analyze_hit[OF stale changed])
  then show ?thesis by (rule hit_function_runs[OF d dec recs c run f _ name])
qed

lemma changed_function_runs_witness:
  "\<exists>d. decide (example_inputs ''d1'' ''f1'' [''a.py'']) = Some d
     \<and> ''t.py'' \<in> set (sd_files d) \<and> ''t.py::test_f'' \<notin> set (sd_deselect d)"
proof -
  let ?inp = "example_inputs ''d1'' ''f1'' [''a.py'']" and ?nr = "example_node ''t.py::test_f'' 0"
  have d: "dict_inputs ?inp" by code_simp
  have "decide ?inp \<noteq> None" by code_simp
  then obtain dec where dec: "decide ?inp = Some dec" by blast
  have recs: "(''t.py::test_f'', [?nr]) \<in> set (records_of (se_deps ?inp))" by code_simp
  have c: "choose_record ?inp (as_overcap (make_analyses ?inp)) [?nr] = Use_record ''t.py'' ?nr" by code_simp
  obtain run where run: "map_of (compat_runs ?inp) (nr_run_id ?nr) = Some run"
    using choose_record_found(3)[OF c] by auto
  have the_run: "run = the (map_of (compat_runs ?inp) (nr_run_id ?nr))" using run by simp
  have f: "(''a.py'', ''f'') \<in> set (fst (lenient_paths ?inp ?nr))" by code_simp
  have changed: "function_changed (se_tree ?inp) (run_basemap ?inp run) (se_versions ?inp) ''a.py'' ''f''"
    unfolding the_run by code_simp
  have stale: "''a.py'' \<in> set (run_stale_py ?inp run)" unfolding the_run by code_simp
  have name: "''t.py::test_f'' \<notin> set (pt_test_files (se_tree ?inp))" by code_simp
  show ?thesis using changed_function_runs[OF d dec recs c run f changed stale name] dec by blast
qed

text \<open>
  C24. The deselection is exact: of the judged tests, the runner executes precisely those in
  tier T1, whatever whole files, conditional tests and deferred neighbours the decision holds.
\<close>

theorem deselection_exact:
  assumes d: "dict_inputs inp" and dec: "decide inp = Some d"
    and recs: "(nodeid, recs) \<in> set (records_of (se_deps inp))"
    and c: "choose_record inp (as_overcap (make_analyses inp)) recs = Use_record tf nr"
    and tf: "test_file_of nodeid = tf"
  shows "is_selected d nodeid \<longleftrightarrow> map_option fst (map_of (sd_tiers d) nodeid) = Some ''T1''"
proof -
  obtain st where st: "final_state inp st"
    "d = assemble inp (make_analyses inp) (judge_nodes inp (make_analyses inp)) st"
    using dec by (auto simp: decide_parts)
  obtain run where run: "map_of (compat_runs inp) (nr_run_id nr) = Some run" using choose_record_found(3)[OF c] by auto
  show ?thesis
    using deselected_iff[OF st(2) judged_node[OF d recs c run] distinct_nodes_of[OF d]]
      choose_record_found(1)[OF c] tiers_lookup(3)[OF d st] tf by (simp add: is_selected_def)
qed

lemma deselection_exact_witness:
  "\<exists>d. decide (example_inputs ''d1'' ''f1'' [''a.py'']) = Some d \<and> \<not> is_selected d ''t.py::test_g''"
proof -
  let ?inp = "example_inputs ''d1'' ''f1'' [''a.py'']" and ?nr = "example_node ''t.py::test_g'' 1"
  have d: "dict_inputs ?inp" by code_simp
  have "decide ?inp \<noteq> None" by code_simp
  then obtain dec where dec: "decide ?inp = Some dec" by blast
  have recs: "(''t.py::test_g'', [?nr]) \<in> set (records_of (se_deps ?inp))" by code_simp
  have c: "choose_record ?inp (as_overcap (make_analyses ?inp)) [?nr] = Use_record ''t.py'' ?nr" by code_simp
  have tf: "test_file_of ''t.py::test_g'' = ''t.py''" by code_simp
  have "map_option (\<lambda>d. map_option fst (map_of (sd_tiers d) ''t.py::test_g'')) (decide ?inp) = Some None" by code_simp
  then have "map_option fst (map_of (sd_tiers dec) ''t.py::test_g'') \<noteq> Some ''T1''" using dec by simp
  then show ?thesis using deselection_exact[OF d dec recs c tf] dec by blast
qed

text \<open>
  C29. A change that leaves every parsed file as recorded (comments, formatting) runs
  nothing new: the only tests in tier T1 are those whose chosen record did not pass.
\<close>

theorem quiet_tree_runs_nothing:
  assumes d: "dict_inputs inp" and dec: "decide inp = Some d"
    and quiet: "\<And>rid run. (rid, run) \<in> set (compat_runs inp) \<Longrightarrow>
      run_stale_data inp run = []
      \<and> (\<forall>path\<in>set (run_stale_py inp run). same_content (se_tree inp) (run_basemap inp run) (se_versions inp) path)"
    and t1: "map_of (sd_tiers d) nodeid = Some (''T1'', code)"
  shows "code = ''a'' \<and> (\<exists>recs tf nr. (nodeid, recs) \<in> set (records_of (se_deps inp))
    \<and> choose_record inp (as_overcap (make_analyses inp)) recs = Use_record tf nr
    \<and> nr_outcome nr \<notin> set PASSING_OUTCOMES)"
proof -
  obtain st where st: "final_state inp st"
    "d = assemble inp (make_analyses inp) (judge_nodes inp (make_analyses inp)) st"
    using dec by (auto simp: decide_parts)
  have q: "quiet_inputs inp" using quiet by (fastforce simp: quiet_inputs_def quiet_run_def)
  have "is_t1 st nodeid" using t1 tiers_lookup(3)[OF d st, of nodeid] by simp
  then have "map_of (ps_tiers (start_state (nodes_of inp))) nodeid = Some (''T1'', code)"
    using quiet_final[OF q st(1)] t1 tiers_lookup(1)[OF d st] by simp
  then obtain j where j: "map_of (nodes_of inp) nodeid = Some j" "jd_tier j = Some (''T1'', code)"
    by (cases "map_of (nodes_of inp) nodeid")
       (simp_all add: start_state_def map_of_keyed[OF distinct_nodes_of[OF d]])
  obtain recs tf nr run where n: "(nodeid, recs) \<in> set (records_of (se_deps inp))"
    "choose_record inp (as_overcap (make_analyses inp)) recs = Use_record tf nr"
    "map_of (compat_runs inp) (nr_run_id nr) = Some run" "j = judge inp run (run_analysis inp run) nodeid tf nr"
    using node_judged[OF d map_of_SomeD[OF j(1)]] by metis
  have qr: "quiet_run inp run" using q map_of_SomeD[OF n(3)] by (force simp: quiet_inputs_def)
  then show ?thesis
    using quiet_judge[OF qr, of nodeid tf nr code] j(2) n quiet_analysis[OF qr] by auto
qed

text \<open>The example with a test that failed when it was recorded and a file that only its digest tells apart.\<close>

definition failing_node :: node_record where
  "failing_node = (example_node ''t.py::test_f'' 0)\<lparr>nr_outcome := ''failed''\<rparr>"

definition failing_inputs :: selection_inputs where
  "failing_inputs =
     (example_inputs ''d1'' ''f0'' [''a.py''])\<lparr>se_deps := example_deps\<lparr>ds_nodes := [(''t.py::test_f'', failing_node)]\<rparr>\<rparr>"

lemma quiet_tree_runs_nothing_witness:
  "\<exists>d. decide failing_inputs = Some d \<and> map_of (sd_tiers d) ''t.py::test_f'' = Some (''T1'', ''a'')
     \<and> ''a.py'' \<in> set (run_stale_py failing_inputs (the (map_of (compat_runs failing_inputs) ''r'')))"
proof -
  have d: "dict_inputs failing_inputs" by code_simp
  have "map_option (\<lambda>d. map_option fst (map_of (sd_tiers d) ''t.py::test_f'')) (decide failing_inputs) = Some (Some ''T1'')"
    by code_simp
  then obtain dec code where dec: "decide failing_inputs = Some dec"
    and t1: "map_of (sd_tiers dec) ''t.py::test_f'' = Some (''T1'', code)" by auto
  have "list_all (\<lambda>(rid, run). run_stale_data failing_inputs run = []
      \<and> list_all (same_content (se_tree failing_inputs) (run_basemap failing_inputs run) (se_versions failing_inputs))
          (run_stale_py failing_inputs run)) (compat_runs failing_inputs)" by code_simp
  then have quiet: "run_stale_data failing_inputs run = [] \<and> (\<forall>path\<in>set (run_stale_py failing_inputs run).
      same_content (se_tree failing_inputs) (run_basemap failing_inputs run) (se_versions failing_inputs) path)"
    if "(rid, run) \<in> set (compat_runs failing_inputs)" for rid run
    using that by (fastforce simp: list_all_iff)
  have "''a.py'' \<in> set (run_stale_py failing_inputs (the (map_of (compat_runs failing_inputs) ''r'')))" by code_simp
  moreover have "code = ''a''"
    using quiet_tree_runs_nothing[OF d dec _ t1] quiet by blast
  ultimately show ?thesis using t1 dec by blast
qed

text \<open>
  C31. Planning always succeeds, and every deferral is attributed: the decision exists for
  all inputs (the only index into the changed paths is never out of range), and every key
  in tier T2 has the one path it is deferred via.
\<close>

theorem deferral_attributed:
  assumes "dict_inputs inp"
  shows "\<exists>d. decide inp = Some d
    \<and> (\<forall>k code. map_of (sd_tiers d) k = Some (''T2'', code) \<longrightarrow> map_of (sd_via d) k \<noteq> None)"
proof -
  obtain st where st: "final_state inp st"
    unfolding final_state_def tiers_of_def using unrecorded_total by blast
  let ?d = "assemble inp (make_analyses inp) (judge_nodes inp (make_analyses inp)) st"
  have "decide inp = Some ?d" using st decide_parts by blast
  moreover have "map_of (sd_via ?d) k \<noteq> None" if "map_of (sd_tiers ?d) k = Some (''T2'', code)" for k code
    using final_dict(2)[OF assms st] that tiers_lookup(1,2)[OF assms st refl] by (simp add: attributed_def)
  ultimately show ?thesis by blast
qed

lemma deferral_attributed_witness:
  "\<exists>d. decide (example_inputs ''d1'' ''f1'' [''a.py'', ''notes.md'']) = Some d
     \<and> (\<forall>k code. map_of (sd_tiers d) k = Some (''T2'', code) \<longrightarrow> map_of (sd_via d) k \<noteq> None)"
  by (rule deferral_attributed) code_simp

text \<open>
  C32. Sharing analyses by signature is sound: the analysis a run is judged with, made once
  for the first run of its signature, is the analysis of its own baseline, and at most 128
  are made.
\<close>

theorem shared_analysis_exact:
  assumes "dict_inputs inp" and "map_of (compat_runs inp) rid = Some run"
    and "rid \<notin> set (as_overcap (make_analyses inp))"
  shows "map_of (as_per_run (make_analyses inp)) rid
      = Some (analyze (se_tree inp) (run_stale_py inp run) (run_basemap inp run) (se_versions inp))
    \<and> length (as_memo (make_analyses inp)) \<le> 128"
  using run_analysis_shared[OF assms] make_analyses_ok[of inp]
  by (simp add: run_analysis_def memo_ok_def MAX_SIGNATURES_def)

lemma shared_analysis_exact_witness:
  "\<exists>run. map_of (as_per_run (make_analyses failing_inputs)) ''r''
     = Some (analyze (se_tree failing_inputs) (run_stale_py failing_inputs run) (run_basemap failing_inputs run)
               (se_versions failing_inputs))"
proof -
  have d: "dict_inputs failing_inputs" by code_simp
  have "map_of (compat_runs failing_inputs) ''r'' \<noteq> None" by code_simp
  then obtain run where run: "map_of (compat_runs failing_inputs) ''r'' = Some run" by blast
  have cap: "''r'' \<notin> set (as_overcap (make_analyses failing_inputs))" by code_simp
  show ?thesis using shared_analysis_exact[OF d run cap] by blast
qed

text \<open>
  C37. The propagation is a fixpoint: it only adds, every statement, class and function that
  refers to a changed name has had its consequences recorded (its own names, the ambient or
  caller-local mark of its path, the affected function), and every test file with such a
  mark or a changed name is selected whole.
\<close>

theorem propagation_closed:
  "grows an (propagate tree olds an)
   \<and> set (pt_files tree) \<subseteq> {item. file_closed item (propagate tree olds an)}
   \<and> {path \<in> set (pt_test_files tree). path \<in> set (an_am (propagate tree olds an)) \<union> set (an_soft (propagate tree olds an))
        \<union> key_path ` set (an_names (propagate tree olds an))} \<subseteq> set (an_wf (propagate tree olds an))"
proof -
  let ?p = "prop_loop tree olds an"
  have wf_in: "path \<in> set (an_wf (fold close_test_file ps a))"
    if "path \<in> set ps" "path \<in> set (an_am a) \<union> set (an_soft a) \<union> key_path ` set (an_names a)" for path ps a
    using that
  proof (induction ps arbitrary: a)
    case (Cons p ps)
    have grow: "grows b (fold close_test_file ps b)" for b by (rule grows_fold) (simp add: close_test_file_def)
    show ?case
    proof (cases "path = p")
      case True
      then have "path \<in> set (an_wf (close_test_file p a))"
        using Cons.prems(2) by (auto simp: close_test_file_def mark_wf_def)
      then show ?thesis using grow[of "close_test_file p a"] by (auto simp: grows_def)
    next
      case False
      then show ?thesis using Cons close_files_fields[of "[p]" a] by simp
    qed
  qed simp
  show ?thesis
    using propagate_grows[of an tree olds] propagate_file_closed[of _ tree olds an] wf_in[of _ "pt_test_files tree" ?p]
    by (auto simp: propagate_def close_files_fields)
qed

text \<open>
  C39. No silent miss: a test that fails in the full gate, whose chosen record passed and
  which the plan did not execute, is reported by the audit: learned from, unlearned, or a
  miss.
\<close>

theorem no_silent_miss:
  assumes d: "dict_inputs inp" and dec: "decide inp = Some d"
    and recs: "(nodeid, recs) \<in> set (records_of (se_deps inp))" and runs: "distinct (map nr_run_id recs)"
    and c: "choose_record inp (as_overcap (make_analyses inp)) recs = Use_record tf nr"
    and passed: "nr_outcome nr \<in> set PASSING_OUTCOMES" and tf: "test_file_of nodeid = tf"
    and failed: "nodeid \<in> set failed" and skipped: "\<not> is_selected d nodeid"
  shows "nodeid \<in> fst ` set (ga_learned (audit_classify d (se_deps inp) failed executed))
    \<union> set (ga_unlearned (audit_classify d (se_deps inp) failed executed))
    \<union> set (ga_misses (audit_classify d (se_deps inp) failed executed))"
proof -
  note chosen = chosen_record_judged[OF d dec recs runs c]
  obtain st where st: "final_state inp st"
    "d = assemble inp (make_analyses inp) (judge_nodes inp (make_analyses inp)) st"
    using dec by (auto simp: decide_parts)
  obtain run where run: "map_of (compat_runs inp) (nr_run_id nr) = Some run" using choose_record_found(3)[OF c] by auto
  have "\<not> is_t1 st nodeid"
    using deselected_iff[OF st(2) judged_node[OF d recs c run] distinct_nodes_of[OF d]]
      choose_record_found(1)[OF c] tf skipped by (simp add: is_selected_def)
  then have not_t1: "map_option fst (map_of (sd_tiers d) nodeid) \<noteq> Some ''T1''" using tiers_lookup(3)[OF d st] by simp
  have "classify_failure d (se_deps inp) nodeid \<noteq> Not_counted"
    using not_t1 skipped chosen passed only_two_tiers[OF d st, of nodeid]
    by (auto simp: classify_failure_def under_t2_file_def split: option.splits list.splits)
  then show ?thesis
    using failed learned_iff[of nodeid d "se_deps inp" failed executed]
    by (cases "classify_failure d (se_deps inp) nodeid") (auto simp: audit_classify_def Let_def)
qed

lemma no_silent_miss_witness:
  "\<exists>d. decide (example_inputs ''d1'' ''f1'' [''a.py'']) = Some d
     \<and> ''t.py::test_g'' \<in> fst ` set (ga_learned (audit_classify d example_deps [''t.py::test_g''] []))
         \<union> set (ga_unlearned (audit_classify d example_deps [''t.py::test_g''] []))
         \<union> set (ga_misses (audit_classify d example_deps [''t.py::test_g''] []))"
proof -
  let ?inp = "example_inputs ''d1'' ''f1'' [''a.py'']" and ?nr = "example_node ''t.py::test_g'' 1"
  have d: "dict_inputs ?inp" by code_simp
  have "decide ?inp \<noteq> None" by code_simp
  then obtain dec where dec: "decide ?inp = Some dec" by blast
  have recs: "(''t.py::test_g'', [?nr]) \<in> set (records_of (se_deps ?inp))" by code_simp
  have runs: "distinct (map nr_run_id [?nr])" by simp
  have c: "choose_record ?inp (as_overcap (make_analyses ?inp)) [?nr] = Use_record ''t.py'' ?nr" by code_simp
  have passed: "nr_outcome ?nr \<in> set PASSING_OUTCOMES" by code_simp
  have tf: "test_file_of ''t.py::test_g'' = ''t.py''" by code_simp
  have failed: "''t.py::test_g'' \<in> set [''t.py::test_g'']" by simp
  have "map_option (\<lambda>d. is_selected d ''t.py::test_g'') (decide ?inp) = Some False" by code_simp
  then have skipped: "\<not> is_selected dec ''t.py::test_g''" using dec by simp
  have deps: "se_deps ?inp = example_deps" by (simp add: example_inputs_def)
  show ?thesis
    using no_silent_miss[OF d dec recs runs c passed tf failed skipped, of "[]"] dec unfolding deps by blast
qed

end
