(* ===== verification/Source_Properties.thy ===== *)
theory Source_Properties
  imports Source_Sound Dep_Properties
begin

text \<open>
  The properties of the source index, each with an instance: a project of three files, in which
  \<^verbatim>\<open>app.py\<close> is \<^verbatim>\<open>from lib import LIMIT as cap\<close> with a function \<^verbatim>\<open>f\<close> that
  returns \<^verbatim>\<open>cap\<close>, \<^verbatim>\<open>lib.py\<close> assigns \<^verbatim>\<open>LIMIT\<close>, and a test imports \<^verbatim>\<open>f\<close>.
\<close>

section \<open>The example\<close>

definition function_node :: "string \<Rightarrow> ast list \<Rightarrow> ast" where
  "function_node name body =
     Node ''FunctionDef''
       [(''name'', Str name), (''args'', Node ''arguments'' []), (''body'', Items body), (''decorator_list'', Items []),
        (''returns'', Absent), (''type_params'', Items [])]"

definition import_node :: "string \<Rightarrow> string \<Rightarrow> ast \<Rightarrow> ast" where
  "import_node m name alias =
     Node ''ImportFrom''
       [(''module'', Str m), (''names'', Items [Node ''alias'' [(''name'', Str name), (''asname'', alias)]]), (''level'', Num 0)]"

definition limit_body :: "int \<Rightarrow> ast list" where
  "limit_body i =
     [Node ''Assign''
        [(''targets'', Items [Name ''LIMIT'' Store]), (''value'', Node ''Constant'' [(''value'', Num i)])]]"

definition app_body :: "ast list" where
  "app_body =
     [import_node ''lib'' ''LIMIT'' (Str ''cap''), function_node ''f'' [Node ''Return'' [(''value'', Name ''cap'' Load)]]]"

definition test_body :: "ast list" where
  "test_body =
     [import_node ''app'' ''f'' Absent,
      function_node ''test_f'' [Node ''Expr'' [(''value'', Node ''Call'' [(''func'', Name ''f'' Load), (''args'', Items [])])]]]"

definition source_python :: python where
  "source_python =
     \<lparr>py_parse = map_of [(''A'', app_body), (''L'', limit_body 2), (''T'', test_body)], py_compile = (\<lambda>_. None),
      py_marshal = (\<lambda>_. []), py_sha = (\<lambda>s. s), py_repr = (\<lambda>s. s), py_bases = []\<rparr>"

definition payload_of :: "string \<Rightarrow> json" where
  "payload_of raw = JObj (index_payload (index_source source_python raw))"

definition source_dumps :: "json \<Rightarrow> string" where
  "source_dumps j = (if j = payload_of ''A'' then ''1'' else if j = payload_of ''L'' then ''2'' else ''3'')"

definition source_loads :: "string \<Rightarrow> json option" where
  "source_loads s = Some (payload_of (if s = ''1'' then ''A'' else if s = ''2'' then ''L'' else ''T''))"

text \<open>The index of one file is in the cache.\<close>

definition source_inputs :: build_inputs where
  "source_inputs =
     \<lparr>bi_files = [(''app.py'', Some ''A''), (''lib.py'', Some ''L''), (''tests/test_f.py'', Some ''T'')],
      bi_test_roots = [''tests''], bi_has_init = (\<lambda>_. False), bi_digest = Some (\<lambda>s. s),
      bi_get_many = Some (\<lambda>_. Some [(''L'', encode_index ''c'' source_dumps (index_source source_python ''L''))]),
      bi_tag = ''c'', bi_loads = source_loads, bi_dumps = source_dumps, bi_parse = index_source source_python,
      bi_pool = True, bi_conftest = False\<rparr>"

lemma source_inputs_parse: "bi_parse source_inputs = index_source source_python"
  by (simp add: source_inputs_def)

lemma source_json: "json_inverse source_inputs"
  by (simp add: json_inverse_def source_inputs_def index_or_unparsed_def source_loads_def source_dumps_def payload_of_def)

lemma source_digest: "bi_digest source_inputs = Some digest \<Longrightarrow> inj digest"
  by (auto simp: source_inputs_def)

lemma source_store:
  assumes "bi_digest source_inputs = Some digest" and "bi_get_many source_inputs = Some get_many"
    and "get_many (wanted_digests source_inputs) = Some found"
  shows "truthful source_inputs digest found"
proof -
  have stored: "decode_blob source_inputs (encode_blob source_inputs (index_source source_python ''L''))
      = Some (index_source source_python ''L'')"
    using decode_encode_blob[OF json_inverse_codec[OF source_inputs_parse source_json], of "Some ''L''"]
    by (simp add: source_inputs_def index_or_unparsed_def)
  have "digest = (\<lambda>s. s)" "found = [(''L'', encode_blob source_inputs (index_source source_python ''L''))]"
    using assms by (auto simp: source_inputs_def encode_blob_def)
  then show ?thesis using stored by (auto simp: truthful_def source_inputs_parse)
qed

lemmas source_example = source_inputs_parse source_json source_digest source_store

section \<open>The properties of the index\<close>

text \<open>
  C20. The cache changes nothing and the index is always built: with an injective digest, a
  JSON library that reads what it writes, and a store that holds only what was stored, every
  file gets the index of its own content, whatever is cached, what is stored for the next
  time is truthful again, and building the project index does not fail.
\<close>

theorem cache_transparent:
  assumes "bi_parse inp = index_source py" and "json_inverse inp"
    and "\<And>digest. bi_digest inp = Some digest \<Longrightarrow> inj digest"
    and "\<And>digest get_many found. bi_digest inp = Some digest \<Longrightarrow> bi_get_many inp = Some get_many \<Longrightarrow>
       get_many (wanted_digests inp) = Some found \<Longrightarrow> truthful inp digest found"
  shows "fst (index_files inp)
      = map (\<lambda>(rel, raw). (rel, case raw of None \<Rightarrow> unparsed_index | Some r \<Rightarrow> index_source py r)) (bi_files inp)
    \<and> (\<forall>digest. bi_digest inp = Some digest \<longrightarrow> truthful inp digest (snd (index_files inp)))
    \<and> build_tree inp \<noteq> None"
proof -
  have plain: "fst (index_files inp) = map (\<lambda>(rel, raw). (rel, index_or_unparsed inp raw)) (bi_files inp)"
    by (rule index_files_transparent(1)[OF json_inverse_codec[OF assms(1,2)] assms(3,4)])
  have stored: "truthful inp digest (snd (index_files inp))" if "bi_digest inp = Some digest" for digest
    by (rule index_files_transparent(2)[OF json_inverse_codec[OF assms(1,2)] assms(3,4) that])
  have "index_or_unparsed inp = (\<lambda>raw. case raw of None \<Rightarrow> unparsed_index | Some r \<Rightarrow> index_source py r)"
    by (rule ext) (simp add: index_or_unparsed_def assms(1) split: option.split)
  then show ?thesis using plain stored index_source_builds[OF assms] by simp
qed

lemma cache_transparent_witness:
  "map_of (fst (index_files source_inputs)) ''lib.py'' = Some (index_source source_python ''L'')
   \<and> bi_get_many source_inputs \<noteq> None"
  using cache_transparent[OF source_example] by (simp add: source_inputs_def)

text \<open>
  C38. The index misses no import: over trees that obey the grammar (statements stand in
  statement lists, handlers and match cases), the walk over the statement lists records the
  same imports, by level, module and name, as a walk over every node of the tree.
\<close>

theorem walk_finds_imports:
  assumes "\<forall>v\<in>set body. placed v"
  shows "import_key ` set (fi_imports (module_index py body codes)) = set (concat (map import_keys (walk_imports body)))"
  using module_imports_keys[OF assms] by (simp add: module_index_def)

lemma walk_finds_imports_witness:
  "import_key ` set (fi_imports (module_index source_python [Node ''If'' [(''test'', Name ''x'' Load),
       (''body'', Items app_body), (''orelse'', Items [])]] None)) = {(0, ''lib'', Some ''LIMIT'')}"
proof -
  let ?body = "[Node ''If'' [(''test'', Name ''x'' Load), (''body'', Items app_body), (''orelse'', Items [])]]"
  have "\<forall>v\<in>set ?body. placed v"
    by (simp add: app_body_def function_node_def import_node_def allowed_in_def STMT_CLASSES_def)
  from walk_finds_imports[OF this, of source_python None] show ?thesis
    by (simp add: walk_imports_def import_of_def def_name_def field_of.simps app_body_def function_node_def import_node_def nonempty_name_def)
qed

text \<open>
  C22. No name escapes: the chains recorded for a function start with exactly the names that
  its body, decorators, arguments, return annotation and type parameters load, at any
  depth, and none of them is empty.
\<close>

theorem loaded_names_recorded:
  assumes "scope \<in> set (fi_scopes (module_index py body codes))"
  shows "hd ` set (sx_refs scope)
      = (\<Union>v\<in>{v. (sx_qualname scope, v) \<in> set (concat (map scope_of (walk_body body)))}.
           \<Union>x\<in>set (list_items (field_of ''body'' v) @ skeleton_nodes v). set (loaded x))
    \<and> [] \<notin> set (sx_refs scope)"
proof -
  obtain q nodes where e: "(q, nodes) \<in> set (grouped_entries (concat (map scope_of (walk_body body))))"
    "scope = scope_row py codes (q, nodes)"
    using assms by (auto simp: module_index_def)
  have nodes: "set nodes = {v. (q, v) \<in> set (concat (map scope_of (walk_body body)))}"
    using e(1) by (force simp: grouped_entries_def)
  have refs: "set (sx_refs scope)
      = (\<Union>v\<in>set nodes. set (chains_of (list_items (field_of ''body'' v))) \<union> set (chains_of (skeleton_nodes v)))"
    by (auto simp: e(2) scope_row_def Let_def)
  have "hd ` set (sx_refs scope)
      = (\<Union>v\<in>set nodes. \<Union>x\<in>set (list_items (field_of ''body'' v) @ skeleton_nodes v). set (loaded x))"
    unfolding refs image_UN image_Un chains_heads by simp
  moreover have "sx_qualname scope = q" by (simp add: e(2) scope_row_def Let_def)
  ultimately show ?thesis unfolding nodes using refs by simp
qed

lemma app_walk: "concat (map scope_of (walk_body app_body)) = [(''f'', app_body ! 1)]"
  by (simp add: walk_body_def walk_stmt.simps app_body_def import_node_def function_node_def is_import_def is_function_def
      is_class_def FUNCTION_CLASSES_def child_lists_def field_of.simps is_stmt_def STMT_CLASSES_def def_name_def dotted_def)

lemma app_entries: "grouped_entries (concat (map scope_of (walk_body app_body))) = [(''f'', [app_body ! 1])]"
  by (simp add: app_walk grouped_entries_def sorted_set_def)

lemma loaded_names_recorded_witness:
  "\<exists>scope\<in>set (fi_scopes (module_index source_python app_body None)). hd ` set (sx_refs scope) = {''cap''}"
proof -
  let ?scope = "scope_row source_python None (''f'', [app_body ! 1])"
  have s: "?scope \<in> set (fi_scopes (module_index source_python app_body None))"
    by (simp add: module_index_def app_entries del: concat.simps)
  have "{v. (sx_qualname ?scope, v) \<in> set (concat (map scope_of (walk_body app_body)))} = {app_body ! 1}"
    by (auto simp: app_walk scope_row_def)
  then have "hd ` set (sx_refs ?scope) = {''cap''}"
    using loaded_names_recorded[OF s]
    by (simp add: app_body_def function_node_def field_of.simps skeleton_nodes_def present_node_def)
  then show ?thesis using s by blast
qed

section \<open>The properties of the planners on an index\<close>























end
