(* ===== verification/Ingest_Format.thy ===== *)
theory Ingest_Format
  imports Source_Module Dep_Plan
begin

text \<open>
  The dependency files a run leaves (\<^verbatim>\<open>selection_ingest.py\<close> and the path predicates of
  \<^verbatim>\<open>contracts.py\<close>): which paths and names are accepted, and the validation of one file.

  A file is the value \<^verbatim>\<open>json.loads\<close> makes of it. Ids of a file index its own tables.
  A text with a lone surrogate, which has no encoding, is one that is not valid UTF-8.
\<close>

section \<open>Paths and names\<close>

definition PATH_MAX_BYTES :: nat where "PATH_MAX_BYTES = 4096"

definition drive_letter :: "string \<Rightarrow> bool" where
  "drive_letter path =
     (case path of a # b # _ \<Rightarrow> (between 65 90 a \<or> between 97 122 a) \<and> b = CHR '':'' | _ \<Rightarrow> False)"

definition relpath_ok :: "string \<Rightarrow> bool" where
  "relpath_ok path \<longleftrightarrow>
     path \<noteq> [] \<and> CHR 0x00 \<notin> set path \<and> CHR 0x5C \<notin> set path
     \<and> \<not> starts_with ''/'' path \<and> \<not> drive_letter path
     \<and> utf8_valid path \<and> length path \<le> PATH_MAX_BYTES
     \<and> (\<forall>part\<in>set (split_on (CHR ''/'') path). part \<notin> {[], ''.'', ''..''})"

definition code_path :: "string \<Rightarrow> bool" where
  "code_path path \<longleftrightarrow>
     relpath_ok path \<and> ends_with ''.py'' path
     \<and> (let parts = split_on (CHR ''/'') path
        in \<not> list_ex skipped_dir (butlast parts) \<and> \<not> starts_with ''.'' (last parts))"

definition OUTPUT_DIRS :: "string list" where
  "OUTPUT_DIRS =
     [''build'', ''dist'', ''node_modules'', ''.venv'', ''venv'', ''__pycache__'', ''.pytest_cache'', ''.mypy_cache'',
      ''.ruff_cache'', ''.tox'', ''htmlcov'', ''.hypothesis'']"

definition data_path :: "string \<Rightarrow> bool" where
  "data_path path \<longleftrightarrow>
     relpath_ok path \<and> \<not> list_ex (\<lambda>suffix. ends_with suffix (lower path)) [''.py'', ''.pyc'', ''.pyo'']
     \<and> \<not> list_ex (\<lambda>part. skipped_dir part \<or> part \<in> set OUTPUT_DIRS) (split_on (CHR ''/'') path)"

definition NODEID_MAX_BYTES :: nat where "NODEID_MAX_BYTES = 4096"

definition nodeid_safe :: "string \<Rightarrow> bool" where
  "nodeid_safe nodeid \<longleftrightarrow>
     text_contains ''::'' nodeid \<and> CHR 0x00 \<notin> set nodeid \<and> utf8_valid nodeid
     \<and> length nodeid \<le> NODEID_MAX_BYTES \<and> relpath_ok (test_file_of nodeid)"

text \<open>The number of characters of a text, and its first characters.\<close>

definition continuation :: "char \<Rightarrow> bool" where
  "continuation c \<longleftrightarrow> between 128 191 c"

definition text_length :: "string \<Rightarrow> nat" where
  "text_length s = length (filter (\<lambda>c. \<not> continuation c) s)"

fun text_take :: "nat \<Rightarrow> string \<Rightarrow> string" where
  "text_take n [] = []"
| "text_take n (c # s) =
     (if continuation c then c # text_take n s
      else (case n of 0 \<Rightarrow> [] | Suc m \<Rightarrow> c # text_take m s))"

definition normalize_qualname :: "string \<Rightarrow> string option" where
  "normalize_qualname qualname =
     (if qualname = [] \<or> CHR 0x00 \<in> set qualname \<or> text_length qualname > 1024 then None
      else (let kept = takeWhile (\<lambda>part. part \<noteq> [] \<and> \<not> starts_with ''<'' part) (split_on (CHR ''.'') qualname)
            in if dotted kept = [] then None else Some (dotted kept)))"

text \<open>Ids are kept sorted and unique.\<close>

definition selection_ids :: "int list \<Rightarrow> int list" where
  "selection_ids values = sorted_set values"

definition DEPS_INFIX :: string where "DEPS_INFIX = ''.deps-''"

definition deps_pid :: "string \<Rightarrow> string \<Rightarrow> int option" where
  "deps_pid report name =
     (let prefix = report @ DEPS_INFIX; digits = drop (length prefix) name in
      if \<not> starts_with prefix name then None
      else if digits = [] \<or> 10 < length digits \<or> \<not> list_all (\<lambda>c. digit_of c \<noteq> None) digits \<or> hd digits = CHR ''0'' then None
      else digits_value 0 digits)"

section \<open>The tables of one file\<close>

text \<open>A function, module or data file of one file's tables.\<close>

datatype state_ref = Fn int | Mod int | Dat int

record file_node =
  fn_nodeid :: string
  fn_outcome :: string
  fn_fixtures :: "int list"
  fn_deps :: context_deps

record deps_file =
  df_lazy :: "(state_ref \<times> state_ref) list"
  df_worker :: "string option"
  df_recording :: bool
  df_workers :: "string list"
  df_overflow :: bool
  df_tamper :: bool
  df_paths :: "string list"
  df_functions :: "(int \<times> string) list"
  df_ambient :: context_deps
  df_fixtures :: "((string \<times> string \<times> string) \<times> context_deps) list"
  df_nodes :: "file_node list"
  df_python :: "(int \<times> int) option"
  df_inactive :: "string option"

section \<open>Validation\<close>

text \<open>
  A check refuses its input or raises: asking a set for a list or a dictionary is a
  \<^verbatim>\<open>TypeError\<close>, which only \<^verbatim>\<open>read_run\<close> catches.
\<close>

datatype 'a checked = Raised | Refused | Accepted 'a

fun check_all :: "('a \<Rightarrow> 'b checked) \<Rightarrow> 'a list \<Rightarrow> 'b list checked" where
  "check_all f [] = Accepted []"
| "check_all f (x # xs) =
     (case f x of
        Accepted y \<Rightarrow> (case check_all f xs of Accepted ys \<Rightarrow> Accepted (y # ys) | Refused \<Rightarrow> Refused | Raised \<Rightarrow> Raised)
      | Refused \<Rightarrow> Refused
      | Raised \<Rightarrow> Raised)"

fun set_member :: "string list \<Rightarrow> json \<Rightarrow> string checked" where
  "set_member names (JStr s) = (if s \<in> set names then Accepted s else Refused)"
| "set_member names (JArr _) = Raised"
| "set_member names (JObj _) = Raised"
| "set_member names _ = Refused"

definition OUTCOMES :: "string list" where
  "OUTCOMES = [''passed'', ''failed'', ''error'', ''skipped'', ''xfailed'', ''xpassed'', ''unknown'']"

definition FIXTURE_SCOPES :: "string list" where
  "FIXTURE_SCOPES = [''class'', ''module'', ''package'', ''session'']"

definition in_range :: "nat \<Rightarrow> int \<Rightarrow> bool" where
  "in_range n i \<longleftrightarrow> 0 \<le> i \<and> i < int n"

definition json_id :: "nat \<Rightarrow> json \<Rightarrow> int option" where
  "json_id n v = (case json_int v of Some i \<Rightarrow> if in_range n i then Some i else None | None \<Rightarrow> None)"

definition json_ids :: "nat \<Rightarrow> json option \<Rightarrow> int list option" where
  "json_ids n v = Option.bind (Option.bind v json_list) (decode_all (json_id n))"

definition parse_ctx :: "json \<Rightarrow> nat \<Rightarrow> nat \<Rightarrow> context_deps option" where
  "parse_ctx data n_funcs n_paths =
     (case data of
        JObj tbl \<Rightarrow>
          (case (json_ids n_funcs (map_of tbl ''functions''), json_ids n_paths (map_of tbl ''modules''),
                 json_ids n_paths (map_of tbl ''data''), Option.bind (map_of tbl ''opaque'') json_bool) of
             (Some funcs, Some mods, Some datas, Some opaque) \<Rightarrow>
               Some \<lparr>cd_functions = funcs, cd_modules = mods, cd_data = datas, cd_opaque = opaque\<rparr>
           | _ \<Rightarrow> None)
      | _ \<Rightarrow> None)"

definition parse_ref :: "nat \<Rightarrow> nat \<Rightarrow> json \<Rightarrow> state_ref option" where
  "parse_ref n_funcs n_paths v =
     (case json_list v of
        Some [JStr kind, JInt i] \<Rightarrow>
          (if kind = ''f'' \<and> in_range n_funcs i then Some (Fn i)
           else if kind = ''m'' \<and> in_range n_paths i then Some (Mod i)
           else if kind = ''d'' \<and> in_range n_paths i then Some (Dat i)
           else None)
      | _ \<Rightarrow> None)"

definition parse_edge :: "nat \<Rightarrow> nat \<Rightarrow> json \<Rightarrow> (state_ref \<times> state_ref) option" where
  "parse_edge n_funcs n_paths v =
     (case Option.bind (json_list v) (decode_all (parse_ref n_funcs n_paths)) of
        Some [owner, state] \<Rightarrow> (case owner of Dat _ \<Rightarrow> None | _ \<Rightarrow> Some (owner, state))
      | _ \<Rightarrow> None)"

definition parse_lazy :: "json option \<Rightarrow> nat \<Rightarrow> nat \<Rightarrow> (state_ref \<times> state_ref) list" where
  "parse_lazy data n_funcs n_paths =
     (case Option.bind (Option.bind data json_list) (decode_all (parse_edge n_funcs n_paths)) of
        Some edges \<Rightarrow> edges | None \<Rightarrow> [])"

definition parse_function :: "nat \<Rightarrow> json \<Rightarrow> (int \<times> string) option" where
  "parse_function n_paths v =
     (case json_list v of
        Some [p, JStr raw, JInt line] \<Rightarrow> map_option (\<lambda>i. (i, raw)) (json_id n_paths p)
      | _ \<Rightarrow> None)"

definition parse_fixture :: "nat \<Rightarrow> nat \<Rightarrow> json \<Rightarrow> ((string \<times> string \<times> string) \<times> context_deps) checked" where
  "parse_fixture n_funcs n_paths v =
     (case v of
        JObj tbl \<Rightarrow>
          (case Option.bind (map_of tbl ''key'') json_list of
             Some [JStr baseid, JStr argname, scope] \<Rightarrow>
               (case set_member FIXTURE_SCOPES scope of
                  Accepted s \<Rightarrow>
                    (case parse_ctx v n_funcs n_paths of Some ctx \<Rightarrow> Accepted ((baseid, argname, s), ctx) | None \<Rightarrow> Refused)
                | Refused \<Rightarrow> Refused
                | Raised \<Rightarrow> Raised)
           | _ \<Rightarrow> Refused)
      | _ \<Rightarrow> Refused)"

definition parse_node :: "nat \<Rightarrow> nat \<Rightarrow> nat \<Rightarrow> json \<Rightarrow> file_node checked" where
  "parse_node n_funcs n_paths n_fixtures v =
     (case v of
        JObj tbl \<Rightarrow>
          (case (map_of tbl ''nodeid'', map_of tbl ''outcome'', map_of tbl ''fixtures'') of
             (Some (JStr nodeid), Some outcome, Some refs) \<Rightarrow>
               (if nodeid = [] then Refused
                else (case set_member OUTCOMES outcome of
                        Accepted out \<Rightarrow>
                          (case (json_ids n_fixtures (Some refs), parse_ctx v n_funcs n_paths) of
                             (Some fids, Some ctx) \<Rightarrow>
                               Accepted \<lparr>fn_nodeid = nodeid, fn_outcome = out, fn_fixtures = fids, fn_deps = ctx\<rparr>
                           | _ \<Rightarrow> Refused)
                      | Refused \<Rightarrow> Refused
                      | Raised \<Rightarrow> Raised))
           | _ \<Rightarrow> Refused)
      | _ \<Rightarrow> Refused)"

definition parse_python :: "json \<Rightarrow> (int \<times> int) option" where
  "parse_python v =
     (case v of JArr [JInt major, JInt minor] \<Rightarrow> if 0 \<le> major \<and> 0 \<le> minor then Some (major, minor) else None | _ \<Rightarrow> None)"

definition parse_inactive :: "json \<Rightarrow> string option" where
  "parse_inactive v = map_option (text_take 200) (json_text v)"

definition DEPS_FORMAT :: string where "DEPS_FORMAT = ''ptest-selection-deps-v1''"

definition DEPS_KEYS :: "string list" where
  "DEPS_KEYS =
     [''format'', ''run_id'', ''role'', ''worker_id'', ''pid'', ''python'', ''recording'', ''inactive_reason'', ''workers'',
      ''overflow'', ''tamper'', ''paths'', ''functions'', ''ambient'', ''fixtures'', ''nodes'']"

text \<open>Who wrote the file: the controller (no worker id) or a worker.\<close>

definition parse_role :: "(string \<times> json) list \<Rightarrow> string option option" where
  "parse_role tbl =
     (case (map_of tbl ''role'', map_of tbl ''worker_id'') of
        (Some (JStr role), Some worker) \<Rightarrow>
          (if role = ''controller'' then (if worker = JNull then Some None else None)
           else if role = ''worker''
           then (case worker of JStr w \<Rightarrow> if w = [] then None else Some (Some w) | _ \<Rightarrow> None)
           else None)
      | _ \<Rightarrow> None)"

definition parse_file :: "json \<Rightarrow> int \<Rightarrow> string \<Rightarrow> deps_file checked" where
  "parse_file payload pid run_id =
     (case payload of
        JObj tbl \<Rightarrow>
          (if \<not> set DEPS_KEYS \<subseteq> fst ` set tbl then Refused
           else if map_of tbl ''format'' \<noteq> Some (JStr DEPS_FORMAT) \<or> map_of tbl ''run_id'' \<noteq> Some (JStr run_id) then Refused
           else if map_of tbl ''pid'' \<noteq> Some (JInt pid) then Refused
           else (case (parse_role tbl, Option.bind (map_of tbl ''recording'') json_bool,
                       Option.bind (map_of tbl ''overflow'') json_bool, Option.bind (map_of tbl ''tamper'') json_bool,
                       Option.bind (map_of tbl ''workers'') json_texts, Option.bind (map_of tbl ''paths'') json_texts) of
                   (Some worker, Some recording, Some overflow, Some tamper, Some workers, Some paths) \<Rightarrow>
                     (case Option.bind (Option.bind (map_of tbl ''functions'') json_list)
                             (decode_all (parse_function (length paths))) of
                        None \<Rightarrow> Refused
                      | Some functions \<Rightarrow>
                          (case (parse_ctx (the (map_of tbl ''ambient'')) (length functions) (length paths),
                                 Option.bind (map_of tbl ''fixtures'') json_list) of
                             (Some ambient, Some fixtures) \<Rightarrow>
                               (case check_all (parse_fixture (length functions) (length paths)) fixtures of
                                  Accepted fxs \<Rightarrow>
                                    (case Option.bind (map_of tbl ''nodes'') json_list of
                                       None \<Rightarrow> Refused
                                     | Some nodes \<Rightarrow>
                                         (case check_all (parse_node (length functions) (length paths) (length fixtures)) nodes of
                                            Accepted ns \<Rightarrow>
                                              Accepted
                                                \<lparr>df_lazy = parse_lazy (map_of tbl ''lazy'') (length functions) (length paths),
                                                 df_worker = worker, df_recording = recording, df_workers = workers,
                                                 df_overflow = overflow, df_tamper = tamper, df_paths = paths,
                                                 df_functions = functions, df_ambient = ambient, df_fixtures = fxs, df_nodes = ns,
                                                 df_python = parse_python (the (map_of tbl ''python'')),
                                                 df_inactive = parse_inactive (the (map_of tbl ''inactive_reason''))\<rparr>
                                          | Refused \<Rightarrow> Refused
                                          | Raised \<Rightarrow> Raised))
                                | Refused \<Rightarrow> Refused
                                | Raised \<Rightarrow> Raised)
                           | _ \<Rightarrow> Refused))
                 | _ \<Rightarrow> Refused))
      | _ \<Rightarrow> Refused)"

end
