(* ===== verification/Rec_Audit.thy ===== *)
theory Rec_Audit
  imports Ingest_Format
begin

text \<open>
  What the recorder of \<^verbatim>\<open>runtime/selection_recorder.py\<close> reads off one event of the
  interpreter: the project identity of a code object, the data path of an opened file, and
  whether a started process may run project code.

  The file system, the search path and the running interpreter are the record
  \<open>checkout_view\<close> (\<open>None\<close>: the call raises). The duplicated path and name predicates of
  the recorder are those of \<open>Ingest_Format\<close>, with which its tests pin them.
\<close>

section \<open>Code objects\<close>

record checkout_view =
  ck_abs :: "string \<Rightarrow> string option"
  ck_real :: "string \<Rightarrow> string option"
  ck_rel :: "string \<Rightarrow> string option"
  ck_rel_prefix :: "string \<Rightarrow> string option"
  ck_isdir :: "string \<Rightarrow> bool"
  ck_isfile :: "string \<Rightarrow> bool"
  ck_exists :: "string \<Rightarrow> bool"
  ck_which :: "string \<Rightarrow> string option"
  ck_identifier :: "string \<Rightarrow> bool"
  ck_self :: string
  ck_cwd :: string
  ck_path :: "string list"
  ck_directory_bit :: int
  ck_forkserver :: "string option"

record code_object =
  co_filename :: "string option"
  co_qualname :: "string option"
  co_line :: int
  co_is_module :: bool

text \<open>A project code object: its path, its scope (\<open>None\<close>: a module body) and its first line.\<close>

type_synonym code_entry = "string \<times> string option \<times> int"

definition resolve_code :: "checkout_view \<Rightarrow> code_object \<Rightarrow> code_entry option" where
  "resolve_code ck c =
     (case co_filename c of
        None \<Rightarrow> None
      | Some f \<Rightarrow>
          (if f = [] \<or> CHR 0x00 \<in> set f \<or> starts_with ''<'' f then None
           else (case (ck_abs ck f, Option.bind (ck_abs ck f) (ck_real ck)) of
                   (Some absolute, Some target) \<Rightarrow>
                     (if target \<noteq> absolute then None
                      else (case ck_rel ck target of
                              None \<Rightarrow> None
                            | Some rel \<Rightarrow>
                                (if \<not> code_path rel then None
                                 else Some (rel, Option.bind (co_qualname c) normalize_qualname, co_line c))))
                 | _ \<Rightarrow> None)))"

section \<open>Arguments of audit events\<close>

text \<open>\<open>Path_like None\<close> is an object whose \<^verbatim>\<open>__fspath__\<close> raises.\<close>

datatype event_arg = Text string | Bytes string | Path_like "string option" | Not_text

text \<open>\<^verbatim>\<open>os.fspath\<close> and a strict decoding; \<open>None\<close> where either raises.\<close>

fun arg_text :: "event_arg \<Rightarrow> string option" where
  "arg_text (Text s) = Some s"
| "arg_text (Bytes b) = (if utf8_valid b then Some b else None)"
| "arg_text (Path_like p) = p"
| "arg_text Not_text = None"

fun plain_text :: "event_arg \<Rightarrow> string option" where
  "plain_text (Text s) = Some s"
| "plain_text (Bytes b) = (if utf8_valid b then Some b else None)"
| "plain_text _ = None"

section \<open>Opened files\<close>

definition inside_root :: "(string \<Rightarrow> string option) \<Rightarrow> string \<Rightarrow> bool" where
  "inside_root rel path =
     (case rel path of
        None \<Rightarrow> False
      | Some r \<Rightarrow> r \<noteq> ''..'' \<and> \<not> starts_with ''../'' r \<and> \<not> starts_with ''/'' r)"

definition pure_write :: "string option \<Rightarrow> int option \<Rightarrow> bool" where
  "pure_write mode flags \<longleftrightarrow>
     (case mode of Some m \<Rightarrow> (CHR ''w'' \<in> set m \<or> CHR ''x'' \<in> set m) \<and> CHR ''+'' \<notin> set m | None \<Rightarrow> False)
     \<or> (case flags of Some f \<Rightarrow> f mod 4 = 1 | None \<Rightarrow> False)"

definition opens_directory :: "checkout_view \<Rightarrow> int option \<Rightarrow> bool" where
  "opens_directory ck flags = (case flags of Some f \<Rightarrow> f div ck_directory_bit ck mod 2 = 1 | None \<Rightarrow> False)"

text \<open>A name relative to a directory descriptor; bytes are decoded as the file system does.\<close>

definition dir_fd_relative :: "checkout_view \<Rightarrow> event_arg \<Rightarrow> string option \<Rightarrow> bool" where
  "dir_fd_relative ck path mode \<longleftrightarrow>
     mode = None
     \<and> (case path of
          Text s \<Rightarrow> s \<noteq> [] \<and> \<not> starts_with ''/'' s \<and> \<not> ck_exists ck s
        | Bytes s \<Rightarrow> s \<noteq> [] \<and> \<not> starts_with ''/'' s \<and> \<not> ck_exists ck s
        | _ \<Rightarrow> False)"

definition MAX_PATH_MEMO :: nat where "MAX_PATH_MEMO = 32768"

text \<open>The data path of an opened path, remembered by its absolute form.\<close>

definition data_rel :: "checkout_view \<Rightarrow> string \<Rightarrow> string \<Rightarrow> string option" where
  "data_rel ck absolute target =
     (if target = absolute \<or> inside_root (ck_rel ck) target
      then (case ck_rel ck target of
              None \<Rightarrow> None
            | Some rel \<Rightarrow> if data_path rel \<and> \<not> ck_isdir ck target then Some rel else None)
      else None)"

definition resolve_data ::
  "checkout_view \<Rightarrow> event_arg \<Rightarrow> (string \<times> string option) list \<Rightarrow> string option \<times> (string \<times> string option) list" where
  "resolve_data ck arg memo =
     (case arg_text arg of
        None \<Rightarrow> (None, memo)
      | Some path \<Rightarrow>
          (if path = [] \<or> CHR 0x00 \<in> set path \<or> starts_with ''<'' path then (None, memo)
           else (case ck_abs ck path of
                   None \<Rightarrow> (None, memo)
                 | Some absolute \<Rightarrow>
                     (case map_of memo absolute of
                        Some known \<Rightarrow> (known, memo)
                      | None \<Rightarrow>
                          (case ck_real ck absolute of
                             None \<Rightarrow> (None, memo)
                           | Some target \<Rightarrow>
                               (let rel = data_rel ck absolute target;
                                    kept = (if MAX_PATH_MEMO \<le> length memo then [] else memo)
                                in (rel, AList.update absolute rel kept)))))))"

section \<open>Started processes\<close>

definition digits_or_dots :: "string \<Rightarrow> bool" where
  "digits_or_dots s = list_all (\<lambda>c. c = CHR ''.'' \<or> digit_of c \<noteq> None) s"

text \<open>\<^verbatim>\<open>(?:python|pypy)[0-9.]*(?:\.exe)?\<close>, matched against the whole name.\<close>

definition interpreter_name :: "string \<Rightarrow> bool" where
  "interpreter_name name \<longleftrightarrow>
     list_ex (\<lambda>p. starts_with p name
       \<and> (let rest = drop (length p) name in
          digits_or_dots rest \<or> (ends_with ''.exe'' rest \<and> digits_or_dots (take (length rest - 4) rest))))
       [''python'', ''pypy'']"

definition LAUNCHERS :: "string list" where
  "LAUNCHERS =
     [''uv'', ''uvx'', ''pytest'', ''py.test'', ''ptest'', ''sh'', ''bash'', ''dash'', ''zsh'', ''fish'', ''env'', ''nohup'',
      ''timeout'', ''xargs'']"

definition launcher_opaque :: "string \<Rightarrow> bool" where
  "launcher_opaque name \<longleftrightarrow> name = [] \<or> interpreter_name name \<or> name \<in> set LAUNCHERS"

text \<open>The programs a start names: the executable and the first argument, as far as they are text.\<close>

fun add_candidate :: "event_arg \<Rightarrow> string list option \<Rightarrow> string list option" where
  "add_candidate Not_text found = found"
| "add_candidate arg found =
     (case found of
        None \<Rightarrow> None
      | Some names \<Rightarrow>
          (case arg_text arg of
             None \<Rightarrow> None
           | Some t \<Rightarrow> Some (if t \<noteq> [] \<and> CHR 0x00 \<notin> set t \<and> t \<notin> set names then names @ [t] else names)))"

definition candidate_opaque :: "checkout_view \<Rightarrow> string \<Rightarrow> bool" where
  "candidate_opaque ck candidate =
     (case (if CHR ''/'' \<in> set candidate then Some candidate else ck_which ck candidate) of
        None \<Rightarrow> True
      | Some resolved \<Rightarrow>
          (case (if resolved = [] then None else ck_real ck resolved) of
             None \<Rightarrow> True
           | Some target \<Rightarrow>
               target = ck_self ck \<or> inside_root (ck_rel ck) target \<or> inside_root (ck_rel_prefix ck) target
               \<or> launcher_opaque (basename target)))"

definition first_arg :: "event_arg list option \<Rightarrow> event_arg" where
  "first_arg argv = (case argv of Some (a # _) \<Rightarrow> a | _ \<Rightarrow> Not_text)"

definition spawn_opaque :: "checkout_view \<Rightarrow> event_arg option \<Rightarrow> event_arg list option \<Rightarrow> bool" where
  "spawn_opaque ck executable argv =
     (case add_candidate (first_arg argv) (add_candidate (case executable of None \<Rightarrow> Not_text | Some e \<Rightarrow> e) (Some [])) of
        None \<Rightarrow> True
      | Some names \<Rightarrow> names = [] \<or> list_ex (candidate_opaque ck) names)"

definition XDIST_BOOTSTRAP :: string where
  "XDIST_BOOTSTRAP = ''import sys;exec(eval(sys.stdin.readline()))''"

definition xdist_gateway :: "checkout_view \<Rightarrow> event_arg option \<Rightarrow> event_arg list option \<Rightarrow> bool" where
  "xdist_gateway ck executable argv =
     (case argv of
        None \<Rightarrow> False
      | Some args \<Rightarrow>
          4 \<le> length args
          \<and> map plain_text (drop (length args - 3) args) = [Some ''-u'', Some ''-c'', Some XDIST_BOOTSTRAP]
          \<and> (case plain_text (case executable of None \<Rightarrow> hd args | Some e \<Rightarrow> e) of
               None \<Rightarrow> False
             | Some program \<Rightarrow> program \<noteq> [] \<and> ck_real ck program = Some (ck_self ck)))"

section \<open>The project file a started interpreter runs\<close>

definition entry_rel :: "checkout_view \<Rightarrow> string \<Rightarrow> string option" where
  "entry_rel ck path =
     (case ck_real ck path of
        None \<Rightarrow> None
      | Some target \<Rightarrow>
          (if \<not> ck_isfile ck target \<or> \<not> inside_root (ck_rel ck) target then None
           else (case ck_rel ck target of Some rel \<Rightarrow> if code_path rel then Some rel else None | None \<Rightarrow> None)))"

definition path_join :: "string \<Rightarrow> string \<Rightarrow> string" where
  "path_join folder path =
     (if starts_with ''/'' path then path else if folder = [] \<or> ends_with ''/'' folder then folder @ path else folder @ ''/'' @ path)"

fun first_file :: "checkout_view \<Rightarrow> string list \<Rightarrow> string option" where
  "first_file ck [] = None"
| "first_file ck (p # ps) = (if ck_isfile ck p then Some p else first_file ck ps)"

definition module_entry :: "checkout_view \<Rightarrow> string \<Rightarrow> string \<Rightarrow> string option" where
  "module_entry ck name cwd =
     (let parts = split_on (CHR ''.'') name in
      if name = [] \<or> \<not> list_all (ck_identifier ck) parts then None
      else (let candidates = concat (map (\<lambda>folder. let base = fold (\<lambda>part path. path_join path part) parts (if folder = [] then cwd else folder)
                                                in [path_join base ''__main__.py'', base @ ''.py'']) (cwd # ck_path ck))
            in Option.bind (first_file ck candidates) (entry_rel ck)))"

fun entry_of_args :: "checkout_view \<Rightarrow> string \<Rightarrow> string list \<Rightarrow> string option" where
  "entry_of_args ck cwd [] = None"
| "entry_of_args ck cwd (arg # args) =
     (if starts_with ''-c'' arg then None
      else if starts_with ''-m'' arg
      then module_entry ck (if arg = ''-m'' \<and> args \<noteq> [] then hd args else drop 2 arg) cwd
      else if arg = ''-W'' \<or> arg = ''-X'' then entry_of_args ck cwd (drop 1 args)
      else if starts_with ''-'' arg then entry_of_args ck cwd args
      else entry_rel ck (path_join cwd arg))"

definition spawn_entry :: "checkout_view \<Rightarrow> event_arg option \<Rightarrow> event_arg list option \<Rightarrow> event_arg option \<Rightarrow> string option" where
  "spawn_entry ck executable argv cwd =
     (case Option.bind argv (\<lambda>args. decode_all arg_text (take 64 args)) of
        None \<Rightarrow> None
      | Some texts \<Rightarrow>
          (if texts = [] \<or> list_ex (\<lambda>t. CHR 0x00 \<in> set t) texts then None
           else (case (case executable of None \<Rightarrow> Some (hd texts) | Some e \<Rightarrow> arg_text e) of
                   None \<Rightarrow> None
                 | Some program \<Rightarrow>
                     (if program = [] \<or> (\<not> interpreter_name (basename program) \<and> ck_real ck program \<noteq> Some (ck_self ck)) then None
                      else (case cwd of
                              None \<Rightarrow> entry_of_args ck (ck_cwd ck) (tl texts)
                            | Some Not_text \<Rightarrow> entry_of_args ck (ck_cwd ck) (tl texts)
                            | Some arg \<Rightarrow>
                                (case arg_text arg of
                                   None \<Rightarrow> None
                                 | Some dir \<Rightarrow> entry_of_args ck (if dir = [] then ck_cwd ck else dir) (tl texts)))))))"

text \<open>A connection to the running server that forks the workers of later pools.\<close>

definition forkserver_connect :: "checkout_view \<Rightarrow> event_arg option \<Rightarrow> bool" where
  "forkserver_connect ck address =
     (case address of
        Some (Text a) \<Rightarrow> a \<noteq> [] \<and> ck_forkserver ck = Some a
      | Some (Bytes a) \<Rightarrow> a \<noteq> [] \<and> ck_forkserver ck = Some a
      | _ \<Rightarrow> False)"

section \<open>Paths that leave this theory are project paths\<close>

lemma resolve_code_path: "resolve_code ck c = Some (rel, q, l) \<Longrightarrow> code_path rel"
  by (auto simp: resolve_code_def split: option.splits if_splits)

lemma entry_rel_path: "entry_rel ck path = Some rel \<Longrightarrow> code_path rel"
  by (auto simp: entry_rel_def split: option.splits if_splits)

lemma module_entry_path: "module_entry ck name cwd = Some rel \<Longrightarrow> code_path rel"
  by (auto simp: module_entry_def Let_def Option.bind_eq_Some_conv entry_rel_path split: if_splits)

lemma entry_of_args_path: "entry_of_args ck cwd args = Some rel \<Longrightarrow> code_path rel"
  by (induction ck cwd args rule: entry_of_args.induct) (auto simp: module_entry_path entry_rel_path split: if_splits)

lemma spawn_entry_path: "spawn_entry ck executable argv cwd = Some rel \<Longrightarrow> code_path rel"
  by (auto simp: spawn_entry_def entry_of_args_path split: option.splits if_splits event_arg.splits)

definition path_memo_ok :: "(string \<times> string option) list \<Rightarrow> bool" where
  "path_memo_ok memo \<longleftrightarrow> (\<forall>absolute rel. map_of memo absolute = Some (Some rel) \<longrightarrow> data_path rel)"

lemma data_rel_path: "data_rel ck absolute target = Some rel \<Longrightarrow> data_path rel"
  by (auto simp: data_rel_def split: option.splits if_splits)

lemma resolve_data_path:
  assumes "path_memo_ok memo" "resolve_data ck arg memo = (out, memo')"
  shows "path_memo_ok memo'" "out = Some rel \<Longrightarrow> data_path rel"
proof -
  have up: "path_memo_ok (AList.update a (data_rel ck a r) m)" if "path_memo_ok m" for a r m
    using that by (auto simp: path_memo_ok_def update_conv' data_rel_path)
  have one: "path_memo_ok [(a, data_rel ck a r)]" for a r
    by (auto simp: path_memo_ok_def data_rel_path split: if_splits)
  show "path_memo_ok memo'"
    using assms up one by (auto simp: resolve_data_def Let_def split: option.splits if_splits)
  show "out = Some rel \<Longrightarrow> data_path rel"
    using assms by (auto simp: resolve_data_def Let_def path_memo_ok_def data_rel_path split: option.splits if_splits)
qed

end
