(* ===== verification/Rec_State.thy ===== *)
theory Rec_State
  imports Rec_Audit
begin

text \<open>
  The recorder of one process as a state machine (\<^verbatim>\<open>Recorder\<close> of
  \<^verbatim>\<open>runtime/selection_recorder.py\<close>): the contexts that collect what ran, the stack of
  interrupted contexts, the tests with their outcomes, and the ownership edges of lazily built
  state. The bridge and the interpreter drive it with the events \<open>rec_event\<close>.

  Contexts are shared objects in the source; here they are entries of a store under an
  identity. The identity of a test context is a number that is never used again.
\<close>

section \<open>State\<close>

record exec_ctx =
  xc_functions :: "(string \<times> string \<times> int) list"
  xc_modules :: "string list"
  xc_data :: "string list"
  xc_opaque :: bool

type_synonym fixture_id = "string \<times> string \<times> string"

datatype ctx_id = Ambient | Test_ctx nat | Fixture_ctx fixture_id

text \<open>What the order of first executions is kept for: functions, module bodies and data files.\<close>

datatype state_key = Ran_code string string int | Ran_body string | Read_data string

datatype ctx_token = Node_token string | Ctx_token ctx_id

record rec_node =
  xn_outcome :: string
  xn_fixtures :: "fixture_id list"
  xn_ctx :: exec_ctx

record recorder =
  rr_run_id :: string
  rr_worker :: "string option"
  rr_is_controller :: bool
  rr_recording :: bool
  rr_inactive :: "string option"
  rr_tamper :: bool
  rr_overflow :: bool
  rr_active :: bool
  rr_tool :: bool
  rr_tampered :: bool
  rr_deselect :: string
  rr_deselected :: int
  rr_workers :: "string list"
  rr_store :: "(ctx_id \<times> exec_ctx) list"
  rr_current :: ctx_id
  rr_stack :: "ctx_id list"
  rr_open :: "string option"
  rr_test :: "ctx_id option"
  rr_nodes :: "(string \<times> rec_node) list"
  rr_first :: "(state_key \<times> ctx_token) list"
  rr_edges :: "(state_key \<times> state_key) list"
  rr_last :: "state_key option"
  rr_owners :: "state_key option list"
  rr_memo :: "(string \<times> string option) list"
  rr_next :: nat

definition new_ctx :: "bool \<Rightarrow> exec_ctx" where
  "new_ctx opaque = \<lparr>xc_functions = [], xc_modules = [], xc_data = [], xc_opaque = opaque\<rparr>"

definition merge_ctx :: "exec_ctx \<Rightarrow> exec_ctx \<Rightarrow> exec_ctx" where
  "merge_ctx a b =
     \<lparr>xc_functions = remdups (xc_functions a @ xc_functions b), xc_modules = remdups (xc_modules a @ xc_modules b),
      xc_data = remdups (xc_data a @ xc_data b), xc_opaque = (xc_opaque a \<or> xc_opaque b)\<rparr>"

definition new_recorder :: "string \<Rightarrow> string option \<Rightarrow> bool \<Rightarrow> recorder" where
  "new_recorder run_id worker controller =
     \<lparr>rr_run_id = run_id, rr_worker = worker, rr_is_controller = controller, rr_recording = False, rr_inactive = None,
      rr_tamper = False, rr_overflow = False, rr_active = False, rr_tool = False, rr_tampered = False,
      rr_deselect = ''none'', rr_deselected = 0, rr_workers = [], rr_store = [(Ambient, new_ctx False)],
      rr_current = Ambient, rr_stack = [], rr_open = None, rr_test = None, rr_nodes = [], rr_first = [], rr_edges = [],
      rr_last = None, rr_owners = [], rr_memo = [], rr_next = 0\<rparr>"

definition ctx_of :: "recorder \<Rightarrow> ctx_id \<Rightarrow> exec_ctx" where
  "ctx_of s i = (case map_of (rr_store s) i of Some c \<Rightarrow> c | None \<Rightarrow> new_ctx True)"

definition set_ctx :: "ctx_id \<Rightarrow> exec_ctx \<Rightarrow> recorder \<Rightarrow> recorder" where
  "set_ctx i c s = s\<lparr>rr_store := AList.update i c (rr_store s)\<rparr>"

definition update_current :: "(exec_ctx \<Rightarrow> exec_ctx) \<Rightarrow> recorder \<Rightarrow> recorder" where
  "update_current f s = set_ctx (rr_current s) (f (ctx_of s (rr_current s))) s"

definition blind :: "recorder \<Rightarrow> recorder" where
  "blind s = update_current (xc_opaque_update (\<lambda>_. True)) s"

section \<open>Activation\<close>

text \<open>The attempt to claim a monitoring tool and to install the callbacks.\<close>

datatype tool_claim = Old_python string | No_tool | No_start | Claimed

definition activate :: "tool_claim \<Rightarrow> recorder \<Rightarrow> recorder" where
  "activate c s =
     (if rr_active s then s
      else (case c of
              Old_python version \<Rightarrow> s\<lparr>rr_inactive := Some (''Python '' @ version @ '' has no sys.monitoring'')\<rparr>
            | No_tool \<Rightarrow> s\<lparr>rr_inactive := Some ''no free sys.monitoring tool id''\<rparr>
            | No_start \<Rightarrow> s\<lparr>rr_tool := False, rr_inactive := Some ''recorder could not start''\<rparr>
            | Claimed \<Rightarrow> s\<lparr>rr_tool := True, rr_active := True, rr_recording := True\<rparr>))"

definition deactivate :: "recorder \<Rightarrow> recorder" where
  "deactivate s = s\<lparr>rr_active := False, rr_tool := False\<rparr>"

section \<open>Contexts\<close>

text \<open>Who holds the tool id at a switch: this recorder, another tool, or the question raises.\<close>

datatype tool_check = Tool_held | Tool_lost | Tool_unanswered

definition mark_tampered :: "recorder \<Rightarrow> recorder" where
  "mark_tampered s = blind (s\<lparr>rr_tamper := True, rr_tampered := True, rr_recording := False, rr_active := False\<rparr>)"

definition switch_ctx :: "tool_check \<Rightarrow> recorder \<Rightarrow> recorder" where
  "switch_ctx tool s =
     (let s = s\<lparr>rr_last := None\<rparr> in
      if \<not> rr_tool s \<or> \<not> rr_active s then s else if tool = Tool_lost then mark_tampered s else s)"

definition fresh_ctx :: "recorder \<Rightarrow> exec_ctx" where
  "fresh_ctx s = new_ctx (rr_tampered s \<or> \<not> rr_recording s)"

definition enter_test :: "string \<Rightarrow> tool_check \<Rightarrow> recorder \<Rightarrow> recorder" where
  "enter_test nodeid tool s =
     (if nodeid = [] then s
      else (let s = switch_ctx tool s; i = Test_ctx (rr_next s);
                s = set_ctx i (fresh_ctx s)
                      (s\<lparr>rr_stack := rr_current s # rr_stack s, rr_current := i, rr_test := Some i, rr_next := Suc (rr_next s)\<rparr>);
                node = (case map_of (rr_nodes s) nodeid of
                          Some n \<Rightarrow> n | None \<Rightarrow> \<lparr>xn_outcome = ''unknown'', xn_fixtures = [], xn_ctx = new_ctx False\<rparr>)
            in s\<lparr>rr_nodes := AList.update nodeid node (rr_nodes s), rr_open := Some nodeid\<rparr>))"

definition pop_ctx :: "recorder \<Rightarrow> recorder" where
  "pop_ctx s =
     (case rr_stack s of
        [] \<Rightarrow> s\<lparr>rr_current := Ambient\<rparr>
      | i # rest \<Rightarrow> s\<lparr>rr_current := i, rr_stack := rest\<rparr>)"

definition close_node :: "fixture_id list \<Rightarrow> exec_ctx \<Rightarrow> rec_node \<Rightarrow> rec_node" where
  "close_node keys c n =
     n\<lparr>xn_fixtures := xn_fixtures n @ filter (\<lambda>k. k \<notin> set (xn_fixtures n)) (remdups keys),
       xn_ctx := merge_ctx (xn_ctx n) c\<rparr>"

definition exit_test :: "fixture_id list \<Rightarrow> tool_check \<Rightarrow> recorder \<Rightarrow> recorder" where
  "exit_test keys tool s =
     (let nodes = (case rr_open s of
                     None \<Rightarrow> rr_nodes s
                   | Some nodeid \<Rightarrow>
                       (case map_of (rr_nodes s) nodeid of
                          None \<Rightarrow> rr_nodes s
                        | Some n \<Rightarrow> AList.update nodeid (close_node keys (ctx_of s (rr_current s)) n) (rr_nodes s)));
          s = s\<lparr>rr_open := None, rr_test := None, rr_owners := [], rr_nodes := nodes\<rparr>
      in switch_ctx tool (pop_ctx s))"

definition enter_fixture :: "fixture_id \<Rightarrow> tool_check \<Rightarrow> recorder \<Rightarrow> recorder" where
  "enter_fixture key tool s =
     (let s = switch_ctx tool s; i = Fixture_ctx key;
          s = s\<lparr>rr_stack := rr_current s # rr_stack s\<rparr>;
          s = (case map_of (rr_store s) i of Some _ \<Rightarrow> s | None \<Rightarrow> set_ctx i (fresh_ctx s) s)
      in s\<lparr>rr_current := i\<rparr>)"

definition exit_fixture :: "tool_check \<Rightarrow> recorder \<Rightarrow> recorder" where
  "exit_fixture tool s = switch_ctx tool (pop_ctx s)"

fun entry_key :: "code_entry \<Rightarrow> state_key" where
  "entry_key (rel, None, line) = Ran_body rel"
| "entry_key (rel, Some q, line) = Ran_code rel q line"

definition enter_function_fixture :: "code_entry option \<Rightarrow> recorder \<Rightarrow> recorder" where
  "enter_function_fixture code s =
     (let owner = (case code of Some (rel, Some q, line) \<Rightarrow> Some (Ran_code rel q line) | _ \<Rightarrow> None)
      in s\<lparr>rr_owners := rr_owners s @ [owner]\<rparr>)"

definition exit_function_fixture :: "recorder \<Rightarrow> recorder" where
  "exit_function_fixture s = s\<lparr>rr_owners := butlast (rr_owners s)\<rparr>"

section \<open>Outcomes\<close>

record phase_report =
  pr_nodeid :: string
  pr_when :: string
  pr_outcome :: string
  pr_failed :: bool
  pr_skipped :: bool
  pr_wasxfail :: bool

definition classify_report :: "phase_report \<Rightarrow> string option" where
  "classify_report r =
     (if pr_when r = ''setup'' then (if pr_failed r then Some ''error'' else if pr_skipped r then Some ''skipped'' else None)
      else if pr_when r = ''teardown'' then (if pr_failed r then Some ''error'' else None)
      else if pr_when r \<noteq> ''call'' then None
      else if pr_wasxfail r
      then Some (if pr_outcome r = ''passed'' then ''xpassed'' else if pr_outcome r = ''skipped'' then ''xfailed'' else ''failed'')
      else if pr_outcome r \<in> {''passed'', ''failed'', ''skipped''} then Some (pr_outcome r) else None)"

definition outcome_rank :: "string \<Rightarrow> int" where
  "outcome_rank outcome =
     (if outcome = ''error'' then 5 else if outcome = ''failed'' then 4 else if outcome = ''xpassed'' then 3
      else if outcome = ''passed'' then 2 else if outcome = ''xfailed'' then 1 else if outcome = ''skipped'' then 0 else - 1)"

definition observe_report :: "phase_report \<Rightarrow> recorder \<Rightarrow> recorder" where
  "observe_report r s =
     (case (map_of (rr_nodes s) (pr_nodeid r), classify_report r) of
        (Some n, Some outcome) \<Rightarrow>
          (if pr_nodeid r \<noteq> [] \<and> outcome_rank (xn_outcome n) < outcome_rank outcome
           then s\<lparr>rr_nodes := AList.update (pr_nodeid r) (n\<lparr>xn_outcome := outcome\<rparr>) (rr_nodes s)\<rparr> else s)
      | _ \<Rightarrow> s)"

section \<open>Evidence\<close>

definition CONTEXT_MAX_FUNCTIONS :: nat where "CONTEXT_MAX_FUNCTIONS = 100000"
definition CONTEXT_MAX_DATA :: nat where "CONTEXT_MAX_DATA = 4096"
definition OWNER_MAX_DEPTH :: nat where "OWNER_MAX_DEPTH = 256"

definition add_function :: "string \<times> string \<times> int \<Rightarrow> exec_ctx \<Rightarrow> exec_ctx" where
  "add_function f c =
     (if f \<in> set (xc_functions c) then c
      else if CONTEXT_MAX_FUNCTIONS \<le> length (xc_functions c) then c\<lparr>xc_opaque := True\<rparr>
      else c\<lparr>xc_functions := xc_functions c @ [f]\<rparr>)"

definition add_data :: "string \<Rightarrow> exec_ctx \<Rightarrow> exec_ctx" where
  "add_data rel c =
     (if rel \<in> set (xc_data c) then c
      else if CONTEXT_MAX_DATA \<le> length (xc_data c) then c\<lparr>xc_opaque := True\<rparr>
      else c\<lparr>xc_data := xc_data c @ [rel]\<rparr>)"

definition add_module :: "string \<Rightarrow> exec_ctx \<Rightarrow> exec_ctx" where
  "add_module rel c = c\<lparr>xc_modules := (if rel \<in> set (xc_modules c) then xc_modules c else xc_modules c @ [rel])\<rparr>"

text \<open>The context a sighting lands in: the open test or a context.\<close>

definition token_of :: "recorder \<Rightarrow> ctx_token" where
  "token_of s =
     (case rr_open s of
        Some nodeid \<Rightarrow> (if rr_test s = Some (rr_current s) then Node_token nodeid else Ctx_token (rr_current s))
      | None \<Rightarrow> Ctx_token (rr_current s))"

text \<open>The nearest project frame, looking up at most \<open>OWNER_MAX_DEPTH\<close> frames.\<close>

fun nearest :: "code_entry option list \<Rightarrow> code_entry option" where
  "nearest [] = None"
| "nearest (Some e # frames) = Some e"
| "nearest (None # frames) = nearest frames"

definition owners_of :: "code_entry option list \<Rightarrow> bool \<Rightarrow> recorder \<Rightarrow> state_key list" where
  "owners_of frames main s =
     (case nearest (take OWNER_MAX_DEPTH frames) of
        Some e \<Rightarrow> [entry_key e]
      | None \<Rightarrow>
          (if main then [] else case rr_last s of Some k \<Rightarrow> [k] | None \<Rightarrow> [])
          @ (if rr_owners s = [] then [] else case last (rr_owners s) of Some k \<Rightarrow> [k] | None \<Rightarrow> []))"

fun is_body :: "state_key \<Rightarrow> bool" where
  "is_body (Ran_body rel) = True"
| "is_body _ = False"

definition add_edge :: "ctx_token \<Rightarrow> state_key \<Rightarrow> state_key \<Rightarrow> recorder \<Rightarrow> recorder" where
  "add_edge token key owner s =
     (if owner \<noteq> key \<and> (is_body key \<or> map_of (rr_first s) owner = Some token)
      then s\<lparr>rr_edges := List.insert (owner, key) (rr_edges s)\<rparr> else s)"

definition note_key :: "state_key \<Rightarrow> code_entry option list \<Rightarrow> bool \<Rightarrow> recorder \<Rightarrow> recorder" where
  "note_key key frames main s =
     (let token = token_of s;
          s = (if map_of (rr_first s) key = None then s\<lparr>rr_first := (key, token) # rr_first s\<rparr> else s)
      in if token = Ctx_token Ambient then s else fold (add_edge token key) (owners_of frames main s) s)"

fun add_entry :: "code_entry \<Rightarrow> exec_ctx \<Rightarrow> exec_ctx" where
  "add_entry (rel, None, line) c = add_module rel c"
| "add_entry (rel, Some q, line) c = add_function (rel, q, line) c"

definition py_start :: "checkout_view \<Rightarrow> code_object \<Rightarrow> code_entry option list \<Rightarrow> bool \<Rightarrow> recorder \<Rightarrow> recorder" where
  "py_start ck code frames main s =
     (if \<not> rr_active s \<or> rr_tampered s then s
      else (case resolve_code ck code of
              None \<Rightarrow> s
            | Some e \<Rightarrow>
                (let s = note_key (entry_key e) frames main s; s = s\<lparr>rr_last := Some (entry_key e)\<rparr>
                 in update_current (add_entry e) s)))"

section \<open>Audit events\<close>

datatype audit_event =
    Executes "code_object option"
  | Opens event_arg "string option" "int option"
  | Forks
  | Starts bool "event_arg option" "event_arg list option" "event_arg option"
  | Fork_exec "event_arg option" "event_arg list option"
  | Connects "event_arg option"
  | Other_event

definition spawns_worker :: "checkout_view \<Rightarrow> event_arg option \<Rightarrow> event_arg list option \<Rightarrow> recorder \<Rightarrow> bool" where
  "spawns_worker ck executable argv s \<longleftrightarrow>
     rr_is_controller s \<and> rr_current s = Ambient \<and> xdist_gateway ck executable argv"

fun handle_audit :: "checkout_view \<Rightarrow> audit_event \<Rightarrow> code_entry option list \<Rightarrow> bool \<Rightarrow> recorder \<Rightarrow> recorder" where
  "handle_audit ck (Executes code) frames main s =
     (case code of
        None \<Rightarrow> s
      | Some c \<Rightarrow>
          (case resolve_code ck c of
             Some (rel, q, line) \<Rightarrow>
               (if rr_tool s \<and> co_is_module c \<and> rr_current s \<noteq> Ambient then update_current (add_module rel) s else s)
           | None \<Rightarrow> s))"
| "handle_audit ck (Opens path mode flags) frames main s =
     (if pure_write mode flags \<or> opens_directory ck flags \<or> dir_fd_relative ck path mode then s
      else (let (out, memo) = resolve_data ck path (rr_memo s); s = s\<lparr>rr_memo := memo\<rparr> in
            case out of
              None \<Rightarrow> s
            | Some rel \<Rightarrow>
                (let s = (if rel \<in> set (xc_data (ctx_of s (rr_current s))) then s else note_key (Read_data rel) frames main s)
                 in update_current (add_data rel) s)))"
| "handle_audit ck Forks frames main s = blind s"
| "handle_audit ck (Starts popen executable argv cwd) frames main s =
     (if spawns_worker ck executable argv s \<or> \<not> spawn_opaque ck executable argv then s
      else (case spawn_entry ck executable argv (if popen then cwd else None) of
              None \<Rightarrow> blind s
            | Some rel \<Rightarrow> update_current (add_module rel) (blind s)))"
| "handle_audit ck (Fork_exec executable argv) frames main s =
     (if spawns_worker ck executable argv s \<or> \<not> spawn_opaque ck executable argv then s else blind s)"
| "handle_audit ck (Connects address) frames main s = (if forkserver_connect ck address then blind s else s)"
| "handle_audit ck Other_event frames main s = s"

definition audit_hook :: "checkout_view \<Rightarrow> audit_event \<Rightarrow> code_entry option list \<Rightarrow> bool \<Rightarrow> recorder \<Rightarrow> recorder" where
  "audit_hook ck event frames main s =
     (if \<not> rr_active s \<or> rr_tampered s then s else handle_audit ck event frames main s)"

section \<open>Events\<close>

datatype rec_event =
    Activate tool_claim
  | Deactivate
  | Enter_test string tool_check
  | Exit_test "fixture_id list" tool_check
  | Enter_fixture fixture_id tool_check
  | Exit_fixture tool_check
  | Enter_function_fixture "code_entry option"
  | Exit_function_fixture
  | Observe phase_report
  | Starts_code checkout_view code_object "code_entry option list" bool
  | Audits checkout_view audit_event "code_entry option list" bool
  | Set_deselect string int
  | Set_workers "string list"

fun handle :: "rec_event \<Rightarrow> recorder \<Rightarrow> recorder" where
  "handle (Activate c) s = activate c s"
| "handle Deactivate s = deactivate s"
| "handle (Enter_test nodeid tool) s = enter_test nodeid tool s"
| "handle (Exit_test keys tool) s = exit_test keys tool s"
| "handle (Enter_fixture key tool) s = enter_fixture key tool s"
| "handle (Exit_fixture tool) s = exit_fixture tool s"
| "handle (Enter_function_fixture code) s = enter_function_fixture code s"
| "handle Exit_function_fixture s = exit_function_fixture s"
| "handle (Observe r) s = observe_report r s"
| "handle (Starts_code ck code frames main) s = py_start ck code frames main s"
| "handle (Audits ck event frames main) s = audit_hook ck event frames main s"
| "handle (Set_deselect status count) s =
     s\<lparr>rr_deselect := (if status \<in> {''none'', ''applied'', ''ignored''} then status else rr_deselect s),
       rr_deselected := max 0 count\<rparr>"
| "handle (Set_workers names) s = s\<lparr>rr_workers := sort (filter (\<lambda>w. w \<noteq> []) names)\<rparr>"

definition session :: "rec_event list \<Rightarrow> recorder \<Rightarrow> recorder" where
  "session events s = fold handle events s"

end
