(* ===== verification/Ingest_Merge.thy ===== *)
theory Ingest_Merge
  imports Ingest_Format
begin

text \<open>
  Merging the dependency files of one run (\<^verbatim>\<open>selection_ingest._merge\<close>,
  \<^verbatim>\<open>_with_lazy\<close>, \<^verbatim>\<open>read_run\<close>): the tables of the files are interned into one
  vocabulary, entries of one test or fixture are joined, and state built lazily under code a
  context ran is added to it.

  An intern table is the list of its keys: the index of a key is its position.
\<close>

section \<open>The merged run\<close>

record recorded_node =
  rn_nodeid :: string
  rn_outcome :: string
  rn_deps :: context_deps
  rn_fixtures :: "int list"

record run_dependencies =
  rd_vocabulary :: vocabulary
  rd_nodes :: "(string \<times> recorded_node) list"
  rd_fixtures :: "(int \<times> context_deps) list"
  rd_ambient :: context_deps
  rd_complete :: bool
  rd_recording :: bool
  rd_python :: "(int \<times> int) option"
  rd_inactive :: "string option"
  rd_notes :: "string list"

record merge_state =
  ms_paths :: "string list"
  ms_funcs :: "(int \<times> string) list"
  ms_keys :: "(string \<times> string \<times> string) list"
  ms_fixtures :: "(int \<times> context_deps) list"
  ms_nodes :: "(string \<times> recorded_node) list"
  ms_lazy :: "(state_ref \<times> state_ref) list"
  ms_ambient :: context_deps
  ms_recording :: bool
  ms_python :: "(int \<times> int) option"
  ms_inactive :: "string option"

definition empty_context :: context_deps where
  "empty_context = \<lparr>cd_functions = [], cd_modules = [], cd_data = [], cd_opaque = False\<rparr>"

definition empty_merge :: merge_state where
  "empty_merge =
     \<lparr>ms_paths = [], ms_funcs = [], ms_keys = [], ms_fixtures = [], ms_nodes = [], ms_lazy = [],
      ms_ambient = empty_context, ms_recording = False, ms_python = None, ms_inactive = None\<rparr>"

section \<open>Interning\<close>

fun position :: "'a \<Rightarrow> 'a list \<Rightarrow> nat" where
  "position x [] = 0"
| "position x (y # ys) = (if x = y then 0 else Suc (position x ys))"

definition interned :: "'a \<Rightarrow> 'a list \<Rightarrow> 'a list" where
  "interned x xs = (if x \<in> set xs then xs else xs @ [x])"

definition intern_path :: "string \<Rightarrow> merge_state \<Rightarrow> int \<times> merge_state" where
  "intern_path path st =
     (let paths = interned path (ms_paths st) in (int (position path paths), st\<lparr>ms_paths := paths\<rparr>))"

definition intern_func :: "string \<Rightarrow> string \<Rightarrow> merge_state \<Rightarrow> int \<times> merge_state" where
  "intern_func path qualname st =
     (let (p, st) = intern_path path st; funcs = interned (p, qualname) (ms_funcs st)
      in (int (position (p, qualname) funcs), st\<lparr>ms_funcs := funcs\<rparr>))"

section \<open>The dependencies of one context\<close>

definition file_path :: "deps_file \<Rightarrow> int \<Rightarrow> string" where
  "file_path item i = df_paths item ! nat i"

text \<open>The path of a function of the file, and its normalised name.\<close>

definition file_function :: "deps_file \<Rightarrow> int \<Rightarrow> string \<times> string option" where
  "file_function item i = (case df_functions item ! nat i of (p, raw) \<Rightarrow> (file_path item p, normalize_qualname raw))"

type_synonym remap_state = "context_deps \<times> merge_state"

definition mark_opaque :: "bool \<Rightarrow> context_deps \<Rightarrow> context_deps" where
  "mark_opaque b ctx = ctx\<lparr>cd_opaque := cd_opaque ctx \<or> b\<rparr>"

definition remap_function :: "deps_file \<Rightarrow> int \<Rightarrow> remap_state \<Rightarrow> remap_state" where
  "remap_function item i s =
     (let (path, name) = file_function item i; (ctx, st) = s; ctx = mark_opaque (\<not> code_path path) ctx in
      case name of
        None \<Rightarrow> (let (p, st) = intern_path path st in (ctx\<lparr>cd_modules := cd_modules ctx @ [p]\<rparr>, st))
      | Some q \<Rightarrow> (let (f, st) = intern_func path q st in (ctx\<lparr>cd_functions := cd_functions ctx @ [f]\<rparr>, st)))"

definition remap_module :: "deps_file \<Rightarrow> int \<Rightarrow> remap_state \<Rightarrow> remap_state" where
  "remap_module item i s =
     (let (ctx, st) = s; path = file_path item i; (p, st) = intern_path path st
      in (mark_opaque (\<not> code_path path) (ctx\<lparr>cd_modules := cd_modules ctx @ [p]\<rparr>), st))"

definition remap_data :: "deps_file \<Rightarrow> int \<Rightarrow> remap_state \<Rightarrow> remap_state" where
  "remap_data item i s =
     (let (ctx, st) = s; path = file_path item i; (p, st) = intern_path path st
      in (mark_opaque (\<not> data_path path) (ctx\<lparr>cd_data := cd_data ctx @ [p]\<rparr>), st))"

definition sort_context :: "context_deps \<Rightarrow> context_deps" where
  "sort_context ctx =
     \<lparr>cd_functions = selection_ids (cd_functions ctx), cd_modules = selection_ids (cd_modules ctx),
      cd_data = selection_ids (cd_data ctx), cd_opaque = cd_opaque ctx\<rparr>"

definition remap_raw :: "deps_file \<Rightarrow> context_deps \<Rightarrow> merge_state \<Rightarrow> remap_state" where
  "remap_raw item ctx st =
     (let s = (empty_context\<lparr>cd_opaque := cd_opaque ctx \<or> df_tamper item\<rparr>, st);
          s = fold (remap_function item) (cd_functions ctx) s;
          s = fold (remap_module item) (cd_modules ctx) s
      in fold (remap_data item) (cd_data ctx) s)"

definition remap :: "deps_file \<Rightarrow> context_deps \<Rightarrow> merge_state \<Rightarrow> remap_state" where
  "remap item ctx st = (case remap_raw item ctx st of (out, st) \<Rightarrow> (sort_context out, st))"

definition join_context :: "context_deps \<Rightarrow> context_deps \<Rightarrow> context_deps" where
  "join_context a b =
     \<lparr>cd_functions = selection_ids (cd_functions a @ cd_functions b),
      cd_modules = selection_ids (cd_modules a @ cd_modules b), cd_data = selection_ids (cd_data a @ cd_data b),
      cd_opaque = (cd_opaque a \<or> cd_opaque b)\<rparr>"

section \<open>The entries of one file\<close>

definition merge_fixture :: "deps_file \<Rightarrow> (string \<times> string \<times> string) \<times> context_deps \<Rightarrow> merge_state \<Rightarrow> merge_state" where
  "merge_fixture item entry st =
     (let (key, ctx) = entry; keys = interned key (ms_keys st); dense = int (position key keys);
          (deps, st) = remap item ctx (st\<lparr>ms_keys := keys\<rparr>);
          deps = (case map_of (ms_fixtures st) dense of None \<Rightarrow> deps | Some old \<Rightarrow> join_context old deps)
      in st\<lparr>ms_fixtures := AList.update dense deps (ms_fixtures st)\<rparr>)"

definition severity :: "string \<Rightarrow> nat" where
  "severity outcome =
     (if outcome = ''error'' then 6 else if outcome = ''failed'' then 5 else if outcome = ''xpassed'' then 4
      else if outcome = ''passed'' then 3 else if outcome = ''xfailed'' then 2 else if outcome = ''skipped'' then 1 else 0)"

definition merge_node :: "deps_file \<Rightarrow> file_node \<Rightarrow> merge_state \<Rightarrow> merge_state" where
  "merge_node item entry st =
     (let (deps, st) = remap item (fn_deps entry) st; nodeid = fn_nodeid entry;
          deps = mark_opaque (\<not> nodeid_safe nodeid) deps;
          fids = selection_ids (map (\<lambda>i. int (position (fst (df_fixtures item ! nat i)) (ms_keys st))) (fn_fixtures entry));
          node = (case map_of (ms_nodes st) nodeid of
                    None \<Rightarrow> \<lparr>rn_nodeid = nodeid, rn_outcome = fn_outcome entry, rn_deps = deps, rn_fixtures = fids\<rparr>
                  | Some old \<Rightarrow>
                      \<lparr>rn_nodeid = nodeid,
                       rn_outcome =
                         (if severity (rn_outcome old) \<le> severity (fn_outcome entry) then fn_outcome entry else rn_outcome old),
                       rn_deps = join_context (rn_deps old) deps,
                       rn_fixtures = selection_ids (rn_fixtures old @ fids)\<rparr>)
      in st\<lparr>ms_nodes := AList.update nodeid node (ms_nodes st)\<rparr>)"

text \<open>The merged form of a reference of an ownership edge; one to a foreign path has none.\<close>

definition dense_ref :: "deps_file \<Rightarrow> state_ref \<Rightarrow> merge_state \<Rightarrow> state_ref option \<times> merge_state" where
  "dense_ref item r st =
     (case r of
        Mod i \<Rightarrow>
          (if \<not> code_path (file_path item i) then (None, st)
           else (let (p, st) = intern_path (file_path item i) st in (Some (Mod p), st)))
      | Dat i \<Rightarrow>
          (if \<not> data_path (file_path item i) then (None, st)
           else (let (p, st) = intern_path (file_path item i) st in (Some (Dat p), st)))
      | Fn i \<Rightarrow>
          (let (path, name) = file_function item i in
           if \<not> code_path path then (None, st)
           else (case name of
                   None \<Rightarrow> (let (p, st) = intern_path path st in (Some (Mod p), st))
                 | Some q \<Rightarrow> (let (f, st) = intern_func path q st in (Some (Fn f), st)))))"

definition merge_edge :: "deps_file \<Rightarrow> state_ref \<times> state_ref \<Rightarrow> merge_state \<Rightarrow> merge_state" where
  "merge_edge item edge st =
     (let (owner, st) = dense_ref item (fst edge) st; (state, st) = dense_ref item (snd edge) st in
      case (owner, state) of
        (Some a, Some b) \<Rightarrow> (if a \<noteq> b then st\<lparr>ms_lazy := List.insert (a, b) (ms_lazy st)\<rparr> else st)
      | _ \<Rightarrow> st)"

definition merge_ambient :: "deps_file \<Rightarrow> merge_state \<Rightarrow> merge_state" where
  "merge_ambient item st =
     (let (ctx, st) = remap item (df_ambient item) st
      in st\<lparr>ms_ambient := join_context (ms_ambient st) ctx\<rparr>)"

definition first_some :: "'a option \<Rightarrow> 'a option \<Rightarrow> 'a option" where
  "first_some a b = (case a of None \<Rightarrow> b | Some _ \<Rightarrow> a)"

definition merge_file :: "deps_file \<Rightarrow> merge_state \<Rightarrow> merge_state" where
  "merge_file item st =
     (let st = st\<lparr>ms_recording := ms_recording st \<or> df_recording item,
                  ms_python := first_some (ms_python st) (df_python item),
                  ms_inactive := first_some (ms_inactive st) (df_inactive item)\<rparr>;
          st = fold (merge_fixture item) (df_fixtures item) st;
          st = fold (merge_node item) (df_nodes item) st;
          st = fold (merge_edge item) (df_lazy item) st
      in merge_ambient item st)"

section \<open>State built lazily\<close>

definition states_under :: "(state_ref \<times> state_ref) list \<Rightarrow> state_ref \<Rightarrow> state_ref list" where
  "states_under lazy r = map snd (filter (\<lambda>e. fst e = r) lazy)"

function lazy_loop :: "(state_ref \<times> state_ref) list \<Rightarrow> state_ref list \<Rightarrow> state_ref list \<Rightarrow> state_ref list" where
  "lazy_loop lazy found [] = found"
| "lazy_loop lazy found (r # stack) =
     (let fresh = remdups (filter (\<lambda>s. s \<notin> set found) (states_under lazy r))
      in lazy_loop lazy (fresh @ found) (rev fresh @ stack))"
  by pat_completeness auto
termination
proof (relation "measures [\<lambda>(lazy, found, stack). card (snd ` set lazy - set found), \<lambda>(lazy, found, stack). length stack]")
  fix lazy :: "(state_ref \<times> state_ref) list" and found stack fresh :: "state_ref list" and r
  assume fresh: "fresh = remdups (filter (\<lambda>s. s \<notin> set found) (states_under lazy r))"
  show "((lazy, fresh @ found, rev fresh @ stack), lazy, found, r # stack)
      \<in> measures [\<lambda>(lazy, found, stack). card (snd ` set lazy - set found), \<lambda>(lazy, found, stack). length stack]"
  proof (cases "fresh = []")
    case False
    then obtain s where "s \<in> set fresh" by (cases fresh) auto
    then have s: "s \<in> snd ` set lazy - set found" "s \<in> set (fresh @ found)"
      using fresh by (auto simp: states_under_def)
    then have "snd ` set lazy - set (fresh @ found) \<subset> snd ` set lazy - set found" by auto
    then show ?thesis by (simp add: psubset_card_mono)
  qed simp
qed simp

fun fn_of :: "state_ref \<Rightarrow> int list" where
  "fn_of (Fn i) = [i]"
| "fn_of _ = []"

fun mod_of :: "state_ref \<Rightarrow> int list" where
  "mod_of (Mod i) = [i]"
| "mod_of _ = []"

fun dat_of :: "state_ref \<Rightarrow> int list" where
  "dat_of (Dat i) = [i]"
| "dat_of _ = []"

definition with_lazy :: "(state_ref \<times> state_ref) list \<Rightarrow> context_deps \<Rightarrow> context_deps" where
  "with_lazy lazy deps =
     (let stack = filter (\<lambda>r. r \<in> fst ` set lazy) (map Fn (cd_functions deps) @ map Mod (cd_modules deps)) in
      if stack = [] then deps
      else (let found = lazy_loop lazy [] (rev stack)
            in \<lparr>cd_functions = selection_ids (cd_functions deps @ concat (map fn_of found)),
                cd_modules = selection_ids (cd_modules deps @ concat (map mod_of found)),
                cd_data = selection_ids (cd_data deps @ concat (map dat_of found)), cd_opaque = cd_opaque deps\<rparr>))"

section \<open>The merged dependencies\<close>

definition merge_result :: "bool \<Rightarrow> string list \<Rightarrow> merge_state \<Rightarrow> run_dependencies" where
  "merge_result whole notes st =
     (let lazily = (if ms_lazy st = [] then (\<lambda>deps. deps) else with_lazy (ms_lazy st)) in
      \<lparr>rd_vocabulary = \<lparr>vo_paths = ms_paths st, vo_functions = ms_funcs st, vo_fixtures = ms_keys st\<rparr>,
       rd_nodes = map (\<lambda>(nodeid, n). (nodeid, n\<lparr>rn_deps := lazily (rn_deps n)\<rparr>)) (ms_nodes st),
       rd_fixtures = map (\<lambda>(i, deps). (i, lazily deps)) (ms_fixtures st),
       rd_ambient = sort_context (ms_ambient st), rd_complete = whole, rd_recording = ms_recording st,
       rd_python = ms_python st, rd_inactive = ms_inactive st, rd_notes = notes\<rparr>)"

definition merge_files :: "bool \<Rightarrow> string list \<Rightarrow> deps_file list \<Rightarrow> run_dependencies" where
  "merge_files whole notes items = merge_result whole notes (fold merge_file items empty_merge)"

section \<open>Reading a run\<close>

definition MAX_NOTES :: nat where "MAX_NOTES = 64"

definition DEPS_MAX_BYTES :: nat where "DEPS_MAX_BYTES = 64 * 1024 * 1024"

definition MAX_DIR_ENTRIES :: nat where "MAX_DIR_ENTRIES = 4096"

definition empty_run :: "string list \<Rightarrow> run_dependencies" where
  "empty_run notes =
     \<lparr>rd_vocabulary = \<lparr>vo_paths = [], vo_functions = [], vo_fixtures = []\<rparr>, rd_nodes = [], rd_fixtures = [],
      rd_ambient = empty_context, rd_complete = False, rd_recording = False, rd_python = None, rd_inactive = None,
      rd_notes = take MAX_NOTES notes\<rparr>"

text \<open>
  What the file system says of one name: its status without following links, the link count
  after opening (\<open>None\<close>: opening fails) and the bytes up to the end (\<open>None\<close>: reading fails).
\<close>

record report_entry =
  re_kind :: file_kind
  re_mine :: bool
  re_mode :: nat
  re_links :: nat
  re_size :: nat
  re_opened :: "nat option"
  re_bytes :: "string option"

definition read_private :: "nat \<Rightarrow> report_entry option \<Rightarrow> string option" where
  "read_private limit entry =
     (case entry of
        None \<Rightarrow> None
      | Some e \<Rightarrow>
          (if re_kind e \<noteq> Regular_file \<or> \<not> re_mine e \<or> re_mode e \<noteq> 384 \<or> re_links e \<noteq> 1 then None
           else if limit < re_size e then None
           else if re_opened e \<noteq> Some 1 then None
           else (case re_bytes e of
                   None \<Rightarrow> None
                 | Some raw \<Rightarrow>
                     (let raw = take (Suc (re_size e)) raw in
                      if limit < length raw \<or> length raw \<noteq> re_size e then None else Some raw))))"

text \<open>One candidate file: parsed, refused with a note, or the exception of the validation.\<close>

definition read_deps ::
  "(string \<Rightarrow> report_entry option) \<Rightarrow> (string \<Rightarrow> json option) \<Rightarrow> string \<Rightarrow> int \<times> string \<Rightarrow> (deps_file + string) option" where
  "read_deps entries loads run_id candidate =
     (let (pid, name) = candidate in
      case read_private (DEPS_MAX_BYTES + 1) (entries name) of
        None \<Rightarrow> Some (Inr (name @ '': refused or oversize''))
      | Some raw \<Rightarrow>
          (if DEPS_MAX_BYTES < length raw then Some (Inr (name @ '': refused or oversize''))
           else (case (if utf8_valid raw then loads raw else None) of
                   None \<Rightarrow> Some (Inr (name @ '': malformed JSON''))
                 | Some payload \<Rightarrow>
                     (case parse_file payload pid run_id of
                        Raised \<Rightarrow> None
                      | Refused \<Rightarrow> Some (Inr (name @ '': invalid dependency file''))
                      | Accepted item \<Rightarrow> Some (Inl item)))))"

definition is_controller :: "deps_file \<Rightarrow> bool" where
  "is_controller item \<longleftrightarrow> df_worker item = None"

text \<open>Why the valid files are not the files of all expected processes.\<close>

definition run_gap :: "int \<Rightarrow> deps_file list \<Rightarrow> string option" where
  "run_gap expected parsed =
     (let controllers = filter is_controller parsed; workers = filter (\<lambda>i. \<not> is_controller i) parsed in
      if expected = 1
      then (if length controllers \<noteq> 1 \<or> df_overflow (hd controllers)
            then Some ''serial run needs one valid controller file'' else None)
      else if length controllers \<noteq> 1 then Some ''xdist run needs one valid controller file''
      else if df_overflow (hd controllers) then Some ''controller overflowed''
      else if int (length (df_workers (hd controllers))) \<noteq> expected then Some ''controller worker count mismatch''
      else if the ` df_worker ` set workers \<noteq> set (df_workers (hd controllers))
              \<or> \<not> distinct (map df_worker workers) \<or> (\<exists>w\<in>set workers. df_overflow w)
      then Some ''worker files incomplete'' else None)"

definition worker_file :: "deps_file list \<Rightarrow> string \<Rightarrow> deps_file list" where
  "worker_file parsed worker = take 1 (filter (\<lambda>i. df_worker i = Some worker) parsed)"

definition complete_run :: "int \<Rightarrow> deps_file list \<Rightarrow> string list \<Rightarrow> run_dependencies" where
  "complete_run expected parsed notes =
     (let controllers = filter is_controller parsed; workers = filter (\<lambda>i. \<not> is_controller i) parsed in
      if expected = 1
      then (let notes = (if workers = [] then notes
                         else notes @ [''ignoring '' @ str_nat (length workers) @ '' worker files''])
            in merge_files True (take MAX_NOTES notes) [hd controllers])
      else merge_files True (take MAX_NOTES notes)
             (hd controllers # concat (map (worker_file workers) (df_workers (hd controllers)))))"

definition keep_left :: "('a + 'b) list \<Rightarrow> 'a list" where
  "keep_left xs = concat (map (\<lambda>x. case x of Inl a \<Rightarrow> [a] | Inr _ \<Rightarrow> []) xs)"

definition keep_right :: "('a + 'b) list \<Rightarrow> 'b list" where
  "keep_right xs = concat (map (\<lambda>x. case x of Inl _ \<Rightarrow> [] | Inr b \<Rightarrow> [b]) xs)"

definition candidates :: "string \<Rightarrow> string list \<Rightarrow> (int \<times> string) list" where
  "candidates report names =
     sort (concat (map (\<lambda>name. case deps_pid report name of None \<Rightarrow> [] | Some pid \<Rightarrow> [(pid, name)])
       (take MAX_DIR_ENTRIES names)))"

definition read_run ::
  "(string \<Rightarrow> report_entry option) \<Rightarrow> (string \<Rightarrow> json option) \<Rightarrow> string \<Rightarrow> string list \<Rightarrow> string \<Rightarrow> int \<Rightarrow> run_dependencies" where
  "read_run entries loads report names run_id expected =
     (if run_id = [] then empty_run [''bad run id'']
      else if expected < 1 then empty_run [''bad worker count'']
      else (case decode_all (read_deps entries loads run_id) (candidates report names) of
              None \<Rightarrow> empty_run [''ingest failed'']
            | Some results \<Rightarrow>
                (let parsed = keep_left results; notes = keep_right results in
                 case run_gap expected parsed of
                   None \<Rightarrow> complete_run expected parsed notes
                 | Some gap \<Rightarrow> merge_files False (take MAX_NOTES (notes @ [gap])) parsed)))"

end
