(* ===== verification/Rec_Payload.thy ===== *)
theory Rec_Payload
  imports Rec_State Ingest_Merge
begin

text \<open>
  The dependency file a recorder writes at the end of its session (\<^verbatim>\<open>_payload\<close>,
  \<^verbatim>\<open>_header\<close>, \<^verbatim>\<open>write_deps\<close>): the tables of paths, functions and fixtures in
  order, and every context as ids of these tables.

  The process id, the version of the interpreter and \<^verbatim>\<open>json.dumps\<close> are arguments.
\<close>

section \<open>Tables\<close>

definition contexts_of :: "recorder \<Rightarrow> exec_ctx list" where
  "contexts_of s = map snd (filter (\<lambda>(i, c). \<forall>n. i \<noteq> Test_ctx n) (rr_store s)) @ map (xn_ctx \<circ> snd) (rr_nodes s)"

definition ctx_path_list :: "exec_ctx \<Rightarrow> string list" where
  "ctx_path_list c = xc_modules c @ xc_data c @ map fst (xc_functions c)"

definition path_table :: "recorder \<Rightarrow> string list" where
  "path_table s = sorted_set (concat (map ctx_path_list (contexts_of s)))"

definition function_key :: "string list \<Rightarrow> string \<times> string \<times> int \<Rightarrow> nat \<times> string \<times> int" where
  "function_key paths f = (case f of (rel, q, line) \<Rightarrow> (position rel paths, q, line))"

definition function_table :: "recorder \<Rightarrow> (string \<times> string \<times> int) list" where
  "function_table s =
     sort_key (function_key (path_table s)) (remdups (concat (map xc_functions (contexts_of s))))"

fun fixture_ids :: "(ctx_id \<times> exec_ctx) list \<Rightarrow> fixture_id list" where
  "fixture_ids [] = []"
| "fixture_ids ((Fixture_ctx k, c) # m) = k # fixture_ids m"
| "fixture_ids (_ # m) = fixture_ids m"

definition fixture_table :: "recorder \<Rightarrow> fixture_id list" where
  "fixture_table s = sort (fixture_ids (rr_store s))"

section \<open>Contexts, tests and edges as JSON\<close>

definition json_ints :: "nat list \<Rightarrow> json" where
  "json_ints ids = JArr (map (\<lambda>i. JInt (int i)) ids)"

definition ctx_payload :: "string list \<Rightarrow> (string \<times> string \<times> int) list \<Rightarrow> exec_ctx \<Rightarrow> (string \<times> json) list" where
  "ctx_payload paths funcs c =
     [(''functions'', json_ints (sort (map (\<lambda>f. position f funcs) (xc_functions c)))),
      (''modules'', json_ints (sort (map (\<lambda>p. position p paths) (xc_modules c)))),
      (''data'', json_ints (sort (map (\<lambda>p. position p paths) (xc_data c)))),
      (''opaque'', JBool (xc_opaque c))]"

definition fixture_payload :: "recorder \<Rightarrow> fixture_id \<Rightarrow> json" where
  "fixture_payload s k =
     JObj ((''key'', JArr [JStr (fst k), JStr (fst (snd k)), JStr (snd (snd k))])
           # ctx_payload (path_table s) (function_table s) (ctx_of s (Fixture_ctx k)))"

definition node_payload :: "recorder \<Rightarrow> string \<times> rec_node \<Rightarrow> json" where
  "node_payload s entry =
     (case entry of (nodeid, n) \<Rightarrow>
        JObj ([(''nodeid'', JStr nodeid), (''outcome'', JStr (if xn_outcome n \<in> set OUTCOMES then xn_outcome n else ''unknown'')),
               (''fixtures'', json_ints (sort (map (\<lambda>k. position k (fixture_table s))
                  (filter (\<lambda>k. k \<in> set (fixture_table s)) (xn_fixtures n)))))]
              @ ctx_payload (path_table s) (function_table s) (xn_ctx n)))"

definition index_in :: "'a \<Rightarrow> 'a list \<Rightarrow> nat option" where
  "index_in x xs = (if x \<in> set xs then Some (position x xs) else None)"

fun key_ref :: "string list \<Rightarrow> (string \<times> string \<times> int) list \<Rightarrow> state_key \<Rightarrow> (string \<times> nat) option" where
  "key_ref paths funcs (Ran_body rel) = map_option (Pair ''m'') (index_in rel paths)"
| "key_ref paths funcs (Read_data rel) = map_option (Pair ''d'') (index_in rel paths)"
| "key_ref paths funcs (Ran_code rel q line) = map_option (Pair ''f'') (index_in (rel, q, line) funcs)"

definition edge_refs :: "recorder \<Rightarrow> ((string \<times> nat) \<times> (string \<times> nat)) list" where
  "edge_refs s =
     concat (map (\<lambda>(owner, key).
       case (key_ref (path_table s) (function_table s) owner, key_ref (path_table s) (function_table s) key) of
         (Some a, Some b) \<Rightarrow> (if fst a \<noteq> ''d'' then [(a, b)] else [])
       | _ \<Rightarrow> []) (rr_edges s))"

definition ref_payload :: "string \<times> nat \<Rightarrow> json" where
  "ref_payload r = JArr [JStr (fst r), JInt (int (snd r))]"

definition edge_payload :: "(string \<times> nat) \<times> (string \<times> nat) \<Rightarrow> json" where
  "edge_payload e = JArr [ref_payload (fst e), ref_payload (snd e)]"

section \<open>The file\<close>

definition payload_head :: "recorder \<Rightarrow> int \<Rightarrow> int \<times> int \<Rightarrow> bool \<Rightarrow> (string \<times> json) list" where
  "payload_head s pid python overflow =
     [(''format'', JStr DEPS_FORMAT), (''run_id'', JStr (rr_run_id s)),
      (''role'', JStr (if rr_is_controller s then ''controller'' else ''worker'')),
      (''worker_id'', case rr_worker s of None \<Rightarrow> JNull | Some w \<Rightarrow> JStr w), (''pid'', JInt pid),
      (''python'', JArr [JInt (fst python), JInt (snd python)]), (''recording'', JBool (rr_recording s)),
      (''inactive_reason'', case rr_inactive s of None \<Rightarrow> JNull | Some r \<Rightarrow> JStr (text_take 200 r)),
      (''workers'', JArr (map JStr (rr_workers s))), (''overflow'', JBool overflow), (''tamper'', JBool (rr_tamper s)),
      (''deselect'', JStr (rr_deselect s)), (''deselected'', JInt (rr_deselected s))]"

definition payload :: "recorder \<Rightarrow> int \<Rightarrow> int \<times> int \<Rightarrow> json" where
  "payload s pid python =
     JObj (payload_head s pid python (rr_overflow s)
       @ [(''paths'', JArr (map JStr (path_table s))),
          (''functions'', JArr (map (\<lambda>(rel, q, line). JArr [JInt (int (position rel (path_table s))), JStr q, JInt line])
             (function_table s))),
          (''ambient'', JObj (ctx_payload (path_table s) (function_table s) (ctx_of s Ambient))),
          (''fixtures'', JArr (map (fixture_payload s) (fixture_table s))),
          (''nodes'', JArr (map (node_payload s) (sort_key fst (rr_nodes s)))),
          (''lazy'', JArr (map edge_payload (sort (edge_refs s))))])"

definition header :: "recorder \<Rightarrow> int \<Rightarrow> int \<times> int \<Rightarrow> json" where
  "header s pid python =
     JObj (payload_head s pid python True
       @ [(''paths'', JArr []), (''functions'', JArr []),
          (''ambient'', JObj [(''functions'', JArr []), (''modules'', JArr []), (''data'', JArr []), (''opaque'', JBool False)]),
          (''fixtures'', JArr []), (''nodes'', JArr [])])"

text \<open>The bytes written, and the recorder afterwards; \<open>None\<close> when the document has no encoding.\<close>

definition deps_bytes :: "(json \<Rightarrow> string option) \<Rightarrow> int \<Rightarrow> int \<times> int \<Rightarrow> recorder \<Rightarrow> string option \<times> recorder" where
  "deps_bytes dumps pid python s =
     (let s = s\<lparr>rr_active := False\<rparr> in
      case dumps (payload s pid python) of
        None \<Rightarrow> (None, s)
      | Some raw \<Rightarrow>
          (if length raw \<le> DEPS_MAX_BYTES then (Some raw, s)
           else (let s = s\<lparr>rr_overflow := True\<rparr> in (dumps (header s pid python), s))))"

definition write_inactive :: "(json \<Rightarrow> string option) \<Rightarrow> int \<Rightarrow> int \<times> int \<Rightarrow> string \<Rightarrow> bool \<Rightarrow> string option \<Rightarrow> string \<Rightarrow> string option" where
  "write_inactive dumps pid python run_id controller worker reason =
     fst (deps_bytes dumps pid python ((new_recorder run_id worker controller)\<lparr>rr_inactive := Some reason\<rparr>))"

end
