(* ===== verification/Ingest_Facts.thy ===== *)
theory Ingest_Facts
  imports Ingest_Merge
begin

text \<open>
  What a merge keeps: interning only extends the vocabulary, so the name behind an id never
  changes, and every merged id names exactly what the file's id named.
\<close>

section \<open>Names\<close>

text \<open>What an id stands for, whatever table it indexes.\<close>

datatype ref_name = Function_name string string | Module_name string | Data_name string

fun name_of :: "merge_state \<Rightarrow> state_ref \<Rightarrow> ref_name" where
  "name_of st (Fn i) = (case ms_funcs st ! nat i of (p, q) \<Rightarrow> Function_name (ms_paths st ! nat p) q)"
| "name_of st (Mod i) = Module_name (ms_paths st ! nat i)"
| "name_of st (Dat i) = Data_name (ms_paths st ! nat i)"

fun file_name :: "deps_file \<Rightarrow> state_ref \<Rightarrow> ref_name" where
  "file_name item (Fn i) =
     (case file_function item i of (path, None) \<Rightarrow> Module_name path | (path, Some q) \<Rightarrow> Function_name path q)"
| "file_name item (Mod i) = Module_name (file_path item i)"
| "file_name item (Dat i) = Data_name (file_path item i)"

text \<open>Whether a reference points outside the code or data that can be selected on.\<close>

fun hostile :: "deps_file \<Rightarrow> state_ref \<Rightarrow> bool" where
  "hostile item (Fn i) \<longleftrightarrow> \<not> code_path (fst (file_function item i))"
| "hostile item (Mod i) \<longleftrightarrow> \<not> code_path (file_path item i)"
| "hostile item (Dat i) \<longleftrightarrow> \<not> data_path (file_path item i)"

definition ctx_refs :: "context_deps \<Rightarrow> state_ref set" where
  "ctx_refs ctx = Fn ` set (cd_functions ctx) \<union> Mod ` set (cd_modules ctx) \<union> Dat ` set (cd_data ctx)"

lemma ctx_refs_empty [simp]: "ctx_refs empty_context = {}"
  by (simp add: ctx_refs_def empty_context_def)

lemma ctx_refs_opaque [simp]: "ctx_refs (cd_opaque_update f ctx) = ctx_refs ctx"
  by (simp add: ctx_refs_def)

lemma set_selection_ids [simp]: "set (selection_ids xs) = set xs"
  by (simp add: selection_ids_def sorted_set_def)

lemma ctx_refs_sort [simp]: "ctx_refs (sort_context ctx) = ctx_refs ctx"
  by (simp add: ctx_refs_def sort_context_def)

lemma ctx_refs_join [simp]: "ctx_refs (join_context a b) = ctx_refs a \<union> ctx_refs b"
  by (auto simp: ctx_refs_def join_context_def)

lemma opaque_join [simp]: "cd_opaque (join_context a b) \<longleftrightarrow> cd_opaque a \<or> cd_opaque b"
  by (simp add: join_context_def)

lemma ctx_refs_mark [simp]: "ctx_refs (mark_opaque b ctx) = ctx_refs ctx"
  and opaque_mark [simp]: "cd_opaque (mark_opaque b ctx) \<longleftrightarrow> cd_opaque ctx \<or> b"
  by (simp_all add: mark_opaque_def)

section \<open>Vocabularies grow\<close>

definition voc_ok :: "merge_state \<Rightarrow> bool" where
  "voc_ok st \<longleftrightarrow> distinct (ms_paths st) \<and> distinct (ms_funcs st)
     \<and> (\<forall>(p, q)\<in>set (ms_funcs st). in_range (length (ms_paths st)) p)"

fun ref_ok :: "merge_state \<Rightarrow> state_ref \<Rightarrow> bool" where
  "ref_ok st (Fn i) \<longleftrightarrow> in_range (length (ms_funcs st)) i"
| "ref_ok st (Mod i) \<longleftrightarrow> in_range (length (ms_paths st)) i"
| "ref_ok st (Dat i) \<longleftrightarrow> in_range (length (ms_paths st)) i"

text \<open>The second state is the first with more paths and functions.\<close>

definition interns :: "merge_state \<Rightarrow> merge_state \<Rightarrow> bool" where
  "interns st st' \<longleftrightarrow> (\<exists>ps fs. st' = st\<lparr>ms_paths := ms_paths st @ ps, ms_funcs := ms_funcs st @ fs\<rparr>)"

lemma interns_refl [simp]: "interns st st"
  unfolding interns_def by (intro exI [of _ "[]"]) simp

lemma interns_trans: "interns a b \<Longrightarrow> interns b c \<Longrightarrow> interns a c"
  unfolding interns_def by (elim exE) (simp, blast)

lemma internsE:
  assumes "interns st st'"
  obtains ps fs where "st' = st\<lparr>ms_paths := ms_paths st @ ps, ms_funcs := ms_funcs st @ fs\<rparr>"
  using assms by (auto simp: interns_def)

lemma in_range_nat: "in_range n i \<longleftrightarrow> 0 \<le> i \<and> nat i < n"
  by (auto simp: in_range_def nat_less_iff)

lemma in_range_add: "in_range n i \<Longrightarrow> in_range (n + m) i"
  by (simp add: in_range_def)

lemma in_range_nth: "in_range (length xs) i \<Longrightarrow> xs ! nat i \<in> set xs"
  by (simp add: in_range_nat)

lemma in_range_append: "in_range (length xs) i \<Longrightarrow> (xs @ ys) ! nat i = xs ! nat i"
  by (simp add: in_range_nat nth_append)

lemma name_kept:
  assumes "interns st st'" "voc_ok st" "ref_ok st r"
  shows "ref_ok st' r \<and> name_of st' r = name_of st r"
proof -
  obtain ps fs where st': "st' = st\<lparr>ms_paths := ms_paths st @ ps, ms_funcs := ms_funcs st @ fs\<rparr>"
    using assms(1) by (rule internsE)
  show ?thesis
  proof (cases r)
    case (Fn i)
    obtain p q where pq: "ms_funcs st ! nat i = (p, q)" by fastforce
    then have "(p, q) \<in> set (ms_funcs st)" using assms(3) Fn in_range_nth by fastforce
    then have "in_range (length (ms_paths st)) p" using assms(2) by (auto simp: voc_ok_def)
    then show ?thesis using assms(3) Fn pq by (simp add: st' in_range_append in_range_add)
  qed (use assms(3) in \<open>simp_all add: st' in_range_append in_range_add\<close>)
qed

lemmas name_stays = name_kept [THEN conjunct2] and ref_stays = name_kept [THEN conjunct1]

lemma in_range_inj:
  "distinct xs \<Longrightarrow> in_range (length xs) i \<Longrightarrow> in_range (length xs) j \<Longrightarrow> xs ! nat i = xs ! nat j \<Longrightarrow> i = j"
  by (auto simp: in_range_nat nth_eq_iff_index_eq)

text \<open>Two ids of one vocabulary with the same name are the same id.\<close>

lemma name_of_inj:
  assumes "voc_ok st" "ref_ok st a" "ref_ok st b" "name_of st a = name_of st b"
  shows "a = b"
proof (cases a)
  case (Fn i)
  then obtain j where b: "b = Fn j" using assms(4) by (cases b) (auto split: prod.splits)
  obtain p q p' q' where pq: "ms_funcs st ! nat i = (p, q)" "ms_funcs st ! nat j = (p', q')" by fastforce
  have "(p, q) \<in> set (ms_funcs st)" "(p', q') \<in> set (ms_funcs st)"
    using assms(2,3) Fn b pq in_range_nth by fastforce+
  then have "in_range (length (ms_paths st)) p" "in_range (length (ms_paths st)) p'"
    using assms(1) by (auto simp: voc_ok_def)
  moreover have "ms_paths st ! nat p = ms_paths st ! nat p'" "q = q'" using assms(4) Fn b pq by auto
  ultimately have "p = p'" using assms(1) in_range_inj voc_ok_def by blast
  then have "i = j"
    using assms(1-3) Fn b pq \<open>q = q'\<close> in_range_inj [of "ms_funcs st" i j] by (simp add: voc_ok_def)
  then show ?thesis using Fn b by simp
next
  case (Mod i)
  then obtain j where "b = Mod j" using assms(4) by (cases b) (auto split: prod.splits)
  then show ?thesis using Mod assms in_range_inj [of "ms_paths st" i j] by (auto simp: voc_ok_def)
next
  case (Dat i)
  then obtain j where "b = Dat j" using assms(4) by (cases b) (auto split: prod.splits)
  then show ?thesis using Dat assms in_range_inj [of "ms_paths st" i j] by (auto simp: voc_ok_def)
qed

section \<open>Interning\<close>

lemma position_nth: "x \<in> set xs \<Longrightarrow> position x xs < length xs \<and> xs ! position x xs = x"
  by (induction xs) auto

lemma interned_mem [simp]: "x \<in> set (interned x xs)"
  by (simp add: interned_def)

lemma interned_distinct: "distinct xs \<Longrightarrow> distinct (interned x xs)"
  by (simp add: interned_def)

lemma interned_append: "\<exists>ys. interned x xs = xs @ ys"
  by (simp add: interned_def)

lemma set_interned [simp]: "set (interned x xs) = insert x (set xs)"
  by (auto simp: interned_def)

lemma in_range_position: "in_range (length (interned x xs)) (int (position x (interned x xs)))"
  by (simp add: in_range_def position_nth)

lemma intern_path:
  assumes "intern_path path st = (i, st')" "voc_ok st"
  shows "interns st st'" "voc_ok st'" "in_range (length (ms_paths st')) i" "ms_paths st' ! nat i = path"
proof -
  have i: "i = int (position path (interned path (ms_paths st)))" and
    st': "st' = st\<lparr>ms_paths := interned path (ms_paths st)\<rparr>"
    using assms(1) by (auto simp: intern_path_def Let_def)
  obtain ys where ys: "interned path (ms_paths st) = ms_paths st @ ys"
    using interned_append [of path "ms_paths st"] by blast
  show "interns st st'"
    unfolding interns_def st' ys by (intro exI [of _ ys] exI [of _ "[]"]) simp
  show "in_range (length (ms_paths st')) i" "ms_paths st' ! nat i = path"
    by (simp_all add: i st' in_range_position position_nth)
  show "voc_ok st'"
    using assms(2) interned_distinct [of "ms_paths st" path] by (auto simp: voc_ok_def st' ys in_range_add)
qed

lemma intern_func:
  assumes "intern_func path q st = (i, st')" "voc_ok st"
  shows "interns st st'" "voc_ok st'" "ref_ok st' (Fn i)" "name_of st' (Fn i) = Function_name path q"
proof -
  obtain p st1 where p: "intern_path path st = (p, st1)" by fastforce
  note st1 = intern_path [OF p assms(2)]
  have i: "i = int (position (p, q) (interned (p, q) (ms_funcs st1)))" and
    st': "st' = st1\<lparr>ms_funcs := interned (p, q) (ms_funcs st1)\<rparr>"
    using assms(1) by (auto simp: intern_func_def p Let_def)
  obtain ys where ys: "interned (p, q) (ms_funcs st1) = ms_funcs st1 @ ys"
    using interned_append [of "(p, q)" "ms_funcs st1"] by blast
  have "interns st1 st'"
    unfolding interns_def st' ys by (intro exI [of _ "[]"] exI [of _ ys]) simp
  then show "interns st st'" using st1(1) interns_trans by blast
  show "voc_ok st'" using st1(2,3) by (auto simp: voc_ok_def st' interned_distinct)
  show "ref_ok st' (Fn i)" "name_of st' (Fn i) = Function_name path q"
    using st1(4) by (simp_all add: i st' in_range_position position_nth)
qed

section \<open>One context\<close>

text \<open>
  From the state \<open>st0\<close> on, the context built so far names exactly \<open>names\<close> and is opaque as \<open>b\<close> says.
\<close>

definition tracks :: "merge_state \<Rightarrow> ref_name set \<Rightarrow> bool \<Rightarrow> remap_state \<Rightarrow> bool" where
  "tracks st0 names b s \<longleftrightarrow> (case s of (ctx, st) \<Rightarrow>
     interns st0 st \<and> voc_ok st \<and> (\<forall>r\<in>ctx_refs ctx. ref_ok st r) \<and> name_of st ` ctx_refs ctx = names \<and> cd_opaque ctx = b)"

lemma names_stay:
  "interns st st' \<Longrightarrow> voc_ok st \<Longrightarrow> \<forall>r\<in>R. ref_ok st r \<Longrightarrow> (\<forall>r\<in>R. ref_ok st' r) \<and> name_of st' ` R = name_of st ` R"
  using name_kept by (metis (no_types, lifting) image_cong)

lemma tracks_add:
  assumes "tracks st0 names b (ctx, st)" "interns st st'" "voc_ok st'" "ref_ok st' r" "name_of st' r = name"
    and "ctx_refs ctx' = insert r (ctx_refs ctx)" "cd_opaque ctx' \<longleftrightarrow> cd_opaque ctx \<or> h"
  shows "tracks st0 (insert name names) (b \<or> h) (ctx', st')"
  using assms names_stay [OF assms(2), of "ctx_refs ctx"] interns_trans [of st0 st st'] by (auto simp: tracks_def)

lemma remap_function_tracks:
  assumes "tracks st0 names b s"
  shows "tracks st0 (insert (file_name item (Fn i)) names) (b \<or> hostile item (Fn i)) (remap_function item i s)"
proof -
  obtain ctx st where s: "s = (ctx, st)" by fastforce
  obtain path name where f: "file_function item i = (path, name)" by fastforce
  have ok: "voc_ok st" using assms s by (simp add: tracks_def)
  show ?thesis
  proof (cases name)
    case None
    obtain p st' where p: "intern_path path st = (p, st')" by fastforce
    show ?thesis
      by (simp add: remap_function_def Let_def s f None p)
        (rule tracks_add [OF assms [unfolded s] intern_path(1,2) [OF p ok], of "Mod p"],
          use intern_path(3,4) [OF p ok] in \<open>auto simp: ctx_refs_def mark_opaque_def\<close>)
  next
    case (Some q)
    obtain p st' where p: "intern_func path q st = (p, st')" by fastforce
    show ?thesis
      by (simp add: remap_function_def Let_def s f Some p)
        (rule tracks_add [OF assms [unfolded s] intern_func(1,2) [OF p ok], of "Fn p"],
          use intern_func(3,4) [OF p ok] in \<open>auto simp: ctx_refs_def mark_opaque_def\<close>)
  qed
qed

lemma remap_module_tracks:
  assumes "tracks st0 names b s"
  shows "tracks st0 (insert (file_name item (Mod i)) names) (b \<or> hostile item (Mod i)) (remap_module item i s)"
proof -
  obtain ctx st where s: "s = (ctx, st)" by fastforce
  obtain p st' where p: "intern_path (file_path item i) st = (p, st')" by fastforce
  have ok: "voc_ok st" using assms s by (simp add: tracks_def)
  show ?thesis
    by (simp add: remap_module_def Let_def s p)
      (rule tracks_add [OF assms [unfolded s] intern_path(1,2) [OF p ok], of "Mod p"],
        use intern_path(3,4) [OF p ok] in \<open>auto simp: ctx_refs_def mark_opaque_def\<close>)
qed

lemma remap_data_tracks:
  assumes "tracks st0 names b s"
  shows "tracks st0 (insert (file_name item (Dat i)) names) (b \<or> hostile item (Dat i)) (remap_data item i s)"
proof -
  obtain ctx st where s: "s = (ctx, st)" by fastforce
  obtain p st' where p: "intern_path (file_path item i) st = (p, st')" by fastforce
  have ok: "voc_ok st" using assms s by (simp add: tracks_def)
  show ?thesis
    by (simp add: remap_data_def Let_def s p)
      (rule tracks_add [OF assms [unfolded s] intern_path(1,2) [OF p ok], of "Dat p"],
        use intern_path(3,4) [OF p ok] in \<open>auto simp: ctx_refs_def mark_opaque_def\<close>)
qed

lemma fold_tracks:
  assumes "\<And>i names b s. tracks st0 names b s \<Longrightarrow> tracks st0 (insert (g (C i)) names) (b \<or> h (C i)) (f i s)"
    and "tracks st0 names b s"
  shows "tracks st0 (g ` C ` set xs \<union> names) (b \<or> (\<exists>r\<in>C ` set xs. h r)) (fold f xs s)"
  using assms(2)
proof (induction xs arbitrary: names b s)
  case (Cons i xs)
  from Cons.IH [OF assms(1) [OF Cons.prems]] show ?case by (simp add: disj_assoc Un_insert_right)
qed simp

text \<open>The merged context names exactly what the context of the file named.\<close>

lemma remap:
  assumes "remap item ctx st = (out, st')" "voc_ok st"
  shows "interns st st'" "voc_ok st'" "\<forall>r\<in>ctx_refs out. ref_ok st' r"
    "name_of st' ` ctx_refs out = file_name item ` ctx_refs ctx"
    "cd_opaque out \<longleftrightarrow> cd_opaque ctx \<or> df_tamper item \<or> (\<exists>r\<in>ctx_refs ctx. hostile item r)"
proof -
  let ?b = "cd_opaque ctx \<or> df_tamper item"
  let ?s = "(empty_context\<lparr>cd_opaque := ?b\<rparr>, st)"
  have "tracks st {} ?b ?s" using assms(2) by (simp add: tracks_def)
  from fold_tracks [where xs = "cd_functions ctx" and C = Fn and g = "file_name item" and
      h = "hostile item" and f = "remap_function item", OF remap_function_tracks this]
  have "tracks st (file_name item ` Fn ` set (cd_functions ctx) \<union> {})
      (?b \<or> (\<exists>r\<in>Fn ` set (cd_functions ctx). hostile item r)) (fold (remap_function item) (cd_functions ctx) ?s)" .
  from fold_tracks [where xs = "cd_modules ctx" and C = Mod and g = "file_name item" and
      h = "hostile item" and f = "remap_module item", OF remap_module_tracks this]
  have "tracks st (file_name item ` Mod ` set (cd_modules ctx) \<union> (file_name item ` Fn ` set (cd_functions ctx) \<union> {}))
      ((?b \<or> (\<exists>r\<in>Fn ` set (cd_functions ctx). hostile item r)) \<or> (\<exists>r\<in>Mod ` set (cd_modules ctx). hostile item r))
      (fold (remap_module item) (cd_modules ctx) (fold (remap_function item) (cd_functions ctx) ?s))" .
  from fold_tracks [where xs = "cd_data ctx" and C = Dat and g = "file_name item" and
      h = "hostile item" and f = "remap_data item", OF remap_data_tracks this]
  have t: "tracks st (file_name item ` ctx_refs ctx) (?b \<or> (\<exists>r\<in>ctx_refs ctx. hostile item r)) (remap_raw item ctx st)"
    unfolding remap_raw_def Let_def ctx_refs_def image_Un by (simp only: Un_ac disj_ac bex_Un Un_empty_left Un_empty_right)
  obtain raw where "remap_raw item ctx st = (raw, st')" "out = sort_context raw"
    using assms(1) by (auto simp: remap_def split: prod.splits)
  then have "tracks st (file_name item ` ctx_refs ctx)
      (cd_opaque ctx \<or> df_tamper item \<or> (\<exists>r\<in>ctx_refs ctx. hostile item r)) (out, st')"
    using t by (simp add: tracks_def) (simp add: sort_context_def)
  then show "interns st st'" "voc_ok st'" "\<forall>r\<in>ctx_refs out. ref_ok st' r"
    "name_of st' ` ctx_refs out = file_name item ` ctx_refs ctx"
    "cd_opaque out \<longleftrightarrow> cd_opaque ctx \<or> df_tamper item \<or> (\<exists>r\<in>ctx_refs ctx. hostile item r)"
    by (simp_all add: tracks_def)
qed

text \<open>An edge reference is kept unless it is hostile.\<close>

lemma dense_ref:
  assumes "dense_ref item r st = (d, st')" "voc_ok st"
  shows "interns st st' \<and> voc_ok st' \<and>
    (if hostile item r then d = None else \<exists>r'. d = Some r' \<and> ref_ok st' r' \<and> name_of st' r' = file_name item r)"
  using assms
  by (cases r) (auto simp: dense_ref_def split: if_splits prod.splits option.splits
      dest: intern_path [OF _ assms(2)] intern_func [OF _ assms(2)])

end
