(* ===== verification/Ingest_Sound.thy ===== *)
theory Ingest_Sound
  imports Ingest_Facts
begin

text \<open>
  A merge keeps what the files recorded: the merged state matches the set of entries merged so
  far, entry by entry, and the lazily built state is the transitive closure of the edges.
\<close>

section \<open>A context matches the entries it was merged from\<close>

definition opaque_in :: "deps_file \<Rightarrow> context_deps \<Rightarrow> bool" where
  "opaque_in item ctx \<longleftrightarrow> cd_opaque ctx \<or> df_tamper item \<or> (\<exists>r\<in>ctx_refs ctx. hostile item r)"

definition ctx_matches :: "merge_state \<Rightarrow> bool \<Rightarrow> (deps_file \<times> context_deps) set \<Rightarrow> context_deps \<Rightarrow> bool" where
  "ctx_matches st b D ctx \<longleftrightarrow>
     (\<forall>r\<in>ctx_refs ctx. ref_ok st r) \<and> name_of st ` ctx_refs ctx = (\<Union>(item, c)\<in>D. file_name item ` ctx_refs c)
     \<and> (cd_opaque ctx \<longleftrightarrow> b \<or> (\<exists>(item, c)\<in>D. opaque_in item c))"

lemma ctx_matches_interns:
  assumes "ctx_matches st b D ctx" "interns st st'" "voc_ok st"
  shows "ctx_matches st' b D ctx"
  using assms names_stay [of st st' "ctx_refs ctx"] by (simp add: ctx_matches_def)

lemma ctx_matches_remap:
  assumes "remap item c st = (out, st')" "voc_ok st"
  shows "ctx_matches st' False {(item, c)} out"
  using remap [OF assms] by (simp add: ctx_matches_def opaque_in_def)

lemma ctx_matches_mark: "ctx_matches st False D ctx \<Longrightarrow> ctx_matches st b D (mark_opaque b ctx)"
  by (auto simp: ctx_matches_def)

lemma ctx_matches_join:
  "ctx_matches st b D x \<Longrightarrow> ctx_matches st b E y \<Longrightarrow> ctx_matches st b (E \<union> D) (join_context x y)"
  by (auto simp: ctx_matches_def image_Un)

text \<open>Names and references only depend on the tables of paths and functions.\<close>

lemma name_of_cong: "ms_paths st' = ms_paths st \<Longrightarrow> ms_funcs st' = ms_funcs st \<Longrightarrow> name_of st' r = name_of st r"
  by (cases r) simp_all

lemma ref_ok_cong: "ms_paths st' = ms_paths st \<Longrightarrow> ms_funcs st' = ms_funcs st \<Longrightarrow> ref_ok st' r \<longleftrightarrow> ref_ok st r"
  by (cases r) simp_all

lemma name_of_update [simp]:
  "name_of (ms_nodes_update f1 st) = name_of st"
  "name_of (ms_fixtures_update f2 st) = name_of st"
  "name_of (ms_keys_update f3 st) = name_of st"
  "name_of (ms_lazy_update f4 st) = name_of st"
  "name_of (ms_ambient_update f5 st) = name_of st"
  "name_of (ms_recording_update f6 st) = name_of st"
  "name_of (ms_python_update f7 st) = name_of st"
  "name_of (ms_inactive_update f8 st) = name_of st"
  by (rule ext, rule name_of_cong, simp_all)+

lemma ref_ok_update [simp]:
  "ref_ok (ms_nodes_update f1 st) = ref_ok st"
  "ref_ok (ms_fixtures_update f2 st) = ref_ok st"
  "ref_ok (ms_keys_update f3 st) = ref_ok st"
  "ref_ok (ms_lazy_update f4 st) = ref_ok st"
  "ref_ok (ms_ambient_update f5 st) = ref_ok st"
  "ref_ok (ms_recording_update f6 st) = ref_ok st"
  "ref_ok (ms_python_update f7 st) = ref_ok st"
  "ref_ok (ms_inactive_update f8 st) = ref_ok st"
  by (rule ext, rule ref_ok_cong, simp_all)+

lemma ctx_matches_update [simp]:
  "ctx_matches (ms_nodes_update f1 st) = ctx_matches st"
  "ctx_matches (ms_fixtures_update f2 st) = ctx_matches st"
  "ctx_matches (ms_keys_update f3 st) = ctx_matches st"
  "ctx_matches (ms_lazy_update f4 st) = ctx_matches st"
  "ctx_matches (ms_ambient_update f5 st) = ctx_matches st"
  "ctx_matches (ms_recording_update f6 st) = ctx_matches st"
  "ctx_matches (ms_python_update f7 st) = ctx_matches st"
  "ctx_matches (ms_inactive_update f8 st) = ctx_matches st"
  by (simp_all add: fun_eq_iff ctx_matches_def)

section \<open>The merged state matches the entries\<close>

type_synonym fixture_key = "string \<times> string \<times> string"

text \<open>A merged test: its context, the fixtures it used and the worst outcome recorded for it.\<close>

definition node_matches :: "merge_state \<Rightarrow> (deps_file \<times> file_node) set \<Rightarrow> recorded_node \<Rightarrow> bool" where
  "node_matches st D n \<longleftrightarrow>
     ctx_matches st (\<not> nodeid_safe (rn_nodeid n)) ((\<lambda>(item, e). (item, fn_deps e)) ` D) (rn_deps n)
     \<and> (\<forall>i\<in>set (rn_fixtures n). in_range (length (ms_keys st)) i)
     \<and> (\<lambda>i. ms_keys st ! nat i) ` set (rn_fixtures n)
         = (\<Union>(item, e)\<in>D. (\<lambda>i. fst (df_fixtures item ! nat i)) ` set (fn_fixtures e))
     \<and> rn_outcome n \<in> (fn_outcome \<circ> snd) ` D \<and> (\<forall>(item, e)\<in>D. severity (fn_outcome e) \<le> severity (rn_outcome n))"

definition nodes_match :: "merge_state \<Rightarrow> (deps_file \<times> file_node) set \<Rightarrow> bool" where
  "nodes_match st D \<longleftrightarrow>
     (\<forall>nodeid. case map_of (ms_nodes st) nodeid of
        None \<Rightarrow> nodeid \<notin> (fn_nodeid \<circ> snd) ` D
      | Some n \<Rightarrow> rn_nodeid n = nodeid \<and> node_matches st {(item, e) \<in> D. fn_nodeid e = nodeid} n)"

definition fixtures_match :: "merge_state \<Rightarrow> (deps_file \<times> fixture_key \<times> context_deps) set \<Rightarrow> bool" where
  "fixtures_match st D \<longleftrightarrow>
     distinct (ms_keys st) \<and> set (ms_keys st) = (fst \<circ> snd) ` D
     \<and> (\<forall>i. map_of (ms_fixtures st) i \<noteq> None \<longleftrightarrow> in_range (length (ms_keys st)) i)
     \<and> (\<forall>i deps. map_of (ms_fixtures st) i = Some deps \<longrightarrow>
           ctx_matches st False ((\<lambda>(item, key, c). (item, c)) ` {(item, key, c) \<in> D. key = ms_keys st ! nat i}) deps)"

definition edges_match :: "merge_state \<Rightarrow> (deps_file \<times> state_ref \<times> state_ref) set \<Rightarrow> bool" where
  "edges_match st D \<longleftrightarrow>
     (\<forall>(a, b)\<in>set (ms_lazy st). ref_ok st a \<and> ref_ok st b)
     \<and> map_prod (name_of st) (name_of st) ` set (ms_lazy st)
         = (\<lambda>(item, a, b). (file_name item a, file_name item b))
             ` {(item, a, b) \<in> D. \<not> hostile item a \<and> \<not> hostile item b \<and> file_name item a \<noteq> file_name item b}"

record entries =
  en_nodes :: "(deps_file \<times> file_node) set"
  en_fixtures :: "(deps_file \<times> fixture_key \<times> context_deps) set"
  en_edges :: "(deps_file \<times> state_ref \<times> state_ref) set"
  en_ambient :: "(deps_file \<times> context_deps) set"

definition state_matches :: "merge_state \<Rightarrow> entries \<Rightarrow> bool" where
  "state_matches st D \<longleftrightarrow>
     voc_ok st \<and> nodes_match st (en_nodes D) \<and> fixtures_match st (en_fixtures D) \<and> edges_match st (en_edges D)
     \<and> ctx_matches st False (en_ambient D) (ms_ambient st)"

lemma matches_update [simp]:
  "nodes_match (ms_fixtures_update f1 st) = nodes_match st" "nodes_match (ms_lazy_update f2 st) = nodes_match st"
  "nodes_match (ms_ambient_update f3 st) = nodes_match st"
  "fixtures_match (ms_nodes_update f4 st) = fixtures_match st" "fixtures_match (ms_lazy_update f2 st) = fixtures_match st"
  "fixtures_match (ms_ambient_update f3 st) = fixtures_match st"
  "edges_match (ms_nodes_update f4 st) = edges_match st" "edges_match (ms_fixtures_update f1 st) = edges_match st"
  "edges_match (ms_keys_update f5 st) = edges_match st" "edges_match (ms_ambient_update f3 st) = edges_match st"
  "voc_ok (ms_nodes_update f4 st) = voc_ok st" "voc_ok (ms_fixtures_update f1 st) = voc_ok st"
  "voc_ok (ms_keys_update f5 st) = voc_ok st" "voc_ok (ms_lazy_update f2 st) = voc_ok st"
  "voc_ok (ms_ambient_update f3 st) = voc_ok st"
  by (simp_all add: fun_eq_iff nodes_match_def node_matches_def fixtures_match_def edges_match_def voc_ok_def
      cong: option.case_cong)

lemma matches_flags [simp]:
  "state_matches (ms_recording_update f1 st) = state_matches st" "state_matches (ms_python_update f2 st) = state_matches st"
  "state_matches (ms_inactive_update f3 st) = state_matches st"
  by (simp_all add: fun_eq_iff state_matches_def nodes_match_def node_matches_def fixtures_match_def edges_match_def voc_ok_def
      cong: option.case_cong)

lemma matches_interns:
  assumes m: "state_matches st D" and i: "interns st st'" and ok: "voc_ok st'"
  shows "state_matches st' D"
proof -
  obtain ps fs where st': "st' = st\<lparr>ms_paths := ms_paths st @ ps, ms_funcs := ms_funcs st @ fs\<rparr>"
    using i by (rule internsE)
  have v: "voc_ok st" using m by (simp add: state_matches_def)
  have same: "ms_nodes st' = ms_nodes st" "ms_fixtures st' = ms_fixtures st" "ms_keys st' = ms_keys st"
    "ms_lazy st' = ms_lazy st" "ms_ambient st' = ms_ambient st" by (simp_all add: st')
  have c: "ctx_matches st b D ctx \<Longrightarrow> ctx_matches st' b D ctx" for b D ctx
    using ctx_matches_interns i v by blast
  have n: "node_matches st E x \<Longrightarrow> node_matches st' E x" for E x
    using c by (auto simp: node_matches_def same)
  have "nodes_match st' (en_nodes D)"
    unfolding nodes_match_def
  proof
    fix nodeid
    show "case map_of (ms_nodes st') nodeid of
        None \<Rightarrow> nodeid \<notin> (fn_nodeid \<circ> snd) ` en_nodes D
      | Some x \<Rightarrow> rn_nodeid x = nodeid \<and> node_matches st' {(item, e) \<in> en_nodes D. fn_nodeid e = nodeid} x"
      using n m [unfolded state_matches_def nodes_match_def, THEN conjunct2, THEN conjunct1, rule_format, of nodeid]
      by (auto simp: same split: option.splits)
  qed
  moreover have "fixtures_match st' (en_fixtures D)"
    using m c by (simp add: state_matches_def fixtures_match_def same)
  moreover have "edges_match st' (en_edges D)"
  proof -
    have e: "(a, b) \<in> set (ms_lazy st) \<Longrightarrow> ref_ok st a \<and> ref_ok st b" for a b
      using m by (auto simp: state_matches_def edges_match_def)
    then have "map_prod (name_of st') (name_of st') ` set (ms_lazy st) = map_prod (name_of st) (name_of st) ` set (ms_lazy st)"
      using name_stays [OF i v] by (force intro!: image_cong)
    then show ?thesis using m e ref_stays [OF i v] by (auto simp: state_matches_def edges_match_def same)
  qed
  ultimately show ?thesis using m c ok by (simp add: state_matches_def same)
qed

section \<open>Merging a test\<close>

lemma position_new: "x \<notin> set xs \<Longrightarrow> position x (xs @ [x]) = length xs"
  by (induction xs) auto

lemma position_in_range: "x \<in> set xs \<Longrightarrow> in_range (length xs) (int (position x xs)) \<and> xs ! position x xs = x"
  using position_nth by (fastforce simp: in_range_def)

lemma bounded_weaken:
  fixes a :: nat
  assumes "\<forall>(i, x)\<in>E. f x \<le> a" "a \<le> b"
  shows "\<forall>(i, x)\<in>E. f x \<le> b"
  using assms order_trans by fastforce

lemma merge_node_matches:
  assumes m: "state_matches st D" and keys: "\<forall>i\<in>set (fn_fixtures e). fst (df_fixtures item ! nat i) \<in> set (ms_keys st)"
  shows "state_matches (merge_node item e st) (D\<lparr>en_nodes := insert (item, e) (en_nodes D)\<rparr>)"
    "ms_keys (merge_node item e st) = ms_keys st"
proof -
  obtain deps0 st1 where r: "remap item (fn_deps e) st = (deps0, st1)" by fastforce
  have v: "voc_ok st" using m by (simp add: state_matches_def)
  have m1: "state_matches st1 D" using matches_interns [OF m] remap [OF r v] by blast
  have k1: "ms_keys st1 = ms_keys st" using remap(1) [OF r v] by (auto simp: interns_def)
  define deps where "deps = mark_opaque (\<not> nodeid_safe (fn_nodeid e)) deps0"
  have d: "ctx_matches st1 (\<not> nodeid_safe (fn_nodeid e)) {(item, fn_deps e)} deps"
    unfolding deps_def by (rule ctx_matches_mark [OF ctx_matches_remap [OF r v]])
  define fids where
    "fids = selection_ids (map (\<lambda>i. int (position (fst (df_fixtures item ! nat i)) (ms_keys st1))) (fn_fixtures e))"
  have f: "\<forall>i\<in>set fids. in_range (length (ms_keys st1)) i"
    "(\<lambda>i. ms_keys st1 ! nat i) ` set fids = (\<lambda>i. fst (df_fixtures item ! nat i)) ` set (fn_fixtures e)"
  proof -
    have "in_range (length (ms_keys st)) (int (position (fst (df_fixtures item ! nat i)) (ms_keys st)))
        \<and> ms_keys st ! position (fst (df_fixtures item ! nat i)) (ms_keys st) = fst (df_fixtures item ! nat i)"
      if "i \<in> set (fn_fixtures e)" for i
      using keys that position_in_range [of "fst (df_fixtures item ! nat i)" "ms_keys st"] by blast
    then show "\<forall>i\<in>set fids. in_range (length (ms_keys st1)) i"
      "(\<lambda>i. ms_keys st1 ! nat i) ` set fids = (\<lambda>i. fst (df_fixtures item ! nat i)) ` set (fn_fixtures e)"
      by (simp_all add: fids_def k1 image_image)
  qed
  define node where
    "node = (case map_of (ms_nodes st1) (fn_nodeid e) of
       None \<Rightarrow> \<lparr>rn_nodeid = fn_nodeid e, rn_outcome = fn_outcome e, rn_deps = deps, rn_fixtures = fids\<rparr>
     | Some old \<Rightarrow>
         \<lparr>rn_nodeid = fn_nodeid e,
          rn_outcome = (if severity (rn_outcome old) \<le> severity (fn_outcome e) then fn_outcome e else rn_outcome old),
          rn_deps = join_context (rn_deps old) deps, rn_fixtures = selection_ids (rn_fixtures old @ fids)\<rparr>)"
  have out: "merge_node item e st = st1\<lparr>ms_nodes := AList.update (fn_nodeid e) node (ms_nodes st1)\<rparr>"
    unfolding merge_node_def deps_def fids_def node_def Let_def r prod.case by (rule refl)
  show "ms_keys (merge_node item e st) = ms_keys st" by (simp add: out k1)
  let ?D = "insert (item, e) (en_nodes D)"
  have node: "rn_nodeid node = fn_nodeid e \<and> node_matches st1 {(i, n) \<in> ?D. fn_nodeid n = fn_nodeid e} node"
  proof (cases "map_of (ms_nodes st1) (fn_nodeid e)")
    case None
    then have "{(i, n) \<in> ?D. fn_nodeid n = fn_nodeid e} = {(item, e)}"
      using m1 by (force simp: state_matches_def nodes_match_def split: option.splits)
    then show ?thesis using d f by (simp add: node_def None node_matches_def)
  next
    case (Some old)
    let ?E = "{(i, n) \<in> en_nodes D. fn_nodeid n = fn_nodeid e}"
    have E: "{(i, n) \<in> ?D. fn_nodeid n = fn_nodeid e} = insert (item, e) ?E" by auto
    have old: "rn_nodeid old = fn_nodeid e" "node_matches st1 ?E old"
      using m1 Some by (auto simp: state_matches_def nodes_match_def split: option.splits)
    have c: "ctx_matches st1 (\<not> nodeid_safe (fn_nodeid e)) ((\<lambda>(item, e). (item, fn_deps e)) ` insert (item, e) ?E)
        (join_context (rn_deps old) deps)"
      using ctx_matches_join [OF _ d] old by (fastforce simp: node_matches_def)
    define new where "new = (if severity (rn_outcome old) \<le> severity (fn_outcome e) then fn_outcome e else rn_outcome old)"
    have n: "node = \<lparr>rn_nodeid = fn_nodeid e, rn_outcome = new, rn_deps = join_context (rn_deps old) deps,
        rn_fixtures = selection_ids (rn_fixtures old @ fids)\<rparr>"
      by (simp add: node_def Some new_def)
    have "\<forall>(i, x)\<in>?E. severity (fn_outcome x) \<le> severity (rn_outcome old)"
      using old(2) unfolding node_matches_def by (elim conjE)
    then have "\<forall>(i, x)\<in>?E. severity (fn_outcome x) \<le> severity new" by (rule bounded_weaken) (simp add: new_def)
    moreover have "severity (fn_outcome e) \<le> severity new" by (simp add: new_def)
    ultimately have "\<forall>(i, x)\<in>insert (item, e) ?E. severity (fn_outcome x) \<le> severity new" by simp
    moreover have "new \<in> (fn_outcome \<circ> snd) ` insert (item, e) ?E"
      using old(2) by (auto simp: node_matches_def new_def)
    moreover have "(\<lambda>i. ms_keys st1 ! nat i) ` set (rn_fixtures old @ fids)
        = (\<Union>(item, e)\<in>insert (item, e) ?E. (\<lambda>i. fst (df_fixtures item ! nat i)) ` set (fn_fixtures e))"
      using old(2) f(2) by (simp add: node_matches_def image_Un Un_commute)
    moreover have "\<forall>i\<in>set (rn_fixtures old @ fids). in_range (length (ms_keys st1)) i"
      using old(2) f(1) by (auto simp: node_matches_def)
    ultimately show ?thesis
      unfolding E node_matches_def n recorded_node.simps set_selection_ids using c by (intro conjI refl)
  qed
  have nm: "node_matches (st1\<lparr>ms_nodes := xs\<rparr>) = node_matches st1" for xs
    by (simp add: fun_eq_iff node_matches_def)
  have "nodes_match (merge_node item e st) ?D"
    unfolding nodes_match_def out
  proof
    fix nodeid
    show "case map_of (ms_nodes (st1\<lparr>ms_nodes := AList.update (fn_nodeid e) node (ms_nodes st1)\<rparr>)) nodeid of
        None \<Rightarrow> nodeid \<notin> (fn_nodeid \<circ> snd) ` ?D
      | Some n \<Rightarrow> rn_nodeid n = nodeid \<and>
          node_matches (st1\<lparr>ms_nodes := AList.update (fn_nodeid e) node (ms_nodes st1)\<rparr>)
            {(i, x) \<in> ?D. fn_nodeid x = nodeid} n"
    proof (cases "nodeid = fn_nodeid e")
      case False
      then have "{(i, x) \<in> ?D. fn_nodeid x = nodeid} = {(i, x) \<in> en_nodes D. fn_nodeid x = nodeid}" by auto
      then show ?thesis
        using False m1 [unfolded state_matches_def nodes_match_def, THEN conjunct2, THEN conjunct1, rule_format, of nodeid]
        by (simp add: nm update_conv' split: option.splits)
    qed (use node in \<open>simp add: nm update_conv'\<close>)
  qed
  moreover have "voc_ok (merge_node item e st)" using m1 by (simp add: out state_matches_def voc_ok_def)
  moreover have "fixtures_match (merge_node item e st) (en_fixtures D)"
    using m1 by (simp add: out state_matches_def fixtures_match_def)
  moreover have "edges_match (merge_node item e st) (en_edges D)"
    using m1 by (simp add: out state_matches_def edges_match_def)
  ultimately show "state_matches (merge_node item e st) (D\<lparr>en_nodes := ?D\<rparr>)"
    using m1 by (simp add: state_matches_def out)
qed

section \<open>Merging a fixture, an edge and the ambient context\<close>

lemma node_matches_keys:
  assumes "node_matches st D n"
  shows "node_matches (st\<lparr>ms_keys := ms_keys st @ ks\<rparr>) D n"
proof -
  have "\<forall>i\<in>set (rn_fixtures n). in_range (length (ms_keys st)) i" using assms by (simp add: node_matches_def)
  then have "(\<lambda>i. (ms_keys st @ ks) ! nat i) ` set (rn_fixtures n) = (\<lambda>i. ms_keys st ! nat i) ` set (rn_fixtures n)"
    by (intro image_cong) (simp_all add: in_range_append)
  then show ?thesis using assms by (simp add: node_matches_def in_range_add)
qed

lemma nodes_match_keys:
  assumes "nodes_match st D" "ms_keys st' = ms_keys st @ ks" "ms_nodes st' = ms_nodes st"
    and "\<And>D n. node_matches st' D n = node_matches (st\<lparr>ms_keys := ms_keys st @ ks\<rparr>) D n"
  shows "nodes_match st' D"
  unfolding nodes_match_def
proof
  fix nodeid
  show "case map_of (ms_nodes st') nodeid of
      None \<Rightarrow> nodeid \<notin> (fn_nodeid \<circ> snd) ` D
    | Some n \<Rightarrow> rn_nodeid n = nodeid \<and> node_matches st' {(item, e) \<in> D. fn_nodeid e = nodeid} n"
    using assms(1) [unfolded nodes_match_def, rule_format, of nodeid] node_matches_keys
    by (simp add: assms(3,4) split: option.splits)
qed

definition key_entries :: "(deps_file \<times> fixture_key \<times> context_deps) set \<Rightarrow> fixture_key \<Rightarrow> (deps_file \<times> context_deps) set" where
  "key_entries D k = (\<lambda>(item, key, c). (item, c)) ` {(item, key, c) \<in> D. key = k}"

lemma key_entries_insert:
  "key_entries (insert (item, key, c) D) k = (if key = k then {(item, c)} else {}) \<union> key_entries D k"
proof -
  have "{(i, k', c') \<in> insert (item, key, c) D. k' = k}
      = (if key = k then {(item, key, c)} else {}) \<union> {(i, k', c') \<in> D. k' = k}"
    by auto
  then show ?thesis unfolding key_entries_def by (simp add: image_Un)
qed

lemma fixtures_match_insert:
  fixes key :: fixture_key
  assumes m: "fixtures_match st D" and d: "ctx_matches st False {(item, c)} out"
  defines "keys \<equiv> interned key (ms_keys st)"
  defines "dense \<equiv> int (position key keys)"
  defines "deps \<equiv> (case map_of (ms_fixtures st) dense of None \<Rightarrow> out | Some old \<Rightarrow> join_context old out)"
  shows "fixtures_match (st\<lparr>ms_keys := keys, ms_fixtures := AList.update dense deps (ms_fixtures st)\<rparr>)
    (insert (item, key, c) D)"
proof -
  obtain ks where ks: "keys = ms_keys st @ ks" using interned_append [of key "ms_keys st"] by (auto simp: keys_def)
  have dist: "distinct keys" using m by (simp add: fixtures_match_def keys_def interned_distinct)
  have dense: "in_range (length keys) dense" "keys ! nat dense = key"
    by (simp_all add: dense_def keys_def in_range_position position_nth)
  have dom: "map_of (ms_fixtures st) i \<noteq> None \<longleftrightarrow> in_range (length (ms_keys st)) i" for i
    using m by (simp add: fixtures_match_def)
  have old: "ctx_matches st False (key_entries D (keys ! nat i)) x" if "map_of (ms_fixtures st) i = Some x" for i x
  proof -
    have "in_range (length (ms_keys st)) i" using dom [of i] that by simp
    then have "keys ! nat i = ms_keys st ! nat i" by (simp add: ks in_range_append)
    then show ?thesis using m that by (simp add: fixtures_match_def key_entries_def)
  qed
  have deps: "ctx_matches st False (key_entries (insert (item, key, c) D) key) deps"
  proof (cases "map_of (ms_fixtures st) dense")
    case None
    have "key \<notin> set (ms_keys st)"
    proof
      assume "key \<in> set (ms_keys st)"
      then have "keys = ms_keys st" by (simp add: keys_def interned_def)
      then show False using dense(1) dom [of dense] None by simp
    qed
    then have "key \<notin> (fst \<circ> snd) ` D" using m by (simp add: fixtures_match_def)
    then have "key_entries D key = {}" by (force simp: key_entries_def)
    then show ?thesis using d by (simp add: key_entries_insert deps_def None)
  next
    case (Some x)
    then show ?thesis
      using ctx_matches_join [OF old [OF Some] d] by (simp add: key_entries_insert deps_def dense(2))
  qed
  have in_keys: "in_range (length keys) i \<longleftrightarrow> in_range (length (ms_keys st)) i \<or> i = dense" for i
  proof (cases "key \<in> set (ms_keys st)")
    case True
    then have "keys = ms_keys st" by (simp add: keys_def interned_def)
    then show ?thesis using dense(1) by auto
  next
    case False
    then have "dense = int (length (ms_keys st))" by (simp add: dense_def keys_def interned_def position_new)
    then show ?thesis using False by (auto simp: keys_def interned_def in_range_def)
  qed
  have other: "keys ! nat i \<noteq> key" if "in_range (length (ms_keys st)) i" "i \<noteq> dense" for i
    using that dense in_range_inj [OF dist, of i dense] in_keys [of i] by auto
  show ?thesis
    unfolding fixtures_match_def
  proof (intro conjI allI impI)
    show "distinct (ms_keys (st\<lparr>ms_keys := keys, ms_fixtures := AList.update dense deps (ms_fixtures st)\<rparr>))"
      using dist by simp
    show "set (ms_keys (st\<lparr>ms_keys := keys, ms_fixtures := AList.update dense deps (ms_fixtures st)\<rparr>))
        = (fst \<circ> snd) ` insert (item, key, c) D"
      using m by (simp add: keys_def fixtures_match_def)
    show "map_of (ms_fixtures (st\<lparr>ms_keys := keys, ms_fixtures := AList.update dense deps (ms_fixtures st)\<rparr>)) i \<noteq> None
      \<longleftrightarrow> in_range (length (ms_keys (st\<lparr>ms_keys := keys, ms_fixtures := AList.update dense deps (ms_fixtures st)\<rparr>))) i" for i
      using dom [of i] in_keys [of i] by (simp add: update_conv')
    fix i x
    assume x: "map_of (ms_fixtures (st\<lparr>ms_keys := keys, ms_fixtures := AList.update dense deps (ms_fixtures st)\<rparr>)) i = Some x"
    have "ctx_matches st False (key_entries (insert (item, key, c) D) (keys ! nat i)) x"
    proof (cases "i = dense")
      case True
      then show ?thesis using x deps dense(2) by (simp add: update_conv')
    next
      case False
      then have y: "map_of (ms_fixtures st) i = Some x" using x by (simp add: update_conv')
      then show ?thesis using old [OF y] other [of i] False dom [of i] by (auto simp: key_entries_insert)
    qed
    then show "ctx_matches (st\<lparr>ms_keys := keys, ms_fixtures := AList.update dense deps (ms_fixtures st)\<rparr>) False
        ((\<lambda>(item, key, c). (item, c)) ` {(i', k, c') \<in> insert (item, key, c) D.
           k = ms_keys (st\<lparr>ms_keys := keys, ms_fixtures := AList.update dense deps (ms_fixtures st)\<rparr>) ! nat i}) x"
      by (simp add: key_entries_def)
  qed
qed

lemma merge_fixture_matches:
  assumes m: "state_matches st D"
  shows "state_matches (merge_fixture item (key, c) st) (D\<lparr>en_fixtures := insert (item, key, c) (en_fixtures D)\<rparr>)"
proof -
  let ?keys = "interned key (ms_keys st)"
  obtain out st1 where r: "remap item c (st\<lparr>ms_keys := ?keys\<rparr>) = (out, st1)" by fastforce
  have v: "voc_ok (st\<lparr>ms_keys := ?keys\<rparr>)" using m by (simp add: state_matches_def voc_ok_def)
  obtain ps fs where st1: "st1 = st\<lparr>ms_keys := ?keys, ms_paths := ms_paths st @ ps, ms_funcs := ms_funcs st @ fs\<rparr>"
    using remap(1) [OF r v] by (rule internsE) simp
  define st2 where "st2 = st\<lparr>ms_paths := ms_paths st @ ps, ms_funcs := ms_funcs st @ fs\<rparr>"
  have st1': "st1 = st2\<lparr>ms_keys := ?keys\<rparr>" and keys2: "ms_keys st2 = ms_keys st" by (simp_all add: st1 st2_def)
  have "interns st st2" by (auto simp: interns_def st2_def)
  moreover have "voc_ok st2" using remap(2) [OF r v] by (simp add: st1' voc_ok_def)
  ultimately have m2: "state_matches st2 D" by (rule matches_interns [OF m])
  have d: "ctx_matches st2 False {(item, c)} out"
    using ctx_matches_remap [OF r v] by (simp add: st1')
  let ?dense = "int (position key ?keys)"
  let ?deps = "case map_of (ms_fixtures st2) ?dense of None \<Rightarrow> out | Some old \<Rightarrow> join_context old out"
  let ?st = "st2\<lparr>ms_keys := ?keys, ms_fixtures := AList.update ?dense ?deps (ms_fixtures st2)\<rparr>"
  have out: "merge_fixture item (key, c) st = ?st"
    unfolding merge_fixture_def Let_def prod.case r by (simp add: st1')
  have f: "fixtures_match ?st (insert (item, key, c) (en_fixtures D))"
    using fixtures_match_insert [of st2 "en_fixtures D" item c out key] m2 d by (simp add: state_matches_def keys2)
  obtain ks where ks: "?keys = ms_keys st2 @ ks" using interned_append [of key "ms_keys st"] keys2 by auto
  have n: "nodes_match ?st (en_nodes D)"
    by (rule nodes_match_keys [of st2 _ _ ks]) (use m2 in \<open>simp_all add: state_matches_def ks node_matches_def\<close>)
  show ?thesis
    using m2 f n unfolding out by (simp add: state_matches_def)
qed

lemma set_list_insert: "set (List.insert x xs) = insert x (set xs)"
  by simp

lemma merge_edge_matches:
  assumes m: "state_matches st D"
  shows "state_matches (merge_edge item (a, b) st) (D\<lparr>en_edges := insert (item, a, b) (en_edges D)\<rparr>)"
proof -
  have v: "voc_ok st" using m by (simp add: state_matches_def)
  obtain o1 st1 where d1: "dense_ref item a st = (o1, st1)" by fastforce
  obtain o2 st2 where d2: "dense_ref item b st1 = (o2, st2)" by fastforce
  note r1 = dense_ref [OF d1 v]
  then have v1: "voc_ok st1" by blast
  note r2 = dense_ref [OF d2 v1]
  have m2: "state_matches st2 D" using matches_interns [OF matches_interns [OF m]] r1 r2 by blast
  let ?D = "insert (item, a, b) (en_edges D)"
  have set: "{(item, a, b) \<in> ?D. \<not> hostile item a \<and> \<not> hostile item b \<and> file_name item a \<noteq> file_name item b}
      = (if \<not> hostile item a \<and> \<not> hostile item b \<and> file_name item a \<noteq> file_name item b then {(item, a, b)} else {})
        \<union> {(item, a, b) \<in> en_edges D. \<not> hostile item a \<and> \<not> hostile item b \<and> file_name item a \<noteq> file_name item b}"
    by auto
  show ?thesis
  proof (cases "hostile item a \<or> hostile item b")
    case True
    then have "merge_edge item (a, b) st = st2"
      using r1 r2 by (auto simp: merge_edge_def d1 d2 split: option.splits if_splits)
    moreover have c: "(\<not> hostile item a \<and> \<not> hostile item b \<and> file_name item a \<noteq> file_name item b) = False"
      using True by blast
    have "edges_match st2 ?D" unfolding edges_match_def set c using m2 by (simp add: state_matches_def edges_match_def)
    then have "state_matches st2 (D\<lparr>en_edges := ?D\<rparr>)" using m2 by (simp add: state_matches_def)
    ultimately show ?thesis by simp
  next
    case False
    obtain x where x: "o1 = Some x" "ref_ok st1 x" "name_of st1 x = file_name item a" using r1 False by auto
    obtain y where y: "o2 = Some y" "ref_ok st2 y" "name_of st2 y = file_name item b" using r2 False by auto
    have x2: "ref_ok st2 x" "name_of st2 x = file_name item a"
      using name_kept [of st1 st2 x] r2 v1 x by auto
    have v2: "voc_ok st2" using r2 by blast
    have eq: "x = y \<longleftrightarrow> file_name item a = file_name item b"
      using name_of_inj [OF v2 x2(1) y(2)] x2 y by auto
    have out: "merge_edge item (a, b) st = (if x \<noteq> y then st2\<lparr>ms_lazy := List.insert (x, y) (ms_lazy st2)\<rparr> else st2)"
      by (simp add: merge_edge_def d1 d2 x y)
    have "edges_match (merge_edge item (a, b) st) ?D"
      using m2 x2 y False eq unfolding edges_match_def set out
      by (auto simp: state_matches_def edges_match_def set_list_insert)
    then show ?thesis using m2 by (simp add: out state_matches_def)
  qed
qed

lemma merge_ambient_matches:
  assumes m: "state_matches st D"
  shows "state_matches (merge_ambient item st) (D\<lparr>en_ambient := insert (item, df_ambient item) (en_ambient D)\<rparr>)"
proof -
  obtain out st1 where r: "remap item (df_ambient item) st = (out, st1)" by fastforce
  have v: "voc_ok st" using m by (simp add: state_matches_def)
  have m1: "state_matches st1 D" using matches_interns [OF m] remap [OF r v] by blast
  have "ms_ambient st1 = ms_ambient st" using remap(1) [OF r v] by (auto simp: interns_def)
  then have "ctx_matches st1 False (insert (item, df_ambient item) (en_ambient D)) (join_context (ms_ambient st1) out)"
    using ctx_matches_join [OF _ ctx_matches_remap [OF r v], of "en_ambient D" "ms_ambient st1"] m1 by (simp add: state_matches_def)
  moreover have "merge_ambient item st = st1\<lparr>ms_ambient := join_context (ms_ambient st1) out\<rparr>"
    using \<open>ms_ambient st1 = _\<close> by (simp add: merge_ambient_def r)
  ultimately show ?thesis
    using m1 by (simp add: state_matches_def)
qed

end
