(* ===== verification/Ingest_Result.thy ===== *)
theory Ingest_Result
  imports Ingest_Sound
begin

text \<open>
  The merged run: all entries of all files are matched, lazily built state is added along the
  transitive closure of the ownership edges, and every id resolves for the planner.
\<close>

section \<open>All files\<close>

definition entries_of :: "deps_file set \<Rightarrow> entries" where
  "entries_of items =
     \<lparr>en_nodes = {(item, e). item \<in> items \<and> e \<in> set (df_nodes item)},
      en_fixtures = {(item, f). item \<in> items \<and> f \<in> set (df_fixtures item)},
      en_edges = {(item, d). item \<in> items \<and> d \<in> set (df_lazy item)},
      en_ambient = (\<lambda>item. (item, df_ambient item)) ` items\<rparr>"

definition file_ok :: "deps_file \<Rightarrow> bool" where
  "file_ok item \<longleftrightarrow>
     (\<forall>e\<in>set (df_nodes item). \<forall>i\<in>set (fn_fixtures e). in_range (length (df_fixtures item)) i)
     \<and> (\<forall>(owner, state)\<in>set (df_lazy item). \<forall>i. owner \<noteq> Dat i)"

lemma fold_fixtures_matches:
  "state_matches st D \<Longrightarrow>
     state_matches (fold (merge_fixture item) xs st) (D\<lparr>en_fixtures := Pair item ` set xs \<union> en_fixtures D\<rparr>)"
proof (induction xs arbitrary: st D)
  case (Cons x xs)
  obtain key c where x: "x = (key, c)" by fastforce
  from Cons.IH [OF merge_fixture_matches [OF Cons.prems, of item key c]] show ?case by (simp add: x Un_insert_right)
qed simp

lemma fold_edges_matches:
  "state_matches st D \<Longrightarrow> state_matches (fold (merge_edge item) xs st) (D\<lparr>en_edges := Pair item ` set xs \<union> en_edges D\<rparr>)"
proof (induction xs arbitrary: st D)
  case (Cons x xs)
  obtain a b where x: "x = (a, b)" by fastforce
  from Cons.IH [OF merge_edge_matches [OF Cons.prems, of item a b]] show ?case by (simp add: x Un_insert_right)
qed simp

lemma fold_nodes_matches:
  assumes "state_matches st D" "\<forall>e\<in>set xs. \<forall>i\<in>set (fn_fixtures e). fst (df_fixtures item ! nat i) \<in> set (ms_keys st)"
  shows "state_matches (fold (merge_node item) xs st) (D\<lparr>en_nodes := Pair item ` set xs \<union> en_nodes D\<rparr>)"
  using assms
proof (induction xs arbitrary: st D)
  case (Cons x xs)
  then have k: "\<forall>i\<in>set (fn_fixtures x). fst (df_fixtures item ! nat i) \<in> set (ms_keys st)" by simp
  note s = merge_node_matches [OF Cons.prems(1) k]
  have "\<forall>e\<in>set xs. \<forall>i\<in>set (fn_fixtures e). fst (df_fixtures item ! nat i) \<in> set (ms_keys (merge_node item x st))"
    using Cons.prems(2) s(2) by simp
  from Cons.IH [OF s(1) this] show ?case by (simp add: Un_insert_right)
qed simp

lemma entries_of_insert:
  "entries_of (insert item items) = entries_of items
     \<lparr>en_fixtures := Pair item ` set (df_fixtures item) \<union> en_fixtures (entries_of items),
      en_nodes := Pair item ` set (df_nodes item) \<union> en_nodes (entries_of items),
      en_edges := Pair item ` set (df_lazy item) \<union> en_edges (entries_of items),
      en_ambient := insert (item, df_ambient item) (en_ambient (entries_of items))\<rparr>"
  by (rule entries.equality) (auto simp: entries_of_def)

lemma merge_file_matches:
  assumes m: "state_matches st (entries_of items)" and ok: "file_ok item"
  shows "state_matches (merge_file item st) (entries_of (insert item items))"
proof -
  define st0 where "st0 = st\<lparr>ms_recording := ms_recording st \<or> df_recording item,
      ms_python := first_some (ms_python st) (df_python item), ms_inactive := first_some (ms_inactive st) (df_inactive item)\<rparr>"
  have m0: "state_matches st0 (entries_of items)" using m by (simp add: st0_def)
  let ?st1 = "fold (merge_fixture item) (df_fixtures item) st0"
  note m1 = fold_fixtures_matches [OF m0, of item "df_fixtures item"]
  have keys: "set (ms_keys ?st1) = (fst \<circ> snd) ` (Pair item ` set (df_fixtures item) \<union> en_fixtures (entries_of items))"
    using m1 by (simp add: state_matches_def fixtures_match_def)
  have "\<forall>e\<in>set (df_nodes item). \<forall>i\<in>set (fn_fixtures e). fst (df_fixtures item ! nat i) \<in> set (ms_keys ?st1)"
    using ok in_range_nth by (force simp: file_ok_def keys image_Un image_image)
  note m3 = merge_ambient_matches [OF fold_edges_matches [OF fold_nodes_matches [OF m1 this], of item "df_lazy item"], of item]
  show ?thesis using m3 unfolding entries_of_insert by (simp add: merge_file_def Let_def st0_def)
qed

lemma empty_matches: "state_matches empty_merge (entries_of {})"
  by (simp add: state_matches_def entries_of_def empty_merge_def nodes_match_def fixtures_match_def edges_match_def voc_ok_def
      ctx_matches_def in_range_def) (simp add: empty_context_def)

lemma fold_files_matches:
  "state_matches st (entries_of done) \<Longrightarrow> \<forall>item\<in>set items. file_ok item \<Longrightarrow>
     state_matches (fold merge_file items st) (entries_of (set items \<union> done))"
proof (induction items arbitrary: st "done")
  case (Cons item items)
  then show ?case using Cons.IH [OF merge_file_matches [OF Cons.prems(1)]] by (simp add: Un_insert_right)
qed simp

lemma merged_matches:
  "\<forall>item\<in>set items. file_ok item \<Longrightarrow> state_matches (fold merge_file items empty_merge) (entries_of (set items))"
  using fold_files_matches [OF empty_matches] by simp

section \<open>Lazily built state\<close>

lemma set_states_under: "set (states_under lazy r) = set lazy `` {r}"
  by (force simp: states_under_def)

lemma trancl_frontier:
  assumes "E `` {r} \<subseteq> F" and "\<forall>f\<in>F. f \<in> S \<or> E `` {f} \<subseteq> F"
  shows "E\<^sup>+ `` {r} \<subseteq> F \<union> E\<^sup>+ `` S"
proof
  fix y assume "y \<in> E\<^sup>+ `` {r}"
  then have "(r, y) \<in> E\<^sup>+" by simp
  then show "y \<in> F \<union> E\<^sup>+ `` S"
  proof induction
    case (base y)
    then show ?case using assms(1) by auto
  next
    case (step y z)
    from step.IH show ?case
    proof
      assume "y \<in> F"
      then show ?thesis using assms(2) step.hyps(2) by (cases "y \<in> S") auto
    next
      assume "y \<in> E\<^sup>+ `` S"
      then show ?thesis using step.hyps(2) by (auto intro: trancl_into_trancl)
    qed
  qed
qed

lemma lazy_loop_closure:
  "\<forall>f\<in>set found. f \<in> set stack \<or> set lazy `` {f} \<subseteq> set found \<Longrightarrow>
     set (lazy_loop lazy found stack) = set found \<union> (set lazy)\<^sup>+ `` set stack"
proof (induction lazy found stack rule: lazy_loop.induct)
  case (2 lazy found r stack)
  let ?E = "set lazy"
  define fresh where "fresh = remdups (filter (\<lambda>s. s \<notin> set found) (states_under lazy r))"
  have fresh: "set fresh = ?E `` {r} - set found" by (auto simp: fresh_def set_states_under)
  have prem: "\<forall>f\<in>set (fresh @ found). f \<in> set (rev fresh @ stack) \<or> ?E `` {f} \<subseteq> set (fresh @ found)"
    using "2.prems" fresh by auto
  have "set (lazy_loop lazy found (r # stack)) = set (fresh @ found) \<union> ?E\<^sup>+ `` set (rev fresh @ stack)"
    using "2.IH" [OF fresh_def prem] by (simp add: fresh_def Let_def)
  also have "\<dots> = set found \<union> ?E\<^sup>+ `` set (r # stack)"
  proof
    have "set fresh \<subseteq> ?E\<^sup>+ `` {r}" using fresh by auto
    moreover have "?E\<^sup>+ `` set fresh \<subseteq> ?E\<^sup>+ `` {r}" using fresh by (auto intro: trancl_into_trancl2)
    ultimately show "set (fresh @ found) \<union> ?E\<^sup>+ `` set (rev fresh @ stack) \<subseteq> set found \<union> ?E\<^sup>+ `` set (r # stack)" by auto
    have "?E\<^sup>+ `` {r} \<subseteq> set (fresh @ found) \<union> ?E\<^sup>+ `` set (rev fresh @ stack)"
      by (rule trancl_frontier [OF _ prem]) (use fresh in auto)
    then show "set found \<union> ?E\<^sup>+ `` set (r # stack) \<subseteq> set (fresh @ found) \<union> ?E\<^sup>+ `` set (rev fresh @ stack)" by auto
  qed
  finally show ?case .
qed simp

text \<open>The context with its lazily built state: everything reachable over the edges.\<close>

lemma ctx_refs_with_lazy:
  assumes "\<forall>(a, b)\<in>set lazy. \<forall>i. a \<noteq> Dat i"
  shows "ctx_refs (with_lazy lazy deps) = ctx_refs deps \<union> (set lazy)\<^sup>+ `` ctx_refs deps"
    "cd_opaque (with_lazy lazy deps) = cd_opaque deps"
proof -
  define stack where "stack = filter (\<lambda>r. r \<in> fst ` set lazy) (map Fn (cd_functions deps) @ map Mod (cd_modules deps))"
  define found where "found = lazy_loop lazy [] (rev stack)"
  have w: "with_lazy lazy deps = (if stack = [] then deps else
      \<lparr>cd_functions = selection_ids (cd_functions deps @ concat (map fn_of found)),
       cd_modules = selection_ids (cd_modules deps @ concat (map mod_of found)),
       cd_data = selection_ids (cd_data deps @ concat (map dat_of found)), cd_opaque = cd_opaque deps\<rparr>)"
    unfolding with_lazy_def Let_def stack_def found_def by (rule refl)
  have "(set lazy)\<^sup>+ `` ctx_refs deps = (set lazy)\<^sup>+ `` set stack"
  proof -
    have "r \<in> set stack \<longleftrightarrow> r \<in> ctx_refs deps" if "(r, s) \<in> (set lazy)\<^sup>+" for r s
    proof -
      have "r \<in> fst ` set lazy" using that by (induction rule: converse_trancl_induct) force+
      moreover from this have "r \<noteq> Dat i" for i using assms by fastforce
      ultimately show ?thesis by (auto simp: stack_def ctx_refs_def)
    qed
    then show ?thesis by blast
  qed
  moreover have "set found = (set lazy)\<^sup>+ `` set stack"
    using lazy_loop_closure [of "[]" "rev stack" lazy] by (simp add: found_def)
  moreover have "ctx_refs (with_lazy lazy deps) = ctx_refs deps \<union> (if stack = [] then {} else set found)"
  proof (cases "stack = []")
    case False
    have split: "Fn ` (\<Union>x\<in>X. set (fn_of x)) \<union> Mod ` (\<Union>x\<in>X. set (mod_of x)) \<union> Dat ` (\<Union>x\<in>X. set (dat_of x)) = X" for X
    proof -
      have "Fn ` set (fn_of x) \<union> Mod ` set (mod_of x) \<union> Dat ` set (dat_of x) = {x}" for x by (cases x) auto
      then show ?thesis by (simp add: image_UN UN_Un_distrib [symmetric])
    qed
    show ?thesis
      using False by (simp add: w ctx_refs_def image_Un) (use split [of "set found"] in blast)
  qed (simp add: w)
  ultimately show "ctx_refs (with_lazy lazy deps) = ctx_refs deps \<union> (set lazy)\<^sup>+ `` ctx_refs deps" by auto
  show "cd_opaque (with_lazy lazy deps) = cd_opaque deps" by (simp add: w)
qed

lemma trancl_image:
  assumes inj: "inj_on f A" and E: "E \<subseteq> A \<times> A" and R: "R \<subseteq> A"
  shows "f ` (E\<^sup>+ `` R) = (map_prod f f ` E)\<^sup>+ `` (f ` R)"
proof
  have "(f r, f y) \<in> (map_prod f f ` E)\<^sup>+" if "(r, y) \<in> E\<^sup>+" for r y
    using that by (induction rule: trancl_induct) (force intro: trancl_into_trancl)+
  then show "f ` (E\<^sup>+ `` R) \<subseteq> (map_prod f f ` E)\<^sup>+ `` (f ` R)" by blast
  have "\<exists>y. y' = f y \<and> (r, y) \<in> E\<^sup>+ \<and> y \<in> A" if "(f r, y') \<in> (map_prod f f ` E)\<^sup>+" "r \<in> A" for r y'
    using that(1)
  proof (induction rule: trancl_induct)
    case (base y')
    then obtain a b where "(a, b) \<in> E" "f a = f r" "y' = f b" by auto
    then show ?case using E that(2) inj by (metis inj_onD mem_Sigma_iff subsetD trancl.r_into_trancl)
  next
    case (step y' z')
    then obtain y where y: "y' = f y" "(r, y) \<in> E\<^sup>+" "y \<in> A" by blast
    from step.hyps(2) obtain a b where "(a, b) \<in> E" "f a = y'" "z' = f b" by auto
    then show ?case using E y inj by (metis inj_onD mem_Sigma_iff subsetD trancl_into_trancl)
  qed
  then show "(map_prod f f ` E)\<^sup>+ `` (f ` R) \<subseteq> f ` (E\<^sup>+ `` R)" using R by fast
qed

section \<open>Accepted files\<close>

lemma decode_all_in: "decode_all f xs = Some ys \<Longrightarrow> y \<in> set ys \<Longrightarrow> \<exists>x. f x = Some y"
  by (induction xs arbitrary: ys) (auto split: option.splits)

lemma json_ids_range: "json_ids n v = Some ids \<Longrightarrow> i \<in> set ids \<Longrightarrow> in_range n i"
  by (auto simp: json_ids_def json_id_def Option.bind_eq_Some_conv dest!: decode_all_in split: option.splits if_splits)

lemma check_all_in: "check_all f xs = Accepted ys \<Longrightarrow> y \<in> set ys \<Longrightarrow> \<exists>x. f x = Accepted y"
  by (induction xs arbitrary: ys) (auto split: checked.splits)

lemma check_all_length: "check_all f xs = Accepted ys \<Longrightarrow> length ys = length xs"
  by (induction xs arbitrary: ys) (auto split: checked.splits)

lemma parse_node_fixtures:
  "parse_node n_funcs n_paths n_fixtures v = Accepted e \<Longrightarrow> i \<in> set (fn_fixtures e) \<Longrightarrow> in_range n_fixtures i"
  by (auto simp: parse_node_def json_ids_range split: json.splits option.splits if_splits checked.splits)

lemma parse_edge_owner: "parse_edge n_funcs n_paths v = Some (a, b) \<Longrightarrow> a \<noteq> Dat i"
  by (auto simp: parse_edge_def split: option.splits list.splits state_ref.splits)

lemma parse_lazy_owner: "(a, b) \<in> set (parse_lazy data n_funcs n_paths) \<Longrightarrow> a \<noteq> Dat i"
proof (cases "Option.bind (Option.bind data json_list) (decode_all (parse_edge n_funcs n_paths))")
  case (Some edges)
  moreover assume "(a, b) \<in> set (parse_lazy data n_funcs n_paths)"
  ultimately have "(a, b) \<in> set edges" by (simp add: parse_lazy_def)
  moreover obtain vs where "decode_all (parse_edge n_funcs n_paths) vs = Some edges"
    using Some by (auto simp: Option.bind_eq_Some_conv)
  ultimately show ?thesis using decode_all_in parse_edge_owner by metis
qed (simp add: parse_lazy_def)

lemma parse_file_tables:
  assumes "parse_file payload pid run = Accepted item"
  obtains tbl n_funcs n_paths fixtures nodes where
    "check_all (parse_fixture n_funcs n_paths) fixtures = Accepted (df_fixtures item)"
    "check_all (parse_node n_funcs n_paths (length fixtures)) nodes = Accepted (df_nodes item)"
    "df_lazy item = parse_lazy (map_of tbl ''lazy'') n_funcs n_paths"
  using assms unfolding parse_file_def
  by (auto split: json.splits if_splits option.splits checked.splits)

lemma parse_file_ok:
  assumes "parse_file payload pid run = Accepted item"
  shows "file_ok item"
proof -
  obtain tbl n_funcs n_paths fixtures nodes where t:
    "check_all (parse_fixture n_funcs n_paths) fixtures = Accepted (df_fixtures item)"
    "check_all (parse_node n_funcs n_paths (length fixtures)) nodes = Accepted (df_nodes item)"
    "df_lazy item = parse_lazy (map_of tbl ''lazy'') n_funcs n_paths"
    using assms by (rule parse_file_tables)
  have "in_range (length (df_fixtures item)) i" if "e \<in> set (df_nodes item)" "i \<in> set (fn_fixtures e)" for e i
    using check_all_in [OF t(2) that(1)] parse_node_fixtures that(2) check_all_length [OF t(1)] by metis
  moreover have "a \<noteq> Dat i" if "(a, b) \<in> set (df_lazy item)" for a b i
    using that parse_lazy_owner unfolding t(3) by blast
  ultimately show ?thesis unfolding file_ok_def by blast
qed

section \<open>What the planner resolves\<close>

definition path_names :: "context_sets \<Rightarrow> ref_name set" where
  "path_names sets = (case sets of (funcs, mods, data) \<Rightarrow>
     (\<lambda>(path, q). Function_name path q) ` set funcs \<union> Module_name ` set mods \<union> Data_name ` set data)"

lemma path_names_join [simp]: "path_names (join_sets a b) = path_names a \<union> path_names b"
  by (auto simp: path_names_def join_sets_def split: prod.splits)

lemma resolve_all_total:
  "\<forall>x\<in>set xs. f x \<noteq> None \<Longrightarrow> resolve_all lenient f xs = Some (map (\<lambda>x. the (f x)) xs)"
  by (induction xs) auto

definition voc_of :: "merge_state \<Rightarrow> vocabulary" where
  "voc_of st = \<lparr>vo_paths = ms_paths st, vo_functions = ms_funcs st, vo_fixtures = ms_keys st\<rparr>"

lemma resolve_path_ok: "in_range (length (ms_paths st)) i \<Longrightarrow> resolve_path (voc_of st) i = Some (ms_paths st ! nat i)"
  by (simp add: resolve_path_def voc_of_def in_range_def)

lemma resolve_function_ok:
  assumes "voc_ok st" "ref_ok st (Fn i)"
  shows "\<exists>p q. resolve_function (voc_of st) i = Some (p, q) \<and> name_of st (Fn i) = Function_name p q"
proof -
  obtain p q where pq: "ms_funcs st ! nat i = (p, q)" by fastforce
  then have "(p, q) \<in> set (ms_funcs st)" using assms(2) in_range_nth by fastforce
  then have "in_range (length (ms_paths st)) p" using assms(1) by (auto simp: voc_ok_def)
  then show ?thesis using pq assms(2) resolve_path_ok by (simp add: resolve_function_def voc_of_def in_range_def)
qed

lemma own_paths_ok:
  assumes v: "voc_ok st" and r: "\<forall>r\<in>ctx_refs ctx. ref_ok st r"
  shows "\<exists>ps. own_paths (voc_of st) lenient ctx = Some ps \<and> path_names ps = name_of st ` ctx_refs ctx"
proof -
  have f: "\<exists>p q. resolve_function (voc_of st) i = Some (p, q) \<and> name_of st (Fn i) = Function_name p q"
    if "i \<in> set (cd_functions ctx)" for i
  proof (rule resolve_function_ok [OF v])
    have "Fn i \<in> ctx_refs ctx" using that by (simp add: ctx_refs_def)
    then show "ref_ok st (Fn i)" using r by blast
  qed
  have m: "resolve_path (voc_of st) i = Some (ms_paths st ! nat i)" if "i \<in> set (cd_modules ctx) \<union> set (cd_data ctx)" for i
  proof (rule resolve_path_ok)
    have "Mod i \<in> ctx_refs ctx \<or> Dat i \<in> ctx_refs ctx" using that by (auto simp: ctx_refs_def)
    then show "in_range (length (ms_paths st)) i" using r by fastforce
  qed
  let ?fs = "map (\<lambda>x. the (resolve_function (voc_of st) x)) (cd_functions ctx)"
  let ?at = "map (\<lambda>x. the (resolve_path (voc_of st) x))"
  have own: "own_paths (voc_of st) lenient ctx = Some (?fs, ?at (cd_modules ctx), ?at (cd_data ctx))"
  proof -
    have "\<forall>i\<in>set (cd_functions ctx). resolve_function (voc_of st) i \<noteq> None" using f by blast
    moreover have "\<forall>i\<in>set (cd_modules ctx). resolve_path (voc_of st) i \<noteq> None"
      "\<forall>i\<in>set (cd_data ctx). resolve_path (voc_of st) i \<noteq> None" using m by simp_all
    ultimately show ?thesis by (simp only: own_paths_def resolve_all_total prod.case option.case)
  qed
  have "(\<lambda>(p, q). Function_name p q) ` set ?fs = name_of st ` Fn ` set (cd_functions ctx)"
    unfolding set_map image_image by (rule image_cong) (use f in fastforce)+
  moreover have "Module_name ` set (?at (cd_modules ctx)) = name_of st ` Mod ` set (cd_modules ctx)"
    unfolding set_map image_image by (rule image_cong) (use m in auto)
  moreover have "Data_name ` set (?at (cd_data ctx)) = name_of st ` Dat ` set (cd_data ctx)"
    unfolding set_map image_image by (rule image_cong) (use m in auto)
  ultimately show ?thesis using own by (simp add: path_names_def ctx_refs_def image_Un)
qed

section \<open>The merged run in terms of names\<close>

text \<open>What the files recorded for a test and for a fixture, and who builds which state lazily.\<close>

definition recorded :: "deps_file list \<Rightarrow> string \<Rightarrow> ref_name set" where
  "recorded items nodeid =
     (\<Union>item\<in>set items. \<Union>e\<in>{e \<in> set (df_nodes item). fn_nodeid e = nodeid}. file_name item ` ctx_refs (fn_deps e))"

definition recorded_fixture :: "deps_file list \<Rightarrow> fixture_key \<Rightarrow> ref_name set" where
  "recorded_fixture items key =
     (\<Union>item\<in>set items. \<Union>(k, c)\<in>{(k, c) \<in> set (df_fixtures item). k = key}. file_name item ` ctx_refs c)"

definition owned :: "deps_file list \<Rightarrow> (ref_name \<times> ref_name) set" where
  "owned items =
     (\<Union>item\<in>set items. (\<lambda>(a, b). (file_name item a, file_name item b))
        ` {(a, b) \<in> set (df_lazy item). \<not> hostile item a \<and> \<not> hostile item b \<and> file_name item a \<noteq> file_name item b})"

definition with_owned :: "deps_file list \<Rightarrow> ref_name set \<Rightarrow> ref_name set" where
  "with_owned items names = names \<union> (owned items)\<^sup>+ `` names"

lemma with_lazy_nil [simp]: "with_lazy [] deps = deps"
  by (simp add: with_lazy_def)

lemma merge_result_lazily: "(if lazy = [] then (\<lambda>deps. deps) else with_lazy lazy) = with_lazy lazy"
  by auto

lemma owned_edges: "state_matches st (entries_of (set items)) \<Longrightarrow> map_prod (name_of st) (name_of st) ` set (ms_lazy st) = owned items"
proof -
  assume m: "state_matches st (entries_of (set items))"
  have "{(item, a, b) \<in> en_edges (entries_of (set items)).
        \<not> hostile item a \<and> \<not> hostile item b \<and> file_name item a \<noteq> file_name item b}
      = (\<Union>item\<in>set items. Pair item ` {(a, b) \<in> set (df_lazy item).
           \<not> hostile item a \<and> \<not> hostile item b \<and> file_name item a \<noteq> file_name item b})"
    by (auto simp: entries_of_def)
  then show ?thesis using m by (simp add: state_matches_def edges_match_def owned_def image_UN image_image case_prod_beta)
qed

text \<open>Adding the lazily built state to a context of the merged state.\<close>

lemma with_lazy_names:
  assumes m: "state_matches st (entries_of (set items))" and own: "\<forall>(a, b)\<in>set (ms_lazy st). \<forall>i. a \<noteq> Dat i"
    and r: "\<forall>r\<in>ctx_refs deps. ref_ok st r"
  shows "\<exists>ps. own_paths (voc_of st) lenient (with_lazy (ms_lazy st) deps) = Some ps
      \<and> path_names ps = with_owned items (name_of st ` ctx_refs deps)"
proof -
  let ?A = "{r. ref_ok st r}"
  have v: "voc_ok st" using m by (simp add: state_matches_def)
  have E: "set (ms_lazy st) \<subseteq> ?A \<times> ?A" using m by (auto simp: state_matches_def edges_match_def)
  have inj: "inj_on (name_of st) ?A" using name_of_inj [OF v] by (auto simp: inj_on_def)
  have refs: "ctx_refs (with_lazy (ms_lazy st) deps) = ctx_refs deps \<union> (set (ms_lazy st))\<^sup>+ `` ctx_refs deps"
    by (rule ctx_refs_with_lazy(1) [OF own])
  have "(set (ms_lazy st))\<^sup>+ \<subseteq> ?A \<times> ?A" using trancl_subset_Sigma [OF E] .
  then have ok: "\<forall>r\<in>ctx_refs (with_lazy (ms_lazy st) deps). ref_ok st r" using r unfolding refs by auto
  have "name_of st ` ((set (ms_lazy st))\<^sup>+ `` ctx_refs deps) = (owned items)\<^sup>+ `` (name_of st ` ctx_refs deps)"
    using trancl_image [OF inj E, of "ctx_refs deps"] r unfolding owned_edges [OF m] by blast
  then have "name_of st ` ctx_refs (with_lazy (ms_lazy st) deps) = with_owned items (name_of st ` ctx_refs deps)"
    by (simp add: refs image_Un with_owned_def)
  then show ?thesis using own_paths_ok [OF v ok, of lenient] by simp
qed

lemma owners_run_code:
  assumes m: "state_matches st (entries_of (set items))" and ok: "\<forall>item\<in>set items. file_ok item"
  shows "\<forall>(a, b)\<in>set (ms_lazy st). \<forall>i. a \<noteq> Dat i"
proof (clarify)
  fix b i assume "(Dat i, b) \<in> set (ms_lazy st)"
  then have "(name_of st (Dat i), name_of st b) \<in> owned items" using owned_edges [OF m] by force
  then obtain item a s where "item \<in> set items" "(a, s) \<in> set (df_lazy item)" "file_name item a = Data_name (ms_paths st ! nat i)"
    by (auto simp: owned_def)
  moreover from this(3) obtain j where "a = Dat j" by (cases a) (auto split: prod.splits option.splits)
  ultimately show False using ok unfolding file_ok_def by fastforce
qed

lemma merged_nodes:
  "map_of (rd_nodes (merge_files whole notes items)) nodeid =
     map_option (\<lambda>n. n\<lparr>rn_deps := with_lazy (ms_lazy (fold merge_file items empty_merge)) (rn_deps n)\<rparr>)
       (map_of (ms_nodes (fold merge_file items empty_merge)) nodeid)"
  by (simp add: merge_files_def merge_result_def merge_result_lazily Let_def map_of_map case_prod_beta comp_def)

lemma merged_fixtures:
  "map_of (rd_fixtures (merge_files whole notes items)) i =
     map_option (with_lazy (ms_lazy (fold merge_file items empty_merge)))
       (map_of (ms_fixtures (fold merge_file items empty_merge)) i)"
  by (simp add: merge_files_def merge_result_def merge_result_lazily Let_def map_of_map case_prod_beta comp_def)

lemma merged_vocabulary: "rd_vocabulary (merge_files whole notes items) = voc_of (fold merge_file items empty_merge)"
  by (simp add: merge_files_def merge_result_def Let_def voc_of_def)

section \<open>A merged test\<close>

definition test_entries :: "deps_file list \<Rightarrow> string \<Rightarrow> (deps_file \<times> file_node) set" where
  "test_entries items nodeid = {(item, e). item \<in> set items \<and> e \<in> set (df_nodes item) \<and> fn_nodeid e = nodeid}"

lemma recorded_entries: "recorded items nodeid = (\<Union>(item, e)\<in>test_entries items nodeid. file_name item ` ctx_refs (fn_deps e))"
  by (auto simp: recorded_def test_entries_def)

lemma merged_node:
  assumes ok: "\<forall>item\<in>set items. file_ok item"
    and n: "map_of (ms_nodes (fold merge_file items empty_merge)) nodeid = Some n"
  shows "rn_nodeid n = nodeid \<and> node_matches (fold merge_file items empty_merge) (test_entries items nodeid) n"
proof -
  have "{(item, e) \<in> en_nodes (entries_of (set items)). fn_nodeid e = nodeid} = test_entries items nodeid"
    by (auto simp: entries_of_def test_entries_def)
  then show ?thesis
    using merged_matches [OF ok, unfolded state_matches_def nodes_match_def, THEN conjunct2, THEN conjunct1, rule_format, of nodeid] n
    by simp
qed

lemma merged_absent:
  assumes ok: "\<forall>item\<in>set items. file_ok item"
  shows "map_of (ms_nodes (fold merge_file items empty_merge)) nodeid = None \<longleftrightarrow> test_entries items nodeid = {}"
proof
  assume "map_of (ms_nodes (fold merge_file items empty_merge)) nodeid = None"
  then have "nodeid \<notin> (fn_nodeid \<circ> snd) ` en_nodes (entries_of (set items))"
    using merged_matches [OF ok, unfolded state_matches_def nodes_match_def, THEN conjunct2, THEN conjunct1, rule_format, of nodeid]
    by simp
  then show "test_entries items nodeid = {}" by (force simp: entries_of_def test_entries_def)
next
  assume e: "test_entries items nodeid = {}"
  show "map_of (ms_nodes (fold merge_file items empty_merge)) nodeid = None"
  proof (rule ccontr)
    assume "map_of (ms_nodes (fold merge_file items empty_merge)) nodeid \<noteq> None"
    then obtain n where "map_of (ms_nodes (fold merge_file items empty_merge)) nodeid = Some n" by auto
    from merged_node [OF ok this] e show False by (simp add: node_matches_def)
  qed
qed

end
