(* ===== verification/Rec_Facts.thy ===== *)
theory Rec_Facts
  imports Rec_Payload Ingest_Result
begin

text \<open>
  The invariant of the recorder over every sequence of events: its contexts hold project
  paths and normalised scopes only, its tests have known outcomes and its fixtures known scopes.
\<close>

section \<open>Normalised scopes\<close>

lemma join_with_append:
  "xs \<noteq> [] \<Longrightarrow> ys \<noteq> [] \<Longrightarrow> join_with s (xs @ ys) = join_with s xs @ s @ join_with s ys"
proof (induction xs)
  case (Cons x xs)
  then show ?case by (cases xs) (auto simp: join_with_cons)
qed simp

lemma split_prefix:
  assumes "split_on c s = ps @ qs" "ps \<noteq> []"
  shows "\<exists>r. s = join_with [c] ps @ r"
proof (cases "qs = []")
  case True
  then show ?thesis using assms join_split [of c s] by auto
next
  case False
  then show ?thesis using assms join_split [of c s] join_with_append [of ps qs "[c]"] by auto
qed

lemma text_length_append: "text_length (a @ b) = text_length a + text_length b"
  by (simp add: text_length_def)

lemma normalize_idem:
  assumes "normalize_qualname raw = Some q"
  shows "normalize_qualname q = Some q"
proof -
  let ?P = "\<lambda>part. part \<noteq> [] \<and> \<not> starts_with ''<'' part"
  let ?kept = "takeWhile ?P (split_on (CHR ''.'') raw)"
  have raw: "CHR 0x00 \<notin> set raw" "text_length raw \<le> 1024" and q: "q = dotted ?kept" "q \<noteq> []"
    using assms by (auto simp: normalize_qualname_def Let_def split: if_splits)
  then have kept: "?kept \<noteq> []" by (auto simp: dotted_def)
  have free: "\<forall>x\<in>set ?kept. CHR ''.'' \<notin> set x"
    using split_on_no_sep set_takeWhileD by metis
  have split: "split_on (CHR ''.'') q = ?kept" using split_join [OF kept free] by (simp add: q(1) dotted_def)
  obtain r where r: "raw = q @ r"
    using split_prefix [of "CHR ''.''" raw ?kept "dropWhile ?P (split_on (CHR ''.'') raw)"] kept
    by (auto simp: q(1) dotted_def)
  have "takeWhile ?P ?kept = ?kept" unfolding takeWhile_eq_all_conv by (blast dest: set_takeWhileD)
  then have dq: "dotted (takeWhile ?P (split_on (CHR ''.'') q)) = q" unfolding split by (simp only: q(1))
  have "CHR 0x00 \<notin> set q" "\<not> 1024 < text_length q" using raw unfolding r by (auto simp: text_length_append)
  then show ?thesis unfolding normalize_qualname_def Let_def dq using q(2) by simp
qed

section \<open>The invariant\<close>

definition function_ok :: "string \<times> string \<times> int \<Rightarrow> bool" where
  "function_ok f \<longleftrightarrow> (case f of (rel, q, line) \<Rightarrow> code_path rel \<and> normalize_qualname q = Some q)"

definition exec_ok :: "exec_ctx \<Rightarrow> bool" where
  "exec_ok c \<longleftrightarrow> (\<forall>f\<in>set (xc_functions c). function_ok f) \<and> (\<forall>p\<in>set (xc_modules c). code_path p)
     \<and> (\<forall>p\<in>set (xc_data c). data_path p)"

definition rec_ok :: "recorder \<Rightarrow> bool" where
  "rec_ok s \<longleftrightarrow>
     (\<forall>i c. map_of (rr_store s) i = Some c \<longrightarrow> exec_ok c) \<and> distinct (map fst (rr_store s))
     \<and> (\<forall>k. Fixture_ctx k \<in> fst ` set (rr_store s) \<longrightarrow> snd (snd k) \<in> set FIXTURE_SCOPES)
     \<and> Ambient \<in> fst ` set (rr_store s)
     \<and> (\<forall>nodeid n. map_of (rr_nodes s) nodeid = Some n \<longrightarrow> nodeid \<noteq> [] \<and> xn_outcome n \<in> set OUTCOMES \<and> exec_ok (xn_ctx n))
     \<and> distinct (map fst (rr_nodes s)) \<and> path_memo_ok (rr_memo s)"

fun event_ok :: "rec_event \<Rightarrow> bool" where
  "event_ok (Enter_fixture key tool) \<longleftrightarrow> snd (snd key) \<in> set FIXTURE_SCOPES"
| "event_ok _ \<longleftrightarrow> True"

lemma exec_ok_new [simp]: "exec_ok (new_ctx b)"
  by (simp add: exec_ok_def new_ctx_def)

lemma exec_ok_merge: "exec_ok a \<Longrightarrow> exec_ok b \<Longrightarrow> exec_ok (merge_ctx a b)"
  by (auto simp: exec_ok_def merge_ctx_def)

lemma exec_ok_opaque [simp]: "exec_ok (xc_opaque_update f c) = exec_ok c"
  by (simp add: exec_ok_def)

lemma exec_ok_add:
  "exec_ok c \<Longrightarrow> code_path rel \<Longrightarrow> exec_ok (add_module rel c)"
  "exec_ok c \<Longrightarrow> data_path rel \<Longrightarrow> exec_ok (add_data rel c)"
  "exec_ok c \<Longrightarrow> function_ok f \<Longrightarrow> exec_ok (add_function f c)"
  by (auto simp: exec_ok_def add_module_def add_data_def add_function_def)

lemma rec_ok_ctx: "rec_ok s \<Longrightarrow> exec_ok (ctx_of s i)"
  by (auto simp: rec_ok_def ctx_of_def split: option.splits)

lemma rec_ok_set_ctx:
  assumes "rec_ok s" "exec_ok c" "\<And>k. i = Fixture_ctx k \<Longrightarrow> snd (snd k) \<in> set FIXTURE_SCOPES"
  shows "rec_ok (set_ctx i c s)"
  using assms by (auto simp: rec_ok_def set_ctx_def update_conv' distinct_update dom_update)

text \<open>The current context is one of the store.\<close>

definition current_ok :: "recorder \<Rightarrow> bool" where
  "current_ok s \<longleftrightarrow> (\<forall>i\<in>insert (rr_current s) (set (rr_stack s)). i \<in> fst ` set (rr_store s))"

lemma rec_ok_update_current:
  assumes "rec_ok s" "current_ok s" "exec_ok (f (ctx_of s (rr_current s)))"
  shows "rec_ok (update_current f s)"
  unfolding update_current_def
proof (rule rec_ok_set_ctx [OF assms(1,3)])
  fix k assume "rr_current s = Fixture_ctx k"
  moreover have "rr_current s \<in> fst ` set (rr_store s)" using assms(2) by (simp add: current_ok_def)
  ultimately show "snd (snd k) \<in> set FIXTURE_SCOPES" using assms(1) unfolding rec_ok_def by metis
qed

lemma rec_ok_cong:
  assumes "rr_store s' = rr_store s" "rr_nodes s' = rr_nodes s" "rr_memo s' = rr_memo s"
  shows "rec_ok s' \<longleftrightarrow> rec_ok s"
  using assms by (simp add: rec_ok_def)

lemma current_ok_cong:
  assumes "rr_store s' = rr_store s" "rr_current s' = rr_current s" "rr_stack s' = rr_stack s"
  shows "current_ok s' \<longleftrightarrow> current_ok s"
  using assms by (simp add: current_ok_def)

lemma current_ok_set_ctx: "current_ok s \<Longrightarrow> current_ok (set_ctx i c s)"
  by (auto simp: current_ok_def set_ctx_def dom_update)

lemma current_ok_update: "current_ok s \<Longrightarrow> current_ok (update_current f s)"
  by (simp add: update_current_def current_ok_set_ctx)

text \<open>Numbers of test contexts are below the next one.\<close>

definition fresh_ok :: "recorder \<Rightarrow> bool" where
  "fresh_ok s \<longleftrightarrow> (\<forall>n. Test_ctx n \<in> fst ` set (rr_store s) \<longrightarrow> n < rr_next s)"

definition good :: "recorder \<Rightarrow> bool" where
  "good s \<longleftrightarrow> rec_ok s \<and> current_ok s \<and> fresh_ok s"

lemma fresh_ok_update: "current_ok s \<Longrightarrow> fresh_ok s \<Longrightarrow> fresh_ok (update_current f s)"
  unfolding fresh_ok_def current_ok_def update_current_def set_ctx_def by (simp add: dom_update)

lemma good_update: "good s \<Longrightarrow> exec_ok (f (ctx_of s (rr_current s))) \<Longrightarrow> good (update_current f s)"
  by (simp add: good_def rec_ok_update_current current_ok_update fresh_ok_update)

lemma good_ctx: "good s \<Longrightarrow> exec_ok (ctx_of s i)"
  by (simp add: good_def rec_ok_ctx)

lemma good_cong:
  assumes "rr_store s' = rr_store s" "rr_nodes s' = rr_nodes s" "rr_memo s' = rr_memo s"
    "rr_current s' = rr_current s" "rr_stack s' = rr_stack s" "rr_next s' = rr_next s"
  shows "good s' \<longleftrightarrow> good s"
  unfolding good_def rec_ok_def current_ok_def fresh_ok_def using assms by simp

lemma good_blind: "good s \<Longrightarrow> good (blind s)"
  by (simp add: blind_def good_update good_ctx)

lemma good_switch: "good s \<Longrightarrow> good (switch_ctx tool s)"
proof -
  assume g: "good s"
  have "good (s\<lparr>rr_last := None\<rparr>)" using g good_cong [of "s\<lparr>rr_last := None\<rparr>" s] by simp
  moreover have "good (mark_tampered (s\<lparr>rr_last := None\<rparr>))"
    unfolding mark_tampered_def by (rule good_blind) (use g in \<open>simp add: good_def rec_ok_def current_ok_def fresh_ok_def\<close>)
  ultimately show ?thesis by (simp add: switch_ctx_def Let_def)
qed

lemma good_pop: "good s \<Longrightarrow> good (pop_ctx s)"
  by (auto simp: good_def pop_ctx_def rec_ok_def current_ok_def fresh_ok_def split: list.splits)

lemma good_node:
  assumes "good s" "nodeid \<noteq> []" "xn_outcome n \<in> set OUTCOMES" "exec_ok (xn_ctx n)"
  shows "good (s\<lparr>rr_nodes := AList.update nodeid n (rr_nodes s)\<rparr>)"
  using assms by (auto simp: good_def rec_ok_def current_ok_def fresh_ok_def update_conv' distinct_update)

section \<open>Every event keeps the invariant\<close>

lemma add_edge_frame: "\<exists>es. add_edge token key owner s = s\<lparr>rr_edges := es\<rparr>"
  by (auto simp: add_edge_def intro: exI [of _ "rr_edges s"])

lemma fold_add_edge_frame: "\<exists>es. fold (add_edge token key) owners s = s\<lparr>rr_edges := es\<rparr>"
proof (induction owners arbitrary: s)
  case Nil
  then show ?case by (auto intro: exI [of _ "rr_edges s"])
next
  case (Cons a owners)
  obtain es where "add_edge token key a s = s\<lparr>rr_edges := es\<rparr>" using add_edge_frame by blast
  then show ?case using Cons.IH [of "s\<lparr>rr_edges := es\<rparr>"] by auto
qed

lemma note_key_frame: "\<exists>fs es. note_key key frames main s = s\<lparr>rr_first := fs, rr_edges := es\<rparr>"
proof -
  let ?t = "token_of s"
  define s1 where "s1 = (if map_of (rr_first s) key = None then s\<lparr>rr_first := (key, ?t) # rr_first s\<rparr> else s)"
  have n: "note_key key frames main s = (if ?t = Ctx_token Ambient then s1 else fold (add_edge ?t key) (owners_of frames main s1) s1)"
    by (simp add: note_key_def Let_def s1_def)
  have "\<exists>fs. s1 = s\<lparr>rr_first := fs\<rparr>"
  proof (cases "map_of (rr_first s) key = None")
    case False
    then have "s1 = s\<lparr>rr_first := rr_first s\<rparr>" by (simp add: s1_def)
    then show ?thesis by blast
  qed (auto simp: s1_def)
  then obtain fs where s1: "s1 = s\<lparr>rr_first := fs\<rparr>" by blast
  obtain es where "fold (add_edge ?t key) (owners_of frames main s1) s1 = s1\<lparr>rr_edges := es\<rparr>"
    using fold_add_edge_frame by blast
  then have "note_key key frames main s = s1\<lparr>rr_edges := if ?t = Ctx_token Ambient then rr_edges s1 else es\<rparr>"
    by (simp add: n)
  then show ?thesis
    by (intro exI [of _ fs] exI [of _ "if ?t = Ctx_token Ambient then rr_edges s1 else es"]) (simp add: s1)
qed

lemma note_key_same [simp]:
  "rr_store (note_key key frames main s) = rr_store s" "rr_nodes (note_key key frames main s) = rr_nodes s"
  "rr_memo (note_key key frames main s) = rr_memo s" "rr_current (note_key key frames main s) = rr_current s"
  "rr_stack (note_key key frames main s) = rr_stack s" "rr_next (note_key key frames main s) = rr_next s"
  "rr_open (note_key key frames main s) = rr_open s" "rr_test (note_key key frames main s) = rr_test s"
  "rr_active (note_key key frames main s) = rr_active s" "rr_recording (note_key key frames main s) = rr_recording s"
  "rr_tamper (note_key key frames main s) = rr_tamper s" "rr_tampered (note_key key frames main s) = rr_tampered s"
  using note_key_frame [of key frames main s] by auto

lemma ctx_of_note [simp]: "ctx_of (note_key key frames main s) i = ctx_of s i"
  by (simp add: ctx_of_def)

lemma good_note: "good s \<Longrightarrow> good (note_key key frames main s)"
  using good_cong [of "note_key key frames main s" s] by simp

lemma exec_ok_entry:
  assumes "resolve_code ck c = Some e" "exec_ok x"
  shows "exec_ok (add_entry e x)"
proof -
  obtain rel q line where e: "e = (rel, q, line)" by (cases e)
  have rel: "code_path rel" using resolve_code_path assms(1) e by blast
  show ?thesis
  proof (cases q)
    case None
    then show ?thesis using e rel assms(2) by (simp add: exec_ok_add)
  next
    case (Some name)
    then obtain raw where "normalize_qualname raw = Some name"
      using assms(1) e by (auto simp: resolve_code_def Option.bind_eq_Some_conv split: option.splits if_splits)
    then have "function_ok (rel, name, line)" using rel normalize_idem by (simp add: function_ok_def)
    then show ?thesis using e Some assms(2) by (simp add: exec_ok_add)
  qed
qed

lemma good_py_start: "good s \<Longrightarrow> good (py_start ck code frames main s)"
proof (cases "resolve_code ck code")
  case (Some e)
  assume g: "good s"
  define s1 where "s1 = (note_key (entry_key e) frames main s)\<lparr>rr_last := Some (entry_key e)\<rparr>"
  have g1: "good s1" using good_note [OF g, of "entry_key e" frames main] good_cong [of s1 "note_key (entry_key e) frames main s"]
    by (simp add: s1_def)
  have "good (update_current (add_entry e) s1)"
    by (rule good_update [OF g1]) (rule exec_ok_entry [OF Some good_ctx [OF g1]])
  then show ?thesis using g by (simp add: py_start_def Some Let_def s1_def)
qed (simp add: py_start_def)

lemma good_audit: "good s \<Longrightarrow> good (handle_audit ck event frames main s)"
proof (induction ck event frames main s rule: handle_audit.induct)
  case (1 ck code frames main s)
  then show ?case
    by (auto simp: good_update exec_ok_add good_ctx dest: resolve_code_path split: option.splits)
next
  case (2 ck path mode flags frames main s)
  obtain out memo where r: "resolve_data ck path (rr_memo s) = (out, memo)" by fastforce
  have m: "path_memo_ok (rr_memo s)" using 2 by (simp add: good_def rec_ok_def)
  define s1 where "s1 = s\<lparr>rr_memo := memo\<rparr>"
  have g1: "good s1"
    using 2 resolve_data_path(1) [OF m r] by (simp add: s1_def good_def rec_ok_def current_ok_def fresh_ok_def)
  have "good (update_current (add_data rel) s1)" "good (update_current (add_data rel) (note_key (Read_data rel) frames main s1))"
    if "out = Some rel" for rel
    using g1 good_note resolve_data_path(2) [OF m r that] by (simp_all add: good_update exec_ok_add good_ctx)
  then show ?case using 2 g1 by (auto simp: r s1_def [symmetric] Let_def split: option.splits)
next
  case (4 ck popen executable argv cwd frames main s)
  then show ?case
    by (auto simp: good_blind good_update exec_ok_add good_ctx dest: spawn_entry_path split: option.splits)
qed (simp_all add: good_blind)

lemma good_enter_test: "good s \<Longrightarrow> good (enter_test nodeid tool s)"
proof -
  assume "good s"
  then have g: "good (switch_ctx tool s)" by (rule good_switch)
  define t where "t = switch_ctx tool s"
  let ?i = "Test_ctx (rr_next t)"
  define u where "u = set_ctx ?i (fresh_ctx t)
      (t\<lparr>rr_stack := rr_current t # rr_stack t, rr_current := ?i, rr_test := Some ?i, rr_next := Suc (rr_next t)\<rparr>)"
  have unknown: "''unknown'' \<in> set OUTCOMES" by (simp add: OUTCOMES_def)
  have "good u"
    using g by (auto simp: u_def t_def [symmetric] good_def set_ctx_def rec_ok_def current_ok_def fresh_ok_def update_conv'
        distinct_update dom_update fresh_ctx_def less_SucI)
  then have "good (u\<lparr>rr_nodes := AList.update nodeid n (rr_nodes u)\<rparr>)"
    if "nodeid \<noteq> []" "map_of (rr_nodes u) nodeid = Some n \<or> n = \<lparr>xn_outcome = ''unknown'', xn_fixtures = [], xn_ctx = new_ctx False\<rparr>" for n
    using that unknown by (intro good_node) (auto simp: good_def rec_ok_def)
  then have "good ((u\<lparr>rr_nodes := AList.update nodeid n (rr_nodes u)\<rparr>)\<lparr>rr_open := Some nodeid\<rparr>)"
    if "nodeid \<noteq> []" "map_of (rr_nodes u) nodeid = Some n \<or> n = \<lparr>xn_outcome = ''unknown'', xn_fixtures = [], xn_ctx = new_ctx False\<rparr>" for n
    using that good_cong [of "(u\<lparr>rr_nodes := AList.update nodeid n (rr_nodes u)\<rparr>)\<lparr>rr_open := Some nodeid\<rparr>"
        "u\<lparr>rr_nodes := AList.update nodeid n (rr_nodes u)\<rparr>"] by simp
  then show ?thesis
    using \<open>good s\<close> by (auto simp: enter_test_def Let_def t_def [symmetric] u_def [symmetric] split: option.splits)
qed

end
