(* ===== verification/Rec_Sound.thy ===== *)
theory Rec_Sound
  imports Rec_Facts
begin

text \<open>
  What the recorder files, it keeps: every event only adds to the contexts and the tests, and
  over a balanced test protocol what starts in the test or in a shared fixture ends up with it.
\<close>

section \<open>The invariant over a session\<close>

lemma good_observe: "good s \<Longrightarrow> good (observe_report r s)"
proof -
  assume g: "good s"
  have "''error'' \<in> set OUTCOMES" "''skipped'' \<in> set OUTCOMES" "''xpassed'' \<in> set OUTCOMES" "''xfailed'' \<in> set OUTCOMES"
    "''failed'' \<in> set OUTCOMES" "''passed'' \<in> set OUTCOMES"
    by (simp_all add: OUTCOMES_def)
  then have c: "outcome \<in> set OUTCOMES" if "classify_report r = Some outcome" for outcome
    using that by (auto simp: classify_report_def split: if_splits)
  have "exec_ok (xn_ctx n)" if "map_of (rr_nodes s) nodeid = Some n" for n nodeid
    using g that unfolding good_def rec_ok_def by blast
  then show ?thesis
    using g c by (auto simp: observe_report_def good_node split: option.splits)
qed

lemma good_exit_test: "good s \<Longrightarrow> good (exit_test keys tool s)"
proof -
  assume g: "good s"
  define nodes where "nodes = (case rr_open s of
      None \<Rightarrow> rr_nodes s
    | Some nodeid \<Rightarrow>
        (case map_of (rr_nodes s) nodeid of
           None \<Rightarrow> rr_nodes s
         | Some n \<Rightarrow> AList.update nodeid (close_node keys (ctx_of s (rr_current s)) n) (rr_nodes s)))"
  have "good (s\<lparr>rr_nodes := nodes\<rparr>)"
  proof (cases "Option.bind (rr_open s) (map_of (rr_nodes s))")
    case None
    then have "nodes = rr_nodes s" by (auto simp: nodes_def Option.bind_eq_None_conv split: option.splits)
    then show ?thesis using g by simp
  next
    case (Some n)
    then obtain nodeid where n: "rr_open s = Some nodeid" "map_of (rr_nodes s) nodeid = Some n"
      by (auto simp: Option.bind_eq_Some_conv)
    then have ok: "nodeid \<noteq> []" "xn_outcome n \<in> set OUTCOMES" "exec_ok (xn_ctx n)"
      using g unfolding good_def rec_ok_def by blast+
    have "exec_ok (xn_ctx (close_node keys (ctx_of s (rr_current s)) n))"
      using ok(3) good_ctx [OF g] by (simp add: close_node_def exec_ok_merge)
    then show ?thesis using good_node [OF g ok(1), of "close_node keys (ctx_of s (rr_current s)) n"] ok(2)
      by (simp add: nodes_def n close_node_def)
  qed
  then have "good (s\<lparr>rr_open := None, rr_test := None, rr_owners := [], rr_nodes := nodes\<rparr>)"
    using good_cong [of "s\<lparr>rr_open := None, rr_test := None, rr_owners := [], rr_nodes := nodes\<rparr>" "s\<lparr>rr_nodes := nodes\<rparr>"] by simp
  then show ?thesis
    unfolding exit_test_def Let_def nodes_def [symmetric] by (intro good_switch good_pop)
qed

lemma good_enter_fixture:
  assumes "good s" "snd (snd key) \<in> set FIXTURE_SCOPES"
  shows "good (enter_fixture key tool s)"
proof -
  define t where "t = switch_ctx tool s"
  have g: "good t" unfolding t_def by (rule good_switch [OF assms(1)])
  define u where "u = t\<lparr>rr_stack := rr_current t # rr_stack t\<rparr>"
  have gu: "good u" using g by (auto simp: u_def good_def rec_ok_def current_ok_def fresh_ok_def)
  define v where "v = (case map_of (rr_store u) (Fixture_ctx key) of Some _ \<Rightarrow> u | None \<Rightarrow> set_ctx (Fixture_ctx key) (fresh_ctx u) u)"
  have gv: "good v"
    using gu assms(2) rec_ok_set_ctx [of u "fresh_ctx u" "Fixture_ctx key"] current_ok_set_ctx [of u]
    by (auto simp: v_def good_def fresh_ctx_def fresh_ok_def set_ctx_def dom_update split: option.splits)
  have "Fixture_ctx key \<in> fst ` set (rr_store v)"
    by (auto simp: v_def set_ctx_def dom_update split: option.splits dest: map_of_SomeD intro: image_eqI [rotated])
  then have "good (v\<lparr>rr_current := Fixture_ctx key\<rparr>)"
    using gv by (auto simp: good_def rec_ok_def current_ok_def fresh_ok_def)
  then show ?thesis unfolding enter_fixture_def Let_def t_def [symmetric] u_def [symmetric] v_def [symmetric] .
qed

lemma handle_good: "good s \<Longrightarrow> event_ok e \<Longrightarrow> good (handle e s)"
proof (cases e)
  case (Activate c)
  assume "good s"
  then show ?thesis
    using Activate by (cases c) (auto simp: activate_def good_def rec_ok_def current_ok_def fresh_ok_def)
next
  case Deactivate
  assume "good s"
  then show ?thesis using Deactivate by (simp add: deactivate_def good_def rec_ok_def current_ok_def fresh_ok_def)
next
  case (Enter_function_fixture c)
  assume "good s"
  then show ?thesis
    using Enter_function_fixture by (simp add: enter_function_fixture_def Let_def good_def rec_ok_def current_ok_def fresh_ok_def)
next
  case Exit_function_fixture
  assume "good s"
  then show ?thesis
    using Exit_function_fixture by (simp add: exit_function_fixture_def good_def rec_ok_def current_ok_def fresh_ok_def)
next
  case (Set_deselect status count)
  assume "good s"
  then show ?thesis using Set_deselect by (simp add: good_def rec_ok_def current_ok_def fresh_ok_def)
next
  case (Set_workers names)
  assume "good s"
  then show ?thesis using Set_workers by (simp add: good_def rec_ok_def current_ok_def fresh_ok_def)
qed (simp_all add: good_enter_test good_exit_test good_enter_fixture exit_fixture_def good_switch good_pop good_observe
      good_py_start audit_hook_def good_audit)

lemma session_append [simp]: "session (a @ b) s = session b (session a s)"
  by (simp add: session_def)

lemma session_Cons [simp]: "session (e # es) s = session es (handle e s)" and session_Nil [simp]: "session [] s = s"
  by (simp_all add: session_def)

lemma session_good: "good s \<Longrightarrow> \<forall>e\<in>set es. event_ok e \<Longrightarrow> good (session es s)"
  by (induction es arbitrary: s) (auto simp: handle_good)

lemma new_good: "good (new_recorder run_id worker controller)"
  by (simp add: good_def rec_ok_def current_ok_def fresh_ok_def new_recorder_def path_memo_ok_def)

section \<open>Contexts only grow\<close>

definition ctx_le :: "exec_ctx \<Rightarrow> exec_ctx \<Rightarrow> bool" where
  "ctx_le a b \<longleftrightarrow> set (xc_functions a) \<subseteq> set (xc_functions b) \<and> set (xc_modules a) \<subseteq> set (xc_modules b)
     \<and> set (xc_data a) \<subseteq> set (xc_data b) \<and> (xc_opaque a \<longrightarrow> xc_opaque b)"

lemma ctx_le_refl [simp]: "ctx_le a a"
  by (simp add: ctx_le_def)

lemma ctx_le_trans: "ctx_le a b \<Longrightarrow> ctx_le b c \<Longrightarrow> ctx_le a c"
  by (auto simp: ctx_le_def)

lemma ctx_le_add [simp]:
  "ctx_le c (add_module rel c)" "ctx_le c (add_data rel c)" "ctx_le c (add_function f c)"
  "ctx_le c (merge_ctx c d)" "ctx_le d (merge_ctx c d)" "ctx_le c (xc_opaque_update (\<lambda>_. True) c)"
  by (auto simp: ctx_le_def add_module_def add_data_def add_function_def merge_ctx_def)

lemma ctx_le_entry [simp]: "ctx_le c (add_entry e c)"
  by (cases "(e, c)" rule: add_entry.cases) simp_all

text \<open>What a key stands for in a context; an opaque context stands for everything.\<close>

fun ctx_has :: "state_key \<Rightarrow> exec_ctx \<Rightarrow> bool" where
  "ctx_has (Ran_code rel q line) c \<longleftrightarrow> (rel, q, line) \<in> set (xc_functions c)"
| "ctx_has (Ran_body rel) c \<longleftrightarrow> rel \<in> set (xc_modules c)"
| "ctx_has (Read_data rel) c \<longleftrightarrow> rel \<in> set (xc_data c)"

definition covered :: "state_key \<Rightarrow> exec_ctx \<Rightarrow> bool" where
  "covered k c \<longleftrightarrow> xc_opaque c \<or> ctx_has k c"

lemma covered_mono: "ctx_le a b \<Longrightarrow> covered k a \<Longrightarrow> covered k b"
  by (cases k) (auto simp: covered_def ctx_le_def)

lemma covered_add [simp]: "covered (entry_key e) (add_entry e c)" "covered (Read_data rel) (add_data rel c)"
  by (cases "(e, c)" rule: add_entry.cases, auto simp: covered_def add_module_def add_function_def add_data_def)+

definition only_adds :: "recorder \<Rightarrow> recorder \<Rightarrow> bool" where
  "only_adds s s' \<longleftrightarrow>
     (\<forall>i\<in>fst ` set (rr_store s). i \<in> fst ` set (rr_store s') \<and> ctx_le (ctx_of s i) (ctx_of s' i))
     \<and> (\<forall>nodeid n. map_of (rr_nodes s) nodeid = Some n \<longrightarrow>
          (\<exists>n'. map_of (rr_nodes s') nodeid = Some n' \<and> ctx_le (xn_ctx n) (xn_ctx n') \<and> set (xn_fixtures n) \<subseteq> set (xn_fixtures n')))
     \<and> (rr_tamper s \<longrightarrow> rr_tamper s')"

lemma only_adds_refl [simp]: "only_adds s s"
  by (simp add: only_adds_def)

lemma only_adds_trans: "only_adds a b \<Longrightarrow> only_adds b c \<Longrightarrow> only_adds a c"
  unfolding only_adds_def by (meson ctx_le_trans order_trans)

lemma grows_same:
  "rr_store s' = rr_store s \<Longrightarrow> rr_nodes s' = rr_nodes s \<Longrightarrow> (rr_tamper s \<longrightarrow> rr_tamper s') \<Longrightarrow> only_adds s s'"
  by (auto simp: only_adds_def ctx_of_def)

lemma ctx_of_set: "ctx_of (set_ctx i c s) j = (if i = j then c else ctx_of s j)"
  by (auto simp: ctx_of_def set_ctx_def update_conv')

lemma grows_set_ctx: "(i \<in> fst ` set (rr_store s) \<Longrightarrow> ctx_le (ctx_of s i) c) \<Longrightarrow> only_adds s (set_ctx i c s)"
  unfolding only_adds_def ctx_of_set by (auto simp: set_ctx_def dom_update)

lemma grows_update: "(\<And>c. ctx_le c (f c)) \<Longrightarrow> only_adds s (update_current f s)"
  unfolding update_current_def by (rule grows_set_ctx)

lemma grows_blind: "only_adds s (blind s)"
  unfolding blind_def by (rule grows_update) simp

lemma grows_switch: "only_adds s (switch_ctx tool s)"
proof -
  have a: "only_adds s (s\<lparr>rr_last := None\<rparr>)" by (rule grows_same) simp_all
  let ?t = "s\<lparr>rr_last := None, rr_tamper := True, rr_tampered := True, rr_recording := False, rr_active := False\<rparr>"
  have "only_adds s ?t" by (rule grows_same) simp_all
  then have "only_adds s (blind ?t)" using grows_blind only_adds_trans by blast
  then show ?thesis using a by (simp add: switch_ctx_def mark_tampered_def Let_def)
qed

lemma grows_pop: "only_adds s (pop_ctx s)"
  by (rule grows_same) (auto simp: pop_ctx_def split: list.splits)

lemma grows_node:
  assumes "\<And>n. map_of (rr_nodes s) nodeid = Some n \<Longrightarrow> ctx_le (xn_ctx n) (xn_ctx n') \<and> set (xn_fixtures n) \<subseteq> set (xn_fixtures n')"
  shows "only_adds s (s\<lparr>rr_nodes := AList.update nodeid n' (rr_nodes s)\<rparr>)"
proof -
  have "ctx_of (s\<lparr>rr_nodes := xs\<rparr>) i = ctx_of s i" for xs i by (simp add: ctx_of_def)
  then show ?thesis using assms by (auto simp: only_adds_def update_conv')
qed

lemma grows_enter_test:
  assumes "good s"
  shows "only_adds s (enter_test nodeid tool s)"
proof -
  define t where "t = switch_ctx tool s"
  have g: "good t" unfolding t_def by (rule good_switch [OF assms])
  define u0 where "u0 = t\<lparr>rr_stack := rr_current t # rr_stack t, rr_current := Test_ctx (rr_next t),
      rr_test := Some (Test_ctx (rr_next t)), rr_next := Suc (rr_next t)\<rparr>"
  define u where "u = set_ctx (Test_ctx (rr_next t)) (fresh_ctx t) u0"
  have "Test_ctx (rr_next t) \<notin> fst ` set (rr_store u0)" using g by (auto simp: u0_def good_def fresh_ok_def)
  then have "only_adds u0 u" unfolding u_def by (intro grows_set_ctx) simp
  moreover have "only_adds t u0" by (rule grows_same) (simp_all add: u0_def)
  moreover have "only_adds s t" unfolding t_def by (rule grows_switch)
  ultimately have gu: "only_adds s u" using only_adds_trans by blast
  define n where "n = (case map_of (rr_nodes u) nodeid of
      Some n \<Rightarrow> n | None \<Rightarrow> \<lparr>xn_outcome = ''unknown'', xn_fixtures = [], xn_ctx = new_ctx False\<rparr>)"
  have "only_adds u (u\<lparr>rr_nodes := AList.update nodeid n (rr_nodes u)\<rparr>)" by (rule grows_node) (simp add: n_def)
  then have "only_adds u (u\<lparr>rr_nodes := AList.update nodeid n (rr_nodes u), rr_open := Some nodeid\<rparr>)"
    by (rule only_adds_trans) (rule grows_same; simp)
  then have "only_adds s (u\<lparr>rr_nodes := AList.update nodeid n (rr_nodes u), rr_open := Some nodeid\<rparr>)"
    using gu only_adds_trans by blast
  moreover have "enter_test nodeid tool s =
      (if nodeid = [] then s else u\<lparr>rr_nodes := AList.update nodeid n (rr_nodes u), rr_open := Some nodeid\<rparr>)"
    unfolding enter_test_def Let_def t_def [symmetric] u0_def [symmetric] u_def [symmetric] n_def [symmetric] by simp
  ultimately show ?thesis by simp
qed

lemma grows_exit_test: "only_adds s (exit_test keys tool s)"
proof -
  define nodes where "nodes = (case rr_open s of
      None \<Rightarrow> rr_nodes s
    | Some nodeid \<Rightarrow>
        (case map_of (rr_nodes s) nodeid of
           None \<Rightarrow> rr_nodes s
         | Some n \<Rightarrow> AList.update nodeid (close_node keys (ctx_of s (rr_current s)) n) (rr_nodes s)))"
  have "only_adds s (s\<lparr>rr_nodes := nodes\<rparr>)"
  proof (cases "Option.bind (rr_open s) (map_of (rr_nodes s))")
    case None
    then have "nodes = rr_nodes s" by (auto simp: nodes_def Option.bind_eq_None_conv split: option.splits)
    then show ?thesis by simp
  next
    case (Some n)
    then obtain nodeid where n: "rr_open s = Some nodeid" "map_of (rr_nodes s) nodeid = Some n"
      by (auto simp: Option.bind_eq_Some_conv)
    have "only_adds s (s\<lparr>rr_nodes := AList.update nodeid (close_node keys (ctx_of s (rr_current s)) n) (rr_nodes s)\<rparr>)"
      by (rule grows_node) (simp add: n close_node_def)
    then show ?thesis by (simp add: nodes_def n)
  qed
  then have "only_adds s (s\<lparr>rr_open := None, rr_test := None, rr_owners := [], rr_nodes := nodes\<rparr>)"
    by (rule only_adds_trans) (rule grows_same; simp)
  then show ?thesis
    unfolding exit_test_def Let_def nodes_def [symmetric] using grows_pop grows_switch only_adds_trans by blast
qed

lemma grows_enter_fixture: "only_adds s (enter_fixture key tool s)"
proof -
  define t where "t = switch_ctx tool s"
  define u where "u = t\<lparr>rr_stack := rr_current t # rr_stack t\<rparr>"
  define v where "v = (case map_of (rr_store u) (Fixture_ctx key) of Some _ \<Rightarrow> u | None \<Rightarrow> set_ctx (Fixture_ctx key) (fresh_ctx u) u)"
  have "only_adds s t" unfolding t_def by (rule grows_switch)
  moreover have "only_adds t u" by (rule grows_same) (simp_all add: u_def)
  moreover have "only_adds u v"
    by (auto simp: v_def map_of_eq_None_iff intro!: grows_set_ctx split: option.splits)
  moreover have "only_adds v (v\<lparr>rr_current := Fixture_ctx key\<rparr>)" by (rule grows_same) simp_all
  ultimately have "only_adds s (v\<lparr>rr_current := Fixture_ctx key\<rparr>)" using only_adds_trans by blast
  then show ?thesis unfolding enter_fixture_def Let_def t_def [symmetric] u_def [symmetric] v_def [symmetric] .
qed

lemma grows_note: "only_adds s (note_key key frames main s)"
  by (rule grows_same) simp_all

lemma grows_py_start: "only_adds s (py_start ck code frames main s)"
proof (cases "resolve_code ck code")
  case (Some e)
  define t where "t = (note_key (entry_key e) frames main s)\<lparr>rr_last := Some (entry_key e)\<rparr>"
  have "only_adds s t" by (rule grows_same) (simp_all add: t_def)
  moreover have "only_adds t (update_current (add_entry e) t)" by (rule grows_update) simp
  ultimately have "only_adds s (update_current (add_entry e) t)" by (rule only_adds_trans)
  then show ?thesis by (simp add: py_start_def Some Let_def t_def)
qed (simp add: py_start_def)

lemma grows_audit: "only_adds s (handle_audit ck event frames main s)"
proof (induction ck event frames main s rule: handle_audit.induct)
  case (2 ck path mode flags frames main s)
  obtain out memo where r: "resolve_data ck path (rr_memo s) = (out, memo)" by fastforce
  define t where "t = s\<lparr>rr_memo := memo\<rparr>"
  have t: "only_adds s t" by (rule grows_same) (simp_all add: t_def)
  have "only_adds t (update_current (add_data rel) t)" "only_adds t (update_current (add_data rel) (note_key (Read_data rel) frames main t))" for rel
    using only_adds_trans [OF grows_note grows_update [of "add_data rel"]] grows_update [of "add_data rel"] by simp_all
  then have "only_adds s (update_current (add_data rel) t)" "only_adds s (update_current (add_data rel) (note_key (Read_data rel) frames main t))" for rel
    using t only_adds_trans by blast+
  then show ?case using t by (auto simp: r t_def [symmetric] Let_def split: option.splits)
next
  case (4 ck popen executable argv cwd frames main s)
  have "only_adds s (update_current (add_module rel) (blind s))" for rel
    by (rule only_adds_trans [OF grows_blind]) (rule grows_update, simp)
  then show ?case by (auto simp: grows_blind split: option.splits)
qed (auto simp: grows_blind intro: grows_update split: option.splits)

lemma handle_grows: "good s \<Longrightarrow> only_adds s (handle e s)"
proof (cases e)
  case (Activate c)
  then show ?thesis by (cases c) (auto simp: activate_def intro!: grows_same)
next
  case (Exit_fixture tool)
  then show ?thesis using only_adds_trans [OF grows_pop grows_switch] by (simp add: exit_fixture_def)
next
  case (Observe r)
  then show ?thesis by (auto simp: observe_report_def intro!: grows_node split: option.splits)
next
  case (Starts_code ck code frames main)
  then show ?thesis by (simp add: grows_py_start)
next
  case (Audits ck event frames main)
  then show ?thesis by (simp add: audit_hook_def grows_audit)
qed (simp_all add: grows_enter_test grows_exit_test grows_enter_fixture deactivate_def enter_function_fixture_def
      exit_function_fixture_def Let_def grows_same)

lemma session_grows: "good s \<Longrightarrow> \<forall>e\<in>set es. event_ok e \<Longrightarrow> only_adds s (session es s)"
proof (induction es arbitrary: s)
  case (Cons e es)
  then have "only_adds (handle e s) (session es (handle e s))" by (simp add: handle_good)
  then show ?case using handle_grows [OF Cons.prems(1), of e] only_adds_trans unfolding session_Cons by blast
qed simp

section \<open>What runs while the recorder is not recording\<close>

text \<open>Recording, active, the tamper flag of the file and the one of the hooks.\<close>

definition rec_status :: "recorder \<Rightarrow> bool \<times> bool \<times> bool \<times> bool" where
  "rec_status s = (rr_recording s, rr_active s, rr_tamper s, rr_tampered s)"

lemma status_update [simp]: "rec_status (update_current f s) = rec_status s" "rec_status (blind s) = rec_status s"
  "rec_status (set_ctx i c s) = rec_status s" "rec_status (note_key key frames main s) = rec_status s"
  by (simp_all add: rec_status_def update_current_def set_ctx_def blind_def)

lemma status_switch: "rec_status (switch_ctx tool s) \<in> {rec_status s, (False, False, True, True)}"
  by (simp add: switch_ctx_def mark_tampered_def Let_def) (simp add: rec_status_def)

lemma status_pop [simp]: "rec_status (pop_ctx s) = rec_status s"
  by (simp add: rec_status_def pop_ctx_def split: list.splits)

lemma status_enter_test: "rec_status (enter_test nodeid tool s) \<in> {rec_status s, (False, False, True, True)}"
proof -
  have "rec_status (enter_test nodeid tool s) = (if nodeid = [] then rec_status s else rec_status (switch_ctx tool s))"
    by (simp add: enter_test_def Let_def) (simp add: rec_status_def set_ctx_def)
  then show ?thesis using status_switch [of tool s] by simp
qed

lemma status_exit_test: "rec_status (exit_test keys tool s) \<in> {rec_status s, (False, False, True, True)}"
proof -
  have u: "rec_status (s\<lparr>rr_open := None, rr_test := None, rr_owners := [], rr_nodes := xs\<rparr>) = rec_status s" for xs
    by (simp add: rec_status_def)
  have "rec_status (switch_ctx tool (pop_ctx (s\<lparr>rr_open := None, rr_test := None, rr_owners := [], rr_nodes := xs\<rparr>)))
      \<in> {rec_status s, (False, False, True, True)}" for xs
    using status_switch [of tool "pop_ctx (s\<lparr>rr_open := None, rr_test := None, rr_owners := [], rr_nodes := xs\<rparr>)"]
    unfolding status_pop u .
  then show ?thesis unfolding exit_test_def Let_def .
qed

lemma status_enter_fixture: "rec_status (enter_fixture key tool s) \<in> {rec_status s, (False, False, True, True)}"
proof -
  have "rec_status (enter_fixture key tool s) = rec_status (switch_ctx tool s)"
    by (simp add: enter_fixture_def Let_def split: option.splits) (simp add: rec_status_def set_ctx_def)
  then show ?thesis using status_switch [of tool s] by simp
qed

lemma status_audit: "rec_status (handle_audit ck event frames main s) = rec_status s"
proof (induction ck event frames main s rule: handle_audit.induct)
  case (2 ck path mode flags frames main s)
  have "rec_status (s\<lparr>rr_memo := m\<rparr>) = rec_status s" for m by (simp add: rec_status_def)
  then show ?case by (auto simp: Let_def split: prod.splits option.splits)
qed (auto split: option.splits)

lemma status_py_start: "rec_status (py_start ck code frames main s) = rec_status s"
proof -
  have "rec_status (t\<lparr>rr_last := k\<rparr>) = rec_status t" for t k by (simp add: rec_status_def)
  then show ?thesis by (simp add: py_start_def Let_def split: option.splits)
qed

text \<open>Without a deactivation, an event keeps the status, finds the tool lost, or starts recording.\<close>

lemma handle_status:
  assumes "e \<noteq> Deactivate"
  shows "rec_status (handle e s) \<in> {rec_status s, (False, False, True, True), (True, True, rr_tamper s, rr_tampered s)}"
proof (cases e)
  case (Activate c)
  then show ?thesis by (cases c) (auto simp: activate_def rec_status_def)
next
  case (Exit_fixture tool)
  then show ?thesis using status_switch [of tool "pop_ctx s"] by (auto simp: exit_fixture_def)
next
  case (Observe r)
  then show ?thesis by (auto simp: observe_report_def rec_status_def split: option.splits)
next
  case (Audits ck event frames main)
  then show ?thesis by (simp add: audit_hook_def status_audit)
next
  case (Enter_test nodeid tool)
  then show ?thesis using status_enter_test [of nodeid tool s] by auto
next
  case (Exit_test keys tool)
  then show ?thesis using status_exit_test [of keys tool s] by auto
next
  case (Enter_fixture key tool)
  then show ?thesis using status_enter_fixture [of key tool s] by auto
next
  case (Starts_code ck code frames main)
  then show ?thesis by (simp add: status_py_start)
qed (use assms in \<open>simp_all add: rec_status_def enter_function_fixture_def exit_function_fixture_def Let_def\<close>)

definition known :: "recorder \<Rightarrow> ctx_id set" where
  "known s = fst ` set (rr_store s)"

lemma known_update [simp]: "current_ok s \<Longrightarrow> known (update_current f s) = known s"
  "current_ok s \<Longrightarrow> known (blind s) = known s"
  by (auto simp: known_def update_current_def blind_def set_ctx_def dom_update current_ok_def)

lemma known_switch [simp]: "current_ok s \<Longrightarrow> known (switch_ctx tool s) = known s"
proof -
  assume c: "current_ok s"
  then have "current_ok (s\<lparr>rr_last := None, rr_tamper := True, rr_tampered := True, rr_recording := False, rr_active := False\<rparr>)"
    by (simp add: current_ok_def)
  from known_update(2) [OF this] show ?thesis
    by (simp add: switch_ctx_def mark_tampered_def Let_def) (simp add: known_def)
qed

lemma known_pop [simp]: "known (pop_ctx s) = known s"
  by (simp add: known_def pop_ctx_def split: list.splits)

lemma known_audit: "good s \<Longrightarrow> known (handle_audit ck event frames main s) = known s"
proof (induction ck event frames main s rule: handle_audit.induct)
  case (2 ck path mode flags frames main s)
  have k: "known (s\<lparr>rr_memo := m\<rparr>) = known s" "current_ok (s\<lparr>rr_memo := m\<rparr>)" for m
    using 2 by (simp_all add: known_def good_def current_ok_def)
  have n: "known (note_key key frames main t) = known t" "current_ok (note_key key frames main t) = current_ok t" for key t
    by (simp_all add: known_def current_ok_def)
  show ?case using k n by (auto simp: Let_def split: prod.splits option.splits)
next
  case (4 ck popen executable argv cwd frames main s)
  then have "current_ok (blind s)" by (simp add: good_blind [unfolded good_def] good_def)
  then show ?case using 4 by (auto simp: good_def split: option.splits)
qed (auto simp: good_def split: option.splits)

lemma known_py_start: "good s \<Longrightarrow> known (py_start ck code frames main s) = known s"
proof -
  assume g: "good s"
  have "known (t\<lparr>rr_last := k\<rparr>) = known t" "current_ok (t\<lparr>rr_last := k\<rparr>) = current_ok t" for t k
    by (simp_all add: known_def current_ok_def)
  moreover have "known (note_key key frames main s) = known s" "current_ok (note_key key frames main s)" for key
    using g by (simp_all add: known_def good_def current_ok_def)
  ultimately show ?thesis by (simp add: py_start_def Let_def split: option.splits)
qed

text \<open>A context created while not recording is opaque.\<close>

lemma new_contexts:
  assumes "good s" "i \<in> known (handle e s)" "i \<notin> known s" "\<not> rr_recording (handle e s) \<or> rr_tampered (handle e s)"
  shows "xc_opaque (ctx_of (handle e s) i)"
proof (cases e)
  case (Enter_test nodeid tool)
  define t where "t = switch_ctx tool s"
  define u where "u = set_ctx (Test_ctx (rr_next t)) (fresh_ctx t)
      (t\<lparr>rr_stack := rr_current t # rr_stack t, rr_current := Test_ctx (rr_next t), rr_test := Some (Test_ctx (rr_next t)),
         rr_next := Suc (rr_next t)\<rparr>)"
  have ne: "nodeid \<noteq> []" using assms(2,3) Enter_test by (auto simp: enter_test_def)
  have h: "rr_store (handle e s) = rr_store u" "rr_recording (handle e s) = rr_recording t"
    "rr_tampered (handle e s) = rr_tampered t"
    using Enter_test ne by (simp_all add: enter_test_def Let_def t_def u_def set_ctx_def)
  have kt: "known t = known s" unfolding t_def using assms(1) by (simp add: good_def)
  have "known u = insert (Test_ctx (rr_next t)) (known t)" by (auto simp: u_def known_def set_ctx_def dom_update)
  moreover have "i \<in> known u" using assms(2) h(1) by (simp add: known_def)
  ultimately have i: "i = Test_ctx (rr_next t)" using assms(3) kt by auto
  have "ctx_of (handle e s) i = fresh_ctx t" by (simp add: ctx_of_def h(1) u_def i set_ctx_def update_conv')
  then show ?thesis using assms(4) h(2,3) by (auto simp: fresh_ctx_def new_ctx_def)
next
  case (Enter_fixture key tool)
  define t where "t = switch_ctx tool s"
  have kt: "known t = known s" unfolding t_def using assms(1) by (simp add: good_def)
  have new: "map_of (rr_store t) (Fixture_ctx key) = None \<and> i = Fixture_ctx key"
  proof (cases "map_of (rr_store t) (Fixture_ctx key)")
    case None
    then have "known (handle e s) = insert (Fixture_ctx key) (known t)"
      using Enter_fixture by (auto simp: enter_fixture_def Let_def t_def known_def set_ctx_def dom_update)
    then show ?thesis using assms(2,3) kt None by auto
  next
    case (Some c)
    then have "known (handle e s) = known t" using Enter_fixture by (simp add: enter_fixture_def Let_def t_def known_def)
    then show ?thesis using assms(2,3) kt by auto
  qed
  then have "ctx_of (handle e s) i = fresh_ctx t" "rr_recording (handle e s) = rr_recording t" "rr_tampered (handle e s) = rr_tampered t"
    using Enter_fixture
    by (simp_all add: enter_fixture_def Let_def t_def [symmetric] ctx_of_def set_ctx_def update_conv' fresh_ctx_def)
  then show ?thesis using assms(4) by (auto simp: fresh_ctx_def new_ctx_def)
next
  case (Exit_test keys tool)
  have "known (handle e s) = known s"
  proof -
    have "current_ok (pop_ctx (s\<lparr>rr_open := None, rr_test := None, rr_owners := [], rr_nodes := xs\<rparr>))"
      "known (pop_ctx (s\<lparr>rr_open := None, rr_test := None, rr_owners := [], rr_nodes := xs\<rparr>)) = known s" for xs
      using assms(1) by (auto simp: good_def rec_ok_def current_ok_def pop_ctx_def known_def split: list.splits)
    then show ?thesis using Exit_test by (simp add: exit_test_def Let_def)
  qed
  then show ?thesis using assms(2,3) by simp
next
  case (Exit_fixture tool)
  have "current_ok (pop_ctx s)" using good_pop [OF assms(1)] by (simp add: good_def)
  then have "known (handle e s) = known s" using Exit_fixture by (simp add: exit_fixture_def)
  then show ?thesis using assms(2,3) by simp
next
  case (Activate c)
  then have "known (handle e s) = known s" by (cases c) (simp_all add: activate_def known_def)
  then show ?thesis using assms(2,3) by simp
next
  case (Observe r)
  then have "known (handle e s) = known s" by (simp add: observe_report_def known_def split: option.splits)
  then show ?thesis using assms(2,3) by simp
next
  case (Audits ck event frames main)
  then have "known (handle e s) = known s" using known_audit [OF assms(1)] by (simp add: audit_hook_def)
  then show ?thesis using assms(2,3) by simp
next
  case (Starts_code ck code frames main)
  then have "known (handle e s) = known s" using known_py_start [OF assms(1)] by simp
  then show ?thesis using assms(2,3) by simp
qed (use assms(2,3) in \<open>simp_all add: known_def deactivate_def enter_function_fixture_def exit_function_fixture_def Let_def\<close>)

text \<open>While nothing is recorded and nothing was tampered with, all contexts but the ambient are opaque.\<close>

definition honest :: "recorder \<Rightarrow> bool" where
  "honest s \<longleftrightarrow> (rr_recording s \<longrightarrow> rr_active s) \<and> rr_tampered s = rr_tamper s
     \<and> (\<not> rr_active s \<longrightarrow> \<not> rr_tamper s \<longrightarrow> (\<forall>i\<in>known s. i \<noteq> Ambient \<longrightarrow> xc_opaque (ctx_of s i)))"

lemma handle_honest:
  assumes "good s" "honest s" "e \<noteq> Deactivate"
  shows "honest (handle e s)"
proof -
  let ?s = "handle e s"
  have st: "rec_status ?s \<in> {rec_status s, (False, False, True, True), (True, True, rr_tamper s, rr_tampered s)}"
    by (rule handle_status [OF assms(3)])
  have "xc_opaque (ctx_of ?s i)" if i: "\<not> rr_active ?s" "\<not> rr_tamper ?s" "i \<in> known ?s" "i \<noteq> Ambient" for i
  proof (cases "i \<in> known s")
    case True
    have "\<not> rr_active s" "\<not> rr_tamper s" using st i by (auto simp: rec_status_def)
    then have "xc_opaque (ctx_of s i)" using assms(2) True i(4) by (simp add: honest_def)
    moreover have "ctx_le (ctx_of s i) (ctx_of ?s i)"
      using handle_grows [OF assms(1), of e] True unfolding only_adds_def known_def by blast
    ultimately show ?thesis by (simp add: ctx_le_def)
  next
    case False
    have "\<not> rr_recording ?s" using st i assms(2) by (auto simp: rec_status_def honest_def)
    then show ?thesis using new_contexts [OF assms(1) i(3) False] by simp
  qed
  moreover have "(rr_recording ?s \<longrightarrow> rr_active ?s) \<and> rr_tampered ?s = rr_tamper ?s"
    using st assms(2) by (auto simp: rec_status_def honest_def)
  ultimately show ?thesis by (simp add: honest_def)
qed

lemma session_honest:
  "good s \<Longrightarrow> honest s \<Longrightarrow> \<forall>e\<in>set es. event_ok e \<and> e \<noteq> Deactivate \<Longrightarrow> honest (session es s)"
  by (induction es arbitrary: s) (auto simp: handle_good handle_honest)

lemma new_honest: "honest (new_recorder run_id worker controller)"
  by (simp add: honest_def new_recorder_def known_def)

end
