(* ===== verification/Rec_Trace.thy ===== *)
theory Rec_Trace
  imports Rec_Sound
begin

text \<open>
  Over one test protocol, from entering the test to leaving it, with fixtures set up and left
  in between: whatever runs or is read is filed with the test or with the innermost fixture.
\<close>

section \<open>The protocol of one test\<close>

text \<open>How many fixture set-ups are open after the events; \<open>None\<close>: not the inside of one test.\<close>

fun depth_of :: "nat \<Rightarrow> rec_event list \<Rightarrow> nat option" where
  "depth_of d [] = Some d"
| "depth_of d (Enter_test nodeid tool # es) = None"
| "depth_of d (Exit_test keys tool # es) = None"
| "depth_of d (Deactivate # es) = None"
| "depth_of d (Enter_fixture key tool # es) = depth_of (Suc d) es"
| "depth_of d (Exit_fixture tool # es) = (case d of 0 \<Rightarrow> None | Suc d' \<Rightarrow> depth_of d' es)"
| "depth_of d (e # es) = depth_of d es"

text \<open>The contexts in progress, innermost first.\<close>

definition open_contexts :: "recorder \<Rightarrow> ctx_id list" where
  "open_contexts s = rr_current s # rr_stack s"

definition in_test :: "recorder \<Rightarrow> nat \<Rightarrow> recorder \<Rightarrow> bool" where
  "in_test s0 d s \<longleftrightarrow>
     (\<exists>fs. length fs = d \<and> (\<forall>i\<in>set fs. \<exists>k. i = Fixture_ctx k) \<and> open_contexts s = fs @ open_contexts s0)
     \<and> rr_open s = rr_open s0 \<and> rr_test s = rr_test s0"

lemma in_test_refl [simp]: "in_test s 0 s"
  by (simp add: in_test_def)

text \<open>The part of the state that tells which contexts are in progress.\<close>

definition place :: "recorder \<Rightarrow> ctx_id list \<times> string option \<times> ctx_id option" where
  "place s = (open_contexts s, rr_open s, rr_test s)"

lemma in_test_place: "place s' = place s \<Longrightarrow> in_test s0 d s \<Longrightarrow> in_test s0 d s'"
  by (simp add: place_def in_test_def)

lemma place_update [simp]: "place (update_current f s) = place s" "place (blind s) = place s"
  "place (note_key key frames main s) = place s"
  by (simp_all add: place_def open_contexts_def update_current_def set_ctx_def blind_def)

lemma place_switch [simp]: "place (switch_ctx tool s) = place s"
  by (simp add: switch_ctx_def mark_tampered_def Let_def) (simp add: place_def open_contexts_def)

lemma place_audit: "place (handle_audit ck event frames main s) = place s"
proof (induction ck event frames main s rule: handle_audit.induct)
  case (2 ck path mode flags frames main s)
  have "place (s\<lparr>rr_memo := m\<rparr>) = place s" for m by (simp add: place_def open_contexts_def)
  then show ?case by (auto simp: Let_def split: prod.splits option.splits)
qed (auto split: option.splits)

lemma place_py_start: "place (py_start ck code frames main s) = place s"
proof -
  have "place (t\<lparr>rr_last := k\<rparr>) = place t" for t k by (simp add: place_def open_contexts_def)
  then show ?thesis by (simp add: py_start_def Let_def split: option.splits)
qed

lemma place_enter_fixture:
  "open_contexts (enter_fixture key tool s) = Fixture_ctx key # open_contexts s \<and> rr_open (enter_fixture key tool s) = rr_open s
   \<and> rr_test (enter_fixture key tool s) = rr_test s"
  using place_switch [of tool s]
  by (auto simp: enter_fixture_def Let_def place_def open_contexts_def set_ctx_def split: option.splits)

lemma place_exit_fixture:
  assumes "open_contexts s = i # j # rest"
  shows "open_contexts (exit_fixture tool s) = j # rest \<and> rr_open (exit_fixture tool s) = rr_open s
    \<and> rr_test (exit_fixture tool s) = rr_test s"
  using assms place_switch [of tool "pop_ctx s"]
  by (simp add: exit_fixture_def place_def) (simp add: open_contexts_def pop_ctx_def)

lemma handle_depth:
  assumes "depth_of d (e # es) = Some d'" "in_test s0 d s"
  shows "\<exists>d1. depth_of d1 es = Some d' \<and> in_test s0 d1 (handle e s)"
proof (cases e)
  case (Enter_fixture key tool)
  obtain fs where fs: "length fs = d" "\<forall>i\<in>set fs. \<exists>k. i = Fixture_ctx k" "open_contexts s = fs @ open_contexts s0"
    using assms(2) by (auto simp: in_test_def)
  have "in_test s0 (Suc d) (handle e s)"
    unfolding in_test_def using fs assms(2) place_enter_fixture [of key tool s] Enter_fixture
    by (cases key) (auto simp: in_test_def intro!: exI [of _ "Fixture_ctx key # fs"])
  then show ?thesis using assms(1) Enter_fixture by auto
next
  case (Exit_fixture tool)
  then obtain d1 where d: "d = Suc d1" "depth_of d1 es = Some d'" using assms(1) by (auto split: nat.splits)
  obtain fs where fs: "length fs = d" "\<forall>i\<in>set fs. \<exists>k. i = Fixture_ctx k" "open_contexts s = fs @ open_contexts s0"
    using assms(2) by (auto simp: in_test_def)
  obtain f fs' where f: "fs = f # fs'" using fs(1) d by (cases fs) auto
  obtain j rest where j: "fs' @ open_contexts s0 = j # rest" by (cases fs') (auto simp: open_contexts_def)
  have "in_test s0 d1 (handle e s)"
    unfolding in_test_def using fs d f j assms(2) place_exit_fixture [of s f j rest tool] Exit_fixture
    by (auto simp: in_test_def intro!: exI [of _ fs'])
  then show ?thesis using d(2) by blast
next
  case (Activate c)
  have "place (handle e s) = place s" using Activate by (cases c) (simp_all add: activate_def place_def open_contexts_def)
  then show ?thesis using assms in_test_place Activate by fastforce
next
  case (Observe r)
  have "place (handle e s) = place s"
    using Observe by (simp add: observe_report_def place_def open_contexts_def split: option.splits)
  then show ?thesis using assms in_test_place Observe by fastforce
next
  case (Starts_code ck code frames main)
  then show ?thesis using assms in_test_place [OF place_py_start] by fastforce
next
  case (Audits ck event frames main)
  have "place (handle e s) = place s" using Audits by (simp add: audit_hook_def place_audit)
  then show ?thesis using assms in_test_place Audits by fastforce
qed (use assms in \<open>auto simp: in_test_def open_contexts_def enter_function_fixture_def exit_function_fixture_def Let_def\<close>)

lemma session_depth:
  "depth_of d es = Some d' \<Longrightarrow> in_test s0 d s \<Longrightarrow> in_test s0 d' (session es s)"
proof (induction es arbitrary: d s)
  case (Cons e es)
  then show ?case using handle_depth by (metis session_Cons)
qed simp

lemma depth_of_append:
  "depth_of d (a @ b) = Some d' \<Longrightarrow> \<exists>d1. depth_of d a = Some d1 \<and> depth_of d1 b = Some d'"
proof (induction d a rule: depth_of.induct)
  case (6 d tool es)
  then show ?case by (cases d) auto
qed auto

lemma depth_no_deactivate: "depth_of d es = Some d' \<Longrightarrow> Deactivate \<notin> set es"
proof (induction d es rule: depth_of.induct)
  case (6 d tool es)
  then show ?case by (cases d) auto
qed auto

section \<open>Evidence\<close>

text \<open>The function, module body or data file that an event shows to be used.\<close>

fun sees :: "rec_event \<Rightarrow> recorder \<Rightarrow> state_key option" where
  "sees (Starts_code ck code frames main) s = map_option entry_key (resolve_code ck code)"
| "sees (Audits ck (Opens path mode flags) frames main) s =
     (if pure_write mode flags \<or> opens_directory ck flags \<or> dir_fd_relative ck path mode then None
      else map_option Read_data (fst (resolve_data ck path (rr_memo s))))"
| "sees _ s = None"

lemma ctx_of_update: "ctx_of (update_current f s) i = (if i = rr_current s then f (ctx_of s i) else ctx_of s i)"
  by (simp add: update_current_def ctx_of_set)

lemma sees_covered:
  assumes "sees e s = Some key" "rr_active s" "\<not> rr_tampered s"
  shows "covered key (ctx_of (handle e s) (rr_current s))"
proof -
  from assms(1) consider
      (code) ck code frames main where "e = Starts_code ck code frames main"
    | (data) ck path mode flags frames main where "e = Audits ck (Opens path mode flags) frames main"
    by (cases "(e, s)" rule: sees.cases) auto
  then show ?thesis
  proof cases
    case code
    then obtain x where x: "resolve_code ck code = Some x" "key = entry_key x" using assms(1) by auto
    have "ctx_of (t\<lparr>rr_last := k\<rparr>) i = ctx_of t i" for t k i by (simp add: ctx_of_def)
    then show ?thesis using code assms(2,3) x by (simp add: py_start_def Let_def ctx_of_update)
  next
    case data
    let ?skip = "pure_write mode flags \<or> opens_directory ck flags \<or> dir_fd_relative ck path mode"
    have skip: "\<not> ?skip" using assms(1) data by (auto split: if_splits)
    obtain out memo where r: "resolve_data ck path (rr_memo s) = (out, memo)" by fastforce
    obtain rel where rel: "out = Some rel" "key = Read_data rel" using assms(1) data skip r by auto
    show ?thesis using data assms(2,3) skip
      by (simp add: audit_hook_def r rel Let_def ctx_of_update)
  qed
qed

section \<open>Nothing that runs is lost\<close>

lemma only_adds_ctx:
  assumes "only_adds s s'" "i \<in> known s"
  shows "i \<in> known s'" "ctx_le (ctx_of s i) (ctx_of s' i)"
  using assms unfolding only_adds_def known_def by blast+

lemma only_adds_tamper: "only_adds s s' \<Longrightarrow> rr_tamper s \<Longrightarrow> rr_tamper s'"
  unfolding only_adds_def by blast

lemma enter_test_place:
  assumes "nodeid \<noteq> []"
  shows "\<exists>n. rr_current (enter_test nodeid tool s) = Test_ctx n \<and> rr_test (enter_test nodeid tool s) = Some (Test_ctx n)
    \<and> rr_open (enter_test nodeid tool s) = Some nodeid"
    "\<exists>n. map_of (rr_nodes (enter_test nodeid tool s)) nodeid = Some n"
  using assms by (auto simp: enter_test_def Let_def set_ctx_def update_conv')

lemma exit_test_node:
  assumes "rr_open s = Some nodeid" "map_of (rr_nodes s) nodeid = Some n"
  shows "map_of (rr_nodes (exit_test keys tool s)) nodeid = Some (close_node keys (ctx_of s (rr_current s)) n)"
proof -
  have p: "rr_nodes (switch_ctx tool (pop_ctx t)) = rr_nodes t" for t
    by (simp add: switch_ctx_def mark_tampered_def blind_def update_current_def set_ctx_def pop_ctx_def Let_def
        split: list.splits)
  show ?thesis using assms by (simp add: exit_test_def Let_def p update_conv')
qed

text \<open>
  The state after the events of a test up to its end, and the context that was current when
  one of them was seen.
\<close>

lemma protocol_covered:
  fixes keys :: "fixture_id list" and t1 :: tool_check
  assumes g: "good s" and h: "honest s" and nodeid: "nodeid \<noteq> []"
    and ok: "\<forall>x\<in>set (mid1 @ e # mid2). event_ok x" and depth: "depth_of 0 (mid1 @ e # mid2) = Some 0"
    and sees: "sees e (session (Enter_test nodeid t0 # mid1) s) = Some key"
  defines "s1 \<equiv> session (Enter_test nodeid t0 # mid1) s"
  defines "s' \<equiv> session (Enter_test nodeid t0 # mid1 @ e # mid2 @ [Exit_test keys t1]) s"
  shows "rr_tamper s' \<or>
    (\<exists>n. map_of (rr_nodes s') nodeid = Some n \<and> set keys \<subseteq> set (xn_fixtures n)
       \<and> (case rr_current s1 of
            Fixture_ctx k \<Rightarrow> Fixture_ctx k \<in> known s' \<and> covered key (ctx_of s' (Fixture_ctx k))
          | _ \<Rightarrow> covered key (xn_ctx n)))"
proof -
  define s0 where "s0 = enter_test nodeid t0 s"
  define s2 where "s2 = session mid2 (handle e s1)"
  have s1: "s1 = session mid1 s0" by (simp add: s1_def s0_def)
  have s': "s' = exit_test keys t1 s2" by (simp add: s'_def s2_def s1_def)
  have g0: "good s0" and h0: "honest s0" using g h handle_good [of s "Enter_test nodeid t0"] handle_honest [of s "Enter_test nodeid t0"]
    by (simp_all add: s0_def)
  obtain d where d: "depth_of 0 mid1 = Some d" "depth_of d (e # mid2) = Some 0" using depth_of_append [OF depth] by blast
  have nd: "Deactivate \<notin> set mid1" "Deactivate \<noteq> e" using depth_no_deactivate [OF d(1)] depth_no_deactivate [OF d(2)] by auto
  have g1: "good s1" unfolding s1 by (rule session_good [OF g0]) (use ok in auto)
  have h1: "honest s1" unfolding s1 by (rule session_honest [OF g0 h0]) (use ok nd in auto)
  have ge: "good (handle e s1)" by (rule handle_good [OF g1]) (use ok in auto)
  have g2: "good s2" unfolding s2_def by (rule session_good [OF ge]) (use ok in auto)
  have p1: "in_test s0 d s1" unfolding s1 by (rule session_depth [OF d(1)]) simp
  obtain d1 where "depth_of d1 mid2 = Some 0" "in_test s0 d1 (handle e s1)" using handle_depth [OF d(2) p1] by blast
  then have p2: "in_test s0 0 s2" unfolding s2_def by (rule session_depth)
  have le2: "only_adds (handle e s1) s2" unfolding s2_def by (rule session_grows [OF ge]) (use ok in auto)
  have le': "only_adds s2 s'" unfolding s' by (rule grows_exit_test)
  have le1: "only_adds s1 (handle e s1)" by (rule handle_grows [OF g1])
  have le0: "only_adds s0 s1" unfolding s1 by (rule session_grows [OF g0]) (use ok in auto)
  have le02: "only_adds s0 s2" using le0 le1 le2 only_adds_trans by blast
  obtain m where m: "rr_current s0 = Test_ctx m" "rr_open s0 = Some nodeid" using enter_test_place(1) [OF nodeid] by (auto simp: s0_def)
  obtain n0 where "map_of (rr_nodes s0) nodeid = Some n0" using enter_test_place(2) [OF nodeid] by (auto simp: s0_def)
  then obtain n2 where n2: "map_of (rr_nodes s2) nodeid = Some n2" using le02 unfolding only_adds_def by blast
  have open2: "rr_open s2 = Some nodeid" "rr_current s2 = Test_ctx m"
    using p2 m by (auto simp: in_test_def open_contexts_def)
  let ?n = "close_node keys (ctx_of s2 (Test_ctx m)) n2"
  have n': "map_of (rr_nodes s') nodeid = Some ?n" unfolding s' using exit_test_node [OF open2(1) n2] open2(2) by simp
  have ctx_n: "ctx_le (ctx_of s2 (Test_ctx m)) (xn_ctx ?n)" "set keys \<subseteq> set (xn_fixtures ?n)" by (auto simp: close_node_def)
  let ?c = "rr_current s1"
  have c: "?c \<in> known s1" using g1 by (simp add: good_def current_ok_def known_def)
  have test_or_fixture: "?c = Test_ctx m \<or> (\<exists>k. ?c = Fixture_ctx k)"
  proof -
    obtain fs where fs: "\<forall>i\<in>set fs. \<exists>k. i = Fixture_ctx k" "open_contexts s1 = fs @ open_contexts s0"
      using p1 by (auto simp: in_test_def)
    then show ?thesis using m by (cases fs) (auto simp: open_contexts_def)
  qed
  have cov: "rr_tamper s1 \<or> covered key (ctx_of (handle e s1) ?c)"
  proof (cases "rr_active s1")
    case True
    then show ?thesis
      using sees_covered [of e s1 key] sees h1 by (auto simp: s1_def honest_def)
  next
    case False
    have "?c \<noteq> Ambient" using test_or_fixture by auto
    then have "rr_tamper s1 \<or> xc_opaque (ctx_of s1 ?c)" using False h1 c by (auto simp: honest_def)
    moreover have "ctx_le (ctx_of s1 ?c) (ctx_of (handle e s1) ?c)" by (rule only_adds_ctx(2) [OF le1 c])
    ultimately show ?thesis by (auto simp: covered_def ctx_le_def)
  qed
  have c2: "?c \<in> known s2 \<and> ctx_le (ctx_of (handle e s1) ?c) (ctx_of s2 ?c)"
    using only_adds_ctx(1) [OF le1 c] only_adds_ctx [OF le2] by blast
  have tam: "rr_tamper s1 \<Longrightarrow> rr_tamper s'" using only_adds_tamper le1 le2 le' by blast
  show ?thesis
  proof (cases "rr_tamper s1")
    case False
    then have k2: "covered key (ctx_of s2 ?c)" using cov c2 covered_mono by blast
    from test_or_fixture show ?thesis
    proof
      assume "?c = Test_ctx m"
      then show ?thesis using k2 covered_mono [OF ctx_n(1)] n' ctx_n(2) by auto
    next
      assume "\<exists>k. ?c = Fixture_ctx k"
      then obtain k where k: "?c = Fixture_ctx k" by blast
      have "Fixture_ctx k \<in> known s' \<and> ctx_le (ctx_of s2 (Fixture_ctx k)) (ctx_of s' (Fixture_ctx k))"
        using c2 k only_adds_ctx [OF le', of "Fixture_ctx k"] by simp
      then show ?thesis using k2 k covered_mono n' ctx_n(2) by auto
    qed
  qed (use tam in blast)
qed

end
