(* ===== verification/Rec_Roundtrip.thy ===== *)
theory Rec_Roundtrip
  imports Rec_Trace
begin

text \<open>
  The reader accepts what a recorder writes and names the same code: the validated file is
  \<open>written_file\<close>, and its ids stand for the recorded functions, module bodies and data files.
\<close>

section \<open>The file the reader sees\<close>

definition ids_of :: "recorder \<Rightarrow> exec_ctx \<Rightarrow> context_deps" where
  "ids_of s c =
     \<lparr>cd_functions = map int (sort (map (\<lambda>f. position f (function_table s)) (xc_functions c))),
      cd_modules = map int (sort (map (\<lambda>p. position p (path_table s)) (xc_modules c))),
      cd_data = map int (sort (map (\<lambda>p. position p (path_table s)) (xc_data c))), cd_opaque = xc_opaque c\<rparr>"

definition ref_of :: "string \<times> nat \<Rightarrow> state_ref" where
  "ref_of r = (if fst r = ''f'' then Fn (int (snd r)) else if fst r = ''m'' then Mod (int (snd r)) else Dat (int (snd r)))"

definition node_of :: "recorder \<Rightarrow> string \<times> rec_node \<Rightarrow> file_node" where
  "node_of s entry =
     (case entry of (nodeid, n) \<Rightarrow>
        \<lparr>fn_nodeid = nodeid, fn_outcome = (if xn_outcome n \<in> set OUTCOMES then xn_outcome n else ''unknown''),
         fn_fixtures = map int (sort (map (\<lambda>k. position k (fixture_table s))
           (filter (\<lambda>k. k \<in> set (fixture_table s)) (xn_fixtures n)))),
         fn_deps = ids_of s (xn_ctx n)\<rparr>)"

definition written_file :: "recorder \<Rightarrow> int \<times> int \<Rightarrow> deps_file" where
  "written_file s python =
     \<lparr>df_lazy = map (\<lambda>(a, b). (ref_of a, ref_of b)) (sort (edge_refs s)), df_worker = rr_worker s,
      df_recording = rr_recording s, df_workers = rr_workers s, df_overflow = rr_overflow s, df_tamper = rr_tamper s,
      df_paths = path_table s,
      df_functions = map (\<lambda>(rel, q, line). (int (position rel (path_table s)), q)) (function_table s),
      df_ambient = ids_of s (ctx_of s Ambient),
      df_fixtures = map (\<lambda>k. (k, ids_of s (ctx_of s (Fixture_ctx k)))) (fixture_table s),
      df_nodes = map (node_of s) (sort_key fst (rr_nodes s)), df_python = Some python,
      df_inactive = map_option (text_take 200) (rr_inactive s)\<rparr>"

section \<open>Decoding lists\<close>

lemma decode_all_map:
  "(\<And>x. x \<in> set xs \<Longrightarrow> f (g x) = Some (h x)) \<Longrightarrow> decode_all f (map g xs) = Some (map h xs)"
  by (induction xs) auto

lemma check_all_map:
  "(\<And>x. x \<in> set xs \<Longrightarrow> f (g x) = Accepted (h x)) \<Longrightarrow> check_all f (map g xs) = Accepted (map h xs)"
  by (induction xs) auto

lemma json_ids_ints: "\<forall>i\<in>set ids. i < n \<Longrightarrow> json_ids n (Some (json_ints ids)) = Some (map int ids)"
  by (simp add: json_ids_def json_ints_def)
    (rule decode_all_map, simp add: json_id_def in_range_def)

lemma json_texts_map [simp]: "json_texts (JArr (map JStr xs)) = Some xs"
  using decode_all_map [of xs json_text JStr id] by (simp add: json_texts_def)

lemma text_take_idem [simp]: "text_take n (text_take n s) = text_take n s"
  by (induction n s rule: text_take.induct) (auto split: nat.splits)

section \<open>Tables\<close>

definition in_tables :: "recorder \<Rightarrow> exec_ctx \<Rightarrow> bool" where
  "in_tables s c \<longleftrightarrow> set (xc_functions c) \<subseteq> set (function_table s) \<and> set (xc_modules c) \<subseteq> set (path_table s)
     \<and> set (xc_data c) \<subseteq> set (path_table s)"

lemma set_function_table: "set (function_table s) = (\<Union>c\<in>set (contexts_of s). set (xc_functions c))"
  by (simp add: function_table_def)

lemma set_path_table: "set (path_table s) = (\<Union>c\<in>set (contexts_of s). set (ctx_path_list c))"
  by (simp add: path_table_def)

lemma context_in_tables: "c \<in> set (contexts_of s) \<Longrightarrow> in_tables s c"
  by (auto simp: in_tables_def set_function_table set_path_table ctx_path_list_def)

lemma function_path: "(rel, q, line) \<in> set (function_table s) \<Longrightarrow> rel \<in> set (path_table s)"
  by (force simp: set_function_table set_path_table ctx_path_list_def)

lemma fixture_ids_iff: "k \<in> set (fixture_ids m) \<longleftrightarrow> Fixture_ctx k \<in> fst ` set m"
  by (induction m rule: fixture_ids.induct) auto

lemma set_fixture_table: "k \<in> set (fixture_table s) \<longleftrightarrow> Fixture_ctx k \<in> known s"
  by (simp add: fixture_table_def fixture_ids_iff known_def)

lemma context_of_known:
  assumes "good s" "i \<in> known s" "\<And>n. i \<noteq> Test_ctx n"
  shows "ctx_of s i \<in> set (contexts_of s)"
proof -
  obtain c where c: "map_of (rr_store s) i = Some c" using assms(2) by (force simp: known_def dest: weak_map_of_SomeI)
  have "(i, c) \<in> set (rr_store s)" by (rule map_of_SomeD [OF c])
  then have "c \<in> set (contexts_of s)" using assms(3) by (force simp: contexts_of_def)
  then show ?thesis by (simp add: ctx_of_def c)
qed

lemma ambient_known: "good s \<Longrightarrow> Ambient \<in> known s"
  by (simp add: good_def rec_ok_def known_def)

lemma node_context: "(nodeid, n) \<in> set (rr_nodes s) \<Longrightarrow> xn_ctx n \<in> set (contexts_of s)"
  by (force simp: contexts_of_def)

lemma ctx_payload_parsed:
  assumes "in_tables s c" "map_of tbl ''functions'' = map_of (ctx_payload (path_table s) (function_table s) c) ''functions''"
    "map_of tbl ''modules'' = map_of (ctx_payload (path_table s) (function_table s) c) ''modules''"
    "map_of tbl ''data'' = map_of (ctx_payload (path_table s) (function_table s) c) ''data''"
    "map_of tbl ''opaque'' = map_of (ctx_payload (path_table s) (function_table s) c) ''opaque''"
  shows "parse_ctx (JObj tbl) (length (function_table s)) (length (path_table s)) = Some (ids_of s c)"
proof -
  have f: "\<forall>i\<in>set (sort (map (\<lambda>f. position f (function_table s)) (xc_functions c))). i < length (function_table s)"
    using assms(1) position_nth by (fastforce simp: in_tables_def)
  have p: "\<forall>i\<in>set (sort (map (\<lambda>p. position p (path_table s)) (xc_modules c))). i < length (path_table s)"
    "\<forall>i\<in>set (sort (map (\<lambda>p. position p (path_table s)) (xc_data c))). i < length (path_table s)"
    using assms(1) position_nth by (fastforce simp: in_tables_def)+
  show ?thesis
    using json_ids_ints [OF f] json_ids_ints [OF p(1)] json_ids_ints [OF p(2)] assms(2-5)
    by (simp add: parse_ctx_def ctx_payload_def ids_of_def)
qed

lemma fixture_parsed:
  assumes "good s" "k \<in> set (fixture_table s)"
  shows "parse_fixture (length (function_table s)) (length (path_table s)) (fixture_payload s k)
    = Accepted (k, ids_of s (ctx_of s (Fixture_ctx k)))"
proof -
  have k: "Fixture_ctx k \<in> known s" using assms(2) by (simp add: set_fixture_table)
  have scope: "snd (snd k) \<in> set FIXTURE_SCOPES" using assms(1) k unfolding good_def rec_ok_def known_def by blast
  let ?c = "ctx_of s (Fixture_ctx k)"
  have "parse_ctx (fixture_payload s k) (length (function_table s)) (length (path_table s)) = Some (ids_of s ?c)"
    unfolding fixture_payload_def
    by (rule ctx_payload_parsed [OF context_in_tables [OF context_of_known [OF assms(1) k]]]) simp_all
  then show ?thesis using scope by (simp add: parse_fixture_def fixture_payload_def)
qed

lemma node_parsed:
  assumes "good s" "(nodeid, n) \<in> set (rr_nodes s)"
  shows "parse_node (length (function_table s)) (length (path_table s)) (length (fixture_table s)) (node_payload s (nodeid, n))
    = Accepted (node_of s (nodeid, n))"
proof -
  have "map_of (rr_nodes s) nodeid = Some n" using assms by (simp add: good_def rec_ok_def)
  then have ok: "nodeid \<noteq> []" "xn_outcome n \<in> set OUTCOMES" using assms(1) unfolding good_def rec_ok_def by blast+
  have ctx: "parse_ctx (node_payload s (nodeid, n)) (length (function_table s)) (length (path_table s)) = Some (ids_of s (xn_ctx n))"
    unfolding node_payload_def prod.case
    by (rule ctx_payload_parsed [OF context_in_tables [OF node_context [OF assms(2)]]]) simp_all
  have f: "\<forall>i\<in>set (sort (map (\<lambda>k. position k (fixture_table s)) (filter (\<lambda>k. k \<in> set (fixture_table s)) (xn_fixtures n)))).
      i < length (fixture_table s)"
    using position_nth by fastforce
  show ?thesis
    using ok ctx json_ids_ints [OF f] by (simp add: parse_node_def node_payload_def node_of_def)
qed

lemma key_ref_parsed:
  assumes "key_ref (path_table s) (function_table s) k = Some r"
  shows "parse_ref (length (function_table s)) (length (path_table s)) (ref_payload r) = Some (ref_of r)"
    "fst r \<noteq> ''d'' \<Longrightarrow> ref_of r \<noteq> Dat i"
  using assms position_nth
  by (cases k; force simp: index_in_def parse_ref_def ref_payload_def ref_of_def in_range_def split: if_splits)+

lemma edge_parsed:
  assumes "e \<in> set (edge_refs s)"
  shows "parse_edge (length (function_table s)) (length (path_table s)) (edge_payload e) = Some (ref_of (fst e), ref_of (snd e))"
proof -
  obtain owner key a b where e: "e = (a, b)" "key_ref (path_table s) (function_table s) owner = Some a"
    "key_ref (path_table s) (function_table s) key = Some b" "fst a \<noteq> ''d''"
    using assms by (auto simp: edge_refs_def split: option.splits if_splits)
  have "ref_of a \<noteq> Dat i" for i using key_ref_parsed(2) [OF e(2,4)] .
  then show ?thesis
    using key_ref_parsed(1) [OF e(2)] key_ref_parsed(1) [OF e(3)]
    by (simp add: parse_edge_def edge_payload_def e(1) split: state_ref.splits)
qed

lemma lazy_parsed:
  "parse_lazy (Some (JArr (map edge_payload (sort (edge_refs s))))) (length (function_table s)) (length (path_table s))
    = map (\<lambda>(a, b). (ref_of a, ref_of b)) (sort (edge_refs s))"
proof -
  have "decode_all (parse_edge (length (function_table s)) (length (path_table s))) (map edge_payload (sort (edge_refs s)))
      = Some (map (\<lambda>e. (ref_of (fst e), ref_of (snd e))) (sort (edge_refs s)))"
    by (rule decode_all_map) (simp add: edge_parsed)
  then show ?thesis by (simp add: parse_lazy_def case_prod_beta)
qed

section \<open>The reader accepts the file\<close>

definition proper :: "recorder \<Rightarrow> bool" where
  "proper s \<longleftrightarrow> rr_is_controller s = (rr_worker s = None) \<and> rr_worker s \<noteq> Some []"

theorem payload_parsed:
  assumes g: "good s" and p: "proper s" and py: "0 \<le> fst python" "0 \<le> snd python"
  shows "parse_file (payload s pid python) pid (rr_run_id s) = Accepted (written_file s python)"
proof -
  let ?nf = "length (function_table s)" and ?np = "length (path_table s)" and ?nx = "length (fixture_table s)"
  have funcs: "decode_all (parse_function ?np)
      (map (\<lambda>(rel, q, line). JArr [JInt (int (position rel (path_table s))), JStr q, JInt line]) (function_table s))
      = Some (map (\<lambda>(rel, q, line). (int (position rel (path_table s)), q)) (function_table s))"
  proof (rule decode_all_map)
    fix f assume f: "f \<in> set (function_table s)"
    obtain rel q line where e: "f = (rel, q, line)" by (cases f)
    have "position rel (path_table s) < ?np" using position_nth function_path f e by fast
    then show "parse_function ?np (case f of (rel, q, line) \<Rightarrow> JArr [JInt (int (position rel (path_table s))), JStr q, JInt line])
        = Some (case f of (rel, q, line) \<Rightarrow> (int (position rel (path_table s)), q))"
      by (simp add: e parse_function_def json_id_def in_range_def)
  qed
  have amb: "parse_ctx (JObj (ctx_payload (path_table s) (function_table s) (ctx_of s Ambient))) ?nf ?np
      = Some (ids_of s (ctx_of s Ambient))"
    by (rule ctx_payload_parsed [OF context_in_tables [OF context_of_known [OF g ambient_known [OF g]]]]) simp_all
  have fx: "check_all (parse_fixture ?nf ?np) (map (fixture_payload s) (fixture_table s))
      = Accepted (map (\<lambda>k. (k, ids_of s (ctx_of s (Fixture_ctx k)))) (fixture_table s))"
    by (rule check_all_map) (rule fixture_parsed [OF g])
  have nd: "check_all (parse_node ?nf ?np ?nx) (map (node_payload s) (sort_key fst (rr_nodes s)))
      = Accepted (map (node_of s) (sort_key fst (rr_nodes s)))"
    by (rule check_all_map) (use node_parsed [OF g] in auto)
  have inactive: "parse_inactive (case rr_inactive s of None \<Rightarrow> JNull | Some r \<Rightarrow> JStr (text_take 200 r))
      = map_option (text_take 200) (rr_inactive s)"
    by (cases "rr_inactive s") (simp_all add: parse_inactive_def)
  define tbl where "tbl = payload_head s pid python (rr_overflow s)
      @ [(''paths'', JArr (map JStr (path_table s))),
         (''functions'', JArr (map (\<lambda>(rel, q, line). JArr [JInt (int (position rel (path_table s))), JStr q, JInt line])
            (function_table s))),
         (''ambient'', JObj (ctx_payload (path_table s) (function_table s) (ctx_of s Ambient))),
         (''fixtures'', JArr (map (fixture_payload s) (fixture_table s))),
         (''nodes'', JArr (map (node_payload s) (sort_key fst (rr_nodes s)))),
         (''lazy'', JArr (map edge_payload (sort (edge_refs s))))]"
  have head: "map_of tbl ''format'' = Some (JStr DEPS_FORMAT)" "map_of tbl ''run_id'' = Some (JStr (rr_run_id s))"
    "map_of tbl ''pid'' = Some (JInt pid)" "map_of tbl ''recording'' = Some (JBool (rr_recording s))"
    "map_of tbl ''overflow'' = Some (JBool (rr_overflow s))" "map_of tbl ''tamper'' = Some (JBool (rr_tamper s))"
    "map_of tbl ''workers'' = Some (JArr (map JStr (rr_workers s)))"
    "map_of tbl ''python'' = Some (JArr [JInt (fst python), JInt (snd python)])"
    "map_of tbl ''inactive_reason'' = Some (case rr_inactive s of None \<Rightarrow> JNull | Some r \<Rightarrow> JStr (text_take 200 r))"
    by (simp_all add: tbl_def payload_head_def)
  have tables: "map_of tbl ''paths'' = Some (JArr (map JStr (path_table s)))"
    "map_of tbl ''functions'' = Some (JArr (map (\<lambda>(rel, q, line). JArr [JInt (int (position rel (path_table s))), JStr q, JInt line])
       (function_table s)))"
    "map_of tbl ''ambient'' = Some (JObj (ctx_payload (path_table s) (function_table s) (ctx_of s Ambient)))"
    "map_of tbl ''fixtures'' = Some (JArr (map (fixture_payload s) (fixture_table s)))"
    "map_of tbl ''nodes'' = Some (JArr (map (node_payload s) (sort_key fst (rr_nodes s))))"
    "map_of tbl ''lazy'' = Some (JArr (map edge_payload (sort (edge_refs s))))"
    by (simp_all add: tbl_def payload_head_def)
  have role: "parse_role tbl = Some (rr_worker s)"
    using p by (cases "rr_worker s") (auto simp: parse_role_def tbl_def payload_head_def proper_def)
  have keys: "set DEPS_KEYS \<subseteq> fst ` set tbl" by (simp add: DEPS_KEYS_def tbl_def payload_head_def)
  show ?thesis
    unfolding parse_file_def payload_def tbl_def [symmetric] json.case
    using py by (simp add: keys role head tables funcs amb fx nd lazy_parsed inactive written_file_def parse_python_def)
qed

end
