(* ===== verification/Ingest_Properties.thy ===== *)
theory Ingest_Properties
  imports Ingest_Result
begin

text \<open>
  The properties of reading a run: the merge is exact, the planner resolves exactly what was
  recorded, and a run counts as complete only with one valid file of every expected process.
\<close>

section \<open>The files of a complete run\<close>

lemma complete_flag [simp]:
  "rd_complete (merge_files b notes items) = b" "rd_complete (empty_run notes) = False"
  by (simp_all add: merge_files_def merge_result_def Let_def empty_run_def)












section \<open>The fixtures of a merged run\<close>

definition fixture_entries :: "deps_file list \<Rightarrow> fixture_key \<Rightarrow> (deps_file \<times> context_deps) set" where
  "fixture_entries items key = {(item, c). item \<in> set items \<and> (key, c) \<in> set (df_fixtures item)}"

definition used_fixtures :: "deps_file list \<Rightarrow> string \<Rightarrow> fixture_key set" where
  "used_fixtures items nodeid =
     (\<Union>(item, e)\<in>test_entries items nodeid. (\<lambda>i. fst (df_fixtures item ! nat i)) ` set (fn_fixtures e))"

text \<open>The fixtures as a snapshot of the run keeps them.\<close>

definition run_fixtures :: "string \<Rightarrow> run_dependencies \<Rightarrow> (int \<times> fixture_record) list" where
  "run_fixtures run_id r =
     map (\<lambda>(i, deps). (i, \<lparr>fx_fixture = i, fx_run_id = run_id, fx_deps = deps\<rparr>)) (rd_fixtures r)"

lemma merged_fixture:
  assumes ok: "\<forall>item\<in>set items. file_ok item"
    and i: "in_range (length (ms_keys (fold merge_file items empty_merge))) i"
  shows "\<exists>d. map_of (ms_fixtures (fold merge_file items empty_merge)) i = Some d
    \<and> ctx_matches (fold merge_file items empty_merge) False
        (fixture_entries items (ms_keys (fold merge_file items empty_merge) ! nat i)) d"
proof -
  let ?st = "fold merge_file items empty_merge"
  have m: "fixtures_match ?st (en_fixtures (entries_of (set items)))"
    using merged_matches [OF ok] by (simp add: state_matches_def)
  have e: "(\<lambda>(item, key, c). (item, c)) ` {(item, key, c) \<in> en_fixtures (entries_of (set items)). key = k}
      = fixture_entries items k" for k
    by (cases k) (auto simp: entries_of_def fixture_entries_def image_iff)
  obtain d where d: "map_of (ms_fixtures ?st) i = Some d" using m i unfolding fixtures_match_def by blast
  moreover have "ctx_matches ?st False (fixture_entries items (ms_keys ?st ! nat i)) d"
    using m d unfolding fixtures_match_def e by blast
  ultimately show ?thesis by blast
qed

lemma recorded_fixture_entries: "recorded_fixture items key = (\<Union>(item, c)\<in>fixture_entries items key. file_name item ` ctx_refs c)"
  by (auto simp: recorded_fixture_def fixture_entries_def)

lemma fixture_paths_names:
  assumes "\<forall>i\<in>set fids. \<exists>r sets. map_of fixtures i = Some r \<and> own_paths voc lenient (fx_deps r) = Some sets \<and> path_names sets = g i"
  shows "\<exists>sets. fixture_paths voc fixtures lenient fids acc = Some sets \<and> path_names sets = path_names acc \<union> \<Union> (g ` set fids)"
  using assms
proof (induction fids arbitrary: acc)
  case (Cons i fids)
  then obtain r sets where "map_of fixtures i = Some r" "own_paths voc lenient (fx_deps r) = Some sets" "path_names sets = g i"
    by auto
  then show ?case using Cons.IH [of "join_sets acc sets"] Cons.prems by (simp add: Un_ac)
qed simp

lemma run_fixtures_lookup:
  "map_of (run_fixtures run_id r) i =
     map_option (\<lambda>d. \<lparr>fx_fixture = i, fx_run_id = run_id, fx_deps = d\<rparr>) (map_of (rd_fixtures r) i)"
proof -
  have "map_of (map (\<lambda>(i, deps). (i, f i deps)) xs) i = map_option (f i) (map_of xs i)" for f :: "int \<Rightarrow> context_deps \<Rightarrow> 'b" and xs
    by (induction xs) auto
  then show ?thesis by (simp add: run_fixtures_def)
qed

text \<open>A fixture of the merged run resolves to what was recorded for its key.\<close>

lemma merged_fixture_paths:
  assumes ok: "\<forall>item\<in>set items. file_ok item"
    and i: "in_range (length (ms_keys (fold merge_file items empty_merge))) i"
  shows "\<exists>r sets. map_of (run_fixtures run_id (merge_files whole notes items)) i = Some r
    \<and> own_paths (voc_of (fold merge_file items empty_merge)) False (fx_deps r) = Some sets
    \<and> path_names sets = with_owned items (recorded_fixture items (ms_keys (fold merge_file items empty_merge) ! nat i))
    \<and> (cd_opaque (fx_deps r) \<longleftrightarrow>
        (\<exists>(item, c)\<in>fixture_entries items (ms_keys (fold merge_file items empty_merge) ! nat i). opaque_in item c))"
proof -
  let ?st = "fold merge_file items empty_merge"
  let ?key = "ms_keys ?st ! nat i"
  note m = merged_matches [OF ok] and own = owners_run_code [OF merged_matches [OF ok] ok]
  obtain d where d: "map_of (ms_fixtures ?st) i = Some d" "ctx_matches ?st False (fixture_entries items ?key) d"
    using merged_fixture [OF ok i] by blast
  have names: "name_of ?st ` ctx_refs d = recorded_fixture items ?key"
    using d(2) by (simp add: ctx_matches_def recorded_fixture_entries)
  have "\<forall>r\<in>ctx_refs d. ref_ok ?st r" using d(2) by (simp add: ctx_matches_def)
  from with_lazy_names [OF m own this, of False]
  obtain sets where "own_paths (voc_of ?st) False (with_lazy (ms_lazy ?st) d) = Some sets"
    "path_names sets = with_owned items (recorded_fixture items ?key)"
    by (auto simp: names)
  then show ?thesis
    using d ctx_refs_with_lazy(2) [OF own] by (cases sets) (simp add: run_fixtures_lookup merged_fixtures ctx_matches_def)
qed

section \<open>The merged tests\<close>

text \<open>
  C5. Merging is exact: a test is in the merged run exactly when some file has an entry for it,
  and then the planner, resolving its context strictly, gets precisely the functions, modules
  and data files that some entry of the test named, together with all state built lazily under
  them over any number of ownership edges of any process; the context is opaque exactly when an
  entry was opaque, its file tampered with or one of its paths hostile, or the node id is
  unsafe; and the outcome is the worst one recorded.
\<close>

theorem merged_test_exact:
  assumes "\<forall>item\<in>set items. \<exists>payload pid run_id. parse_file payload pid run_id = Accepted item"
  shows "case map_of (rd_nodes (merge_files whole said items)) nodeid of
      None \<Rightarrow> test_entries items nodeid = {}
    | Some n \<Rightarrow>
        (\<exists>sets. own_paths (rd_vocabulary (merge_files whole said items)) False (rn_deps n) = Some sets
           \<and> path_names sets = with_owned items (recorded items nodeid))
        \<and> (cd_opaque (rn_deps n) \<longleftrightarrow>
             \<not> nodeid_safe nodeid \<or> (\<exists>(item, e)\<in>test_entries items nodeid. opaque_in item (fn_deps e)))
        \<and> rn_outcome n \<in> (fn_outcome \<circ> snd) ` test_entries items nodeid
        \<and> (\<forall>(item, e)\<in>test_entries items nodeid. severity (fn_outcome e) \<le> severity (rn_outcome n))"
proof -
  let ?st = "fold merge_file items empty_merge"
  have ok: "\<forall>item\<in>set items. file_ok item" using assms parse_file_ok by blast
  note m = merged_matches [OF ok] and own = owners_run_code [OF merged_matches [OF ok] ok]
  show ?thesis
  proof (cases "map_of (ms_nodes ?st) nodeid")
    case None
    then have "test_entries items nodeid = {}" using merged_absent [OF ok] by blast
    then show ?thesis by (simp add: merged_nodes None)
  next
    case (Some n)
    have n: "rn_nodeid n = nodeid" "node_matches ?st (test_entries items nodeid) n"
      using merged_node [OF ok Some] by auto
    have names: "name_of ?st ` ctx_refs (rn_deps n) = recorded items nodeid"
      using n(2) by (simp add: node_matches_def ctx_matches_def recorded_entries case_prod_beta image_image)
    have "\<forall>r\<in>ctx_refs (rn_deps n). ref_ok ?st r" using n(2) by (simp add: node_matches_def ctx_matches_def)
    from with_lazy_names [OF m own this, of False]
    have "\<exists>sets. own_paths (voc_of ?st) False (with_lazy (ms_lazy ?st) (rn_deps n)) = Some sets
        \<and> path_names sets = with_owned items (recorded items nodeid)"
      by (simp add: names)
    moreover have "cd_opaque (with_lazy (ms_lazy ?st) (rn_deps n)) \<longleftrightarrow>
        \<not> nodeid_safe nodeid \<or> (\<exists>(item, e)\<in>test_entries items nodeid. opaque_in item (fn_deps e))"
      using n ctx_refs_with_lazy(2) [OF own] by (simp add: node_matches_def ctx_matches_def case_prod_beta)
    ultimately show ?thesis
      using n(2) by (simp add: merged_nodes merged_vocabulary Some node_matches_def)
  qed
qed

text \<open>A test of the merged run resolves, with its fixtures, to what the files recorded.\<close>

lemma merged_resolution:
  assumes "\<forall>item\<in>set items. \<exists>payload pid run. parse_file payload pid run = Accepted item"
    and "map_of (rd_nodes (merge_files whole said items)) nodeid = Some n"
  shows "(\<exists>sets.
      context_paths (rd_vocabulary (merge_files whole said items)) (run_fixtures run_id (merge_files whole said items))
        (rn_deps n) (rn_fixtures n) False = Some sets
      \<and> path_names sets = with_owned items (recorded items nodeid)
          \<union> (\<Union>key\<in>used_fixtures items nodeid. with_owned items (recorded_fixture items key)))
    \<and> ((\<exists>i\<in>set (rn_fixtures n). \<exists>r. map_of (run_fixtures run_id (merge_files whole said items)) i = Some r
            \<and> cd_opaque (fx_deps r))
      \<longleftrightarrow> (\<exists>key\<in>used_fixtures items nodeid. \<exists>(item, c)\<in>fixture_entries items key. opaque_in item c))"
proof -
  let ?st = "fold merge_file items empty_merge" and ?r = "merge_files whole said items"
  have ok: "\<forall>item\<in>set items. file_ok item" using assms(1) parse_file_ok by blast
  note m = merged_matches [OF ok] and own = owners_run_code [OF merged_matches [OF ok] ok]
  obtain n0 where n0: "map_of (ms_nodes ?st) nodeid = Some n0" "n = n0\<lparr>rn_deps := with_lazy (ms_lazy ?st) (rn_deps n0)\<rparr>"
    using assms(2) by (auto simp: merged_nodes)
  have nm: "node_matches ?st (test_entries items nodeid) n0" using merged_node [OF ok n0(1)] by simp
  have names: "name_of ?st ` ctx_refs (rn_deps n0) = recorded items nodeid"
    using nm by (simp add: node_matches_def ctx_matches_def recorded_entries case_prod_beta image_image)
  have "\<forall>r\<in>ctx_refs (rn_deps n0). ref_ok ?st r" using nm by (simp add: node_matches_def ctx_matches_def)
  from with_lazy_names [OF m own this, of False]
  obtain sets where s: "own_paths (voc_of ?st) False (rn_deps n) = Some sets"
    "path_names sets = with_owned items (recorded items nodeid)"
    by (auto simp: names n0(2))
  let ?key = "\<lambda>i. ms_keys ?st ! nat i"
  have rng: "\<forall>i\<in>set (rn_fixtures n). in_range (length (ms_keys ?st)) i" using nm n0(2) by (simp add: node_matches_def)
  have used: "?key ` set (rn_fixtures n) = used_fixtures items nodeid"
    using nm n0(2) by (simp add: node_matches_def used_fixtures_def)
  have "\<forall>i\<in>set (rn_fixtures n). \<exists>r sets. map_of (run_fixtures run_id ?r) i = Some r
      \<and> own_paths (voc_of ?st) False (fx_deps r) = Some sets \<and> path_names sets = with_owned items (recorded_fixture items (?key i))"
    using rng merged_fixture_paths [OF ok] by blast
  from fixture_paths_names [OF this, of sets]
  have paths: "\<exists>sets. context_paths (rd_vocabulary ?r) (run_fixtures run_id ?r) (rn_deps n) (rn_fixtures n) False = Some sets
      \<and> path_names sets = with_owned items (recorded items nodeid)
          \<union> (\<Union>key\<in>used_fixtures items nodeid. with_owned items (recorded_fixture items key))"
    by (simp add: context_paths_def merged_vocabulary s used [symmetric] image_image)
  have "(\<exists>r. map_of (run_fixtures run_id ?r) i = Some r \<and> cd_opaque (fx_deps r))
      \<longleftrightarrow> (\<exists>(item, c)\<in>fixture_entries items (?key i). opaque_in item c)" if "i \<in> set (rn_fixtures n)" for i
    using rng that merged_fixture_paths [OF ok, of i run_id whole said] by auto
  then have "(\<exists>i\<in>set (rn_fixtures n). \<exists>r. map_of (run_fixtures run_id ?r) i = Some r \<and> cd_opaque (fx_deps r))
      \<longleftrightarrow> (\<exists>key\<in>used_fixtures items nodeid. \<exists>(item, c)\<in>fixture_entries items key. opaque_in item c)"
    unfolding used [symmetric] by auto
  with paths show ?thesis by blast
qed

text \<open>
  C7. The planner finds everything a test depends on: over a snapshot of the merged run, the
  strict resolution of a test's own context and of all fixtures it shares, in which any unknown
  id or missing fixture is a failure, succeeds for every test, and yields exactly what the
  entries of the test and of its fixtures named in whatever file, with the state built lazily
  under them; and a fixture of the test is opaque exactly when some process recorded it so.
\<close>

theorem merged_run_resolves:
  assumes "\<forall>item\<in>set items. \<exists>payload pid run. parse_file payload pid run = Accepted item"
    and "map_of (rd_nodes (merge_files whole said items)) nodeid = Some n"
  shows "(\<exists>sets.
      context_paths (rd_vocabulary (merge_files whole said items)) (run_fixtures run_id (merge_files whole said items))
        (rn_deps n) (rn_fixtures n) False = Some sets
      \<and> path_names sets = with_owned items (recorded items nodeid)
          \<union> (\<Union>key\<in>used_fixtures items nodeid. with_owned items (recorded_fixture items key)))
    \<and> ((\<exists>i\<in>set (rn_fixtures n). \<exists>r. map_of (run_fixtures run_id (merge_files whole said items)) i = Some r
            \<and> cd_opaque (fx_deps r))
      \<longleftrightarrow> (\<exists>key\<in>used_fixtures items nodeid. \<exists>(item, c)\<in>fixture_entries items key. opaque_in item c))"
  using assms by (rule merged_resolution)

section \<open>An example run\<close>

definition example_ctx :: "int list \<Rightarrow> int list \<Rightarrow> (string \<times> json) list" where
  "example_ctx funcs mods =
     [(''functions'', JArr (map JInt funcs)), (''modules'', JArr (map JInt mods)), (''data'', JArr []), (''opaque'', JBool False)]"

definition example_payload :: "int \<Rightarrow> json \<Rightarrow> string \<Rightarrow> string list \<Rightarrow> json list \<Rightarrow> json list \<Rightarrow> json" where
  "example_payload pid worker role workers fixtures nodes =
     JObj [(''format'', JStr DEPS_FORMAT), (''run_id'', JStr ''r1''), (''role'', JStr role), (''worker_id'', worker),
       (''pid'', JInt pid), (''python'', JArr [JInt 3, JInt 12]), (''recording'', JBool True), (''inactive_reason'', JNull),
       (''workers'', JArr (map JStr workers)), (''overflow'', JBool False), (''tamper'', JBool False),
       (''paths'', JArr [JStr ''a.py'', JStr ''t.py'']), (''functions'', JArr [JArr [JInt 0, JStr ''f'', JInt 1]]),
       (''ambient'', JObj (example_ctx [] [])), (''fixtures'', JArr fixtures), (''nodes'', JArr nodes),
       (''lazy'', JArr [JArr [JArr [JStr ''m'', JInt 1], JArr [JStr ''f'', JInt 0]]])]"

definition example_controller :: json where
  "example_controller = example_payload 11 JNull ''controller'' [''gw0'', ''gw1''] [] []"

definition example_fixture :: json where
  "example_fixture = JObj ((''key'', JArr [JStr ''t.py'', JStr ''db'', JStr ''session'']) # example_ctx [0] [])"

definition example_entry_node :: json where
  "example_entry_node = JObj ([(''nodeid'', JStr ''t.py::t1''), (''outcome'', JStr ''passed''), (''fixtures'', JArr [JInt 0])] @ example_ctx [] [1])"

definition example_worker :: "int \<Rightarrow> string \<Rightarrow> json list \<Rightarrow> json" where
  "example_worker pid w nodes = example_payload pid (JStr w) ''worker'' [] [example_fixture] nodes"

fun accepted :: "deps_file checked \<Rightarrow> deps_file list" where
  "accepted (Accepted item) = [item]"
| "accepted _ = []"

definition example_items :: "deps_file list" where
  "example_items =
     accepted (parse_file example_controller 11 ''r1'')
     @ accepted (parse_file (example_worker 12 ''gw0'' [example_entry_node]) 12 ''r1'')
     @ accepted (parse_file (example_worker 13 ''gw1'' []) 13 ''r1'')"











text \<open>A controller that lists one id twice passes the count with the file of a single worker.\<close>

lemma duplicate_worker_passes:
  assumes "df_worker c = None" "\<not> df_overflow c" "df_workers c = [w, w]" "df_worker a = Some w" "\<not> df_overflow a"
  shows "run_gap 2 [c, a] = None"
  using assms by (simp add: run_gap_def is_controller_def)


lemma example_items_accepted:
  "\<forall>item\<in>set example_items. \<exists>payload pid run_id. parse_file payload pid run_id = Accepted item"
proof -
  have "\<exists>payload pid run_id. parse_file payload pid run_id = Accepted item"
    if "item \<in> set (accepted (parse_file p i r))" for item p i r
    using that by (cases "parse_file p i r") auto
  then show ?thesis unfolding example_items_def by (metis Un_iff set_append)
qed

lemma example_test: "test_entries example_items ''t.py::t1'' \<noteq> {}"
proof -
  have "list_ex (\<lambda>item. list_ex (\<lambda>e. fn_nodeid e = ''t.py::t1'') (df_nodes item)) example_items" by code_simp
  then show ?thesis by (auto simp: test_entries_def list_ex_iff)
qed

lemma merged_test_exact_witness:
  "\<exists>n sets. map_of (rd_nodes (merge_files True [] example_items)) ''t.py::t1'' = Some n
     \<and> own_paths (rd_vocabulary (merge_files True [] example_items)) False (rn_deps n) = Some sets
     \<and> path_names sets = with_owned example_items (recorded example_items ''t.py::t1'')"
  using merged_test_exact [OF example_items_accepted, where whole = True and said = "[]" and nodeid = "''t.py::t1''"] example_test
  by (auto split: option.splits)

lemma merged_run_resolves_witness:
  "\<exists>n sets. map_of (rd_nodes (merge_files True [] example_items)) ''t.py::t1'' = Some n
     \<and> context_paths (rd_vocabulary (merge_files True [] example_items))
         (run_fixtures ''r1'' (merge_files True [] example_items)) (rn_deps n) (rn_fixtures n) False = Some sets"
proof -
  have ok: "\<forall>item\<in>set example_items. file_ok item" using example_items_accepted parse_file_ok by blast
  obtain n where "map_of (rd_nodes (merge_files True [] example_items)) ''t.py::t1'' = Some n"
    using merged_absent [OF ok, of "''t.py::t1''"] example_test
    by (cases "map_of (ms_nodes (fold merge_file example_items empty_merge)) ''t.py::t1''") (auto simp: merged_nodes)
  then show ?thesis using merged_run_resolves [OF example_items_accepted, where whole = True and said = "[]" and nodeid = "''t.py::t1''" and run_id = "''r1''"] by blast
qed

end
