(* ===== verification/Rec_Names.thy ===== *)
theory Rec_Names
  imports Rec_Roundtrip Ingest_Properties
begin

text \<open>The names behind the ids of a written file are those the recorder collected.\<close>

definition exec_names :: "exec_ctx \<Rightarrow> ref_name set" where
  "exec_names c =
     (\<lambda>(rel, q, line). Function_name rel q) ` set (xc_functions c) \<union> Module_name ` set (xc_modules c)
     \<union> Data_name ` set (xc_data c)"

fun key_name :: "state_key \<Rightarrow> ref_name" where
  "key_name (Ran_code rel q line) = Function_name rel q"
| "key_name (Ran_body rel) = Module_name rel"
| "key_name (Read_data rel) = Data_name rel"

lemma ctx_has_name: "ctx_has k c \<Longrightarrow> key_name k \<in> exec_names c"
  by (cases k) (force simp: exec_names_def)+

lemma written_path:
  "rel \<in> set (path_table s) \<Longrightarrow> file_path (written_file s python) (int (position rel (path_table s))) = rel"
  by (simp add: file_path_def written_file_def position_nth)

lemma written_function:
  assumes "f \<in> set (function_table s)" "f = (rel, q, line)" "normalize_qualname q = Some q"
  shows "file_function (written_file s python) (int (position f (function_table s))) = (rel, Some q)"
proof -
  have "df_functions (written_file s python) ! position f (function_table s) = (int (position rel (path_table s)), q)"
    using position_nth [OF assms(1)] by (simp add: written_file_def assms(2))
  then show ?thesis
    using assms written_path [OF function_path] by (simp add: file_function_def)
qed

lemma written_names:
  assumes "in_tables s c" "exec_ok c"
  shows "file_name (written_file s python) ` ctx_refs (ids_of s c) = exec_names c"
    and "\<forall>r\<in>ctx_refs (ids_of s c). \<not> hostile (written_file s python) r"
proof -
  let ?w = "written_file s python"
  have refs: "ctx_refs (ids_of s c) = (\<lambda>f. Fn (int (position f (function_table s)))) ` set (xc_functions c)
      \<union> (\<lambda>p. Mod (int (position p (path_table s)))) ` set (xc_modules c)
      \<union> (\<lambda>p. Dat (int (position p (path_table s)))) ` set (xc_data c)"
    by (simp add: ctx_refs_def ids_of_def image_image)
  have f: "file_function ?w (int (position f (function_table s))) = (fst f, Some (fst (snd f))) \<and> code_path (fst f)"
    if "f \<in> set (xc_functions c)" for f
  proof -
    obtain rel q line where e: "f = (rel, q, line)" by (cases f)
    have "function_ok f" "f \<in> set (function_table s)" using that assms by (auto simp: exec_ok_def in_tables_def)
    then show ?thesis using written_function [of f s rel q line python] e by (simp add: function_ok_def)
  qed
  have p: "file_path ?w (int (position p (path_table s))) = p" if "p \<in> set (xc_modules c) \<union> set (xc_data c)" for p
    by (rule written_path) (use that assms(1) in \<open>auto simp: in_tables_def\<close>)
  have ok: "\<forall>m\<in>set (xc_modules c). code_path m" "\<forall>m\<in>set (xc_data c). data_path m"
    using assms(2) by (auto simp: exec_ok_def)
  have "file_name ?w ` (\<lambda>f. Fn (int (position f (function_table s)))) ` set (xc_functions c)
      = (\<lambda>(rel, q, line). Function_name rel q) ` set (xc_functions c)"
    unfolding image_image by (rule image_cong) (use f in \<open>auto split: prod.splits\<close>)
  moreover have "file_name ?w ` (\<lambda>m. Mod (int (position m (path_table s)))) ` set (xc_modules c) = Module_name ` set (xc_modules c)"
    unfolding image_image by (rule image_cong) (use p in auto)
  moreover have "file_name ?w ` (\<lambda>m. Dat (int (position m (path_table s)))) ` set (xc_data c) = Data_name ` set (xc_data c)"
    unfolding image_image by (rule image_cong) (use p in auto)
  ultimately show "file_name ?w ` ctx_refs (ids_of s c) = exec_names c" unfolding refs exec_names_def image_Un by simp
  show "\<forall>r\<in>ctx_refs (ids_of s c). \<not> hostile ?w r"
    unfolding refs using f p ok by (auto simp: ball_Un)
qed

lemma written_opaque:
  assumes "in_tables s c" "exec_ok c"
  shows "opaque_in (written_file s python) (ids_of s c) \<longleftrightarrow> xc_opaque c \<or> rr_tamper s"
  using written_names(2) [OF assms, of python] by (auto simp: opaque_in_def ids_of_def written_file_def)

lemma good_node_ctx:
  assumes "good s" "(nodeid, n) \<in> set (rr_nodes s)"
  shows "in_tables s (xn_ctx n)" "exec_ok (xn_ctx n)" "xn_outcome n \<in> set OUTCOMES"
proof -
  have "map_of (rr_nodes s) nodeid = Some n" using assms by (simp add: good_def rec_ok_def)
  then show "exec_ok (xn_ctx n)" "xn_outcome n \<in> set OUTCOMES" using assms(1) unfolding good_def rec_ok_def by blast+
  show "in_tables s (xn_ctx n)" by (rule context_in_tables [OF node_context [OF assms(2)]])
qed

lemma good_fixture_ctx:
  assumes "good s" "Fixture_ctx k \<in> known s"
  shows "in_tables s (ctx_of s (Fixture_ctx k))" "exec_ok (ctx_of s (Fixture_ctx k))"
  using context_in_tables [OF context_of_known [OF assms]] good_ctx [OF assms(1)] by simp_all

lemma written_nodes: "set (df_nodes (written_file s python)) = node_of s ` set (rr_nodes s)"
  by (simp add: written_file_def)

lemma written_fixtures:
  "set (df_fixtures (written_file s python)) = (\<lambda>k. (k, ids_of s (ctx_of s (Fixture_ctx k)))) ` {k. Fixture_ctx k \<in> known s}"
  by (auto simp: written_file_def set_fixture_table)

text \<open>The fixtures a written test refers to are the recorded ones that have a context.\<close>

lemma written_fixture_keys:
  "(\<lambda>i. fst (df_fixtures (written_file s python) ! nat i)) ` set (fn_fixtures (node_of s (nodeid, n)))
     = {k \<in> set (xn_fixtures n). Fixture_ctx k \<in> known s}"
proof -
  have "fst (df_fixtures (written_file s python) ! position k (fixture_table s)) = k" if "k \<in> set (fixture_table s)" for k
    using position_nth [OF that] by (simp add: written_file_def)
  then have "(\<lambda>k. fst (df_fixtures (written_file s python) ! position k (fixture_table s)))
      ` {k \<in> set (xn_fixtures n). k \<in> set (fixture_table s)} = {k \<in> set (xn_fixtures n). k \<in> set (fixture_table s)}"
    by (force intro: image_cong [THEN trans])
  then show ?thesis by (simp add: node_of_def image_image set_fixture_table)
qed

end
