(* ===== verification/Rec_Properties.thy ===== *)
theory Rec_Properties
  imports Rec_Names
begin

text \<open>
  The properties of the recorder: what it writes is read back, and what runs in a test reaches
  the planner through the file, the merge and the resolution.
\<close>

section \<open>The identity of a recorder\<close>

definition rec_identity :: "recorder \<Rightarrow> string \<times> string option \<times> bool" where
  "rec_identity s = (rr_run_id s, rr_worker s, rr_is_controller s)"

lemma identity_fields [simp]:
  "rec_identity (rr_store_update f1 s) = rec_identity s" "rec_identity (rr_current_update f2 s) = rec_identity s"
  "rec_identity (rr_stack_update f3 s) = rec_identity s" "rec_identity (rr_open_update f4 s) = rec_identity s"
  "rec_identity (rr_test_update f5 s) = rec_identity s" "rec_identity (rr_nodes_update f6 s) = rec_identity s"
  "rec_identity (rr_last_update f7 s) = rec_identity s" "rec_identity (rr_owners_update f8 s) = rec_identity s"
  "rec_identity (rr_memo_update f9 s) = rec_identity s" "rec_identity (rr_next_update f10 s) = rec_identity s"
  "rec_identity (rr_tamper_update f11 s) = rec_identity s" "rec_identity (rr_tampered_update f12 s) = rec_identity s"
  "rec_identity (rr_recording_update f13 s) = rec_identity s" "rec_identity (rr_active_update f14 s) = rec_identity s"
  "rec_identity (rr_tool_update f15 s) = rec_identity s" "rec_identity (rr_inactive_update f16 s) = rec_identity s"
  "rec_identity (rr_deselect_update f17 s) = rec_identity s" "rec_identity (rr_deselected_update f18 s) = rec_identity s"
  "rec_identity (rr_workers_update f19 s) = rec_identity s"
  by (simp_all add: rec_identity_def)

lemma identity_update [simp]: "rec_identity (set_ctx i c s) = rec_identity s" "rec_identity (update_current f s) = rec_identity s"
  "rec_identity (blind s) = rec_identity s" "rec_identity (pop_ctx s) = rec_identity s" "rec_identity (switch_ctx tool s) = rec_identity s"
  by (simp_all add: update_current_def set_ctx_def blind_def pop_ctx_def switch_ctx_def mark_tampered_def Let_def
      split: list.splits)

lemma identity_note [simp]: "rec_identity (note_key key frames main s) = rec_identity s"
  using note_key_frame [of key frames main s] by (auto simp: rec_identity_def)

lemma identity_audit [simp]: "rec_identity (handle_audit ck event frames main s) = rec_identity s"
  by (induction ck event frames main s rule: handle_audit.induct)
    (auto simp: Let_def split: prod.splits option.splits)

lemma handle_identity: "rec_identity (handle e s) = rec_identity s"
proof (cases e)
  case (Activate c)
  then show ?thesis by (cases c) (simp_all add: activate_def)
qed (simp_all add: enter_test_def exit_test_def enter_fixture_def py_start_def audit_hook_def observe_report_def
      exit_fixture_def deactivate_def enter_function_fixture_def exit_function_fixture_def Let_def split: option.splits)

lemma session_identity: "rec_identity (session es s) = rec_identity s"
  by (induction es arbitrary: s) (simp_all add: handle_identity)

definition role_ok :: "string option \<Rightarrow> bool \<Rightarrow> bool" where
  "role_ok worker controller \<longleftrightarrow> controller = (worker = None) \<and> worker \<noteq> Some []"

lemma session_proper:
  assumes "role_ok worker controller"
  shows "proper (session es (new_recorder run_id worker controller))"
    "rr_run_id (session es (new_recorder run_id worker controller)) = run_id"
    "rr_worker (session es (new_recorder run_id worker controller)) = worker"
  using session_identity [of es "new_recorder run_id worker controller"] assms
  by (auto simp: rec_identity_def proper_def role_ok_def new_recorder_def)

section \<open>Files and recorders\<close>

text \<open>
  C33. Round trip from the recorder to the reader: after any sequence of events of a session,
  the document written is accepted for the process and run that wrote it, and it says what the
  recorder collected. It holds the same tests, each with its outcome and the same fixtures, and
  resolves each test and each shared fixture to the same functions, module bodies and data
  files; no recorded path is taken for a hostile one, and a context is read as opaque exactly
  when the recorder marked it so or lost the monitoring tool.
\<close>

theorem recorded_file_roundtrip:
  assumes "\<forall>e\<in>set events. event_ok e" "role_ok worker controller" "0 \<le> fst python" "0 \<le> snd python"
    and "s = session events (new_recorder run_id worker controller)"
  shows "\<exists>item. parse_file (payload s pid python) pid run_id = Accepted item
    \<and> df_worker item = worker \<and> df_recording item = rr_recording s \<and> df_tamper item = rr_tamper s
    \<and> df_overflow item = rr_overflow s \<and> df_workers item = rr_workers s
    \<and> fn_nodeid ` set (df_nodes item) = fst ` set (rr_nodes s)
    \<and> (\<forall>(nodeid, n)\<in>set (rr_nodes s). \<exists>e\<in>set (df_nodes item).
         fn_nodeid e = nodeid \<and> fn_outcome e = xn_outcome n
         \<and> file_name item ` ctx_refs (fn_deps e) = exec_names (xn_ctx n)
         \<and> (opaque_in item (fn_deps e) \<longleftrightarrow> xc_opaque (xn_ctx n) \<or> rr_tamper s)
         \<and> (\<lambda>i. fst (df_fixtures item ! nat i)) ` set (fn_fixtures e) = {k \<in> set (xn_fixtures n). Fixture_ctx k \<in> known s})
    \<and> fst ` set (df_fixtures item) = {k. Fixture_ctx k \<in> known s}
    \<and> (\<forall>(k, c)\<in>set (df_fixtures item).
         file_name item ` ctx_refs c = exec_names (ctx_of s (Fixture_ctx k))
         \<and> (opaque_in item c \<longleftrightarrow> xc_opaque (ctx_of s (Fixture_ctx k)) \<or> rr_tamper s))
    \<and> file_name item ` ctx_refs (df_ambient item) = exec_names (ctx_of s Ambient)"
proof (intro exI conjI)
  let ?w = "written_file s python"
  have g: "good s" unfolding assms(5) by (rule session_good [OF new_good assms(1)])
  note p = session_proper [OF assms(2), of events run_id, folded assms(5)]
  show "parse_file (payload s pid python) pid run_id = Accepted ?w"
    using payload_parsed [OF g p(1) assms(3,4), of pid] p(2) by simp
  show "df_worker ?w = worker" "df_recording ?w = rr_recording s" "df_tamper ?w = rr_tamper s"
    "df_overflow ?w = rr_overflow s" "df_workers ?w = rr_workers s"
    using p(3) by (simp_all add: written_file_def)
  show "fn_nodeid ` set (df_nodes ?w) = fst ` set (rr_nodes s)"
    unfolding written_nodes image_image by (rule image_cong) (auto simp: node_of_def)
  show "\<forall>(nodeid, n)\<in>set (rr_nodes s). \<exists>e\<in>set (df_nodes ?w).
      fn_nodeid e = nodeid \<and> fn_outcome e = xn_outcome n
      \<and> file_name ?w ` ctx_refs (fn_deps e) = exec_names (xn_ctx n)
      \<and> (opaque_in ?w (fn_deps e) \<longleftrightarrow> xc_opaque (xn_ctx n) \<or> rr_tamper s)
      \<and> (\<lambda>i. fst (df_fixtures ?w ! nat i)) ` set (fn_fixtures e) = {k \<in> set (xn_fixtures n). Fixture_ctx k \<in> known s}"
  proof (intro ballI, clarify)
    fix nodeid n assume n: "(nodeid, n) \<in> set (rr_nodes s)"
    note ok = good_node_ctx [OF g n]
    show "\<exists>e\<in>set (df_nodes ?w). fn_nodeid e = nodeid \<and> fn_outcome e = xn_outcome n
        \<and> file_name ?w ` ctx_refs (fn_deps e) = exec_names (xn_ctx n)
        \<and> (opaque_in ?w (fn_deps e) \<longleftrightarrow> xc_opaque (xn_ctx n) \<or> rr_tamper s)
        \<and> (\<lambda>i. fst (df_fixtures ?w ! nat i)) ` set (fn_fixtures e) = {k \<in> set (xn_fixtures n). Fixture_ctx k \<in> known s}"
    proof (rule bexI [of _ "node_of s (nodeid, n)"])
      have d: "fn_deps (node_of s (nodeid, n)) = ids_of s (xn_ctx n)" by (simp add: node_of_def)
      show "fn_nodeid (node_of s (nodeid, n)) = nodeid \<and> fn_outcome (node_of s (nodeid, n)) = xn_outcome n
          \<and> file_name ?w ` ctx_refs (fn_deps (node_of s (nodeid, n))) = exec_names (xn_ctx n)
          \<and> (opaque_in ?w (fn_deps (node_of s (nodeid, n))) \<longleftrightarrow> xc_opaque (xn_ctx n) \<or> rr_tamper s)
          \<and> (\<lambda>i. fst (df_fixtures ?w ! nat i)) ` set (fn_fixtures (node_of s (nodeid, n)))
              = {k \<in> set (xn_fixtures n). Fixture_ctx k \<in> known s}"
        unfolding d written_names(1) [OF ok(1,2)] written_opaque [OF ok(1,2)] written_fixture_keys
        using ok(3) by (simp add: node_of_def)
      show "node_of s (nodeid, n) \<in> set (df_nodes ?w)" using n unfolding written_nodes by blast
    qed
  qed
  show "fst ` set (df_fixtures ?w) = {k. Fixture_ctx k \<in> known s}" unfolding written_fixtures by (simp add: image_image)
  show "\<forall>(k, c)\<in>set (df_fixtures ?w). file_name ?w ` ctx_refs c = exec_names (ctx_of s (Fixture_ctx k))
      \<and> (opaque_in ?w c \<longleftrightarrow> xc_opaque (ctx_of s (Fixture_ctx k)) \<or> rr_tamper s)"
    unfolding written_fixtures
    using written_names(1) [OF good_fixture_ctx [OF g]] written_opaque [OF good_fixture_ctx [OF g]] by auto
  have "in_tables s (ctx_of s Ambient)" by (rule context_in_tables [OF context_of_known [OF g ambient_known [OF g]]]) simp
  from written_names(1) [OF this good_ctx [OF g], of python]
  show "file_name ?w ` ctx_refs (df_ambient ?w) = exec_names (ctx_of s Ambient)" by (simp add: written_file_def)
qed

section \<open>From an execution to the planner\<close>







section \<open>An example session\<close>

text \<open>A test with a session fixture in which a function of the project starts.\<close>

definition example_view :: checkout_view where
  "example_view =
     \<lparr>ck_abs = Some, ck_real = Some, ck_rel = (\<lambda>p. if starts_with ''/r/'' p then Some (drop 3 p) else None),
      ck_rel_prefix = (\<lambda>p. None), ck_isdir = (\<lambda>p. False), ck_isfile = (\<lambda>p. True), ck_exists = (\<lambda>p. True),
      ck_which = (\<lambda>p. None), ck_identifier = (\<lambda>p. True), ck_self = ''/bin/python'', ck_cwd = ''/r'', ck_path = [],
      ck_directory_bit = 65536, ck_forkserver = None\<rparr>"

definition example_code :: code_object where
  "example_code = \<lparr>co_filename = Some ''/r/a.py'', co_qualname = Some ''f.<locals>.g'', co_line = 4, co_is_module = False\<rparr>"

definition example_start :: rec_event where
  "example_start = Starts_code example_view example_code [] True"

definition example_key :: fixture_id where
  "example_key = (''t.py'', ''db'', ''session'')"

definition example_session :: "rec_event list" where
  "example_session = [Enter_fixture example_key Tool_held, example_start, Exit_fixture Tool_held, Exit_test [example_key] Tool_held]"

definition example_recorder :: recorder where
  "example_recorder = session (Enter_test ''t.py::t'' Tool_held # example_session) (session [Activate Claimed] (new_recorder ''r1'' None True))"





lemma example_ok: "\<forall>x\<in>set example_session. event_ok x"
  by (simp add: example_session_def example_start_def example_key_def FIXTURE_SCOPES_def)


lemma recorded_file_roundtrip_witness:
  "\<exists>item. parse_file (payload example_recorder 7 (3, 12)) 7 ''r1'' = Accepted item
     \<and> fn_nodeid ` set (df_nodes item) = fst ` set (rr_nodes example_recorder)"
proof -
  have "example_recorder = session (Activate Claimed # Enter_test ''t.py::t'' Tool_held # example_session) (new_recorder ''r1'' None True)"
    by (simp add: example_recorder_def)
  from recorded_file_roundtrip [OF _ _ _ _ this, of "(3, 12)" 7] show ?thesis
    using example_ok by (force simp: role_ok_def)
qed


end
