(* ===== verification/Spec2Isabelle.thy ===== *)
theory Spec2Isabelle
  imports Sched_Example Sched_Refine Select_Policy Idle_Window Green_Ledger Last_Green Impact_Plan Source_Properties
    Rec_Properties
begin

text \<open>
  A model of the coordinator and of the selection logic of \<^verbatim>\<open>ptest\<close>, a runner that
  admits test runs of many checkouts to one machine and decides which tests a change needs.

  \<^bold>\<open>Parts and theories.\<close> All sources are below \<^verbatim>\<open>src/ptest/\<close>.

  \<^item> \<open>Prelude\<close>: problems (\<^verbatim>\<open>contracts.Problem\<close>), text and TOML values, and
    the lemmas on lists, sums and maps that the other theories share.
  \<^item> \<open>Sched_Data\<close>: the ledger of \<^verbatim>\<open>scheduler.py\<close> as a record of row lists in
    the order of insertion, the requests and answers of \<^verbatim>\<open>contracts.py\<close>, and the world
    \<open>env\<close>: clock, process table, signals, children, file locks and failures are functions of
    a tick that every observation advances, so two readings may differ.
  \<^item> \<open>Sched_Limits\<close>: \<^verbatim>\<open>_cpuset_size\<close>, the cgroup bounds, \<^verbatim>\<open>machine.toml\<close> and
    the refresh of the stored limits.
  \<^item> \<open>Lease_Files\<close>: \<^verbatim>\<open>leases.py\<close> over the file primitives of \<^verbatim>\<open>files.py\<close>.
  \<^item> \<open>Sched_Observe\<close>, \<open>Sched_Recovery\<close>, \<open>Sched_Pass\<close>: the observation of a process
    group, the recovery of every live row (\<^verbatim>\<open>_reconcile_rows\<close>, \<^verbatim>\<open>_recover_boot\<close>) and
    what one pass does to the ledger.
  \<^item> \<open>Sched_Admission\<close>: \<^verbatim>\<open>enqueue\<close>, \<^verbatim>\<open>_grant_queued\<close> and \<^verbatim>\<open>poll\<close>.
  \<^item> \<open>Sched_Finish\<close>, \<open>Sched_Release\<close>, \<open>Sched_Views\<close>: the guard protocol from
    registration to \<^verbatim>\<open>finish\<close>, the operator release and \<^verbatim>\<open>forget_checkouts\<close>, and
    the read-only views.
  \<^item> \<open>Sched_Invariant\<close>, \<open>Sched_System\<close>, \<open>Sched_Evidence\<close>: the ledger invariant and
    its preservation by every operation, the transition system whose steps are whole
    transactions (\<open>step\<close>, \<open>reachable\<close>), and what each operation's success or refusal
    proves about the caller.
  \<^item> \<open>Sched_Refine\<close>: an abstract lock manager and the simulation that every transaction on
    the ledger is a sequence of its steps.
  \<^item> \<open>Sched_Example\<close>: one world and the ledgers of one run through the protocol, on which
    the properties are instantiated.
  \<^item> \<open>Select_Policy\<close>, \<open>Impact_Plan\<close>: \<^verbatim>\<open>selection.py\<close> and \<^verbatim>\<open>impact.py\<close>, the
    choice of tests from a policy, a baseline and the changed paths.
  \<^item> \<open>Monorepo_Routing\<close>, \<open>Last_Green\<close>, \<open>Green_Ledger\<close>: \<^verbatim>\<open>monorepo.py\<close>,
    \<^verbatim>\<open>lastgreen.py\<close> and \<^verbatim>\<open>verified.py\<close>.
  \<^item> \<open>Idle_Window\<close>: \<^verbatim>\<open>stall.py\<close>.
  \<^item> \<open>Dep_Index\<close>, \<open>Dep_Propagate\<close>, \<open>Dep_Plan\<close>, \<open>Dep_Audit\<close>: \<^verbatim>\<open>selection_planner.py\<close>, from the
    difference of two versions of a file over the propagation of changed names to the
    decision and the audit of a full gate; \<open>Dep_Changes\<close>, \<open>Dep_Sound\<close> and
    \<open>Dep_Properties\<close> hold its lemmas, properties and an instance.
  \<^item> \<open>Source_Ast\<close>, \<open>Source_Module\<close>, \<open>Source_Cache\<close>, \<open>Source_Build\<close>, \<open>Source_Resolve\<close>:
    \<^verbatim>\<open>source_index.py\<close>, the index of one file content, its cache bytes, the project index
    with its reverse-import graph, and name resolution; \<open>Source_Scan\<close>, \<open>Source_Facts\<close>,
    \<open>Source_Sound\<close> and \<open>Source_Properties\<close> hold what is proved of them.
  \<^item> \<open>Rec_Audit\<close>, \<open>Rec_State\<close>, \<open>Rec_Payload\<close>: \<^verbatim>\<open>runtime/selection_recorder.py\<close>, what one
    event of the interpreter shows, the recorder of a process as a state machine
    (\<open>handle\<close>, \<open>session\<close>), and the document it writes; \<open>Rec_Facts\<close> has the invariant
    \<open>good\<close>, \<open>Rec_Sound\<close> and \<open>Rec_Trace\<close> that nothing filed is lost over a test protocol,
    \<open>Rec_Roundtrip\<close> and \<open>Rec_Names\<close> that the reader accepts the document and names the
    same code, and \<open>Rec_Properties\<close> the properties.
  \<^item> \<open>Ingest_Format\<close>, \<open>Ingest_Merge\<close>: \<^verbatim>\<open>selection_ingest.py\<close>, the validation of one
    dependency file, the merge of the files of a run into one vocabulary, and when a run
    counts as complete; \<open>Ingest_Facts\<close>, \<open>Ingest_Sound\<close>, \<open>Ingest_Result\<close> and
    \<open>Ingest_Properties\<close> compare the merge with what the files say, by name.

  \<^bold>\<open>How the selection parts meet.\<close> The recorder of every process writes what each test ran;
  the reader validates and merges the files into a vocabulary of ids; the planner resolves
  the ids of a snapshot, compares the recorded versions with the source index of the current
  tree, propagates the changed names and chooses the tests. C35 goes from an event in a test
  to the resolved record, C13 and C23 from a changed definition to the tests that run.

  \<^bold>\<open>State and errors.\<close> A handler takes the ledger, the lease store and a tick and returns a
  \<^typ>\<open>problem\<close> or its answer with the new ledger, store and tick; an exception of the source
  is the \<open>Inl\<close> branch, and the ledger is the one the source leaves after its rollback. In the
  reader of dependency files \<open>Refused\<close> is a refusal and \<open>Raised\<close> an exception; elsewhere
  \<open>None\<close> is the refusal or the exception its definition names.

  \<^bold>\<open>What is shown.\<close> C1--C3 hold in every reachable ledger, whatever the processes, files and
  clocks did in between, C4 of every transaction; C6 and C8 describe admission, C12 that the
  coordinator refines an abstract lock manager. C9 and C10 say on what evidence recovery
  ends a run and that the update after a boot agrees with the recovery of single rows.
  C14--C17 give the authority and the evidence every guarded operation requires, C18 is
  about limits, C40 about leases. C5, C7 and C19 are about reading the files of a run: the
  merge is exact, the planner resolves all of it, and a complete run accounts for every
  process. C33 and C35 are about the recorder: what it writes is read back, and what runs
  in a test reaches the planner. C11, C13, C20, C22 and C38 are about the source index: no
  loaded name and no import escapes it, the cache is transparent, and a changed definition
  runs the tests that import it. C23, C24, C29, C31, C32, C37 and C39 are about the
  test-level planner, C21 and C36 about the file-level ones; C25 and C26 about the ledger
  of verified trees, C27 and C28 the stall detector, C30 routing, C34 the last-green
  reference. The theorems without an id, such as those on retirement, ownership views, the
  round trip of the last-green record and what a consultation misses, complete their parts.

  \<^bold>\<open>Fuel and bounds.\<close> The only loop of the source without a bound of its own is the retry of
  the ancestry walk in \<^verbatim>\<open>_check_nested\<close>: \<open>nested_loop\<close> takes fuel, and C8 shows that a
  clock that advances makes some fuel enough. The walks over a process tree visit at most
  the bound of the source. The propagation of changed names (\<open>prop_loop\<close>) sweeps until
  nothing grows; it is total because every sweep but the last adds a name, class, function
  or test file of a finite universe. The walk along ownership edges (\<open>lazy_loop\<close>) ends
  because every round visits a new state. The other loops recurse on their data or on a
  measure. The caps of the source (contexts, memo, file sizes, notes, pending jobs) are its
  constants.

  \<^bold>\<open>Parameters.\<close> The Python parser and compiler, \<^verbatim>\<open>json\<close>, digests, Git, the file system and
  the operating system are arguments of the definitions that use them; a property that needs
  their documented behaviour (an injective digest, a JSON library that reads what it wrote)
  says so in its hypotheses and has an instance.

  \<^bold>\<open>Not modelled.\<close> The opening and the schema of the SQLite database, its retry loop and the
  readers of older table versions; fixture domains; the texts shown to a person; the
  decoding of TOML and JSON bytes (decoded values are the inputs). Of the source index the
  directory walk, the bounded read of a file and \<^verbatim>\<open>ensure_cached\<close>. Of the reader the
  writer of the deselection binding and the cleanup of the files of a run. Of the recorder
  the claim of the monitoring tool, the arming of code objects, the reading of fixture keys
  off the objects of the runner and the system calls of the writer: an event of the model is
  one the interpreter delivers, one at a time, so what an unarmed code object or a second
  thread inside the hook would lose is outside C35. The runner plugins, the supervising
  process, the history store, the dependency store and everything else listed as such in
  the manifest. Strings are byte strings in UTF-8, floating-point numbers are rational.
\<close>

section \<open>The coordinator as a system\<close>

text \<open>
  C1. Mutual exclusion: in every reachable ledger two different active runs belong to
  different checkouts, neither of them is exclusive, and they share no lock.
\<close>

theorem active_runs_exclude:
  assumes "reachable d" and "a \<in> set (d_jobs d)" and "b \<in> set (d_jobs d)"
    and "job_active a" and "job_active b" and "a \<noteq> b"
  shows "j_checkout_id a \<noteq> j_checkout_id b \<and> \<not> j_exclusive a \<and> \<not> j_exclusive b
    \<and> row_resources d (j_run_id a) \<inter> row_resources d (j_run_id b) = {}"
  using soundD(5)[OF reachable_sound[OF assms(1)], of a b] assms
  by (simp add: active_jobs_def compatible_def)

lemma active_runs_exclude_witness:
  "j_checkout_id (grant_example example_row) \<noteq> j_checkout_id (grant_example other_row)
    \<and> \<not> j_exclusive (grant_example example_row) \<and> \<not> j_exclusive (grant_example other_row)
    \<and> row_resources granted_two (j_run_id (grant_example example_row))
        \<inter> row_resources granted_two (j_run_id (grant_example other_row)) = {}"
  by (rule active_runs_exclude[OF granted_two_reachable]) code_simp+

text \<open>
  C2. Bounds: in every reachable ledger the active runs occupy at most 64 slots, each at
  least one, at most 256 runs are queued, the stored limits are valid, and the sequence
  numbers increase strictly in the order of admission.
\<close>

theorem ledger_bounds:
  assumes "reachable d"
  shows "total_slots d \<le> 64 \<and> int (active_count d) \<le> total_slots d \<and> pending_count d \<le> 256
    \<and> valid_limits (ledger_limits d) \<and> sorted_wrt (<) (map j_sequence (d_jobs d))
    \<and> distinct (map j_run_id (d_jobs d))"
proof -
  note so = reachable_sound[OF assms]
  have "\<forall>j\<in>set (active_jobs d). 1 \<le> j_slots j"
    using soundD(3)[OF so] by (auto simp: active_jobs_def row_ok_def)
  then have "int (length (active_jobs d)) \<le> sum_list (map j_slots (active_jobs d))"
    by (rule length_le_sum_list)
  then show ?thesis
    using soundD[OF so] by (simp add: active_count_def total_slots_def MAX_PENDING_JOBS_def)
qed

lemma ledger_bounds_witness: "total_slots granted_two \<le> 64 \<and> total_slots granted_two = 4"
  using ledger_bounds[OF granted_two_reachable] by (simp, code_simp)

text \<open>
  C3. Life cycle: in every reachable ledger a queued run has neither guard nor grant, an
  active run has a nonce, a generation and a grant time, a granted run has no guard yet, a
  running, draining or finalizing run has one, and no run is in the state CANCELLING.
\<close>

theorem run_life_cycle:
  assumes "reachable d" and "j \<in> set (d_jobs d)"
  shows "(if j_state j = Queued then j_guard j = None \<and> j_nonce j = None \<and> j_generation j = None
          else if job_terminal j then True
          else j_nonce j \<noteq> None \<and> j_generation j \<noteq> None \<and> j_grant_time j \<noteq> None)
    \<and> (case j_state j of
         Granted \<Rightarrow> j_guard j = None
       | Running \<Rightarrow> j_guard j \<noteq> None
       | Draining \<Rightarrow> j_guard j \<noteq> None
       | Finalizing \<Rightarrow> j_guard j \<noteq> None
       | Cancelling \<Rightarrow> False
       | _ \<Rightarrow> True)"
proof -
  have "row_ok j" using soundD(3)[OF reachable_sound[OF assms(1)] assms(2)] .
  then show ?thesis
    by (cases "j_state j") (simp_all add: row_ok_def job_active_def job_terminal_def)
qed

lemma run_life_cycle_witness:
  "j_guard running_row \<noteq> None \<and> j_nonce running_row \<noteq> None"
proof -
  have "running_row \<in> set (d_jobs running_one)" by (simp add: running_one_def with_rows_def)
  moreover have "j_state running_row = Running" by code_simp
  ultimately show ?thesis
    using run_life_cycle[OF running_one_reachable, of running_row] by (simp add: job_terminal_def)
qed

text \<open>
  C4. Only a poll starts a run: a run that is active after a transaction was active before
  it, or the transaction is a poll that granted it while it was queued.
\<close>

theorem only_poll_grants:
  assumes "reachable d" and "step d d'" and "j' \<in> set (d_jobs d')" and "job_active j'"
  shows "(\<exists>j\<in>set (d_jobs d). j_run_id j = j_run_id j' \<and> job_active j)
    \<or> (\<exists>e k s t r s' t'. poll e k d s t = (r, d', s', t') \<and> j_state j' = Granted
         \<and> (\<exists>j\<in>set (d_jobs d). j_run_id j = j_run_id j' \<and> j_state j = Queued))"
  using step_activates[OF assms(2) reachable_sound[OF assms(1)] assms(3,4)] .

lemma only_poll_grants_witness:
  "\<exists>e k s t r s' t'. poll e k queued_two s t = (r, granted_two, s', t')"
proof -
  have "grant_example example_row \<in> set (d_jobs granted_two)" by (simp add: granted_two_def with_rows_def)
  moreover have "job_active (grant_example example_row)" by code_simp
  moreover have "\<not> (\<exists>j\<in>set (d_jobs queued_two). j_run_id j = j_run_id (grant_example example_row) \<and> job_active j)"
    by code_simp
  ultimately show ?thesis
    using only_poll_grants[OF queued_two_reachable step_of_poll[OF example_poll]] by blast
qed

text \<open>
  Finished is final: a run that is released or cancelled stays so over every
  transaction that keeps its row.
\<close>

theorem finished_is_final:
  assumes "reachable d" and "step d d'" and "j \<in> set (d_jobs d)" and "job_terminal j"
    and "j' \<in> set (d_jobs d')" and "j_run_id j' = j_run_id j"
  shows "job_terminal j'"
  using step_keeps_terminal[OF assms(2) reachable_sound[OF assms(1)] assms(3-6)] .

lemma finished_is_final_witness:
  "\<exists>d'. step finished_one d' \<and> (\<forall>j'\<in>set (d_jobs d'). j_run_id j' = example_run \<longrightarrow> job_terminal j')"
proof -
  let ?row = "set_finished example_final (set_finalizing (set_draining running_row))"
  let ?d = "snd (ends (poll (world 100 [example_owner]) \<lparr>t_run_id = example_run, t_sequence = 1\<rparr> finished_one example_store 0))"
  have st: "step finished_one ?d" by (rule step_of_poll) simp
  have row: "?row \<in> set (d_jobs finished_one)" by (simp add: finished_one_def with_rows_def)
  have "job_terminal ?row" "j_run_id ?row = example_run" by code_simp+
  then show ?thesis
    using finished_is_final[OF finished_one_reachable st row] st by metis
qed

text \<open>
  C6. First in, first out: a successful poll recovers the ledger and then grants exactly a
  prefix of the queue, in the order of admission. The rest of the queue is unchanged, its
  head does not fit the machine, and after a grant the machine is within its limits.
\<close>

theorem poll_grants_prefix:
  assumes "poll e k d s t = (Inr answer, d', s', t')" and "reachable d"
  shows "\<exists>d1 n. quiet d d1 \<and> n \<le> length (queued_jobs d1) \<and> grants e (take n (queued_jobs d1)) d1 d'
    \<and> queued_jobs d' = drop n (queued_jobs d1)
    \<and> (queued_jobs d' = [] \<or> \<not> available_for d' (hd (queued_jobs d')))
    \<and> (n = 0 \<or> within_limits d')"
proof -
  obtain d1 clock u v where q: "quiet d d1" and so: "sound d1" and g: "grant_queued e clock d1 u = (d', v)"
    using poll_cases[OF assms(1) reachable_sound[OF assms(2)]] by auto
  obtain n where "n \<le> length (queued_jobs d1)" "grants e (take n (queued_jobs d1)) d1 d'"
    "queued_jobs d' = drop n (queued_jobs d1)" "0 < n \<longrightarrow> within_limits d'"
    and head: "n < length (queued_jobs d1) \<longrightarrow> \<not> available_for d' (queued_jobs d1 ! n)"
    using grant_rows_fifo[OF g[unfolded grant_queued_def] so refl] by blast
  then show ?thesis
    using q by (intro exI[of _ d1] exI[of _ n]) (auto simp: hd_drop_conv_nth hd_conv_nth)
qed

lemma poll_grants_prefix_witness:
  "\<exists>d1 n. quiet queued_two d1 \<and> grants (world 100 [example_owner]) (take n (queued_jobs d1)) d1 granted_two
    \<and> n = length (queued_jobs d1)"
proof -
  let ?e = "world 100 [example_owner]" and ?k = "\<lparr>t_run_id = example_run, t_sequence = 1\<rparr>"
  have "map_sum id as_state (fst (ends (poll ?e ?k queued_two example_store 0))) = Inr Granted" by code_simp
  then obtain answer s' t' where "poll ?e ?k queued_two example_store 0 = (Inr answer, granted_two, s', t')"
    using example_poll by (cases "poll ?e ?k queued_two example_store 0") (auto simp: ends_def map_sum_def split: sum.splits)
  moreover have "queued_jobs granted_two = []" by code_simp
  ultimately show ?thesis
    using poll_grants_prefix[OF _ queued_two_reachable] by fastforce
qed

text \<open>
  A successful enqueue leaves the new run queued behind every other run, under the
  identity, checkout and exclusiveness of its request, and its run id was not in use.
\<close>

theorem enqueue_appends:
  assumes "enqueue e f rq d s t = Some (Inr k, d', s', t')" and "reachable d" and "valid_request rq"
  shows "\<exists>row. find_job d' (r_run_id rq) = Some row \<and> j_state row = Queued
    \<and> j_sequence row = t_sequence k \<and> t_run_id k = r_run_id rq \<and> j_owner row = r_owner rq
    \<and> j_checkout_id row = r_checkout_id rq \<and> j_exclusive row = r_exclusive rq
    \<and> (\<forall>j\<in>set (d_jobs d'). j \<noteq> row \<longrightarrow> j_sequence j < j_sequence row)
    \<and> (\<forall>j\<in>set (d_jobs d). j_run_id j \<noteq> r_run_id rq)"
  using enqueue_waits[OF assms(1) reachable_sound[OF assms(2)] assms(3)] .

lemma enqueue_appends_witness:
  "\<exists>row. find_job queued_two other_run = Some row \<and> j_state row = Queued \<and> j_sequence row = 2
    \<and> (\<forall>j\<in>set (d_jobs queued_two). j \<noteq> row \<longrightarrow> j_sequence j < 2)"
proof -
  obtain out where out: "enqueue (world 100 [example_owner]) 1 other_request queued_one example_store 0 = Some out"
    "ends out = (Inr \<lparr>t_run_id = other_run, t_sequence = 2\<rparr>, queued_two)"
    using other_enqueue by auto
  obtain s' t' where "out = (Inr \<lparr>t_run_id = other_run, t_sequence = 2\<rparr>, queued_two, s', t')"
    by (rule endsE[OF out(2)])
  moreover have "r_run_id other_request = other_run" by code_simp
  ultimately show ?thesis
    using enqueue_appends[OF _ queued_one_reachable example_valid(2), of "world 100 [example_owner]" 1] out(1) by force
qed



section \<open>Recovery\<close>



text \<open>
  C10. A new kernel boot: the set-oriented update that recovers the ledger leaves exactly
  the rows that the read-only view computes one by one, and no run survives it.
\<close>

theorem boot_recovery_as_viewed:
  assumes "recover_boot e clock d t = (Inr d', t')" and "e_boot e t \<noteq> Some (d_boot_id d)"
  shows "d_jobs d' = map (\<lambda>j. boot_transition j clock) (d_jobs d) \<and> (\<forall>j\<in>set (d_jobs d'). job_terminal j)"
proof -
  have "d_jobs d' = map (\<lambda>j. boot_transition j clock) (d_jobs d)"
    using recover_boot_jobs[OF assms(1)] assms(2) by simp
  then show ?thesis by (auto simp: boot_transition_def Let_def job_terminal_def)
qed

lemma boot_recovery_as_viewed_witness:
  "\<exists>d' t'. recover_boot (world 100 []) 20 (running_one\<lparr>d_boot_id := ''earlier''\<rparr>) 0 = (Inr d', t')
    \<and> (\<forall>j\<in>set (d_jobs d'). job_terminal j)"
proof -
  let ?d = "running_one\<lparr>d_boot_id := ''earlier''\<rparr>"
  have ok: "boot_identity (world 100 []) 0 = (Inr ''boot'', 1)" by code_simp
  then obtain d' t' where r: "recover_boot (world 100 []) 20 ?d 0 = (Inr d', t')"
    by (auto simp: recover_boot_def Let_def)
  have "e_boot (world 100 []) 0 \<noteq> Some (d_boot_id ?d)" by (simp add: world_def)
  from boot_recovery_as_viewed[OF r this] show ?thesis using r by blast
qed

section \<open>The life of one run\<close>

text \<open>
  A guard is registered only for the exact grant, while the run is granted, its owner
  is alive under its recorded identity and the guard itself is alive; the run is then running.
\<close>

theorem registration_authenticated:
  assumes "register_guard e g guard d s t = (Inr True, d', s', t')" and "reachable d"
  shows "\<exists>row. find_job d' (g_run_id g) = Some (set_running guard row) \<and> j_state row = Granted
    \<and> matches_grant row g d' \<and> live_identity e (j_owner row) \<and> live_identity e guard"
  using register_guard_true[OF assms(1) reachable_sound[OF assms(2)]] .

lemma registration_authenticated_witness:
  "live_identity (world 100 [example_owner, example_guard]) example_guard"
  by (rule endsE[OF example_register]) (use registration_authenticated[OF _ granted_two_reachable] in blast)

text \<open>Draining starts only by the live registered guard of the running run.\<close>

theorem draining_authenticated:
  assumes "mark_draining e g guard d s t = (Inr True, d', s', t')" and "reachable d"
  shows "\<exists>row. find_job d (g_run_id g) = Some row \<and> j_state row = Running \<and> j_guard row = Some guard
    \<and> matches_grant row g d \<and> live_identity e guard \<and> i_pid guard = e_getpid e \<and> i_pgid guard = i_pid guard
    \<and> find_job d' (g_run_id g) = Some (set_draining row)"
  using mark_draining_true[OF assms(1) reachable_sound[OF assms(2)]] .



text \<open>
  A cancellation succeeds only for the live owner itself, on its own queued run or its
  grant that has no guard yet.
\<close>

theorem cancellation_authenticated:
  assumes "cancel_pending e k owner d s t = (Inr True, d', s', t')" and "reachable d"
  shows "\<exists>row. find_job d (t_run_id k) = Some row \<and> j_sequence row = t_sequence k
    \<and> j_state row \<in> {Queued, Granted} \<and> j_guard row = None \<and> j_owner row = owner
    \<and> i_pid owner = e_getpid e \<and> live_identity e owner
    \<and> find_job d' (t_run_id k) = Some (set_cancelled row)"
  using cancel_pending_true[OF assms(1) reachable_sound[OF assms(2)]] .

lemma cancellation_authenticated_witness:
  "\<exists>row. find_job queued_one example_run = Some row \<and> j_owner row = example_owner \<and> j_guard row = None"
  by (rule endsE[OF example_cancel]) (use cancellation_authenticated[OF _ queued_one_reachable] in force)





text \<open>
  C16. An operator release ends a live run only if its lease lock is not held, and, unless
  it is forced 25 hours after the grant, only on evidence: a free lease lock for a run of
  another namespace, otherwise an owner and guard that were not seen alive and were absent
  or whose lock is free, and an absent process group.
\<close>

theorem release_on_evidence:
  assumes "release_live e force observer clock before row d s t = (Inr out, d', s', t')"
  shows "\<exists>kind sc lock u v. classify_row e observer s (j_run_id row) t = ((kind, sc), u)
    \<and> release_lock e s (j_run_id row) sc u = (lock, v) \<and> lock \<noteq> Held
    \<and> (if force then RELEASE_FORCE_AFTER_S \<le> row_age row clock else release_justified e kind lock row)
    \<and> ro_forced out = force \<and> ro_released out \<and> terminal_state (ro_state out)"
  using release_live_released[OF assms] .

lemma release_on_evidence_witness:
  "\<exists>kind lock. lock \<noteq> Held \<and> release_justified (world 300 []) kind lock running_row"
proof -
  let ?out = "release_live (world 300 []) False ''host'' 20 running_row running_row running_one example_store 0"
  have "\<not> isl (fst ?out)" by code_simp
  then obtain out d' s' t' where "?out = (Inr out, d', s', t')" by (metis prod.collapse sum.collapse(2))
  from release_on_evidence[OF this] show ?thesis by auto
qed

text \<open>
  C17. Forgetting checkouts never loses a live run: it refuses, and changes nothing, while a
  run of one of them is live; otherwise no row of them remains and every run of any other
  checkout is kept.
\<close>

theorem forget_only_finished:
  assumes "forget_checkouts e wanted d s t = (r, d', s', t')" and "reachable d" and "wanted \<noteq> []"
  shows "(\<exists>p. r = Inl p \<and> d' = d)
    \<or> (\<exists>d1. quiet d d1 \<and> (\<forall>j\<in>set (d_jobs d1). j_checkout_id j \<in> set wanted \<longrightarrow> job_terminal j)
         \<and> d_jobs d' = filter (\<lambda>j. j_checkout_id j \<notin> set wanted) (d_jobs d1))"
proof -
  obtain observer t1 where n: "namespace_identity e t = (observer, t1)" by fastforce
  obtain s1 t2 where w: "sweep_leases e d s t1 = (s1, t2)" by fastforce
  obtain recovered t3 where rec: "recover_ledger e observer s1 (e_now e t2) d (Suc t2) = (recovered, t3)" by fastforce
  note run = assms(1) n w rec
  show ?thesis
  proof (cases recovered)
    case (Inl p)
    then show ?thesis using run assms(3) by (auto simp: forget_checkouts_def now_def)
  next
    case (Inr d1)
    have "quiet d d1" using recover_ledger_quiet rec Inr reachable_sound[OF assms(2)] by blast
    then show ?thesis
      using run Inr assms(3)
      by (auto simp: forget_checkouts_def now_def Let_def ledger_simps split: if_splits intro!: exI[of _ d1] filter_cong)
  qed
qed

lemma forget_only_finished_witness:
  "\<exists>d1. quiet finished_one d1 \<and> (\<forall>j\<in>set (d_jobs d1). j_checkout_id j \<in> {''checkout''} \<longrightarrow> job_terminal j)"
proof -
  let ?out = "forget_checkouts (world 100 [example_owner]) [''checkout''] finished_one example_store 0"
  have "\<not> isl (fst ?out)" by code_simp
  moreover obtain r d' s' t' where out: "?out = (r, d', s', t')" by (metis prod.collapse)
  ultimately show ?thesis using forget_only_finished[OF out finished_one_reachable] by auto
qed

section \<open>Limits\<close>



text \<open>
  The size of a CPU set is the number of CPUs in the union of its intervals, however
  they overlap and in whatever order they are listed.
\<close>

theorem cpuset_counts_union:
  assumes "parse_intervals (split_on (CHR '','') value) = Some xs"
  shows "cpuset_size value = Some (int (card (\<Union>i\<in>set xs. {fst i..snd i})))"
  using cpuset_size_card[OF assms] .

lemma cpuset_counts_union_witness:
  "cpuset_size ''8,2-5,0-3'' = Some (int (card ({8..8} \<union> {2..5} \<union> {0..3::int}))) \<and> cpuset_size ''8,2-5,0-3'' = Some 7"
proof
  have "parse_intervals (split_on (CHR '','') ''8,2-5,0-3'') = Some [(8, 8), (2, 5), (0, 3)]" by code_simp
  from cpuset_counts_union[OF this]
  show "cpuset_size ''8,2-5,0-3'' = Some (int (card ({8..8} \<union> {2..5} \<union> {0..3::int})))" by (simp add: Un_assoc)
  show "cpuset_size ''8,2-5,0-3'' = Some 7" by code_simp
qed

text \<open>
  The displayed reason agrees with the admission test: a run fits the machine exactly
  when no blocker is named for it and its slots and its memory charge fit what is left.
\<close>

theorem blocker_agrees_with_admission:
  "available_for d row \<longleftrightarrow>
     row_blocker d row = None \<and> total_slots d + fst (row_charge d row) \<le> d_config_slots d
     \<and> (case d_config_memory d of
          None \<Rightarrow> True
        | Some budget \<Rightarrow> (\<exists>m. snd (snd (row_charge d row)) = Some m \<and> charged_memory d budget + m \<le> budget))"
  unfolding available_for_iff row_blocker_none by (auto simp: active_count_def)

section \<open>Run leases\<close>



end
